(* ===== verification/Js_Prelude.thy ===== *)
theory Js_Prelude
  imports Main "HOL-Library.Word" "HOL-Library.List_Lexorder" "HOL-Library.Char_ord"
    "HOL-Library.Multiset"
begin

text \<open>
  Prelude of the development: the fragment of ECMAScript that the LNSAT packages compute
  with, and the generic facts the component theories share.

  \<^item> \<open>jstr\<close>: a JavaScript string is a list of UTF-16 code units, so lengths, \<open><\<close> and
    \<open>charCodeAt\<close> count what the source counts; \<open>js ''abc''\<close> is a literal.
  \<^item> \<open>jsnum\<close>: a JavaScript number by what the source can observe of it.
  \<^item> \<open>jsval\<close>: a value of type \<open>unknown\<close>. Objects list their own enumerable string keys in
    enumeration order and say whether their prototype is \<open>Object.prototype\<close> or \<open>null\<close>.
    Arrays are dense; getters, proxies and inherited properties are not modelled.
  \<^item> named collections: \<open>js_read\<close> for property reads, \<open>check_ok\<close> for the characterisations
    of a validation step that reports no error, \<open>js_eval\<close> for evaluating models on concrete
    inputs with the simplifier.
\<close>

named_theorems js_read \<open>rewrite rules for reading properties of JavaScript values\<close>
named_theorems check_ok \<open>when a validation step reports nothing\<close>
named_theorems js_eval \<open>definitions unfolded to evaluate a model on a concrete input\<close>

section \<open>Generic lemmas\<close>

lemma concat_map_eq_Nil_iff: "concat (map f xs) = [] \<longleftrightarrow> (\<forall>x \<in> set xs. f x = [])"
  by auto

lemma sort_key_cong_mset:
  assumes "mset xs = mset ys" and "distinct (map f xs)"
  shows "sort_key f xs = sort_key f ys"
proof (rule properties_for_sort_key [symmetric])
  show "mset (sort_key f xs) = mset ys" using assms(1) by simp
  show "sorted (map f (sort_key f xs))" by simp
  have inj: "inj_on f (set xs)" using assms(2) by (simp add: distinct_map)
  have dxs: "distinct xs" using assms(2) by (simp add: distinct_map)
  have dys: "distinct ys" using dxs assms(1) by (metis mset_eq_imp_distinct_iff)
  have sets: "set ys = set xs" using assms(1) by (metis set_mset_mset)
  fix k
  assume k: "k \<in> set (sort_key f xs)"
  have eq: "filter (\<lambda>x. f k = f x) zs = [k]"
    if "distinct zs" "set zs = set xs" for zs
  proof -
    have "set (filter (\<lambda>x. f k = f x) zs) = {k}"
      using inj k that by (auto dest: inj_onD)
    moreover have "distinct (filter (\<lambda>x. f k = f x) zs)" using that by simp
    ultimately show ?thesis
      by (metis distinct.simps(2) empty_set insert_eq_iff list.exhaust list.set_intros(1)
          list.simps(15) singletonD empty_iff)
  qed
  show "filter (\<lambda>x. f k = f x) (sort_key f xs) = filter (\<lambda>x. f k = f x) ys"
    using eq [of "sort_key f xs"] eq [of ys] dxs dys sets by simp
qed

lemma map_of_mset_cong:
  assumes "mset xs = mset ys" and "distinct (map fst xs)"
  shows "map_of xs = map_of ys"
proof -
  have "distinct (map fst ys)"
    using assms by (metis mset_eq_imp_distinct_iff mset_map)
  moreover have "set xs = set ys" using assms(1) by (metis set_mset_mset)
  ultimately show ?thesis using assms(2) by (metis map_of_inject_set)
qed

lemma map_of_map_snd: "map_of (map (\<lambda>(k, v). (k, f v)) xs) k = map_option f (map_of xs k)"
  by (induction xs) auto

lemma map_fst_map_snd [simp]: "map fst (map (\<lambda>(k, v). (k, f v)) xs) = map fst xs"
  by (induction xs) auto

lemma sort_key_fst_map_snd:
  "sort_key fst (map (\<lambda>(k, v). (k, f v)) xs) = map (\<lambda>(k, v). (k, f v)) (sort_key fst xs)"
proof -
  have ins: "insort_key fst (k, f v) (map (\<lambda>(k, v). (k, f v)) ys)
      = map (\<lambda>(k, v). (k, f v)) (insort_key fst (k, v) ys)" for k v ys
    by (induction ys) auto
  show ?thesis by (induction xs) (auto simp: ins)
qed

section \<open>Strings\<close>

type_synonym code_unit = "16 word"
type_synonym jstr = "code_unit list"

text \<open>A string literal of the source (all of them are ASCII).\<close>

definition js :: "string \<Rightarrow> jstr" where
  "js s = map of_char s"

lemma unat_of_char [simp]: "unat (of_char c :: code_unit) = of_char c"
proof -
  have "of_char c < (256::nat)"
    by (metis mod_less_divisor of_char_mod_256 zero_less_numeral)
  then have "of_char c < (2 ^ 16 :: nat)"
    by (rule less_trans) simp
  then have "of_char c mod (2 ^ 16 :: nat) = of_char c"
    by (rule mod_less)
  then have "unat (of_nat (of_char c) :: code_unit) = of_char c"
    by (simp only: unat_of_nat) simp
  then show ?thesis by (simp add: of_nat_of_char)
qed

lemma of_char_code_unit_inject [simp]: "(of_char c :: code_unit) = of_char d \<longleftrightarrow> c = d"
  by (metis of_char_eq_iff unat_of_char)

lemma js_eq_iff [simp]: "js s = js t \<longleftrightarrow> s = t"
  by (simp add: js_def inj_def)

lemma js_Nil [simp]: "js [] = []"
  by (simp add: js_def)

lemma length_js [simp]: "length (js s) = length s"
  by (simp add: js_def)

lemma js_append: "js (s @ t) = js s @ js t"
  by (simp add: js_def)

lemma js_eq_Nil_iff [simp]: "js s = [] \<longleftrightarrow> s = []"
  by (simp add: js_def)

lemma js_less_iff [simp]: "js s < js t \<longleftrightarrow> s < t"
proof (induction s arbitrary: t)
  case Nil
  then show ?case by (cases t) (auto simp: js_def)
next
  case (Cons c s)
  then show ?case
    by (cases t) (auto simp: js_def word_less_nat_alt less_char_def)
qed

lemma js_less_eq_iff [simp]: "js s \<le> js t \<longleftrightarrow> s \<le> t"
  by (auto simp: le_less)

text \<open>\<open>s.startsWith(p)\<close> and \<open>s.includes(x)\<close> for a one-unit \<open>x\<close>.\<close>

definition js_startsWith :: "jstr \<Rightarrow> jstr \<Rightarrow> bool" where
  "js_startsWith s p \<longleftrightarrow> take (length p) s = p"

text \<open>\<open>text.split(u)\<close> for a one-unit separator.\<close>

fun split_unit :: "code_unit \<Rightarrow> jstr \<Rightarrow> jstr list" where
  "split_unit u [] = [[]]"
| "split_unit u (c # s) =
     (if c = u then [] # split_unit u s
      else (case split_unit u s of [] \<Rightarrow> [[c]] | part # parts \<Rightarrow> (c # part) # parts))"

text \<open>Decimal digits, as \<open>Number.prototype.toString\<close> writes a non-negative integer.\<close>

fun nat_digits :: "nat \<Rightarrow> nat list" where
  "nat_digits n = (if n < 10 then [n] else nat_digits (n div 10) @ [n mod 10])"

declare nat_digits.simps [simp del]

definition digit_unit :: "nat \<Rightarrow> code_unit" where
  "digit_unit d = of_nat (48 + d)"

definition show_nat :: "nat \<Rightarrow> jstr" where
  "show_nat n = map digit_unit (nat_digits n)"

definition digits_value :: "nat list \<Rightarrow> nat" where
  "digits_value ds = foldl (\<lambda>n d. 10 * n + d) 0 ds"

lemma digits_value_snoc [simp]: "digits_value (ds @ [d]) = 10 * digits_value ds + d"
  by (simp add: digits_value_def)

lemma nat_digits_bound: "d \<in> set (nat_digits n) \<Longrightarrow> d < 10"
proof (induction n rule: nat_digits.induct)
  case (1 n)
  then show ?case
    by (subst (asm) (2) nat_digits.simps) (auto split: if_splits)
qed

lemma nat_digits_not_Nil [simp]: "nat_digits n \<noteq> []"
  by (subst nat_digits.simps) simp

lemma digits_value_nat_digits [simp]: "digits_value (nat_digits n) = n"
proof (induction n rule: nat_digits.induct)
  case (1 n)
  then show ?case
    by (cases "n < 10") (simp_all add: nat_digits.simps [of n] digits_value_def)
qed

lemma hd_nat_digits: "hd (nat_digits n) = 0 \<longleftrightarrow> n = 0"
proof (induction n rule: nat_digits.induct)
  case (1 n)
  then show ?case
    by (cases "n < 10") (simp_all add: nat_digits.simps [of n])
qed

lemma unat_digit_unit [simp]: "d < 10 \<Longrightarrow> unat (digit_unit d) = 48 + d"
  unfolding digit_unit_def by (simp only: unat_of_nat) simp

section \<open>Numbers\<close>

text \<open>
  A finite number is \<open>NInt i\<close> (an integral value below \<open>10^21\<close>), negative zero, or
  \<open>NFrac neg s n\<close>: sign, and the digits \<open>s\<close> and decimal point position \<open>n\<close> of the shortest
  decimal that reads back as the number (the \<open>s\<close> and \<open>n\<close> of ECMA-262 Number::toString).
  These determine every observation the source makes: \<open>isInteger\<close>, \<open>isSafeInteger\<close>,
  \<open>isFinite\<close>, \<open>Object.is(v, -0)\<close>, comparison with an integer, and the printed text.
\<close>

datatype jsnum = NNaN | NInf bool | NNegZero | NInt int | NFrac bool nat int

definition frac_digits :: "nat \<Rightarrow> int" where
  "frac_digits s = int (length (nat_digits s))"

fun num_isFinite :: "jsnum \<Rightarrow> bool" where
  "num_isFinite NNaN = False"
| "num_isFinite (NInf _) = False"
| "num_isFinite _ = True"

fun num_isInteger :: "jsnum \<Rightarrow> bool" where
  "num_isInteger (NInt _) = True"
| "num_isInteger NNegZero = True"
| "num_isInteger (NFrac _ s n) = (frac_digits s \<le> n)"
| "num_isInteger _ = False"

definition max_safe_integer :: int where
  "max_safe_integer = 9007199254740991"

fun num_isSafeInteger :: "jsnum \<Rightarrow> bool" where
  "num_isSafeInteger (NInt i) = (\<bar>i\<bar> \<le> max_safe_integer)"
| "num_isSafeInteger NNegZero = True"
| "num_isSafeInteger _ = False"

text \<open>\<open>num < i\<close> and \<open>num > i\<close> for an integer literal \<open>i\<close>.\<close>

definition frac_signed :: "bool \<Rightarrow> nat \<Rightarrow> int" where
  "frac_signed neg s = (if neg then - int s else int s)"

fun num_less_int :: "jsnum \<Rightarrow> int \<Rightarrow> bool" where
  "num_less_int NNaN i = False"
| "num_less_int (NInf neg) i = neg"
| "num_less_int NNegZero i = (0 < i)"
| "num_less_int (NInt j) i = (j < i)"
| "num_less_int (NFrac neg s n) i =
     (if frac_digits s \<le> n then frac_signed neg s * 10 ^ nat (n - frac_digits s) < i
      else frac_signed neg s < i * 10 ^ nat (frac_digits s - n))"

fun num_greater_int :: "jsnum \<Rightarrow> int \<Rightarrow> bool" where
  "num_greater_int NNaN i = False"
| "num_greater_int (NInf neg) i = (\<not> neg)"
| "num_greater_int NNegZero i = (i < 0)"
| "num_greater_int (NInt j) i = (i < j)"
| "num_greater_int (NFrac neg s n) i =
     (if frac_digits s \<le> n then i < frac_signed neg s * 10 ^ nat (n - frac_digits s)
      else i * 10 ^ nat (frac_digits s - n) < frac_signed neg s)"

section \<open>Values\<close>

datatype jsval =
    JUndef
  | JNull
  | JBool bool
  | JNum jsnum
  | JStr jstr
  | JArr "jsval list"
  | JObj bool "(jstr \<times> jsval) list"
      \<comment> \<open>plain prototype?, own enumerable string-keyed properties in order\<close>
  | JOther \<comment> \<open>functions, symbols, bigints\<close>

fun js_get :: "jsval \<Rightarrow> jstr \<Rightarrow> jsval" where
  "js_get (JObj p fs) k = (case map_of fs k of Some v \<Rightarrow> v | None \<Rightarrow> JUndef)"
| "js_get _ k = JUndef"

fun js_keys :: "jsval \<Rightarrow> jstr list" where
  "js_keys (JObj p fs) = map fst fs"
| "js_keys _ = []"

definition js_has :: "jsval \<Rightarrow> jstr \<Rightarrow> bool" where
  "js_has v k \<longleftrightarrow> k \<in> set (js_keys v)"

text \<open>\<open>v.name\<close> for a name of the source.\<close>

abbreviation fld :: "jsval \<Rightarrow> string \<Rightarrow> jsval" where
  "fld v name \<equiv> js_get v (js name)"

text \<open>\<open>isPlainObject\<close> with the prototype check, and its variant without.\<close>

fun js_isPlainObject :: "jsval \<Rightarrow> bool" where
  "js_isPlainObject (JObj p fs) = p"
| "js_isPlainObject _ = False"

fun js_isObject :: "jsval \<Rightarrow> bool" where
  "js_isObject (JObj p fs) = True"
| "js_isObject _ = False"

fun js_isString :: "jsval \<Rightarrow> bool" where
  "js_isString (JStr s) = True"
| "js_isString _ = False"

fun js_isBoolean :: "jsval \<Rightarrow> bool" where
  "js_isBoolean (JBool b) = True"
| "js_isBoolean _ = False"

text \<open>Reads through a TypeScript cast (\<open>value as T\<close>): total, meaningful on validated values.\<close>

fun as_str :: "jsval \<Rightarrow> jstr" where
  "as_str (JStr s) = s"
| "as_str _ = []"

fun as_int :: "jsval \<Rightarrow> int" where
  "as_int (JNum (NInt i)) = i"
| "as_int _ = 0"

fun as_bool :: "jsval \<Rightarrow> bool" where
  "as_bool (JBool b) = b"
| "as_bool _ = False"

fun as_list :: "jsval \<Rightarrow> jsval list" where
  "as_list (JArr vs) = vs"
| "as_list _ = []"

text \<open>A string that matches a pattern, and the values of a list that are all present.\<close>

definition text_ok :: "(jstr \<Rightarrow> bool) \<Rightarrow> jsval \<Rightarrow> bool" where
  "text_ok pattern v \<longleftrightarrow> (case v of JStr s \<Rightarrow> pattern s | _ \<Rightarrow> False)"

fun option_list :: "'a option list \<Rightarrow> 'a list option" where
  "option_list [] = Some []"
| "option_list (x # xs) = (case x of None \<Rightarrow> None | Some a \<Rightarrow> map_option ((#) a) (option_list xs))"

text \<open>
  What holds of every JavaScript value: property keys of an object are distinct, and a number
  has its one representation (\<open>NInt\<close> for integral values below \<open>10^21\<close>, \<open>NFrac\<close> otherwise, with
  no trailing zero among its digits).
\<close>

fun num_wf :: "jsnum \<Rightarrow> bool" where
  "num_wf (NInt i) = (\<bar>i\<bar> < 10 ^ 21)"
| "num_wf (NFrac neg s n) = (0 < s \<and> \<not> 10 dvd s \<and> (n < frac_digits s \<or> 21 < n))"
| "num_wf _ = True"

fun js_wf :: "jsval \<Rightarrow> bool" where
  "js_wf (JNum n) = num_wf n"
| "js_wf (JArr vs) = list_all js_wf vs"
| "js_wf (JObj p fs) = (distinct (map fst fs) \<and> list_all (\<lambda>(k, v). js_wf v) fs)"
| "js_wf _ = True"

lemma text_ok_iff: "text_ok P v \<longleftrightarrow> (\<exists>s. v = JStr s \<and> P s)"
  by (cases v) (auto simp: text_ok_def)

lemma option_list_Some: "option_list xs = Some ys \<longleftrightarrow> xs = map Some ys"
  by (induction xs arbitrary: ys) (auto split: option.splits)

declare js_get.simps [js_read] js_keys.simps [js_read]

lemma js_isStringE: "js_isString v \<Longrightarrow> (\<And>s. v = JStr s \<Longrightarrow> P) \<Longrightarrow> P"
  by (cases v) auto

lemma js_isString_iff: "js_isString v \<longleftrightarrow> (\<exists>s. v = JStr s)"
  by (cases v) auto

lemma js_isBoolean_iff: "js_isBoolean v \<longleftrightarrow> (\<exists>b. v = JBool b)"
  by (cases v) auto

lemma js_isPlainObject_iff: "js_isPlainObject v \<longleftrightarrow> (\<exists>fs. v = JObj True fs)"
  by (cases v) auto

lemma js_isObject_iff: "js_isObject v \<longleftrightarrow> (\<exists>p fs. v = JObj p fs)"
  by (cases v) auto

lemma js_wf_get: "js_wf v \<Longrightarrow> js_wf (js_get v k)"
  by (cases v) (auto simp: list_all_iff dest: map_of_SomeD split: option.splits)

lemma js_has_iff_map_of: "js_has (JObj p fs) k \<longleftrightarrow> map_of fs k \<noteq> None"
  by (simp add: js_has_def map_of_eq_None_iff image_iff)

section \<open>Results\<close>

text \<open>
  A thrown exception or an early error return is \<open>Inl\<close>. Validators that push onto an error
  array return the list they append; an empty list is success.
\<close>

fun bind_result :: "'e + 'a \<Rightarrow> ('a \<Rightarrow> 'e + 'b) \<Rightarrow> 'e + 'b" where
  "bind_result (Inl e) f = Inl e"
| "bind_result (Inr a) f = f a"

fun map_result :: "('a \<Rightarrow> 'e + 'b) \<Rightarrow> 'a list \<Rightarrow> 'e + 'b list" where
  "map_result f [] = Inr []"
| "map_result f (x # xs) =
     bind_result (f x) (\<lambda>y. bind_result (map_result f xs) (\<lambda>ys. Inr (y # ys)))"

lemma bind_result_eq_Inr_iff: "bind_result r f = Inr b \<longleftrightarrow> (\<exists>a. r = Inr a \<and> f a = Inr b)"
  by (cases r) auto

lemma map_result_cong [fundef_cong]:
  "xs = ys \<Longrightarrow> (\<And>x. x \<in> set ys \<Longrightarrow> f x = g x) \<Longrightarrow> map_result f xs = map_result g ys"
  by (induction ys arbitrary: xs) auto

lemma map_result_Inr_iff: "map_result f xs = Inr ys \<longleftrightarrow> list_all2 (\<lambda>x y. f x = Inr y) xs ys"
  by (induction xs arbitrary: ys) (auto simp: bind_result_eq_Inr_iff list_all2_Cons1)

end
