(* ===== verification/Js_Regex.thy ===== *)
theory Js_Regex
  imports Js_Prelude
begin

text \<open>
  Regular expressions of ECMAScript, as the packages use them.

  A source pattern \<open>/^...$/\<close> becomes a term of type \<open>rx\<close> that reads like it, and
  \<open>rx_test\<close>/\<open>rx_test_u\<close> its \<open>test\<close> method without and with the \<open>u\<close> flag (over code units or
  over code points). Matching is by derivatives; \<open>rx_match_iff_lang\<close> proves it equal to the
  usual language of the expression, and the lemmas of the collection \<open>rx_char\<close> characterise
  the shapes the sources use.
\<close>

named_theorems rx_char \<open>characterisations of pattern shapes\<close>

section \<open>Code points\<close>

definition is_high_surrogate :: "code_unit \<Rightarrow> bool" where
  "is_high_surrogate u \<longleftrightarrow> 0xD800 \<le> u \<and> u \<le> 0xDBFF"

definition is_low_surrogate :: "code_unit \<Rightarrow> bool" where
  "is_low_surrogate u \<longleftrightarrow> 0xDC00 \<le> u \<and> u \<le> 0xDFFF"

definition surrogate_pair :: "code_unit \<Rightarrow> code_unit \<Rightarrow> nat" where
  "surrogate_pair u v = 0x10000 + (unat u - 0xD800) * 0x400 + (unat v - 0xDC00)"

fun code_points :: "jstr \<Rightarrow> nat list" where
  "code_points [] = []"
| "code_points [u] = [unat u]"
| "code_points (u # v # us) =
     (if is_high_surrogate u \<and> is_low_surrogate v then surrogate_pair u v # code_points us
      else unat u # code_points (v # us))"

definition code_units :: "jstr \<Rightarrow> nat list" where
  "code_units s = map unat s"

lemma of_char_less_256: "of_char c < (256 :: nat)"
  by (metis mod_less_divisor of_char_mod_256 zero_less_numeral)

lemma of_char_not_ge [simp]: "256 \<le> n \<Longrightarrow> \<not> n \<le> (of_char c :: nat)"
  using of_char_less_256 [of c] by (meson le_trans not_less)

lemma of_char_not_surrogate [simp]:
  "\<not> is_high_surrogate (of_char c)" "\<not> is_low_surrogate (of_char c)"
  by (simp_all add: is_high_surrogate_def is_low_surrogate_def word_le_nat_alt)

lemma code_points_js [simp]: "code_points (js s) = map of_char s"
proof (induction s rule: induct_list012)
  case (3 c d s)
  then show ?case by (simp add: js_def)
qed (simp_all add: js_def)

lemma code_units_js [simp]: "code_units (js s) = map of_char s"
  by (simp add: code_units_def js_def)

lemma code_points_append_js [simp]: "code_points (js s @ t) = map of_char s @ code_points t"
proof (induction s)
  case (Cons c s)
  have "code_points (of_char c # t') = of_char c # code_points t'" for t'
    by (cases t') simp_all
  with Cons show ?case by (simp add: js_def)
qed simp

section \<open>Regular expressions\<close>

type_synonym char_class = "(nat \<times> nat) list"

datatype rx =
    RZero
  | REps
  | RCls bool char_class \<comment> \<open>\<open>RCls True rs\<close> is \<open>[^...]\<close>\<close>
  | RSeq rx rx
  | RAlt rx rx
  | RRep rx nat "nat option" \<comment> \<open>\<open>r{m,n}\<close>, \<open>r{m,}\<close>\<close>

definition in_class :: "bool \<Rightarrow> char_class \<Rightarrow> nat \<Rightarrow> bool" where
  "in_class neg rs c \<longleftrightarrow> (list_ex (\<lambda>(a, b). a \<le> c \<and> c \<le> b) rs \<noteq> neg)"

definition conc :: "'a list set \<Rightarrow> 'a list set \<Rightarrow> 'a list set" where
  "conc A B = {u @ v | u v. u \<in> A \<and> v \<in> B}"

primrec lpow :: "'a list set \<Rightarrow> nat \<Rightarrow> 'a list set" where
  "lpow A 0 = {[]}"
| "lpow A (Suc n) = conc A (lpow A n)"

definition at_most :: "nat option \<Rightarrow> nat \<Rightarrow> bool" where
  "at_most mx k = (case mx of None \<Rightarrow> True | Some n \<Rightarrow> k \<le> n)"

primrec lang :: "rx \<Rightarrow> nat list set" where
  "lang RZero = {}"
| "lang REps = {[]}"
| "lang (RCls neg rs) = {[c] | c. in_class neg rs c}"
| "lang (RSeq r s) = conc (lang r) (lang s)"
| "lang (RAlt r s) = lang r \<union> lang s"
| "lang (RRep r m mx) = {w. \<exists>k \<ge> m. at_most mx k \<and> w \<in> lpow (lang r) k}"

fun rseq :: "rx \<Rightarrow> rx \<Rightarrow> rx" where
  "rseq RZero s = RZero"
| "rseq REps s = s"
| "rseq r s = RSeq r s"

fun ralt :: "rx \<Rightarrow> rx \<Rightarrow> rx" where
  "ralt RZero s = s"
| "ralt r RZero = r"
| "ralt r s = RAlt r s"

primrec nullable :: "rx \<Rightarrow> bool" where
  "nullable RZero = False"
| "nullable REps = True"
| "nullable (RCls neg rs) = False"
| "nullable (RSeq r s) = (nullable r \<and> nullable s)"
| "nullable (RAlt r s) = (nullable r \<or> nullable s)"
| "nullable (RRep r m mx) = (at_most mx m \<and> (m = 0 \<or> nullable r))"

primrec deriv :: "nat \<Rightarrow> rx \<Rightarrow> rx" where
  "deriv c RZero = RZero"
| "deriv c REps = RZero"
| "deriv c (RCls neg rs) = (if in_class neg rs c then REps else RZero)"
| "deriv c (RSeq r s) =
     (if nullable r then ralt (rseq (deriv c r) s) (deriv c s) else rseq (deriv c r) s)"
| "deriv c (RAlt r s) = ralt (deriv c r) (deriv c s)"
| "deriv c (RRep r m mx) =
     (if mx = Some 0 then RZero
      else rseq (deriv c r) (RRep r (m - 1) (map_option (\<lambda>n. n - 1) mx)))"

fun rx_match :: "rx \<Rightarrow> nat list \<Rightarrow> bool" where
  "rx_match r [] = nullable r"
| "rx_match r (c # cs) = (r \<noteq> RZero \<and> rx_match (deriv c r) cs)"

definition rx_test :: "rx \<Rightarrow> jstr \<Rightarrow> bool" where
  "rx_test r s = rx_match r (code_units s)"

definition rx_test_u :: "rx \<Rightarrow> jstr \<Rightarrow> bool" where
  "rx_test_u r s = rx_match r (code_points s)"

lemma conc_Nil_iff [simp]: "[] \<in> conc A B \<longleftrightarrow> [] \<in> A \<and> [] \<in> B"
  by (auto simp: conc_def)

lemma conc_Cons_iff:
  "c # w \<in> conc A B \<longleftrightarrow> w \<in> conc {u. c # u \<in> A} B \<or> ([] \<in> A \<and> c # w \<in> B)"
  by (auto simp: conc_def Cons_eq_append_conv)

lemma conc_empty [simp]: "conc {} B = {}" "conc {[]} B = B" "conc A {[]} = A"
  by (auto simp: conc_def)

lemma Nil_in_lpow_iff: "[] \<in> lpow A k \<longleftrightarrow> k = 0 \<or> [] \<in> A"
  by (induction k) auto

lemma lpow_mono_if_Nil: "[] \<in> A \<Longrightarrow> w \<in> lpow A k \<Longrightarrow> w \<in> lpow A (Suc k)"
  unfolding lpow.simps conc_def by (metis (mono_tags, lifting) append_Nil mem_Collect_eq)

lemma Cons_in_lpow_Suc_iff: "c # w \<in> lpow A (Suc k) \<longleftrightarrow> w \<in> conc {u. c # u \<in> A} (lpow A k)"
proof (induction k arbitrary: w)
  case 0
  then show ?case by (auto simp: conc_def)
next
  case (Suc k)
  have "conc {u. c # u \<in> A} (lpow A k) \<subseteq> conc {u. c # u \<in> A} (lpow A (Suc k))" if "[] \<in> A"
    using lpow_mono_if_Nil [OF that] unfolding conc_def by blast
  with Suc show ?case
    by (subst lpow.simps(2), subst conc_Cons_iff) blast
qed

lemma lang_rseq [simp]: "lang (rseq r s) = conc (lang r) (lang s)"
  by (cases r) auto

lemma lang_ralt [simp]: "lang (ralt r s) = lang r \<union> lang s"
  by (cases r; cases s) auto

lemma nullable_iff: "nullable r \<longleftrightarrow> [] \<in> lang r"
proof (induction r)
  case (RRep r m mx)
  then show ?case by (auto simp: Nil_in_lpow_iff at_most_def split: option.splits)
qed (auto simp: in_class_def)

lemma lang_deriv: "lang (deriv c r) = {w. c # w \<in> lang r}"
proof (induction r)
  case (RSeq r s)
  then show ?case by (auto simp: conc_Cons_iff nullable_iff)
next
  case (RRep r m mx)
  have "w \<in> lang (deriv c (RRep r m mx)) \<longleftrightarrow> c # w \<in> lang (RRep r m mx)" for w
  proof
    assume "w \<in> lang (deriv c (RRep r m mx))"
    then obtain k where k: "m - 1 \<le> k" "at_most (map_option (\<lambda>n. n - 1) mx) k" "mx \<noteq> Some 0"
      and w: "w \<in> conc {u. c # u \<in> lang r} (lpow (lang r) k)"
      by (auto simp: RRep.IH conc_def split: if_splits)
    have "c # w \<in> lpow (lang r) (Suc k)" using w by (simp only: Cons_in_lpow_Suc_iff)
    moreover have "m \<le> Suc k" "at_most mx (Suc k)"
      using k by (auto simp: at_most_def split: option.splits)
    ultimately show "c # w \<in> lang (RRep r m mx)" by (auto simp del: lpow.simps)
  next
    assume "c # w \<in> lang (RRep r m mx)"
    then obtain k where k: "m \<le> k" "at_most mx k" and w: "c # w \<in> lpow (lang r) k"
      by auto
    from w obtain j where j: "k = Suc j" by (cases k) auto
    have "w \<in> conc {u. c # u \<in> lang r} (lpow (lang r) j)"
      using w by (simp only: j Cons_in_lpow_Suc_iff)
    moreover have "m - 1 \<le> j" "at_most (map_option (\<lambda>n. n - 1) mx) j" "mx \<noteq> Some 0"
      using k j by (auto simp: at_most_def split: option.splits)
    ultimately show "w \<in> lang (deriv c (RRep r m mx))"
      by (auto simp: RRep.IH conc_def)
  qed
  then show ?case by blast
qed auto

text \<open>The matcher decides the language of the expression.\<close>

lemma rx_match_iff_lang: "rx_match r s \<longleftrightarrow> s \<in> lang r"
  by (induction s arbitrary: r) (auto simp: nullable_iff lang_deriv)

section \<open>Derived forms\<close>

primrec rx_lit :: "string \<Rightarrow> rx" where
  "rx_lit [] = REps"
| "rx_lit (c # s) = RSeq (RCls False [(of_char c, of_char c)]) (rx_lit s)"

definition rx_opt :: "rx \<Rightarrow> rx" where
  "rx_opt r = RRep r 0 (Some 1)"

definition rx_star :: "rx \<Rightarrow> rx" where
  "rx_star r = RRep r 0 None"

definition rx_plus :: "rx \<Rightarrow> rx" where
  "rx_plus r = RRep r 1 None"

definition rx_times :: "rx \<Rightarrow> nat \<Rightarrow> rx" where
  "rx_times r n = RRep r n (Some n)"

definition rx_between :: "rx \<Rightarrow> nat \<Rightarrow> nat \<Rightarrow> rx" where
  "rx_between r m n = RRep r m (Some n)"

lemmas rx_forms = rx_opt_def rx_star_def rx_plus_def rx_times_def rx_between_def

abbreviation cc_digit :: char_class where
  "cc_digit \<equiv> [(48, 57)]"

abbreviation cc_lower :: char_class where
  "cc_lower \<equiv> [(97, 122)]"

abbreviation cc_upper :: char_class where
  "cc_upper \<equiv> [(65, 90)]"

definition rx_cls :: "char_class \<Rightarrow> rx" where
  "rx_cls rs = RCls False rs"

definition rx_not :: "char_class \<Rightarrow> rx" where
  "rx_not rs = RCls True rs"

abbreviation cc_chars :: "string \<Rightarrow> char_class" where
  "cc_chars s \<equiv> map (\<lambda>c. (of_char c, of_char c)) s"

text \<open>\<open>\s\<close> of a pattern, and the Unicode property \<open>White_Space\<close>.\<close>

definition cc_space :: char_class where
  "cc_space = [(9, 13), (32, 32), (0xA0, 0xA0), (0x1680, 0x1680), (0x2000, 0x200A),
     (0x2028, 0x2029), (0x202F, 0x202F), (0x205F, 0x205F), (0x3000, 0x3000), (0xFEFF, 0xFEFF)]"

definition cc_White_Space :: char_class where
  "cc_White_Space = [(9, 13), (32, 32), (0x85, 0x85), (0xA0, 0xA0), (0x1680, 0x1680),
     (0x2000, 0x200A), (0x2028, 0x2029), (0x202F, 0x202F), (0x205F, 0x205F), (0x3000, 0x3000)]"

text \<open>\<open>[\u0000-\u001f\u007f]\<close> and the property \<open>Cc\<close>.\<close>

definition cc_control :: char_class where
  "cc_control = [(0, 0x1F), (0x7F, 0x7F)]"

definition cc_Cc :: char_class where
  "cc_Cc = [(0, 0x1F), (0x7F, 0x9F)]"

text \<open>A search without anchors for a single class: \<open>/[...]/.test(s)\<close>.\<close>

definition some_in_class :: "char_class \<Rightarrow> nat list \<Rightarrow> bool" where
  "some_in_class rs cs = list_ex (in_class False rs) cs"

lemma lang_rx_lit: "lang (rx_lit p) = {map of_char p}"
proof (induction p)
  case (Cons c p)
  have "in_class False [(of_char c, of_char c)] d \<longleftrightarrow> d = of_char c" for d
    by (auto simp: in_class_def)
  then have "lang (RCls False [(of_char c, of_char c)]) = {[of_char c]}"
    by simp
  with Cons show ?case by (simp add: conc_def)
qed simp

lemma conc_singletons: "w \<in> conc {[c] | c. P c} B \<longleftrightarrow> (\<exists>c v. w = c # v \<and> P c \<and> v \<in> B)"
proof
  assume "\<exists>c v. w = c # v \<and> P c \<and> v \<in> B"
  then obtain c v where "w = [c] @ v" "P c" "v \<in> B" by auto
  then show "w \<in> conc {[c] | c. P c} B" unfolding conc_def by blast
qed (auto simp: conc_def)

lemma lpow_class_iff:
  "w \<in> lpow {[c] | c. P c} k \<longleftrightarrow> length w = k \<and> list_all P w"
proof (induction k arbitrary: w)
  case (Suc k)
  show ?case unfolding lpow.simps conc_singletons Suc.IH by (cases w) auto
qed auto

lemma lang_rep_class:
  "lang (RRep (RCls neg rs) m mx)
   = {w. m \<le> length w \<and> at_most mx (length w) \<and> list_all (in_class neg rs) w}"
  by (auto simp: lpow_class_iff)

lemma rx_match_seq: "rx_match (RSeq r s) w \<longleftrightarrow> (\<exists>u v. w = u @ v \<and> rx_match r u \<and> rx_match s v)"
  by (auto simp: rx_match_iff_lang conc_def)

lemma rx_match_alt: "rx_match (RAlt r s) w \<longleftrightarrow> rx_match r w \<or> rx_match s w"
  by (simp add: rx_match_iff_lang)

lemma rx_match_class: "rx_match (RCls neg rs) w \<longleftrightarrow> (\<exists>c. w = [c] \<and> in_class neg rs c)"
  by (auto simp: rx_match_iff_lang simp del: rx_match.simps)

lemma rx_match_rep_class [rx_char]:
  "rx_match (RRep (RCls neg rs) m mx) w
   \<longleftrightarrow> m \<le> length w \<and> at_most mx (length w) \<and> list_all (in_class neg rs) w"
  by (simp add: rx_match_iff_lang lang_rep_class del: lang.simps)

lemma rx_match_lit_seq [rx_char]:
  "rx_match (RSeq (rx_lit p) r) w \<longleftrightarrow> (\<exists>v. w = map of_char p @ v \<and> rx_match r v)"
  by (auto simp: rx_match_iff_lang conc_def lang_rx_lit)

lemma rx_match_class_seq [rx_char]:
  "rx_match (RSeq (RCls neg rs) r) w
   \<longleftrightarrow> (\<exists>c v. w = c # v \<and> in_class neg rs c \<and> rx_match r v)"
  by (simp add: rx_match_iff_lang conc_singletons)

text \<open>The commonest shape of the contracts: a literal prefix and a bounded run of a class.\<close>

lemma rx_match_prefixed_run [rx_char]:
  "rx_match (RSeq (rx_lit p) (RRep (RCls neg rs) m (Some n))) w
   \<longleftrightarrow> (\<exists>v. w = map of_char p @ v \<and> m \<le> length v \<and> length v \<le> n
          \<and> list_all (in_class neg rs) v)"
  by (simp add: rx_match_lit_seq rx_match_rep_class at_most_def)

text \<open>Expressions whose classes stay below a bound match only characters below it.\<close>

primrec rx_below :: "nat \<Rightarrow> rx \<Rightarrow> bool" where
  "rx_below n RZero = True"
| "rx_below n REps = True"
| "rx_below n (RCls neg rs) = (\<not> neg \<and> list_all (\<lambda>(a, b). b < n) rs)"
| "rx_below n (RSeq r s) = (rx_below n r \<and> rx_below n s)"
| "rx_below n (RAlt r s) = (rx_below n r \<and> rx_below n s)"
| "rx_below n (RRep r m mx) = rx_below n r"

lemma lang_below: "rx_below n r \<Longrightarrow> w \<in> lang r \<Longrightarrow> c \<in> set w \<Longrightarrow> c < n"
proof (induction r arbitrary: w)
  case (RCls neg rs)
  then show ?case by (auto simp: in_class_def list_all_iff list_ex_iff dest!: bspec)
next
  case (RRep r m mx)
  have "w \<in> lpow (lang r) k \<Longrightarrow> c \<in> set w \<Longrightarrow> c < n" for k
  proof (induction k arbitrary: w)
    case (Suc k)
    then show ?case using RRep.IH RRep.prems(1) by (auto simp: conc_def)
  qed simp
  then show ?case using RRep.prems by auto
qed (auto simp: conc_def)

lemmas rx_eval [js_eval] = rx_test_def rx_test_u_def code_points_js rx_forms in_class_def at_most_def
  rx_cls_def rx_not_def cc_space_def cc_White_Space_def cc_control_def cc_Cc_def

end
