(* ===== verification/Js_Json.thy ===== *)
theory Js_Json
  imports Js_Regex "HOL-Library.AList"
begin

text \<open>
  JSON text as ECMAScript writes and reads it. \<open>json\<close> is the source's \<open>JsonValue\<close>;
  \<open>print_json\<close> is \<open>JSON.stringify\<close> on it, \<open>json_parse\<close> is \<open>JSON.parse\<close>. Rounding a decimal
  that is not a safe integer to a binary64 number is the argument \<open>dec\<close> of the parser; all
  the rest of the grammar is written out. The main results are the round trip
  \<open>json_parse_print\<close> and \<open>json_parse_fuel\<close>, that the fuel of the parser suffices.
\<close>

section \<open>Values and their text\<close>

datatype json =
    JsonNull
  | JsonBool bool
  | JsonNum jsnum
  | JsonStr jstr
  | JsonArr "json list"
  | JsonObj "(jstr \<times> json) list"

fun json_join :: "jstr list \<Rightarrow> jstr" where
  "json_join [] = []"
| "json_join [x] = x"
| "json_join (x # y # xs) = x @ js '','' @ json_join (y # xs)"

definition hex_digit :: "nat \<Rightarrow> code_unit" where
  "hex_digit d = of_nat (if d < 10 then 48 + d else 87 + d)"

definition unicode_escape :: "code_unit \<Rightarrow> jstr" where
  "unicode_escape u = js [CHR 0x5C, CHR ''u''] @
     [hex_digit (unat u div 4096), hex_digit (unat u div 256 mod 16),
      hex_digit (unat u div 16 mod 16), hex_digit (unat u mod 16)]"

definition is_surrogate :: "code_unit \<Rightarrow> bool" where
  "is_surrogate u \<longleftrightarrow> is_high_surrogate u \<or> is_low_surrogate u"

definition quote_unit :: "code_unit \<Rightarrow> jstr" where
  "quote_unit u =
     (if u = 8 then js [CHR 0x5C, CHR ''b''] else if u = 9 then js [CHR 0x5C, CHR ''t'']
      else if u = 10 then js [CHR 0x5C, CHR ''n''] else if u = 12 then js [CHR 0x5C, CHR ''f'']
      else if u = 13 then js [CHR 0x5C, CHR ''r''] else if u = 34 then [92, 34]
      else if u = 92 then [92, 92]
      else if u < 32 \<or> is_surrogate u then unicode_escape u else [u])"

fun quote_units :: "jstr \<Rightarrow> jstr" where
  "quote_units [] = []"
| "quote_units [u] = quote_unit u"
| "quote_units (u # v # us) =
     (if is_high_surrogate u \<and> is_low_surrogate v then u # v # quote_units us
      else quote_unit u @ quote_units (v # us))"

definition quote_json :: "jstr \<Rightarrow> jstr" where
  "quote_json s = [34] @ quote_units s @ [34]"

definition show_int :: "int \<Rightarrow> jstr" where
  "show_int i = (if i < 0 then js ''-'' @ show_nat (nat (- i)) else show_nat (nat i))"

text \<open>Number::toString of ECMA-262, for a finite number.\<close>

definition show_frac :: "nat \<Rightarrow> int \<Rightarrow> jstr" where
  "show_frac s n =
     (let ds = show_nat s; k = int (length ds); e = n - 1;
          ex = js ''e'' @ js (if e < 0 then ''-'' else ''+'') @ show_nat (nat \<bar>e\<bar>)
      in if k \<le> n \<and> n \<le> 21 then ds @ replicate (nat (n - k)) (digit_unit 0)
         else if 0 < n \<and> n \<le> 21 then take (nat n) ds @ js ''.'' @ drop (nat n) ds
         else if -6 < n \<and> n \<le> 0 then js ''0.'' @ replicate (nat (- n)) (digit_unit 0) @ ds
         else if k = 1 then ds @ ex
         else take 1 ds @ js ''.'' @ drop 1 ds @ ex)"

text \<open>\<open>JSON.stringify\<close> writes \<open>null\<close> for a number that is not finite, and \<open>0\<close> for \<open>-0\<close>.\<close>

fun print_num :: "jsnum \<Rightarrow> jstr" where
  "print_num NNaN = js ''null''"
| "print_num (NInf _) = js ''null''"
| "print_num NNegZero = js ''0''"
| "print_num (NInt i) = show_int i"
| "print_num (NFrac neg s n) = (if neg then js ''-'' else []) @ show_frac s n"

fun print_json :: "json \<Rightarrow> jstr" where
  "print_json JsonNull = js ''null''"
| "print_json (JsonBool b) = js (if b then ''true'' else ''false'')"
| "print_json (JsonNum n) = print_num n"
| "print_json (JsonStr s) = quote_json s"
| "print_json (JsonArr vs) = js ''['' @ json_join (map print_json vs) @ js '']''"
| "print_json (JsonObj fs) =
     js ''{'' @ json_join (map (\<lambda>(k, v). quote_json k @ js '':'' @ print_json v) fs) @ js ''}''"

section \<open>Object properties\<close>

text \<open>An array-index key is the decimal text of an integer below \<open>2^32 - 1\<close>.\<close>

definition array_index :: "jstr \<Rightarrow> nat option" where
  "array_index k =
     (if k \<noteq> [] \<and> list_all (\<lambda>u. 48 \<le> u \<and> u \<le> 57) k
      then (let n = digits_value (map (\<lambda>u. unat u - 48) k)
            in if show_nat n = k \<and> n < 4294967295 then Some n else None)
      else None)"

text \<open>Enumeration order of own properties: array indices first, ascending, then the rest.\<close>

definition own_key_order :: "(jstr \<times> 'v) list \<Rightarrow> (jstr \<times> 'v) list" where
  "own_key_order fs =
     sort_key (\<lambda>p. the (array_index (fst p))) (filter (\<lambda>p. array_index (fst p) \<noteq> None) fs)
     @ filter (\<lambda>p. array_index (fst p) = None) fs"

definition object_of_members :: "(jstr \<times> 'v) list \<Rightarrow> (jstr \<times> 'v) list" where
  "object_of_members ms = own_key_order (foldl (\<lambda>fs (k, v). AList.update k v fs) [] ms)"

lemma mset_own_key_order [simp]: "mset (own_key_order fs) = mset fs"
  using multiset_partition [of "mset fs" "\<lambda>p. array_index (fst p) \<noteq> None"]
  by (simp add: own_key_order_def)

lemma set_own_key_order [simp]: "set (own_key_order fs) = set fs"
  by (metis mset_own_key_order set_mset_mset)

lemma own_key_order_map_snd:
  "own_key_order (map (\<lambda>(k, v). (k, f v)) fs) = map (\<lambda>(k, v). (k, f v)) (own_key_order fs)"
proof -
  have ins: "insort_key (\<lambda>p. the (array_index (fst p))) (k, f v) (map (\<lambda>(k, v). (k, f v)) ys)
      = map (\<lambda>(k, v). (k, f v)) (insort_key (\<lambda>p. the (array_index (fst p))) (k, v) ys)" for k v ys
    by (induction ys) auto
  have sort: "sort_key (\<lambda>p. the (array_index (fst p))) (map (\<lambda>(k, v). (k, f v)) ys)
      = map (\<lambda>(k, v). (k, f v)) (sort_key (\<lambda>p. the (array_index (fst p))) ys)" for ys
    by (induction ys) (auto simp: ins)
  have filter: "filter (\<lambda>p. P (fst p)) (map (\<lambda>(k, v). (k, f v)) ys)
      = map (\<lambda>(k, v). (k, f v)) (filter (\<lambda>p. P (fst p)) ys)" for P ys
    by (induction ys) auto
  show ?thesis
    by (simp only: own_key_order_def filter [of "\<lambda>k. array_index k \<noteq> None"]
        filter [of "\<lambda>k. array_index k = None"] sort map_append)
qed

lemma update_notin: "k \<notin> fst ` set fs \<Longrightarrow> AList.update k v fs = fs @ [(k, v)]"
  by (induction fs) auto

lemma object_of_members_distinct:
  assumes "distinct (map fst ms)"
  shows "object_of_members ms = own_key_order ms"
proof -
  have "foldl (\<lambda>fs (k, v). AList.update k v fs) acc ms = acc @ ms"
    if "distinct (map fst (acc @ ms))" for acc
    using that by (induction ms arbitrary: acc) (auto simp: update_notin)
  from this [of "[]"] assms show ?thesis by (simp add: object_of_members_def)
qed

section \<open>Parsing\<close>

type_synonym decimal_rounding = "bool \<Rightarrow> nat \<Rightarrow> int \<Rightarrow> jsnum"

definition json_ws :: "code_unit \<Rightarrow> bool" where
  "json_ws u \<longleftrightarrow> u = 9 \<or> u = 10 \<or> u = 13 \<or> u = 32"

definition skip_ws :: "jstr \<Rightarrow> jstr" where
  "skip_ws s = dropWhile json_ws s"

definition is_digit_unit :: "code_unit \<Rightarrow> bool" where
  "is_digit_unit u \<longleftrightarrow> 48 \<le> u \<and> u \<le> 57"

definition hex_value :: "code_unit \<Rightarrow> nat option" where
  "hex_value u =
     (if 48 \<le> u \<and> u \<le> 57 then Some (unat u - 48)
      else if 97 \<le> u \<and> u \<le> 102 then Some (unat u - 87)
      else if 65 \<le> u \<and> u \<le> 70 then Some (unat u - 55) else None)"

definition hex4 :: "code_unit \<Rightarrow> code_unit \<Rightarrow> code_unit \<Rightarrow> code_unit \<Rightarrow> code_unit option" where
  "hex4 a b c d =
     (case (hex_value a, hex_value b, hex_value c, hex_value d) of
        (Some w, Some x, Some y, Some z) \<Rightarrow> Some (of_nat (((w * 16 + x) * 16 + y) * 16 + z))
      | _ \<Rightarrow> None)"

definition simple_escape :: "code_unit \<Rightarrow> code_unit option" where
  "simple_escape e =
     (if e = 34 then Some 34 else if e = 92 then Some 92 else if e = 47 then Some 47
      else if e = 98 then Some 8 else if e = 102 then Some 12 else if e = 110 then Some 10
      else if e = 114 then Some 13 else if e = 116 then Some 9 else None)"

text \<open>The rest of a string literal after its opening quote: the value and what follows.\<close>

fun parse_units :: "jstr \<Rightarrow> (jstr \<times> jstr) option" where
  "parse_units [] = None"
| "parse_units (u # us) =
     (if u = 34 then Some ([], us)
      else if u < 32 then None
      else if u = 92 then
        (case us of
           [] \<Rightarrow> None
         | e # us' \<Rightarrow>
             if e = 117 then
               (case us' of
                  a # b # c # d # us'' \<Rightarrow>
                    (case hex4 a b c d of
                       None \<Rightarrow> None
                     | Some w \<Rightarrow> map_option (\<lambda>(s, r). (w # s, r)) (parse_units us''))
                | _ \<Rightarrow> None)
             else (case simple_escape e of
                     None \<Rightarrow> None
                   | Some w \<Rightarrow> map_option (\<lambda>(s, r). (w # s, r)) (parse_units us')))
      else map_option (\<lambda>(s, r). (u # s, r)) (parse_units us))"

definition unit_digits :: "jstr \<Rightarrow> nat list" where
  "unit_digits s = map (\<lambda>u. unat u - 48) s"

text \<open>Optional fraction and exponent of a number: their digits and value, and the rest.\<close>

definition parse_fraction :: "jstr \<Rightarrow> (nat list option \<times> jstr) option" where
  "parse_fraction s =
     (case s of
        u # r \<Rightarrow>
          if u = 46 then
            (let ds = takeWhile is_digit_unit r
             in if ds = [] then None else Some (Some (unit_digits ds), dropWhile is_digit_unit r))
          else Some (None, s)
      | [] \<Rightarrow> Some (None, s))"

definition parse_exponent :: "jstr \<Rightarrow> (int option \<times> jstr) option" where
  "parse_exponent s =
     (case s of
        u # r \<Rightarrow>
          if u = 101 \<or> u = 69 then
            (let neg = (case r of c # _ \<Rightarrow> c = 45 | [] \<Rightarrow> False);
                 r' = (case r of c # r'' \<Rightarrow> if c = 45 \<or> c = 43 then r'' else r | [] \<Rightarrow> r);
                 ds = takeWhile is_digit_unit r';
                 e = int (digits_value (unit_digits ds))
             in if ds = [] then None
                else Some (Some (if neg then - e else e), dropWhile is_digit_unit r'))
          else Some (None, s)
      | [] \<Rightarrow> Some (None, s))"

definition number_of_decimal ::
  "decimal_rounding \<Rightarrow> bool \<Rightarrow> nat list \<Rightarrow> nat list option \<Rightarrow> int option \<Rightarrow> jsnum" where
  "number_of_decimal dec neg ds fr ex =
     (let n = digits_value ds
      in if fr = None \<and> ex = None \<and> int n \<le> max_safe_integer
         then (if neg then (if n = 0 then NNegZero else NInt (- int n)) else NInt (int n))
         else (let fds = (case fr of None \<Rightarrow> [] | Some f \<Rightarrow> f);
                   e = (case ex of None \<Rightarrow> 0 | Some e \<Rightarrow> e)
               in dec neg (digits_value (ds @ fds)) (e - int (length fds))))"

definition parse_number :: "decimal_rounding \<Rightarrow> jstr \<Rightarrow> (jsnum \<times> jstr) option" where
  "parse_number dec s =
     (let neg = (case s of c # _ \<Rightarrow> c = 45 | [] \<Rightarrow> False);
          s' = (if neg then tl s else s);
          ds = takeWhile is_digit_unit s';
          r = dropWhile is_digit_unit s'
      in if ds = [] \<or> (1 < length ds \<and> hd ds = 48) then None
         else (case parse_fraction r of
                 None \<Rightarrow> None
               | Some (fr, r1) \<Rightarrow>
                   (case parse_exponent r1 of
                      None \<Rightarrow> None
                    | Some (ex, r2) \<Rightarrow> Some (number_of_decimal dec neg (unit_digits ds) fr ex, r2))))"

definition parse_literal :: "string \<Rightarrow> json \<Rightarrow> jstr \<Rightarrow> (json \<times> jstr) option" where
  "parse_literal w v s =
     (if take (length w) s = js w then Some (v, drop (length w) s) else None)"

fun parse_value :: "decimal_rounding \<Rightarrow> nat \<Rightarrow> jstr \<Rightarrow> (json \<times> jstr) option"
and parse_elements :: "decimal_rounding \<Rightarrow> nat \<Rightarrow> jstr \<Rightarrow> (json list \<times> jstr) option"
and parse_members :: "decimal_rounding \<Rightarrow> nat \<Rightarrow> jstr \<Rightarrow> ((jstr \<times> json) list \<times> jstr) option" where
  "parse_value dec 0 s = None"
| "parse_value dec (Suc n) s =
     (case skip_ws s of
        [] \<Rightarrow> None
      | u # r \<Rightarrow>
          if u = 34 then map_option (\<lambda>(x, r'). (JsonStr x, r')) (parse_units r)
          else if u = 91 then
            (case skip_ws r of
               [] \<Rightarrow> None
             | c # r' \<Rightarrow> if c = 93 then Some (JsonArr [], r')
                        else map_option (\<lambda>(vs, t). (JsonArr vs, t)) (parse_elements dec n r))
          else if u = 123 then
            (case skip_ws r of
               [] \<Rightarrow> None
             | c # r' \<Rightarrow> if c = 125 then Some (JsonObj [], r')
                        else map_option (\<lambda>(ms, t). (JsonObj (object_of_members ms), t))
                               (parse_members dec n r))
          else if u = 110 then parse_literal ''null'' JsonNull (u # r)
          else if u = 116 then parse_literal ''true'' (JsonBool True) (u # r)
          else if u = 102 then parse_literal ''false'' (JsonBool False) (u # r)
          else map_option (\<lambda>(x, r'). (JsonNum x, r')) (parse_number dec (u # r)))"
| "parse_elements dec 0 s = None"
| "parse_elements dec (Suc n) s =
     (case parse_value dec n s of
        None \<Rightarrow> None
      | Some (v, r) \<Rightarrow>
          (case skip_ws r of
             [] \<Rightarrow> None
           | c # r' \<Rightarrow> if c = 44 then map_option (\<lambda>(vs, t). (v # vs, t)) (parse_elements dec n r')
                      else if c = 93 then Some ([v], r') else None))"
| "parse_members dec 0 s = None"
| "parse_members dec (Suc n) s =
     (case skip_ws s of
        [] \<Rightarrow> None
      | q # r0 \<Rightarrow>
          if q \<noteq> 34 then None
          else (case parse_units r0 of
             None \<Rightarrow> None
           | Some (k, r1) \<Rightarrow>
               (case skip_ws r1 of
                  [] \<Rightarrow> None
                | c1 # r2 \<Rightarrow>
                    if c1 \<noteq> 58 then None
                    else (case parse_value dec n r2 of
                       None \<Rightarrow> None
                     | Some (v, r3) \<Rightarrow>
                         (case skip_ws r3 of
                            [] \<Rightarrow> None
                          | c # r4 \<Rightarrow>
                              if c = 44 then
                                map_option (\<lambda>(ms, t). ((k, v) # ms, t)) (parse_members dec n r4)
                              else if c = 125 then Some ([(k, v)], r4) else None)))))"

definition parse_fuel :: "jstr \<Rightarrow> nat" where
  "parse_fuel s = 2 * length s + 2"

definition json_parse :: "decimal_rounding \<Rightarrow> jstr \<Rightarrow> json option" where
  "json_parse dec s =
     (case parse_value dec (parse_fuel s) s of
        None \<Rightarrow> None
      | Some (v, r) \<Rightarrow> if skip_ws r = [] then Some v else None)"

section \<open>Round trip\<close>

text \<open>Values whose text reads back: distinct keys, and numbers that are safe integers.\<close>

fun json_ok :: "json \<Rightarrow> bool" where
  "json_ok (JsonNum n) = num_isSafeInteger n"
| "json_ok (JsonArr vs) = list_all json_ok vs"
| "json_ok (JsonObj fs) = (distinct (map fst fs) \<and> list_all (\<lambda>(k, v). json_ok v) fs)"
| "json_ok _ = True"

text \<open>What reading the text of a value gives: \<open>-0\<close> becomes \<open>0\<close>, keys in enumeration order.\<close>

fun json_read :: "json \<Rightarrow> json" where
  "json_read (JsonNum n) = JsonNum (if n = NNegZero then NInt 0 else n)"
| "json_read (JsonArr vs) = JsonArr (map json_read vs)"
| "json_read (JsonObj fs) = JsonObj (own_key_order (map (\<lambda>(k, v). (k, json_read v)) fs))"
| "json_read v = v"

lemma json_read_ok: "json_ok j \<Longrightarrow> json_ok (json_read j)"
proof (induction j)
  case (JsonNum n)
  then show ?case by (cases n) (auto simp: max_safe_integer_def)
next
  case (JsonObj fs)
  have "mset (map fst (own_key_order (map (\<lambda>(k, v). (k, json_read v)) fs))) = mset (map fst fs)"
    by (simp only: mset_map mset_own_key_order) (simp only: mset_map [symmetric] map_fst_map_snd)
  then have "distinct (map fst (own_key_order (map (\<lambda>(k, v). (k, json_read v)) fs)))"
    using JsonObj.prems mset_eq_imp_distinct_iff by (metis json_ok.simps(3))
  with JsonObj show ?case by (fastforce simp: list_all_iff)
qed (auto simp: list_all_iff)

lemma unat_hex_digit: "d < 16 \<Longrightarrow> unat (hex_digit d) = (if d < 10 then 48 + d else 87 + d)"
  unfolding hex_digit_def by (simp only: unat_of_nat) simp

lemma hex_value_hex_digit [simp]: "d < 16 \<Longrightarrow> hex_value (hex_digit d) = Some d"
  by (auto simp: hex_value_def word_le_nat_alt unat_hex_digit)

lemma hex4_of_unit:
  "hex4 (hex_digit (unat u div 4096)) (hex_digit (unat u div 256 mod 16))
     (hex_digit (unat u div 16 mod 16)) (hex_digit (unat u mod 16)) = Some u"
  for u :: code_unit
proof -
  let ?n = "unat u"
  have "?n < 65536" using unsigned_less [of u] by simp
  then have "?n div 4096 < 16" by (simp add: less_mult_imp_div_less)
  moreover have "((?n div 4096 * 16 + ?n div 256 mod 16) * 16 + ?n div 16 mod 16) * 16 + ?n mod 16 = ?n"
  proof -
    have "?n div (16 * 16) = ?n div 16 div 16" "?n div (16 * 16 * 16) = ?n div 16 div 16 div 16"
      by (simp_all only: div_mult2_eq)
    then have "?n div 256 = ?n div 16 div 16" "?n div 4096 = ?n div 16 div 16 div 16"
      by simp_all
    then show ?thesis by (simp only: div_mult_mod_eq)
  qed
  ultimately show ?thesis by (simp add: hex4_def)
qed

lemma parse_units_escape:
  "parse_units (unicode_escape u @ t) = map_option (\<lambda>(s, r). (u # s, r)) (parse_units t)"
  by (simp add: unicode_escape_def js_def hex4_of_unit)

lemma parse_units_quote_unit:
  "parse_units (quote_unit u @ t) = map_option (\<lambda>(s, r). (u # s, r)) (parse_units t)"
proof (cases "u < 32 \<or> is_surrogate u")
  case True
  then show ?thesis
    by (auto simp: quote_unit_def parse_units_escape simple_escape_def js_def
        simp del: parse_units.simps) (simp_all add: simple_escape_def)
next
  case False
  then show ?thesis by (auto simp: quote_unit_def simple_escape_def)
qed

lemma parse_units_quote: "parse_units (quote_units s @ 34 # r) = Some (s, r)"
proof (induction s rule: quote_units.induct)
  case (3 u v us)
  show ?case
  proof (cases "is_high_surrogate u \<and> is_low_surrogate v")
    case True
    then have "\<not> u < 32" "u \<noteq> 34" "u \<noteq> 92" "\<not> v < 32" "v \<noteq> 34" "v \<noteq> 92"
      by (auto simp: is_high_surrogate_def is_low_surrogate_def word_less_nat_alt word_le_nat_alt)
    with True 3 show ?thesis by simp
  next
    case False
    with 3 have "parse_units (quote_units (v # us) @ 34 # r) = Some (v # us, r)" by blast
    then show ?thesis
      by (simp only: quote_units.simps False if_False append_assoc parse_units_quote_unit
          option.map prod.case)
  qed
qed (simp_all add: parse_units_quote_unit del: parse_units.simps, simp_all)

lemma is_digit_unit_digit_unit: "d < 10 \<Longrightarrow> is_digit_unit (digit_unit d)"
  by (simp add: is_digit_unit_def word_le_nat_alt)

lemma show_nat_digits: "list_all is_digit_unit (show_nat n)"
  by (auto simp: show_nat_def list_all_iff is_digit_unit_digit_unit dest: nat_digits_bound)

lemma unit_digits_show_nat [simp]: "unit_digits (show_nat n) = nat_digits n"
  by (auto simp: unit_digits_def show_nat_def o_def intro!: map_idI dest: nat_digits_bound)

lemma show_nat_not_Nil [simp]: "show_nat n \<noteq> []"
  by (simp add: show_nat_def)

lemma digit_unit_eq_iff: "d < 10 \<Longrightarrow> e < 10 \<Longrightarrow> digit_unit d = digit_unit e \<longleftrightarrow> d = e"
  by (metis add_left_cancel unat_digit_unit)

lemma hd_show_nat: "hd (show_nat n) = 48 \<longleftrightarrow> n = 0"
proof -
  have "hd (nat_digits n) < 10" by (meson hd_in_set nat_digits_bound nat_digits_not_Nil)
  then have "digit_unit (hd (nat_digits n)) = digit_unit 0 \<longleftrightarrow> hd (nat_digits n) = 0"
    by (simp add: digit_unit_eq_iff)
  then show ?thesis
    by (simp add: show_nat_def hd_map hd_nat_digits digit_unit_def [of 0])
qed

lemma length_show_nat_0: "length (show_nat 0) = 1"
  by (simp add: show_nat_def nat_digits.simps)

text \<open>What may follow a value inside a text: nothing, a comma or a closing bracket.\<close>

definition value_stop :: "jstr \<Rightarrow> bool" where
  "value_stop r \<longleftrightarrow> (case r of [] \<Rightarrow> True | c # _ \<Rightarrow> c = 44 \<or> c = 93 \<or> c = 125 \<or> c = 10)"

lemma value_stop_simps [simp]:
  "value_stop []" "value_stop (44 # r)" "value_stop (93 # r)" "value_stop (125 # r)" "value_stop (10 # r)"
  by (simp_all add: value_stop_def)

lemma takeWhile_digits_stop:
  assumes "list_all is_digit_unit ds" and "value_stop r"
  shows "takeWhile is_digit_unit (ds @ r) = ds" "dropWhile is_digit_unit (ds @ r) = r"
  using assms by (induction ds) (auto simp: value_stop_def is_digit_unit_def split: list.splits)

lemma parse_fraction_stop: "value_stop r \<Longrightarrow> parse_fraction r = Some (None, r)"
  by (auto simp: parse_fraction_def value_stop_def split: list.splits)

lemma parse_exponent_stop: "value_stop r \<Longrightarrow> parse_exponent r = Some (None, r)"
  by (auto simp: parse_exponent_def value_stop_def split: list.splits)

lemma hd_show_nat_not_minus: "show_nat n @ r = c # t \<Longrightarrow> c \<noteq> 45"
  using show_nat_digits [of n] by (cases "show_nat n") (auto simp: is_digit_unit_def)

lemma parse_number_show_int:
  assumes "\<bar>i\<bar> \<le> max_safe_integer" and "value_stop r"
  shows "parse_number dec (show_int i @ r) = Some (NInt i, r)"
proof (cases "i < 0")
  case True
  let ?n = "nat (- i)"
  have "\<not> (1 < length (show_nat ?n) \<and> hd (show_nat ?n) = 48)" "?n \<noteq> 0"
    using True by (auto simp: hd_show_nat)
  then show ?thesis
    using True assms takeWhile_digits_stop [OF show_nat_digits assms(2), of ?n]
    by (simp add: parse_number_def show_int_def js_def parse_fraction_stop parse_exponent_stop
        number_of_decimal_def Let_def)
next
  case False
  let ?n = "nat i"
  have "\<not> (1 < length (show_nat ?n) \<and> hd (show_nat ?n) = 48)"
    by (auto simp: hd_show_nat length_show_nat_0)
  moreover have "(case show_nat ?n @ r of [] \<Rightarrow> False | c # _ \<Rightarrow> c = 45) = False"
    by (auto split: list.split dest: hd_show_nat_not_minus)
  ultimately show ?thesis
    using False assms takeWhile_digits_stop [OF show_nat_digits assms(2), of ?n]
    by (simp add: parse_number_def show_int_def parse_fraction_stop parse_exponent_stop
        number_of_decimal_def Let_def)
qed

definition value_head :: "code_unit \<Rightarrow> bool" where
  "value_head c \<longleftrightarrow> c = 34 \<or> c = 91 \<or> c = 123 \<or> c = 110 \<or> c = 116 \<or> c = 102 \<or> c = 45
     \<or> is_digit_unit c"

lemma value_head_not_special:
  "value_head c \<Longrightarrow> \<not> json_ws c \<and> c \<noteq> 93 \<and> c \<noteq> 125 \<and> c \<noteq> 44"
  by (auto simp: value_head_def json_ws_def is_digit_unit_def word_le_nat_alt)

lemma show_int_head: "\<exists>c t. show_int i = c # t \<and> (c = 45 \<or> is_digit_unit c)"
proof (cases "i < 0")
  case True
  then show ?thesis by (auto simp: show_int_def js_def)
next
  case False
  then obtain c t where "show_nat (nat i) = c # t" by (cases "show_nat (nat i)") auto
  with False show_nat_digits [of "nat i"] show ?thesis by (auto simp: show_int_def)
qed

text \<open>
  Values whose text reads back under a reading \<open>dec\<close> of decimals: distinct keys, and numbers that
  are read as they were printed.
\<close>

definition num_reads_back :: "decimal_rounding \<Rightarrow> jsnum \<Rightarrow> bool" where
  "num_reads_back dec x \<longleftrightarrow> (\<exists>c t. print_num x = c # t \<and> (c = 45 \<or> is_digit_unit c))
     \<and> (\<forall>r. value_stop r \<longrightarrow> parse_number dec (print_num x @ r) = Some (if x = NNegZero then NInt 0 else x, r))"

fun json_readable :: "decimal_rounding \<Rightarrow> json \<Rightarrow> bool" where
  "json_readable dec (JsonNum n) = num_reads_back dec n"
| "json_readable dec (JsonArr vs) = list_all (json_readable dec) vs"
| "json_readable dec (JsonObj fs) = (distinct (map fst fs) \<and> list_all (\<lambda>(k, v). json_readable dec v) fs)"
| "json_readable dec _ = True"

lemma print_json_head:
  assumes "json_readable dec j"
  shows "\<exists>c t. print_json j = c # t \<and> value_head c"
  using assms by (cases j) (auto simp: value_head_def js_def quote_json_def num_reads_back_def)

lemma skip_ws_non_ws [simp]: "\<not> json_ws c \<Longrightarrow> skip_ws (c # r) = c # r"
  by (simp add: skip_ws_def)

lemma not_ws_punctuation [simp]:
  "\<not> json_ws 44" "\<not> json_ws 93" "\<not> json_ws 125" "\<not> json_ws 34" "\<not> json_ws 58" "\<not> json_ws 91"
  "\<not> json_ws 123"
  by (simp_all add: json_ws_def)

text \<open>The parser reads the text of \<open>v\<close> back, whatever may follow it, with fuel for its length.\<close>

definition reads_back :: "decimal_rounding \<Rightarrow> json \<Rightarrow> bool" where
  "reads_back dec v \<longleftrightarrow>
     (\<forall>n r. value_stop r \<longrightarrow> 2 * length (print_json v) \<le> n
        \<longrightarrow> parse_value dec n (print_json v @ r) = Some (json_read v, r))"

lemma reads_backD:
  "reads_back dec v \<Longrightarrow> value_stop r \<Longrightarrow> 2 * length (print_json v) \<le> n
   \<Longrightarrow> parse_value dec n (print_json v @ r) = Some (json_read v, r)"
  by (simp add: reads_back_def)

lemma parse_elements_print:
  assumes "vs \<noteq> []" and "\<forall>v \<in> set vs. reads_back dec v"
    and "2 * length (json_join (map print_json vs)) < n"
  shows "parse_elements dec n (json_join (map print_json vs) @ 93 # r) = Some (map json_read vs, r)"
  using assms
proof (induction vs arbitrary: n rule: induct_list012)
  case (2 v)
  then obtain m where "n = Suc m" "2 * length (print_json v) \<le> m" by (cases n) auto
  with 2 show ?case by (simp add: reads_backD)
next
  case (3 v w vs)
  let ?rest = "json_join (map print_json (w # vs))"
  have len: "length (json_join (map print_json (v # w # vs)))
      = length (print_json v) + 1 + length ?rest" by simp
  from 3 obtain m where n: "n = Suc m" by (cases n) auto
  have "parse_value dec m (print_json v @ 44 # ?rest @ 93 # r) = Some (json_read v, 44 # ?rest @ 93 # r)"
    using 3(4,5) len n by (intro reads_backD) auto
  moreover have "parse_elements dec m (?rest @ 93 # r) = Some (map json_read (w # vs), r)"
    using 3(4,5) len n by (intro "3.IH") auto
  ultimately show ?case using n by (simp add: js_def)
qed simp

abbreviation member_text :: "jstr \<times> json \<Rightarrow> jstr" where
  "member_text \<equiv> (\<lambda>(k, v). quote_json k @ js '':'' @ print_json v)"

abbreviation member_read :: "jstr \<times> json \<Rightarrow> jstr \<times> json" where
  "member_read \<equiv> (\<lambda>(k, v). (k, json_read v))"

lemma parse_one_member:
  assumes "reads_back dec v" and "2 * length (member_text (k, v)) \<le> m" and "value_stop r"
  shows "parse_members dec (Suc m) (member_text (k, v) @ r) =
    (case skip_ws r of
       [] \<Rightarrow> None
     | c # r' \<Rightarrow> if c = 44 then map_option (\<lambda>(ms, t). ((k, json_read v) # ms, t)) (parse_members dec m r')
                else if c = 125 then Some ([(k, json_read v)], r') else None)"
proof -
  have "parse_value dec m (print_json v @ r) = Some (json_read v, r)"
    using assms by (intro reads_backD) (auto simp: quote_json_def)
  moreover have "parse_units (quote_units k @ 34 # 58 # print_json v @ r)
      = Some (k, 58 # print_json v @ r)"
    by (rule parse_units_quote)
  ultimately show ?thesis by (simp add: quote_json_def js_def)
qed

lemma parse_members_print:
  assumes "fs \<noteq> []" and "\<forall>(k, v) \<in> set fs. reads_back dec v"
    and "2 * length (json_join (map member_text fs)) < n"
  shows "parse_members dec n (json_join (map member_text fs) @ 125 # r) = Some (map member_read fs, r)"
  using assms
proof (induction fs arbitrary: n rule: induct_list012)
  case (2 f)
  obtain k v where f: "f = (k, v)" by fastforce
  from 2 obtain m where n: "n = Suc m" by (cases n) auto
  have "2 * length (member_text (k, v)) \<le> m" "reads_back dec v" using 2 n f by auto
  with parse_one_member [of dec v k m "125 # r"] show ?case
    by (simp add: n f del: parse_members.simps)
next
  case (3 f g fs)
  let ?rest = "json_join (map member_text (g # fs))"
  obtain k v where f: "f = (k, v)" by fastforce
  from 3 obtain m where n: "n = Suc m" by (cases n) auto
  have len: "length (json_join (map member_text (f # g # fs)))
      = length (member_text f) + 1 + length ?rest" by simp
  have "2 * length (member_text (k, v)) \<le> m" "reads_back dec v" using 3(4,5) n f len by auto
  moreover have "parse_members dec m (?rest @ 125 # r) = Some (map member_read (g # fs), r)"
    using 3(4,5) len n by (intro "3.IH") auto
  ultimately show ?case
    using parse_one_member [of dec v k m "44 # ?rest @ 125 # r"]
    by (simp add: n f js_def del: parse_members.simps)
qed simp

lemma json_join_head: "xs \<noteq> [] \<Longrightarrow> hd xs = c # t \<Longrightarrow> \<exists>t'. json_join xs = c # t'"
  by (cases xs rule: json_join.cases) auto

lemma reads_back_scalar:
  assumes "json_readable dec j" and "\<forall>vs. j \<noteq> JsonArr vs" and "\<forall>fs. j \<noteq> JsonObj fs"
  shows "reads_back dec j"
proof -
  have "parse_value dec n (print_json j @ r) = Some (json_read j, r)"
    if r: "value_stop r" and n: "2 * length (print_json j) \<le> n" for n r
  proof -
    from print_json_head [OF assms(1)] n obtain m where n': "n = Suc m" by (cases n) auto
    show ?thesis
    proof (cases j)
      case (JsonNum x)
      with assms(1) obtain c t where c: "print_num x = c # t" "c = 45 \<or> is_digit_unit c"
        and x: "parse_number dec (print_num x @ r) = Some (if x = NNegZero then NInt 0 else x, r)"
        using r by (auto simp: num_reads_back_def)
      then have "\<not> json_ws c" "c \<noteq> 34" "c \<noteq> 91" "c \<noteq> 123" "c \<noteq> 110" "c \<noteq> 116" "c \<noteq> 102"
        by (auto simp: json_ws_def is_digit_unit_def word_le_nat_alt)
      with c(1) x show ?thesis by (simp add: JsonNum n')
    next
      case (JsonStr x)
      then show ?thesis by (simp add: n' quote_json_def parse_units_quote)
    next
      case JsonNull
      then show ?thesis by (simp add: n' js_def parse_literal_def json_ws_def)
    next
      case (JsonBool b)
      then show ?thesis by (cases b) (simp_all add: n' js_def parse_literal_def json_ws_def)
    qed (use assms in auto)
  qed
  then show ?thesis by (simp add: reads_back_def)
qed

lemma reads_back_array:
  assumes "\<forall>v \<in> set vs. json_readable dec v \<and> reads_back dec v"
  shows "reads_back dec (JsonArr vs)"
  unfolding reads_back_def
proof (intro allI impI)
  fix n r
  assume n: "2 * length (print_json (JsonArr vs)) \<le> n"
  then obtain m where m: "n = Suc m" by (cases n) auto
  show "parse_value dec n (print_json (JsonArr vs) @ r) = Some (json_read (JsonArr vs), r)"
  proof (cases vs)
    case Nil
    then show ?thesis by (simp add: m js_def)
  next
    case (Cons v vs')
    with assms print_json_head [of dec v] obtain c t where "print_json v = c # t" "value_head c" by auto
    then obtain t' where t': "json_join (map print_json vs) = c # t'" and c: "value_head c"
      using json_join_head [of "map print_json vs" c t] Cons by auto
    have "parse_elements dec m (json_join (map print_json vs) @ 93 # r) = Some (map json_read vs, r)"
      using assms n m Cons by (intro parse_elements_print) (auto simp: js_def)
    with t' value_head_not_special [OF c] show ?thesis by (simp add: m js_def)
  qed
qed

lemma reads_back_object:
  assumes "\<forall>(k, v) \<in> set fs. reads_back dec v" and "distinct (map fst fs)"
  shows "reads_back dec (JsonObj fs)"
  unfolding reads_back_def
proof (intro allI impI)
  fix n r
  assume n: "2 * length (print_json (JsonObj fs)) \<le> n"
  then obtain m where m: "n = Suc m" by (cases n) auto
  show "parse_value dec n (print_json (JsonObj fs) @ r) = Some (json_read (JsonObj fs), r)"
  proof (cases fs)
    case Nil
    then show ?thesis by (simp add: m js_def own_key_order_def)
  next
    case (Cons f fs')
    obtain k v where f: "f = (k, v)" by fastforce
    have "hd (map member_text fs) = 34 # quote_units k @ 34 # 58 # print_json v"
      by (simp add: Cons f quote_json_def js_def)
    then obtain t' where t': "json_join (map member_text fs) = 34 # t'"
      using json_join_head [of "map member_text fs"] Cons by blast
    have "parse_members dec m (json_join (map member_text fs) @ 125 # r) = Some (map member_read fs, r)"
      using assms n m Cons by (intro parse_members_print) (auto simp: js_def)
    moreover have "object_of_members (map member_read fs) = own_key_order (map member_read fs)"
      using assms(2) by (intro object_of_members_distinct) (simp only: map_fst_map_snd)
    ultimately show ?thesis using t' by (simp add: m js_def)
  qed
qed

lemma reads_back_if_readable: "json_readable dec j \<Longrightarrow> reads_back dec j"
proof (induction j)
  case (JsonArr vs)
  then show ?case by (intro reads_back_array) (auto simp: list_all_iff)
next
  case (JsonObj fs)
  then show ?case by (intro reads_back_object) (fastforce simp: list_all_iff)+
qed (simp_all add: reads_back_scalar)

text \<open>\<open>JSON.parse\<close> of the text of a value gives the value back.\<close>

lemma json_parse_readable: "json_readable dec j \<Longrightarrow> json_parse dec (print_json j) = Some (json_read j)"
  using reads_backD [OF reads_back_if_readable, of dec j "[]" "parse_fuel (print_json j)"]
  by (simp add: json_parse_def parse_fuel_def skip_ws_def)

text \<open>Safe integers read back under every reading of decimals.\<close>

lemma safe_reads_back:
  assumes "num_isSafeInteger x"
  shows "num_reads_back dec x"
proof -
  obtain i where i: "print_num x = show_int i" "\<bar>i\<bar> \<le> max_safe_integer" "(if x = NNegZero then NInt 0 else x) = NInt i"
  proof (cases "x = NNegZero")
    case True
    have "print_num NNegZero = show_int 0"
      by (simp add: show_int_def show_nat_def nat_digits.simps digit_unit_def js_def)
    then show thesis using True by (intro that [of 0]) (auto simp: max_safe_integer_def)
  next
    case False
    with assms obtain i where "x = NInt i" "\<bar>i\<bar> \<le> max_safe_integer" by (cases x) auto
    then show thesis by (intro that [of i]) auto
  qed
  then show ?thesis using parse_number_show_int [OF i(2), of _ dec] show_int_head [of i] by (simp add: num_reads_back_def)
qed

lemma json_ok_readable: "json_ok j \<Longrightarrow> json_readable dec j"
  by (induction j) (auto simp: list_all_iff safe_reads_back)

lemma skip_ws_print: "json_ok j \<Longrightarrow> skip_ws (print_json j @ r) = print_json j @ r"
  using print_json_head [OF json_ok_readable, of j] value_head_not_special by (auto simp: skip_ws_def)

lemma json_parse_print: "json_ok j \<Longrightarrow> json_parse dec (print_json j) = Some (json_read j)"
  by (rule json_parse_readable [OF json_ok_readable])

lemma json_parse_print_line: "json_ok j \<Longrightarrow> json_parse dec (print_json j @ [10]) = Some (json_read j)"
  using reads_backD [OF reads_back_if_readable [OF json_ok_readable], of j "[10]" "parse_fuel (print_json j @ [10])" dec]
  by (simp add: json_parse_def parse_fuel_def skip_ws_def json_ws_def)

section \<open>The fuel of the parser suffices\<close>

lemma length_skip_ws: "length (skip_ws s) \<le> length s"
  by (simp add: skip_ws_def length_dropWhile_le)

lemma skip_ws_Cons: "skip_ws s = c # r \<Longrightarrow> length r < length s"
  using length_skip_ws [of s] by simp

lemma parse_units_length: "parse_units s = Some (x, r) \<Longrightarrow> length r < length s"
proof (induction s arbitrary: x rule: length_induct)
  case (1 s)
  then have IH: "length r < length t" if "parse_units t = Some (y, r)" "length t < length s" for t y
    using that by blast
  from "1.prems" show ?case
    by (cases s) (auto split: if_splits list.splits option.splits dest!: IH)
qed

lemma parse_fraction_length: "parse_fraction s = Some (f, r) \<Longrightarrow> length r \<le> length s"
  by (auto simp: parse_fraction_def Let_def le_Suc_eq length_dropWhile_le
      split: list.splits if_splits)

lemma parse_exponent_length: "parse_exponent s = Some (f, r) \<Longrightarrow> length r \<le> length s"
  by (auto simp: parse_exponent_def Let_def split: list.splits if_splits)
    (meson le_SucI le_trans length_dropWhile_le)+

lemma parse_number_length:
  assumes "parse_number dec s = Some (x, r)"
  shows "length r < length s"
proof -
  define s' where "s' = (if (case s of c # _ \<Rightarrow> c = 45 | [] \<Rightarrow> False) then tl s else s)"
  from assms obtain f r1 e where ds: "takeWhile is_digit_unit s' \<noteq> []"
    and "parse_fraction (dropWhile is_digit_unit s') = Some (f, r1)"
    and "parse_exponent r1 = Some (e, r)"
    unfolding parse_number_def Let_def s'_def [symmetric]
    by (auto split: if_splits option.splits)
  then have "length r \<le> length (dropWhile is_digit_unit s')"
    using parse_fraction_length parse_exponent_length le_trans by blast
  moreover have "length (dropWhile is_digit_unit s') < length s'"
    using ds by (metis append_Nil length_append less_add_same_cancel2 length_greater_0_conv
        takeWhile_dropWhile_id)
  moreover have "length s' \<le> length s" by (simp add: s'_def)
  ultimately show ?thesis by linarith
qed

lemma parse_literal_length: "w \<noteq> [] \<Longrightarrow> parse_literal w v s = Some (x, r) \<Longrightarrow> length r < length s"
  by (cases s; cases w) (auto simp: parse_literal_def js_def less_Suc_eq_le split: if_splits)

lemma parse_length:
  "(\<forall>s v r. parse_value dec n s = Some (v, r) \<longrightarrow> length r < length s)
   \<and> (\<forall>s vs r. parse_elements dec n s = Some (vs, r) \<longrightarrow> length r < length s)
   \<and> (\<forall>s ms r. parse_members dec n s = Some (ms, r) \<longrightarrow> length r < length s)"
proof (induction n)
  case (Suc n)
  then have V: "\<And>s v r. parse_value dec n s = Some (v, r) \<Longrightarrow> length r < length s"
    and E: "\<And>s vs r. parse_elements dec n s = Some (vs, r) \<Longrightarrow> length r < length s"
    and M: "\<And>s ms r. parse_members dec n s = Some (ms, r) \<Longrightarrow> length r < length s"
    by blast+
  have "length r < length s" if pv: "parse_value dec (Suc n) s = Some (v, r)" for s v r
  proof -
    obtain u t where ut: "skip_ws s = u # t" using pv by (auto split: list.splits)
    have len: "length (u # t) \<le> length s" using length_skip_ws [of s] ut by simp
    have "length r < length (u # t)"
      using pv ut
      by (auto split: if_splits list.splits option.splits
          dest!: skip_ws_Cons parse_units_length E M parse_number_length
            parse_literal_length [rotated])
    with len show ?thesis by linarith
  qed
  moreover have "length r < length s" if "parse_elements dec (Suc n) s = Some (vs, r)" for s vs r
    using that
    by (auto split: if_splits list.splits option.splits dest!: skip_ws_Cons V E)
  moreover have "length r < length s" if "parse_members dec (Suc n) s = Some (ms, r)" for s ms r
    using that
    by (auto split: if_splits list.splits option.splits
        dest!: skip_ws_Cons parse_units_length V M)
  ultimately show ?case by blast
qed simp

lemmas parse_value_length = parse_length [THEN conjunct1, rule_format]

lemma parse_fuel_step:
  "(\<forall>s. 2 * length s + 2 \<le> n \<longrightarrow> parse_value dec n s = parse_value dec (Suc n) s)
   \<and> (\<forall>s. 2 * length s + 3 \<le> n \<longrightarrow> parse_elements dec n s = parse_elements dec (Suc n) s)
   \<and> (\<forall>s. 2 * length s + 3 \<le> n \<longrightarrow> parse_members dec n s = parse_members dec (Suc n) s)"
proof (induction n)
  case (Suc n)
  then have V: "\<And>s. 2 * length s + 2 \<le> n \<Longrightarrow> parse_value dec (Suc n) s = parse_value dec n s"
    and E: "\<And>s. 2 * length s + 3 \<le> n \<Longrightarrow> parse_elements dec (Suc n) s = parse_elements dec n s"
    and M: "\<And>s. 2 * length s + 3 \<le> n \<Longrightarrow> parse_members dec (Suc n) s = parse_members dec n s"
    by simp_all
  have "parse_value dec (Suc n) s = parse_value dec (Suc (Suc n)) s" if "2 * length s + 2 \<le> Suc n" for s
  proof (cases "skip_ws s")
    case (Cons u t)
    have "2 * length t + 3 \<le> n" using skip_ws_Cons [OF Cons] that by linarith
    then show ?thesis
      by (simp only: parse_value.simps(2) [of dec n s] parse_value.simps(2) [of dec "Suc n" s]
          Cons list.case E M)
  qed simp
  moreover have "parse_elements dec (Suc n) s = parse_elements dec (Suc (Suc n)) s"
    if "2 * length s + 3 \<le> Suc n"
      and eq: "parse_value dec (Suc n) s = parse_value dec n s" for s
  proof (cases "parse_value dec n s")
    case (Some p)
    obtain v t where p: "p = (v, t)" by fastforce
    note unfold = parse_elements.simps(2) [of dec n s] parse_elements.simps(2) [of dec "Suc n" s]
    show ?thesis
    proof (cases "skip_ws t")
      case (Cons c t')
      have "2 * length t' + 3 \<le> n"
        using skip_ws_Cons [OF Cons] parse_value_length [of dec n s v t] Some p that by simp
      then show ?thesis
        by (simp only: unfold eq Some p option.case prod.case Cons list.case E)
    qed (simp only: unfold eq Some p option.case prod.case list.case)
  qed (simp only: parse_elements.simps(2) eq option.case)
  moreover have "parse_members dec (Suc n) s = parse_members dec (Suc (Suc n)) s"
    if "2 * length s + 3 \<le> Suc n" for s
  proof -
    have eqV: "parse_value dec (Suc n) r2 = parse_value dec n r2"
      if "skip_ws s = q # r0" "parse_units r0 = Some (k, r1)" "skip_ws r1 = c1 # r2" for q r0 k r1 c1 r2
      using skip_ws_Cons [OF that(1)] parse_units_length [OF that(2)] skip_ws_Cons [OF that(3)]
        \<open>2 * length s + 3 \<le> Suc n\<close> by (intro V) linarith
    have eqM: "parse_members dec (Suc n) r4 = parse_members dec n r4"
      if "skip_ws s = q # r0" "parse_units r0 = Some (k, r1)" "skip_ws r1 = c1 # r2"
        "parse_value dec n r2 = Some (v, r3)" "skip_ws r3 = c # r4" for q r0 k r1 c1 r2 v r3 c r4
      using skip_ws_Cons [OF that(1)] parse_units_length [OF that(2)] skip_ws_Cons [OF that(3)]
        parse_value_length [OF that(4)] skip_ws_Cons [OF that(5)]
        \<open>2 * length s + 3 \<le> Suc n\<close> by (intro M) linarith
    show ?thesis
      unfolding parse_members.simps(2) [of dec n s] parse_members.simps(2) [of dec "Suc n" s]
      by (intro list.case_cong if_cong option.case_cong refl)
        (auto simp: eqV eqM split: list.splits option.splits simp del: parse_value.simps parse_members.simps)
  qed
  ultimately show ?case using V by simp
qed simp

text \<open>More fuel than \<open>parse_fuel\<close> never changes what the parser returns.\<close>

lemma json_parse_fuel:
  "parse_fuel s \<le> n \<Longrightarrow> parse_value dec n s = parse_value dec (parse_fuel s) s"
proof (induction n rule: dec_induct)
  case (step m)
  then have "2 * length s + 2 \<le> m" by (simp add: parse_fuel_def)
  with step.IH parse_fuel_step [of m dec] show ?case by simp
qed simp

end
