(* ===== verification/Js_Decimal.thy ===== *)
theory Js_Decimal
  imports Js_Json
begin

text \<open>
  Printed numbers are unambiguous, fractions and exponents included: under the reading \<open>exact_decimal\<close>,
  which keeps the digits it is given, the text of every finite number reads back. So equal texts
  mean equal numbers, whatever the rounding of the engine does with other decimals.
\<close>

section \<open>Reading without rounding\<close>

definition exact_decimal :: decimal_rounding where
  "exact_decimal neg m e =
     (if e = 0 \<and> m < 10 ^ 21 then NInt (if neg then - int m else int m) else NFrac neg m (e + frac_digits m))"

text \<open>Finite numbers in their one representation, and objects without a repeated key.\<close>

fun json_wf :: "json \<Rightarrow> bool" where
  "json_wf (JsonNum n) = (num_isFinite n \<and> num_wf n)"
| "json_wf (JsonArr vs) = list_all json_wf vs"
| "json_wf (JsonObj fs) = (distinct (map fst fs) \<and> list_all (\<lambda>(k, v). json_wf v) fs)"
| "json_wf _ = True"

lemma json_ok_wf: "json_ok j \<Longrightarrow> json_wf j"
proof (induction j)
  case (JsonNum n)
  then show ?case by (cases n) (simp_all add: max_safe_integer_def)
qed (auto simp: list_all_iff)

section \<open>Parts of a number\<close>

definition digit_stop :: "jstr \<Rightarrow> bool" where
  "digit_stop r \<longleftrightarrow> (case r of [] \<Rightarrow> True | c # _ \<Rightarrow> \<not> is_digit_unit c)"

lemma value_stop_digit_stop: "value_stop r \<Longrightarrow> digit_stop r"
  by (auto simp: value_stop_def digit_stop_def is_digit_unit_def split: list.splits)

lemma digit_stop_simps [simp]: "digit_stop (46 # r)" "digit_stop (101 # r)"
  by (simp_all add: digit_stop_def is_digit_unit_def)

lemma takeWhile_digits:
  assumes "list_all is_digit_unit ds" and "digit_stop r"
  shows "takeWhile is_digit_unit (ds @ r) = ds" "dropWhile is_digit_unit (ds @ r) = r"
  using assms by (induction ds) (auto simp: digit_stop_def split: list.splits)

lemma parse_number_parts:
  assumes "list_all is_digit_unit ip" and "ip \<noteq> []" and "\<not> (1 < length ip \<and> hd ip = 48)" and "digit_stop rest"
    and "parse_fraction rest = Some (fr, r1)" and "parse_exponent r1 = Some (ex, r2)"
  shows "parse_number dec ((if neg then js ''-'' else []) @ ip @ rest)
    = Some (number_of_decimal dec neg (unit_digits ip) fr ex, r2)"
proof -
  obtain d ds where ip: "ip = d # ds" using assms(2) by (cases ip) auto
  then have "d \<noteq> 45" using assms(1) by (auto simp: is_digit_unit_def)
  then show ?thesis
    using assms takeWhile_digits [OF assms(1,4)] ip
    by (cases neg) (auto simp: parse_number_def js_def Let_def)
qed

lemma parse_fraction_digits:
  assumes "list_all is_digit_unit ds" and "ds \<noteq> []" and "digit_stop r"
  shows "parse_fraction (46 # ds @ r) = Some (Some (unit_digits ds), r)"
  using takeWhile_digits [OF assms(1,3)] assms(2) by (simp add: parse_fraction_def Let_def)

lemma parse_fraction_exponent: "parse_fraction (101 # r) = Some (None, 101 # r)"
  by (simp add: parse_fraction_def)

lemma parse_exponent_digits:
  assumes "value_stop r"
  shows "parse_exponent (js ''e'' @ js (if e < 0 then ''-'' else ''+'') @ show_nat (nat \<bar>e\<bar>) @ r) = Some (Some e, r)"
  using takeWhile_digits [OF show_nat_digits value_stop_digit_stop [OF assms], of "nat \<bar>e\<bar>"]
  by (cases "e < 0") (simp_all add: parse_exponent_def js_def Let_def)

lemma digits_value_zeros: "digits_value (replicate n 0 @ ds) = digits_value ds"
  by (induction n) (simp_all add: digits_value_def)

lemma unit_digits_append: "unit_digits (xs @ ys) = unit_digits xs @ unit_digits ys"
  by (simp add: unit_digits_def)

lemma digits_value_lower: "ds \<noteq> [] \<Longrightarrow> hd ds \<noteq> 0 \<Longrightarrow> 10 ^ (length ds - 1) \<le> digits_value ds"
proof (induction ds rule: rev_induct)
  case (snoc d ds)
  show ?case
  proof (cases "ds = []")
    case True
    then show ?thesis using snoc.prems by (simp add: digits_value_def)
  next
    case False
    then have "10 ^ (length ds - 1) \<le> digits_value ds" using snoc by (cases ds) auto
    moreover have "(10 :: nat) ^ length ds = 10 * 10 ^ (length ds - 1)" using False by (cases ds) auto
    ultimately show ?thesis by simp
  qed
qed simp

section \<open>Numbers read back\<close>

lemma exact_frac:
  assumes "num_wf (NFrac neg s n)"
  shows "exact_decimal neg s (n - frac_digits s) = NFrac neg s n"
proof -
  have "10 ^ 21 \<le> s" if "n = frac_digits s"
  proof -
    have "21 < length (nat_digits s)" using assms that by (auto simp: frac_digits_def)
    then have "(10 :: nat) ^ 21 \<le> 10 ^ (length (nat_digits s) - 1)" by (intro power_increasing) auto
    also have "\<dots> \<le> s" using digits_value_lower [of "nat_digits s"] assms by (simp add: hd_nat_digits)
    finally show ?thesis .
  qed
  then show ?thesis by (auto simp: exact_decimal_def)
qed

lemma print_frac_reads:
  assumes "num_wf (NFrac neg s n)" and "value_stop r"
  shows "parse_number exact_decimal (print_num (NFrac neg s n) @ r) = Some (NFrac neg s n, r)"
proof -
  let ?ds = "show_nat s"
  have s: "0 < s" "\<not> (frac_digits s \<le> n \<and> n \<le> 21)" using assms(1) by auto
  have k: "frac_digits s = int (length ?ds)" by (simp add: frac_digits_def show_nat_def)
  have ds: "list_all is_digit_unit ?ds" "hd ?ds \<noteq> 48" "digits_value (unit_digits ?ds) = s"
    using show_nat_digits hd_show_nat s(1) by simp_all
  have first: "list_all is_digit_unit (take m ?ds)" "list_all is_digit_unit (drop m ?ds)" for m
    using ds(1) by (auto simp: list_all_iff dest: in_set_takeD in_set_dropD)
  have join: "digits_value (unit_digits (take m ?ds) @ unit_digits (drop m ?ds)) = s" for m
    using ds(3) by (simp flip: unit_digits_append)
  have number: "number_of_decimal exact_decimal neg ip fr ex = NFrac neg s n"
    if "digits_value (ip @ (case fr of None \<Rightarrow> [] | Some f \<Rightarrow> f)) = s" "fr \<noteq> None \<or> ex \<noteq> None"
      "(case ex of None \<Rightarrow> 0 | Some e \<Rightarrow> e) - int (length (case fr of None \<Rightarrow> [] | Some f \<Rightarrow> f)) = n - frac_digits s" for ip fr ex
    using that exact_frac [OF assms(1)] by (auto simp: number_of_decimal_def Let_def)
  have len: "length (unit_digits xs) = length xs" for xs by (simp add: unit_digits_def)
  note stop = value_stop_digit_stop [OF assms(2)] parse_exponent_stop [OF assms(2)]
  let ?ex = "js ''e'' @ js (if n - 1 < 0 then ''-'' else ''+'') @ show_nat (nat \<bar>n - 1\<bar>) @ r"
  obtain t where ex: "?ex = 101 # t" by (simp add: js_def)
  note e = parse_exponent_digits [OF assms(2), of "n - 1"]
  have one_or_more: "length ?ds = 1 \<or> 1 < length ?ds" by (cases ?ds) auto
  consider (point) "0 < n" "n \<le> 21" "n < frac_digits s" | (zero) "-6 < n" "n \<le> 0"
    | (one) "\<not> (-6 < n \<and> n \<le> 21)" "length ?ds = 1" | (many) "\<not> (-6 < n \<and> n \<le> 21)" "1 < length ?ds"
    using s(2) one_or_more by (cases "- 6 < n"; cases "n \<le> 21"; cases "0 < n") auto
  then show ?thesis
  proof cases
    case point
    have printed: "print_num (NFrac neg s n) @ r = (if neg then js ''-'' else []) @ take (nat n) ?ds @ 46 # drop (nat n) ?ds @ r"
      using point k by (simp add: show_frac_def Let_def js_def)
    have "take (nat n) ?ds \<noteq> []" "drop (nat n) ?ds \<noteq> []" "hd (take (nat n) ?ds) \<noteq> 48"
      using point k ds(2) by (auto simp: hd_take)
    then show ?thesis unfolding printed
      by (subst parse_number_parts [OF first(1) _ _ _ parse_fraction_digits [OF first(2) _ stop(1)] stop(2)])
        (use point k in \<open>simp_all add: number join len\<close>)
  next
    case zero
    have below: "\<not> int (length ?ds) \<le> n" using zero one_or_more by linarith
    let ?fds = "replicate (nat (- n)) (digit_unit 0) @ ?ds"
    have printed: "print_num (NFrac neg s n) @ r = (if neg then js ''-'' else []) @ [48] @ 46 # ?fds @ r"
      using zero below by (simp add: show_frac_def Let_def js_def)
    have fds: "list_all is_digit_unit ?fds" "?fds \<noteq> []" using ds(1) by (auto simp: list_all_iff is_digit_unit_digit_unit)
    have "unit_digits [48] @ unit_digits ?fds = replicate (Suc (nat (- n))) 0 @ unit_digits ?ds"
      by (simp add: unit_digits_def)
    then have "digits_value (unit_digits [48] @ unit_digits ?fds) = s" using ds(3) by (simp only: digits_value_zeros)
    then show ?thesis unfolding printed
      by (subst parse_number_parts [OF _ _ _ _ parse_fraction_digits [OF fds stop(1)] stop(2)])
        (use zero k in \<open>simp_all add: number len is_digit_unit_def\<close>)
  next
    case one
    have printed: "print_num (NFrac neg s n) @ r = (if neg then js ''-'' else []) @ ?ds @ ?ex"
      using one k s by (auto simp: show_frac_def Let_def)
    have f: "parse_fraction ?ex = Some (None, ?ex)" and d: "digit_stop ?ex"
      unfolding ex by (rule parse_fraction_exponent) simp
    show ?thesis unfolding printed
      by (subst parse_number_parts [OF ds(1) _ _ d f e]) (use one k ds in \<open>simp_all add: number\<close>)
  next
    case many
    have printed: "print_num (NFrac neg s n) @ r = (if neg then js ''-'' else []) @ take 1 ?ds @ 46 # drop 1 ?ds @ ?ex"
      using many k s by (auto simp: show_frac_def Let_def js_def)
    have "digit_stop ?ex" unfolding ex by simp
    note f = parse_fraction_digits [OF first(2) [of 1] _ this]
    have "take 1 ?ds \<noteq> []" "drop 1 ?ds \<noteq> []" using many by auto
    then show ?thesis unfolding printed
      by (subst parse_number_parts [OF first(1) [of 1] _ _ _ f e]) (use many k in \<open>simp_all add: number join len\<close>)
  qed
qed

lemma finite_reads_back:
  assumes "num_isFinite x" and "num_wf x"
  shows "num_reads_back exact_decimal x"
proof (cases x)
  case (NFrac neg s n)
  have "\<exists>c t. show_frac s n = c # t \<and> is_digit_unit c"
  proof -
    obtain c t where c: "show_nat s = c # t" "is_digit_unit c" using show_nat_digits [of s] by (cases "show_nat s") auto
    then show ?thesis by (auto simp: show_frac_def Let_def js_def take_Cons' is_digit_unit_def split: if_splits)
  qed
  then show ?thesis using print_frac_reads assms(2) by (auto simp: num_reads_back_def NFrac js_def)
next
  case (NInt i)
  show ?thesis
  proof (cases "\<bar>i\<bar> \<le> max_safe_integer")
    case True
    then show ?thesis using safe_reads_back NInt by simp
  next
    case False
    let ?ds = "show_nat (nat \<bar>i\<bar>)"
    have printed: "print_num x = (if i < 0 then js ''-'' else []) @ ?ds" by (simp add: NInt show_int_def)
    have "0 < nat \<bar>i\<bar>" using False by (simp add: max_safe_integer_def)
    then have "hd ?ds \<noteq> 48" using hd_show_nat by simp
    then have "parse_number exact_decimal (print_num x @ r) = Some (x, r)" if "value_stop r" for r
      unfolding printed append_assoc
      by (subst parse_number_parts [OF show_nat_digits _ _ value_stop_digit_stop [OF that] parse_fraction_stop [OF that]
            parse_exponent_stop [OF that]])
        (use False assms(2) in \<open>auto simp: number_of_decimal_def Let_def exact_decimal_def NInt\<close>)
    then show ?thesis using show_int_head [of i] by (auto simp: num_reads_back_def NInt)
  qed
qed (use assms safe_reads_back in auto)

lemma json_wf_readable: "json_wf j \<Longrightarrow> json_readable exact_decimal j"
  by (induction j) (auto simp: list_all_iff finite_reads_back)

lemma json_parse_exact: "json_wf j \<Longrightarrow> json_parse exact_decimal (print_json j) = Some (json_read j)"
  by (rule json_parse_readable [OF json_wf_readable])

end
