(* ===== verification/Js_Utf8.thy ===== *)
theory Js_Utf8
  imports Js_Regex
begin

text \<open>
  \<open>TextEncoder.encode\<close>, the bytes every digest of the packages is taken over. The main fact
  is \<open>utf8_encode_inject\<close>: on well-formed UTF-16 (every surrogate in a pair) the encoding is
  injective, so equal bytes are equal texts.
\<close>

section \<open>Encoding\<close>

type_synonym byte = "8 word"

text \<open>\<open>TextEncoder.encode\<close>: a lone surrogate becomes U+FFFD.\<close>

definition scalar_value :: "nat \<Rightarrow> nat" where
  "scalar_value c = (if 0xD800 \<le> c \<and> c \<le> 0xDFFF then 0xFFFD else c)"

definition utf8_of_scalar :: "nat \<Rightarrow> nat list" where
  "utf8_of_scalar c =
     (if c < 0x80 then [c]
      else if c < 0x800 then [0xC0 + c div 64, 0x80 + c mod 64]
      else if c < 0x10000 then [0xE0 + c div 64 div 64, 0x80 + c div 64 mod 64, 0x80 + c mod 64]
      else [0xF0 + c div 64 div 64 div 64, 0x80 + c div 64 div 64 mod 64, 0x80 + c div 64 mod 64,
            0x80 + c mod 64])"

definition utf8_encode :: "jstr \<Rightarrow> byte list" where
  "utf8_encode s = map of_nat (concat (map (\<lambda>c. utf8_of_scalar (scalar_value c)) (code_points s)))"

text \<open>Well-formed UTF-16: every surrogate belongs to a pair (\<open>String.isWellFormed\<close>).\<close>

fun well_formed_utf16 :: "jstr \<Rightarrow> bool" where
  "well_formed_utf16 [] = True"
| "well_formed_utf16 [u] = (\<not> is_high_surrogate u \<and> \<not> is_low_surrogate u)"
| "well_formed_utf16 (u # v # us) =
     (if is_high_surrogate u then is_low_surrogate v \<and> well_formed_utf16 us
      else \<not> is_low_surrogate u \<and> well_formed_utf16 (v # us))"

section \<open>Code points determine the string\<close>

definition units_of_code_point :: "nat \<Rightarrow> jstr" where
  "units_of_code_point c =
     (if c < 0x10000 then [of_nat c]
      else [of_nat (0xD800 + (c - 0x10000) div 0x400), of_nat (0xDC00 + (c - 0x10000) mod 0x400)])"

lemma units_of_unat: "units_of_code_point (unat u) = [u]" for u :: code_unit
  using unsigned_less [of u] by (simp add: units_of_code_point_def)

lemma units_of_surrogate_pair:
  assumes "is_high_surrogate u" and "is_low_surrogate v"
  shows "units_of_code_point (surrogate_pair u v) = [u, v]"
proof -
  have u: "0xD800 \<le> unat u" and v: "0xDC00 \<le> unat v" "unat v \<le> 0xDFFF"
    using assms by (simp_all add: is_high_surrogate_def is_low_surrogate_def word_le_nat_alt)
  define a b where "a = unat u - 0xD800" and "b = unat v - 0xDC00"
  have ab: "surrogate_pair u v = 0x10000 + (a * 0x400 + b)" "b < 0x400"
    using v by (simp_all add: surrogate_pair_def a_def b_def)
  then have "(surrogate_pair u v - 0x10000) div 0x400 = a" "(surrogate_pair u v - 0x10000) mod 0x400 = b"
    by simp_all
  moreover have "\<not> surrogate_pair u v < 0x10000" using ab(1) by simp
  ultimately have "units_of_code_point (surrogate_pair u v) = [of_nat (0xD800 + a), of_nat (0xDC00 + b)]"
    by (simp only: units_of_code_point_def if_False)
  also have "0xD800 + a = unat u" using u by (simp add: a_def)
  also have "0xDC00 + b = unat v" using v by (simp add: b_def)
  finally show ?thesis by simp
qed

lemma units_of_code_points: "concat (map units_of_code_point (code_points s)) = s"
  by (induction s rule: code_points.induct) (simp_all add: units_of_unat units_of_surrogate_pair)

lemma code_points_inject: "code_points s = code_points t \<longleftrightarrow> s = t"
  by (metis units_of_code_points)

definition is_scalar :: "nat \<Rightarrow> bool" where
  "is_scalar c \<longleftrightarrow> c < 0x110000 \<and> \<not> (0xD800 \<le> c \<and> c \<le> 0xDFFF)"

lemma surrogate_pair_scalar:
  assumes "is_high_surrogate u" and "is_low_surrogate v"
  shows "is_scalar (surrogate_pair u v)"
proof -
  have "unat u \<le> 0xDBFF" "0xD800 \<le> unat u" "unat v \<le> 0xDFFF" "0xDC00 \<le> unat v"
    using assms by (simp_all add: is_high_surrogate_def is_low_surrogate_def word_le_nat_alt)
  then have "(unat u - 0xD800) * 0x400 \<le> 0x3FF * 0x400" "unat v - 0xDC00 \<le> 0x3FF"
    by simp_all
  then show ?thesis by (auto simp: is_scalar_def surrogate_pair_def)
qed

lemma unit_scalar:
  assumes "\<not> is_high_surrogate u" and "\<not> is_low_surrogate u"
  shows "is_scalar (unat u)"
proof -
  have "unat u < 65536" using unsigned_less [of u, where 'a = nat] by simp
  with assms show ?thesis
    by (auto simp: is_scalar_def is_high_surrogate_def is_low_surrogate_def word_le_nat_alt)
qed

lemma well_formed_scalars: "well_formed_utf16 s \<Longrightarrow> list_all is_scalar (code_points s)"
  by (induction s rule: well_formed_utf16.induct)
    (auto simp: surrogate_pair_scalar unit_scalar split: if_splits)

section \<open>The encoding is injective\<close>

lemma div_mod_64_inject: "(c::nat) div 64 = d div 64 \<Longrightarrow> c mod 64 = d mod 64 \<Longrightarrow> c = d"
  by (metis div_mult_mod_eq)

lemma utf8_lead_bounds:
  "c < 0x800 \<Longrightarrow> c div 64 < 32" "c < 0x10000 \<Longrightarrow> c div 64 div 64 < 16"
  "c < 0x110000 \<Longrightarrow> c div 64 div 64 div 64 < 5" for c :: nat
  by (simp_all add: less_mult_imp_div_less)

lemma utf8_of_scalar_prefix_free:
  assumes "utf8_of_scalar c @ r = utf8_of_scalar d @ t"
  shows "c = d \<and> r = t"
proof -
  consider "c < 0x80" | "0x80 \<le> c" "c < 0x800" | "0x800 \<le> c" "c < 0x10000" | "0x10000 \<le> c"
    by linarith
  then show ?thesis
  proof cases
    case 1
    then show ?thesis using assms by (simp add: utf8_of_scalar_def split: if_splits)
  next
    case 2
    then show ?thesis using assms utf8_lead_bounds(1) [of c] div_mod_64_inject [of c d]
      by (simp add: utf8_of_scalar_def split: if_splits)
  next
    case 3
    then show ?thesis using assms utf8_lead_bounds(1) [of d] utf8_lead_bounds(2) [of c]
        div_mod_64_inject [of "c div 64" "d div 64"] div_mod_64_inject [of c d]
      by (simp add: utf8_of_scalar_def split: if_splits)
  next
    case 4
    then show ?thesis using assms utf8_lead_bounds(1) [of d] utf8_lead_bounds(2) [of d]
        div_mod_64_inject [of "c div 64 div 64" "d div 64 div 64"]
        div_mod_64_inject [of "c div 64" "d div 64"] div_mod_64_inject [of c d]
      by (simp add: utf8_of_scalar_def split: if_splits)
  qed
qed

lemma utf8_of_scalar_not_Nil [simp]: "utf8_of_scalar c \<noteq> []"
  by (simp add: utf8_of_scalar_def)

lemma utf8_concat_inject:
  "concat (map utf8_of_scalar cs) = concat (map utf8_of_scalar ds) \<Longrightarrow> cs = ds"
proof (induction cs arbitrary: ds)
  case Nil
  then show ?case by (cases ds) auto
next
  case (Cons c cs)
  then obtain d ds' where ds: "ds = d # ds'" by (cases ds) auto
  with Cons.prems have "c = d \<and> concat (map utf8_of_scalar cs) = concat (map utf8_of_scalar ds')"
    by (intro utf8_of_scalar_prefix_free) simp
  with Cons.IH ds show ?case by blast
qed

lemma utf8_of_scalar_bytes:
  assumes "c < 0x110000" and "b \<in> set (utf8_of_scalar c)"
  shows "b < 256"
proof -
  have m: "0x80 + x mod 64 < 256" for x :: nat
    using mod_less_divisor [of 64 x] by linarith
  show ?thesis
    using assms(2) utf8_lead_bounds [of c] assms(1) m
    by (auto simp: utf8_of_scalar_def split: if_splits)
qed

lemma of_nat_byte_inject:
  assumes "\<forall>x \<in> set xs \<union> set ys. x < 256"
    and "map (of_nat :: nat \<Rightarrow> byte) xs = map of_nat ys"
  shows "xs = ys"
proof -
  have "map unat (map (of_nat :: nat \<Rightarrow> byte) zs) = zs" if "\<forall>z \<in> set zs. z < 256" for zs
    using that by (induction zs) (simp_all add: unat_of_nat)
  then show ?thesis using assms by (metis UnCI)
qed

lemma scalar_value_id: "list_all is_scalar cs \<Longrightarrow> map scalar_value cs = cs"
  by (induction cs) (auto simp: is_scalar_def scalar_value_def)

theorem utf8_encode_inject:
  assumes "well_formed_utf16 s" and "well_formed_utf16 t"
  shows "utf8_encode s = utf8_encode t \<longleftrightarrow> s = t"
proof
  assume eq: "utf8_encode s = utf8_encode t"
  let ?b = "\<lambda>s. concat (map utf8_of_scalar (code_points s))"
  have enc: "utf8_encode s = map of_nat (?b s)" and small: "\<forall>x \<in> set (?b s). x < 256"
    if "well_formed_utf16 s" for s
  proof -
    have sc: "list_all is_scalar (code_points s)" using that by (rule well_formed_scalars)
    have "concat (map (\<lambda>c. utf8_of_scalar (scalar_value c)) (code_points s))
        = concat (map utf8_of_scalar (map scalar_value (code_points s)))"
      by (simp add: comp_def)
    then show "utf8_encode s = map of_nat (?b s)"
      using scalar_value_id [OF sc] by (simp only: utf8_encode_def)
    show "\<forall>x \<in> set (?b s). x < 256"
      using sc utf8_of_scalar_bytes by (auto simp: list_all_iff is_scalar_def)
  qed
  have "?b s = ?b t"
    using eq enc [OF assms(1)] enc [OF assms(2)] small [OF assms(1)] small [OF assms(2)]
    by (intro of_nat_byte_inject) auto
  then have "code_points s = code_points t" by (rule utf8_concat_inject)
  then show "s = t" by (simp only: code_points_inject)
qed simp

section \<open>Building well-formed text\<close>

lemma well_formed_append:
  "well_formed_utf16 s \<Longrightarrow> well_formed_utf16 t \<Longrightarrow> well_formed_utf16 (s @ t)"
proof (induction s rule: well_formed_utf16.induct)
  case (2 u)
  then show ?case by (cases t) auto
next
  case (3 u v us)
  then show ?case by (cases us) (auto split: if_splits)
qed simp

lemma well_formed_plain_unit:
  "unat u < 0xD800 \<Longrightarrow> well_formed_utf16 [u]"
  by (simp add: is_high_surrogate_def is_low_surrogate_def word_le_nat_alt)

lemma well_formed_plain: "\<forall>u \<in> set s. unat u < 0xD800 \<Longrightarrow> well_formed_utf16 s"
proof (induction s)
  case (Cons u s)
  then show ?case
    using well_formed_append [of "[u]" s] well_formed_plain_unit [of u] by simp
qed simp

lemma well_formed_js [simp]: "well_formed_utf16 (js s)"
proof (rule well_formed_plain)
  have "of_char c < (0xD800::nat)" for c
    by (rule less_trans [of _ 256]) (metis mod_less_divisor of_char_mod_256 zero_less_numeral, simp)
  then show "\<forall>u \<in> set (js s). unat u < 0xD800" by (simp add: js_def)
qed

end
