(* ===== verification/Canonical.thy ===== *)
theory Canonical
  imports Js_Decimal Js_Utf8
begin

text \<open>
  The canonical JSON component, \<open>packages/packets/src/canonical.ts\<close>: conversion of an unknown
  value to \<open>JsonValue\<close>, canonical text (object keys sorted by UTF-16 code units), packet
  hashes, and the structural difference of two packets.

  \<open>canonical_form\<close> is the abstract specification: the value with its keys sorted at every
  depth. The component is correct because the text it writes is the text of that form
  (\<open>stringify_eq_print\<close>), determines it (\<open>stringify_inject\<close>) and reads back to it
  (\<open>parse_stringify\<close>); \<open>snapshot_of_text\<close> carries that to values, \<open>sha256_hex_inject\<close> to
  hashes, \<open>diff_Nil_iff\<close> and \<open>diff_sound\<close> to differences.
\<close>

section \<open>Runtime\<close>

text \<open>
  What the code takes from \<open>globalThis\<close>: SHA-256 of Web Crypto (absent, or a function that may
  reject), \<open>TextEncoder\<close>, and the rounding of decimals of \<open>JSON.parse\<close>.
\<close>

record js_runtime =
  rt_digest :: "(byte list \<Rightarrow> byte list option) option"
  rt_encoder :: bool
  rt_decimal :: decimal_rounding

section \<open>The model\<close>

datatype packet_type_error =
    NonFiniteNumber jstr
  | UnsupportedValue jstr
  | CryptoUnavailable

datatype packet_diff_entry =
    DiffAdd jstr json
  | DiffRemove jstr json
  | DiffReplace jstr json json

definition replace_unit :: "code_unit \<Rightarrow> jstr \<Rightarrow> jstr \<Rightarrow> jstr" where
  "replace_unit c r s = concat (map (\<lambda>u. if u = c then r else [u]) s)"

definition escapeJsonPointerSegment :: "jstr \<Rightarrow> jstr" where
  "escapeJsonPointerSegment segment = replace_unit 47 (js ''~1'') (replace_unit 126 (js ''~0'') segment)"

function toJsonValue :: "jsval \<Rightarrow> jstr \<Rightarrow> packet_type_error + json" where
  "toJsonValue JNull path = Inr JsonNull"
| "toJsonValue (JStr s) path = Inr (JsonStr s)"
| "toJsonValue (JBool b) path = Inr (JsonBool b)"
| "toJsonValue (JNum n) path =
     (if \<not> num_isFinite n then Inl (NonFiniteNumber path) else Inr (JsonNum n))"
| "toJsonValue (JArr vs) path =
     bind_result
       (map_result (\<lambda>(i, v). toJsonValue v (path @ js ''/'' @ show_nat i)) (enumerate 0 vs))
       (\<lambda>js. Inr (JsonArr js))"
| "toJsonValue (JObj p fs) path =
     bind_result
       (map_result (\<lambda>(k, v). bind_result (toJsonValue v (path @ js ''/'' @ escapeJsonPointerSegment k))
                               (\<lambda>j. Inr (k, j))) fs)
       (\<lambda>es. Inr (JsonObj es))"
| "toJsonValue JUndef path = Inl (UnsupportedValue path)"
| "toJsonValue JOther path = Inl (UnsupportedValue path)"
  by pat_completeness auto
termination
proof (relation "measure (\<lambda>(v, path). size v)")
  fix vs :: "jsval list" and x :: "nat \<times> jsval" and i v and path :: jstr
  assume "x \<in> set (enumerate 0 vs)" and "(i, v) = x"
  then have "v \<in> set vs" by (metis enumerate_eq_zip set_zip_rightD)
  then show "((v, path @ js ''/'' @ show_nat i), JArr vs, path) \<in> measure (\<lambda>(v, path). size v)"
    by (auto simp: size_list_estimation' less_Suc_eq_le)
next
  fix p :: bool and fs :: "(jstr \<times> jsval) list" and x :: "jstr \<times> jsval" and k v and path :: jstr
  assume "x \<in> set fs" and "(k, v) = x"
  then have "size v < size (JObj p fs)"
    by (induction fs) auto
  then show "((v, path @ js ''/'' @ escapeJsonPointerSegment k), JObj p fs, path)
      \<in> measure (\<lambda>(v, path). size v)" by simp
qed simp

fun stringifyCanonicalJsonValue :: "json \<Rightarrow> jstr" where
  "stringifyCanonicalJsonValue JsonNull = js ''null''"
| "stringifyCanonicalJsonValue (JsonBool b) = js (if b then ''true'' else ''false'')"
| "stringifyCanonicalJsonValue (JsonNum n) = print_num n"
| "stringifyCanonicalJsonValue (JsonStr s) = quote_json s"
| "stringifyCanonicalJsonValue (JsonArr vs) =
     js ''['' @ json_join (map stringifyCanonicalJsonValue vs) @ js '']''"
| "stringifyCanonicalJsonValue (JsonObj fs) =
     js ''{'' @ json_join (map (\<lambda>(k, t). quote_json k @ js '':'' @ t)
       (sort_key fst (map (\<lambda>(k, v). (k, stringifyCanonicalJsonValue v)) fs))) @ js ''}''"

definition canonicalizeJsonValue :: "jsval \<Rightarrow> packet_type_error + jstr" where
  "canonicalizeJsonValue value =
     bind_result (toJsonValue value []) (\<lambda>j. Inr (stringifyCanonicalJsonValue j))"

definition canonicalizeUniversalPacket :: "jsval \<Rightarrow> packet_type_error + jstr" where
  "canonicalizeUniversalPacket packet = canonicalizeJsonValue packet"

definition bytesToHex :: "byte list \<Rightarrow> jstr" where
  "bytesToHex bytes = concat (map (\<lambda>b. [hex_digit (unat b div 16), hex_digit (unat b mod 16)]) bytes)"

text \<open>The digest of a text in hexadecimal; \<open>None\<close> when the runtime cannot produce it.\<close>

definition sha256_hex :: "('a js_runtime_scheme) \<Rightarrow> jstr \<Rightarrow> jstr option" where
  "sha256_hex rt text =
     (case rt_digest rt of
        None \<Rightarrow> None
      | Some digest \<Rightarrow>
          if \<not> rt_encoder rt then None else map_option bytesToHex (digest (utf8_encode text)))"

definition hashUniversalPacket :: "('a js_runtime_scheme) \<Rightarrow> jsval \<Rightarrow> packet_type_error + jstr" where
  "hashUniversalPacket rt packet =
     bind_result (canonicalizeUniversalPacket packet) (\<lambda>canonicalPacket.
       case sha256_hex rt canonicalPacket of
         None \<Rightarrow> Inl CryptoUnavailable
       | Some hash \<Rightarrow> Inr (js ''sha256:'' @ hash))"

lemma size_map_of_json: "map_of fs k = Some v \<Longrightarrow> size v < size (JsonObj fs)"
  by (induction fs) (auto split: if_splits)

function diffJsonValues :: "json \<Rightarrow> json \<Rightarrow> jstr \<Rightarrow> packet_diff_entry list" where
  "diffJsonValues before after path =
     (if stringifyCanonicalJsonValue before = stringifyCanonicalJsonValue after then []
      else (case (before, after) of
         (JsonObj bs, JsonObj as) \<Rightarrow>
           concat (map (\<lambda>key.
             let keyPath = path @ js ''/'' @ escapeJsonPointerSegment key
             in (case (map_of bs key, map_of as key) of
                   (None, Some a) \<Rightarrow> [DiffAdd keyPath a]
                 | (Some b, None) \<Rightarrow> [DiffRemove keyPath b]
                 | (Some b, Some a) \<Rightarrow> diffJsonValues b a keyPath
                 | (None, None) \<Rightarrow> []))
             (sort (remdups (map fst bs @ map fst as))))
       | _ \<Rightarrow> [DiffReplace path before after]))"
  by pat_completeness auto
termination
  by (relation "measure (\<lambda>(b, a, path). size b)") (auto dest: size_map_of_json [OF sym])

declare diffJsonValues.simps [simp del]

definition diffUniversalPackets ::
  "jsval \<Rightarrow> jsval \<Rightarrow> packet_type_error + packet_diff_entry list" where
  "diffUniversalPackets before after =
     bind_result (toJsonValue before []) (\<lambda>b.
       bind_result (toJsonValue after []) (\<lambda>a. Inr (diffJsonValues b a [])))"

text \<open>The value \<open>JSON.parse\<close> builds, as a value of type \<open>unknown\<close>.\<close>

fun of_json :: "json \<Rightarrow> jsval" where
  "of_json JsonNull = JNull"
| "of_json (JsonBool b) = JBool b"
| "of_json (JsonNum n) = JNum n"
| "of_json (JsonStr s) = JStr s"
| "of_json (JsonArr vs) = JArr (map of_json vs)"
| "of_json (JsonObj fs) = JObj True (map (\<lambda>(k, v). (k, of_json v)) fs)"

definition js_JSON_parse :: "('a js_runtime_scheme) \<Rightarrow> jstr \<Rightarrow> jsval option" where
  "js_JSON_parse rt text = map_option of_json (json_parse (rt_decimal rt) text)"

text \<open>
  \<open>JSON.stringify\<close> of a value without \<open>toJSON\<close> methods: \<open>undefined\<close> and functions are left out of
  objects, become \<open>null\<close> in arrays, and give no text at the top. The copy through both functions
  fails when there is no text.
\<close>

fun js_stringify :: "jsval \<Rightarrow> jstr option" where
  "js_stringify JUndef = None"
| "js_stringify JOther = None"
| "js_stringify JNull = Some (js ''null'')"
| "js_stringify (JBool b) = Some (js (if b then ''true'' else ''false''))"
| "js_stringify (JNum n) = Some (print_num n)"
| "js_stringify (JStr s) = Some (quote_json s)"
| "js_stringify (JArr vs) =
     Some (js ''['' @ json_join (map (\<lambda>v. case js_stringify v of None \<Rightarrow> js ''null'' | Some t \<Rightarrow> t) vs)
       @ js '']'')"
| "js_stringify (JObj p fs) =
     Some (js ''{'' @ json_join (concat (map (\<lambda>(k, v). case js_stringify v of None \<Rightarrow> []
       | Some t \<Rightarrow> [quote_json k @ js '':'' @ t]) fs)) @ js ''}'')"

definition js_stringify_parse :: "('a js_runtime_scheme) \<Rightarrow> jsval \<Rightarrow> jsval option" where
  "js_stringify_parse rt v = (case js_stringify v of None \<Rightarrow> None | Some t \<Rightarrow> js_JSON_parse rt t)"

section \<open>Canonical form\<close>

fun canonical_form :: "json \<Rightarrow> json" where
  "canonical_form (JsonNum n) = JsonNum (if n = NNegZero then NInt 0 else n)"
| "canonical_form (JsonArr vs) = JsonArr (map canonical_form vs)"
| "canonical_form (JsonObj fs) = JsonObj (sort_key fst (map (\<lambda>(k, v). (k, canonical_form v)) fs))"
| "canonical_form v = v"

lemma print_num_NegZero: "print_num (if n = NNegZero then NInt 0 else n) = print_num n"
  by (simp add: show_int_def show_nat_def nat_digits.simps digit_unit_def js_def)

lemma stringify_eq_print: "stringifyCanonicalJsonValue j = print_json (canonical_form j)"
proof (induction j)
  case (JsonArr vs)
  then have "map stringifyCanonicalJsonValue vs = map print_json (map canonical_form vs)" by simp
  then show ?case
    by (simp only: stringifyCanonicalJsonValue.simps canonical_form.simps print_json.simps)
next
  case (JsonObj fs)
  then have "map (\<lambda>(k, v). (k, stringifyCanonicalJsonValue v)) fs
      = map (\<lambda>(k, v). (k, print_json v)) (map (\<lambda>(k, v). (k, canonical_form v)) fs)"
    by fastforce
  then have "sort_key fst (map (\<lambda>(k, v). (k, stringifyCanonicalJsonValue v)) fs)
      = map (\<lambda>(k, v). (k, print_json v)) (sort_key fst (map (\<lambda>(k, v). (k, canonical_form v)) fs))"
    by (simp only: sort_key_fst_map_snd)
  then show ?case by (simp add: case_prod_unfold comp_def)
qed (simp_all only: stringifyCanonicalJsonValue.simps canonical_form.simps print_json.simps
    print_num_NegZero)

lemma canonical_form_ok: "json_ok j \<Longrightarrow> json_ok (canonical_form j)"
proof (induction j)
  case (JsonNum n)
  then show ?case by (cases n) (auto simp: max_safe_integer_def)
next
  case (JsonObj fs)
  have "distinct (map fst (sort_key fst (map (\<lambda>(k, v). (k, canonical_form v)) fs)))"
    using JsonObj.prems by (simp only: sort_key_fst_map_snd map_fst_map_snd)
      (simp add: distinct_map inj_on_def)
  with JsonObj show ?case by (fastforce simp: list_all_iff)
qed (auto simp: list_all_iff)

lemma canonical_form_idem [simp]: "canonical_form (canonical_form j) = canonical_form j"
proof (induction j)
  case (JsonObj fs)
  then have "map (\<lambda>(k, v). (k, canonical_form v)) (map (\<lambda>(k, v). (k, canonical_form v)) fs)
      = map (\<lambda>(k, v). (k, canonical_form v)) fs"
    by fastforce
  then show ?case by (simp only: canonical_form.simps sort_key_fst_map_snd [symmetric] sort_key_simps
      sort_key_stable) (simp add: sort_key_id_if_sorted)
qed auto

lemma canonical_form_own_key_order:
  assumes "distinct (map fst fs)"
  shows "canonical_form (JsonObj (own_key_order fs)) = canonical_form (JsonObj fs)"
proof -
  have "sort_key fst (own_key_order fs) = sort_key fst fs"
    by (rule sort_key_cong_mset [symmetric]) (simp_all add: assms)
  then show ?thesis by (simp add: sort_key_fst_map_snd)
qed

lemma canonical_form_json_read: "json_wf j \<Longrightarrow> canonical_form (json_read j) = canonical_form j"
proof (induction j)
  case (JsonNum n)
  then show ?case by (cases n) auto
next
  case (JsonObj fs)
  then have "map (\<lambda>(k, v). (k, canonical_form v)) (map member_read fs)
      = map (\<lambda>(k, v). (k, canonical_form v)) fs"
    by (fastforce simp: list_all_iff)
  moreover have "canonical_form (JsonObj (own_key_order (map member_read fs)))
      = canonical_form (JsonObj (map member_read fs))"
    using JsonObj.prems by (intro canonical_form_own_key_order) (simp only: json_wf.simps map_fst_map_snd)
  ultimately show ?case by (simp only: json_read.simps canonical_form.simps)
qed (auto simp: list_all_iff)

text \<open>\<open>JSON.parse\<close> of a canonical text succeeds and gives a value of the same canonical form.\<close>

lemma parse_stringify:
  assumes "json_ok j"
  shows "\<exists>j'. json_parse dec (stringifyCanonicalJsonValue j) = Some j' \<and> json_ok j'
    \<and> canonical_form j' = canonical_form j"
proof -
  let ?c = "canonical_form j"
  have ok: "json_ok ?c" using assms by (rule canonical_form_ok)
  have "json_parse dec (stringifyCanonicalJsonValue j) = Some (json_read ?c)"
    using json_parse_print [OF ok] by (simp add: stringify_eq_print)
  moreover have "canonical_form (json_read ?c) = canonical_form j"
    using canonical_form_json_read [OF json_ok_wf [OF ok]] by simp
  moreover have "json_ok (json_read ?c)" using ok by (rule json_read_ok)
  ultimately show ?thesis by blast
qed

lemma canonical_form_wf: "json_wf j \<Longrightarrow> json_wf (canonical_form j)"
proof (induction j)
  case (JsonObj fs)
  have "distinct (map fst (sort_key fst (map (\<lambda>(k, v). (k, canonical_form v)) fs)))"
    using JsonObj.prems by (simp only: sort_key_fst_map_snd map_fst_map_snd)
      (simp add: distinct_map inj_on_def)
  with JsonObj show ?case by (fastforce simp: list_all_iff)
qed (auto simp: list_all_iff)

text \<open>The text determines the content, for all finite numbers.\<close>

lemma stringify_inject:
  assumes "json_wf a" and "json_wf b"
  shows "stringifyCanonicalJsonValue a = stringifyCanonicalJsonValue b
    \<longleftrightarrow> canonical_form a = canonical_form b"
proof
  assume eq: "stringifyCanonicalJsonValue a = stringifyCanonicalJsonValue b"
  have "canonical_form (json_read (canonical_form j)) = canonical_form j" if "json_wf j" for j
    using canonical_form_json_read [OF canonical_form_wf [OF that]] by simp
  then show "canonical_form a = canonical_form b"
    using eq json_parse_exact [OF canonical_form_wf [OF assms(1)]] json_parse_exact [OF canonical_form_wf [OF assms(2)]] assms
    unfolding stringify_eq_print by (metis option.inject)
qed (simp add: stringify_eq_print)

section \<open>Objects as finite maps\<close>

lemma map_of_sort_key_fst:
  "distinct (map fst fs) \<Longrightarrow> map_of (sort_key fst fs) = map_of fs"
  by (rule map_of_mset_cong [symmetric]) simp_all

lemma canonical_form_obj_iff:
  assumes "distinct (map fst fs)" and "distinct (map fst gs)"
  shows "canonical_form (JsonObj fs) = canonical_form (JsonObj gs)
    \<longleftrightarrow> (\<forall>k. map_option canonical_form (map_of fs k) = map_option canonical_form (map_of gs k))"
proof -
  let ?c = "\<lambda>hs. map (\<lambda>(k, v). (k, canonical_form v)) hs"
  have d: "distinct (map fst (?c fs))" "distinct (map fst (?c gs))"
    using assms by (simp_all only: map_fst_map_snd)
  have "sort_key fst (?c fs) = sort_key fst (?c gs) \<longleftrightarrow> map_of (?c fs) = map_of (?c gs)"
  proof
    assume "sort_key fst (?c fs) = sort_key fst (?c gs)"
    then show "map_of (?c fs) = map_of (?c gs)" using map_of_sort_key_fst d by metis
  next
    assume "map_of (?c fs) = map_of (?c gs)"
    then have "set (?c fs) = set (?c gs)" using d by (simp only: map_of_inject_set)
    then have "mset (?c fs) = mset (?c gs)"
      using d by (metis distinct_map set_eq_iff_mset_eq_distinct)
    then show "sort_key fst (?c fs) = sort_key fst (?c gs)" using d(1) by (rule sort_key_cong_mset)
  qed
  then show ?thesis by (simp add: fun_eq_iff map_of_map_snd)
qed

section \<open>Conversion\<close>

lemma entry_result_rel:
  "(\<lambda>x y. (case x of (k, v) \<Rightarrow> bind_result (f k v) (\<lambda>j. Inr (k, j))) = Inr y)
   = (\<lambda>(k, v) (k', j). k = k' \<and> f k v = Inr j)"
  by (auto simp: fun_eq_iff bind_result_eq_Inr_iff)

text \<open>The path is only for messages: a conversion that succeeds gives one result.\<close>

lemma toJsonValue_path: "toJsonValue v p = Inr j \<Longrightarrow> toJsonValue v q = Inr j"
proof (induction v p arbitrary: q j rule: toJsonValue.induct)
  case (5 vs path)
  from "5.prems" obtain js' where js': "j = JsonArr js'"
    and all: "list_all2 (\<lambda>(i, v) j. toJsonValue v (path @ js ''/'' @ show_nat i) = Inr j)
      (enumerate 0 vs) js'"
    by (auto simp: bind_result_eq_Inr_iff map_result_Inr_iff case_prod_unfold)
  have "list_all2 (\<lambda>(i, v) j. toJsonValue v (q @ js ''/'' @ show_nat i) = Inr j) (enumerate 0 vs) js'"
  proof (rule list.rel_mono_strong [OF all])
    fix x y
    assume x: "x \<in> set (enumerate 0 vs)"
      and c: "(case x of (i, v) \<Rightarrow> \<lambda>j. toJsonValue v (path @ js ''/'' @ show_nat i) = Inr j) y"
    obtain i v where iv: "x = (i, v)" by fastforce
    from c have "toJsonValue v (path @ js ''/'' @ show_nat i) = Inr y" by (simp only: iv prod.case)
    from "5.IH" [OF x iv [symmetric] this]
    show "(case x of (i, v) \<Rightarrow> \<lambda>j. toJsonValue v (q @ js ''/'' @ show_nat i) = Inr j) y"
      by (simp only: iv prod.case)
  qed
  then have "map_result (\<lambda>(i, v). toJsonValue v (q @ js ''/'' @ show_nat i)) (enumerate 0 vs) = Inr js'"
    by (simp add: map_result_Inr_iff case_prod_unfold)
  then show ?case by (simp add: js')
next
  case (6 p fs path)
  from "6.prems" obtain es where es: "j = JsonObj es"
    and all: "list_all2 (\<lambda>(k, v) (k', j). k = k'
      \<and> toJsonValue v (path @ js ''/'' @ escapeJsonPointerSegment k) = Inr j) fs es"
    unfolding toJsonValue.simps bind_result_eq_Inr_iff map_result_Inr_iff entry_result_rel
    by blast
  have "list_all2 (\<lambda>(k, v) (k', j). k = k'
      \<and> toJsonValue v (q @ js ''/'' @ escapeJsonPointerSegment k) = Inr j) fs es"
  proof (rule list.rel_mono_strong [OF all])
    fix x y
    assume x: "x \<in> set fs" and c: "(case x of (k, v) \<Rightarrow> \<lambda>(k', j). k = k'
      \<and> toJsonValue v (path @ js ''/'' @ escapeJsonPointerSegment k) = Inr j) y"
    obtain k v k' j where kv: "x = (k, v)" "y = (k', j)" by fastforce
    from c have "k = k'" and t: "toJsonValue v (path @ js ''/'' @ escapeJsonPointerSegment k) = Inr j"
      unfolding kv prod.case by blast+
    with "6.IH" [OF x kv(1) [symmetric] t]
    show "(case x of (k, v) \<Rightarrow> \<lambda>(k', j). k = k'
      \<and> toJsonValue v (q @ js ''/'' @ escapeJsonPointerSegment k) = Inr j) y"
      by (simp only: kv prod.case)
  qed
  then have "map_result (\<lambda>(k, v). bind_result (toJsonValue v (q @ js ''/'' @ escapeJsonPointerSegment k))
      (\<lambda>j. Inr (k, j))) fs = Inr es"
    unfolding map_result_Inr_iff entry_result_rel .
  then show ?case by (simp add: es)
qed (auto split: if_splits)

text \<open>\<open>jsonable v j\<close>: the value \<open>v\<close> converts to \<open>j\<close>.\<close>

definition jsonable :: "jsval \<Rightarrow> json \<Rightarrow> bool" where
  "jsonable v j \<longleftrightarrow> toJsonValue v [] = Inr j"

lemma toJsonValue_iff_jsonable: "toJsonValue v p = Inr j \<longleftrightarrow> jsonable v j"
  unfolding jsonable_def by (blast intro: toJsonValue_path)

lemma jsonable_simps [simp]:
  "jsonable JNull j \<longleftrightarrow> j = JsonNull"
  "jsonable (JStr s) j \<longleftrightarrow> j = JsonStr s"
  "jsonable (JBool b) j \<longleftrightarrow> j = JsonBool b"
  "jsonable (JNum n) j \<longleftrightarrow> j = JsonNum n \<and> num_isFinite n"
  "\<not> jsonable JUndef j" "\<not> jsonable JOther j"
  by (auto simp: jsonable_def)

lemma list_all2_enumerate_snd:
  "list_all2 (\<lambda>(i, v) j. R v j) (enumerate n vs) js' \<longleftrightarrow> list_all2 R vs js'"
  by (induction vs arbitrary: n js') (auto simp: list_all2_Cons1)

lemma jsonable_array: "jsonable (JArr vs) j \<longleftrightarrow> (\<exists>js'. j = JsonArr js' \<and> list_all2 jsonable vs js')"
  unfolding jsonable_def toJsonValue.simps bind_result_eq_Inr_iff map_result_Inr_iff
  by (simp add: case_prod_unfold toJsonValue_iff_jsonable
      list_all2_enumerate_snd [of jsonable, unfolded case_prod_unfold])
    (auto simp: jsonable_def [abs_def])

abbreviation entry_rel :: "(jsval \<Rightarrow> json \<Rightarrow> bool) \<Rightarrow> jstr \<times> jsval \<Rightarrow> jstr \<times> json \<Rightarrow> bool" where
  "entry_rel R \<equiv> (\<lambda>(k, v) (k', j). k = k' \<and> R v j)"

lemma jsonable_object:
  "jsonable (JObj p fs) j \<longleftrightarrow> (\<exists>es. j = JsonObj es \<and> list_all2 (entry_rel jsonable) fs es)"
proof -
  show ?thesis
    unfolding jsonable_def [of "JObj p fs"] toJsonValue.simps bind_result_eq_Inr_iff
      map_result_Inr_iff entry_result_rel toJsonValue_iff_jsonable
    by blast
qed

lemma entry_rel_map_of:
  "list_all2 (entry_rel R) fs es \<Longrightarrow> map fst es = map fst fs
    \<and> rel_option R (map_of fs k) (map_of es k)"
  by (induction rule: list_all2_induct) auto

text \<open>Numbers of the value are safe integers, at every depth.\<close>

fun js_safe_numbers :: "jsval \<Rightarrow> bool" where
  "js_safe_numbers (JNum n) = num_isSafeInteger n"
| "js_safe_numbers (JArr vs) = list_all js_safe_numbers vs"
| "js_safe_numbers (JObj p fs) = list_all (\<lambda>(k, v). js_safe_numbers v) fs"
| "js_safe_numbers _ = True"

lemma list_all2_imp_list_all:
  "list_all2 R xs ys \<Longrightarrow> (\<And>x y. x \<in> set xs \<Longrightarrow> R x y \<Longrightarrow> P y) \<Longrightarrow> list_all P ys"
  by (induction rule: list_all2_induct) auto

lemma jsonable_ok: "jsonable v j \<Longrightarrow> js_wf v \<Longrightarrow> js_safe_numbers v \<Longrightarrow> json_ok j"
proof (induction v arbitrary: j)
  case (JArr vs)
  then obtain js' where "j = JsonArr js'" "list_all2 jsonable vs js'" by (auto simp: jsonable_array)
  moreover from this(2) have "list_all json_ok js'"
    by (rule list_all2_imp_list_all) (use JArr in \<open>auto simp: list_all_iff\<close>)
  ultimately show ?case by simp
next
  case (JObj p fs)
  then obtain es where es: "j = JsonObj es" "list_all2 (entry_rel jsonable) fs es"
    by (auto simp: jsonable_object)
  have "json_ok j'" if "(k, j') \<in> set es" for k j'
  proof -
    from that es(2) obtain v where v: "(k, v) \<in> set fs" "jsonable v j'"
      by (fastforce simp: list_all2_conv_all_nth in_set_conv_nth)
    then show ?thesis using JObj by (fastforce simp: list_all_iff)
  qed
  then show ?case using es entry_rel_map_of [OF es(2)] JObj.prems by (auto simp: list_all_iff)
qed auto

lemma jsonable_wf: "jsonable v j \<Longrightarrow> js_wf v \<Longrightarrow> json_wf j"
proof (induction v arbitrary: j)
  case (JArr vs)
  then obtain js' where "j = JsonArr js'" "list_all2 jsonable vs js'" by (auto simp: jsonable_array)
  moreover from this(2) have "list_all json_wf js'"
    by (rule list_all2_imp_list_all) (use JArr in \<open>auto simp: list_all_iff\<close>)
  ultimately show ?case by simp
next
  case (JObj p fs)
  then obtain es where es: "j = JsonObj es" "list_all2 (entry_rel jsonable) fs es"
    by (auto simp: jsonable_object)
  have "json_wf j'" if "(k, j') \<in> set es" for k j'
  proof -
    from that es(2) obtain v where v: "(k, v) \<in> set fs" "jsonable v j'"
      by (fastforce simp: list_all2_conv_all_nth in_set_conv_nth)
    then show ?thesis using JObj by (fastforce simp: list_all_iff)
  qed
  then show ?case using es entry_rel_map_of [OF es(2)] JObj.prems by (auto simp: list_all_iff)
qed auto

lemma jsonable_of_json: "json_ok j \<Longrightarrow> jsonable (of_json j) j"
proof (induction j)
  case (JsonNum n)
  then show ?case by (cases n) auto
next
  case (JsonArr vs)
  then show ?case by (auto simp: jsonable_array list_all2_map1 list_all_iff intro!: list.rel_refl_strong)
next
  case (JsonObj fs)
  then show ?case
    by (fastforce simp: jsonable_object list_all2_map1 list_all_iff intro!: list.rel_refl_strong)
qed auto

section \<open>The bytes that are hashed\<close>

lemma hex_digit_plain: "d < 16 \<Longrightarrow> unat (hex_digit d) < 0xD800"
  by (simp add: unat_hex_digit)

lemma well_formed_Cons_plain:
  "unat u < 0xD800 \<Longrightarrow> well_formed_utf16 s \<Longrightarrow> well_formed_utf16 (u # s)"
  using well_formed_append [of "[u]" s] well_formed_plain_unit [of u] by simp

lemma unat_div_4096: "unat (u :: code_unit) div 4096 < 16"
proof -
  have "unat u < 16 * 4096" using unsigned_less [of u, where 'a = nat] by simp
  then show ?thesis by (rule less_mult_imp_div_less)
qed

lemma well_formed_quote_unit: "well_formed_utf16 (quote_unit u)"
proof -
  have p: "unat (92::code_unit) < 0xD800" "unat (34::code_unit) < 0xD800" by simp_all
  have "well_formed_utf16 (unicode_escape u)"
    unfolding unicode_escape_def
    by (intro well_formed_append well_formed_js well_formed_Cons_plain hex_digit_plain unat_div_4096)
      simp_all
  moreover have "well_formed_utf16 [u]" if "\<not> is_surrogate u"
    using that by (simp add: is_surrogate_def)
  moreover have "well_formed_utf16 [92, 34]" "well_formed_utf16 [92, 92]"
    by (intro well_formed_Cons_plain p; simp)+
  ultimately show ?thesis
    unfolding quote_unit_def by (simp del: well_formed_utf16.simps)
qed

lemma well_formed_quote_units: "well_formed_utf16 (quote_units s)"
proof (induction s rule: quote_units.induct)
  case (3 u v us)
  then show ?case
    using well_formed_append [OF well_formed_quote_unit [of u]] by simp
qed (simp_all del: well_formed_utf16.simps(2,3) add: well_formed_quote_unit)

lemma well_formed_quote_json: "well_formed_utf16 (quote_json s)"
  unfolding quote_json_def
  by (intro well_formed_append well_formed_quote_units well_formed_plain_unit) simp_all

lemma show_nat_plain: "u \<in> set (show_nat n) \<Longrightarrow> unat u < 0xD800"
  using nat_digits_bound by (fastforce simp: show_nat_def)

lemma well_formed_show_nat: "well_formed_utf16 (show_nat n)"
  using show_nat_plain by (intro well_formed_plain) blast

lemma well_formed_print_num: "well_formed_utf16 (print_num n)"
proof (cases n)
  case (NInt i)
  then show ?thesis by (simp add: show_int_def well_formed_append well_formed_show_nat)
next
  case (NFrac neg s k)
  have ds: "well_formed_utf16 (take m (show_nat s))" "well_formed_utf16 (drop m (show_nat s))" for m
    using show_nat_plain by (auto intro!: well_formed_plain dest: in_set_takeD in_set_dropD)
  have "well_formed_utf16 (replicate m (digit_unit 0))" for m
    by (rule well_formed_plain) simp
  then show ?thesis
    by (auto simp: NFrac show_frac_def Let_def
        intro!: well_formed_append well_formed_show_nat ds well_formed_js)
qed simp_all

lemma well_formed_json_join:
  "list_all well_formed_utf16 xs \<Longrightarrow> well_formed_utf16 (json_join xs)"
  by (induction xs rule: json_join.induct) (auto intro!: well_formed_append)

lemma well_formed_print_json: "well_formed_utf16 (print_json j)"
proof (induction j)
  case (JsonArr vs)
  then show ?case
    by (auto simp: list_all_iff intro!: well_formed_append well_formed_json_join)
next
  case (JsonObj fs)
  then have "list_all well_formed_utf16 (map (\<lambda>(k, v). quote_json k @ js '':'' @ print_json v) fs)"
    by (auto simp: list_all_iff intro!: well_formed_append well_formed_quote_json)
  then show ?case
    by (auto intro!: well_formed_append well_formed_json_join)
qed (auto simp: well_formed_print_num well_formed_quote_json)

text \<open>The hexadecimal text determines the bytes.\<close>

lemma hex_digit_inject: "d < 16 \<Longrightarrow> e < 16 \<Longrightarrow> hex_digit d = hex_digit e \<Longrightarrow> d = e"
  by (metis hex_value_hex_digit option.inject)

lemma byte_hex_inject:
  fixes b c :: byte
  assumes "hex_digit (unat b div 16) = hex_digit (unat c div 16)"
    and "hex_digit (unat b mod 16) = hex_digit (unat c mod 16)"
  shows "b = c"
proof -
  have "unat x div 16 < 16" for x :: byte
    using unsigned_less [of x, where 'a = nat]
    by (intro less_mult_imp_div_less) simp
  with assms have "unat b div 16 = unat c div 16" "unat b mod 16 = unat c mod 16"
    by (auto intro: hex_digit_inject)
  then have "unat b = unat c" by (metis div_mult_mod_eq)
  then show ?thesis by (rule unsigned_word_eqI)
qed

lemma bytesToHex_inject: "bytesToHex bs = bytesToHex cs \<longleftrightarrow> bs = cs"
proof
  show "bytesToHex bs = bytesToHex cs \<Longrightarrow> bs = cs"
  proof (induction bs arbitrary: cs)
    case Nil
    then show ?case by (cases cs) (auto simp: bytesToHex_def)
  next
    case (Cons b bs)
    then obtain c cs' where "cs = c # cs'" by (cases cs) (auto simp: bytesToHex_def)
    with Cons show ?case by (auto simp: bytesToHex_def dest: byte_hex_inject)
  qed
qed simp

text \<open>Two different byte strings with one digest.\<close>

definition digest_collision :: "('a js_runtime_scheme) \<Rightarrow> byte list \<Rightarrow> byte list \<Rightarrow> bool" where
  "digest_collision rt xs ys \<longleftrightarrow>
     xs \<noteq> ys \<and> (\<exists>digest d. rt_digest rt = Some digest \<and> digest xs = Some d \<and> digest ys = Some d)"

lemma sha256_hex_inject:
  assumes "sha256_hex rt s = Some h" and "sha256_hex rt t = Some h"
    and "well_formed_utf16 s" and "well_formed_utf16 t"
  shows "s = t \<or> digest_collision rt (utf8_encode s) (utf8_encode t)"
  using assms
  by (auto simp: sha256_hex_def digest_collision_def utf8_encode_inject bytesToHex_inject
      split: option.splits if_splits)

section \<open>Difference\<close>

lemma diff_step_equal:
  "stringifyCanonicalJsonValue a = stringifyCanonicalJsonValue b \<Longrightarrow> diffJsonValues a b p = []"
  by (subst diffJsonValues.simps) simp

abbreviation diff_key :: "(jstr \<times> json) list \<Rightarrow> (jstr \<times> json) list \<Rightarrow> jstr \<Rightarrow> jstr \<Rightarrow> packet_diff_entry list" where
  "diff_key bs as p key \<equiv>
     (let keyPath = p @ js ''/'' @ escapeJsonPointerSegment key
      in (case (map_of bs key, map_of as key) of
            (None, Some a) \<Rightarrow> [DiffAdd keyPath a]
          | (Some b, None) \<Rightarrow> [DiffRemove keyPath b]
          | (Some b, Some a) \<Rightarrow> diffJsonValues b a keyPath
          | (None, None) \<Rightarrow> []))"

lemma diff_step_objects:
  "stringifyCanonicalJsonValue (JsonObj bs) \<noteq> stringifyCanonicalJsonValue (JsonObj as) \<Longrightarrow>
   diffJsonValues (JsonObj bs) (JsonObj as) p
   = concat (map (diff_key bs as p) (sort (remdups (map fst bs @ map fst as))))"
  by (subst diffJsonValues.simps) (simp only: if_False json.case prod.case)

lemma diff_step_replace:
  assumes "stringifyCanonicalJsonValue a \<noteq> stringifyCanonicalJsonValue b"
    and "\<not> (\<exists>bs as. a = JsonObj bs \<and> b = JsonObj as)"
  shows "diffJsonValues a b p = [DiffReplace p a b]"
  using assms by (subst diffJsonValues.simps) (cases a; cases b; simp)

lemma json_ok_map_of: "json_ok (JsonObj fs) \<Longrightarrow> map_of fs k = Some v \<Longrightarrow> json_ok v"
  by (auto simp: list_all_iff dest!: map_of_SomeD)

lemma json_wf_map_of: "json_wf (JsonObj fs) \<Longrightarrow> map_of fs k = Some v \<Longrightarrow> json_wf v"
  by (auto simp: list_all_iff dest!: map_of_SomeD)

lemma diff_Nil_iff:
  "json_wf a \<Longrightarrow> json_wf b \<Longrightarrow> diffJsonValues a b p = [] \<longleftrightarrow> canonical_form a = canonical_form b"
proof (induction a arbitrary: b p rule: measure_induct_rule [of size])
  case (less a)
  show ?case
  proof (cases "stringifyCanonicalJsonValue a = stringifyCanonicalJsonValue b")
    case True
    then show ?thesis using less.prems diff_step_equal stringify_inject by simp
  next
    case False
    then have neq: "canonical_form a \<noteq> canonical_form b" using less.prems stringify_inject by blast
    show ?thesis
    proof (cases "\<exists>bs as. a = JsonObj bs \<and> b = JsonObj as")
      case True
      then obtain bs as where ab: "a = JsonObj bs" "b = JsonObj as" by blast
      have "distinct (map fst bs)" "distinct (map fst as)" using less.prems ab by simp_all
      with neq ab obtain k where
        k: "map_option canonical_form (map_of bs k) \<noteq> map_option canonical_form (map_of as k)"
        using canonical_form_obj_iff by blast
      have "diff_key bs as p k \<noteq> []"
        using k less.IH less.prems size_map_of_json
        by (auto simp: ab Let_def json_wf_map_of simp del: json_wf.simps split: option.splits)
      moreover have "k \<in> set (sort (remdups (map fst bs @ map fst as)))"
      proof (rule ccontr)
        assume "k \<notin> set (sort (remdups (map fst bs @ map fst as)))"
        then have "map_of bs k = None" "map_of as k = None" by (auto simp: map_of_eq_None_iff)
        with k show False by simp
      qed
      ultimately have "diffJsonValues a b p \<noteq> []"
        using False unfolding ab by (subst diff_step_objects) (auto simp del: set_sort)
      with neq show ?thesis by blast
    next
      case no: False
      then show ?thesis using diff_step_replace [OF False no] neq by simp
    qed
  qed
qed

text \<open>Where an entry points: the object keys from the root, and the value found there.\<close>

definition json_pointer :: "jstr list \<Rightarrow> jstr" where
  "json_pointer ks = concat (map (\<lambda>k. js ''/'' @ escapeJsonPointerSegment k) ks)"

fun json_at :: "json \<Rightarrow> jstr list \<Rightarrow> json option" where
  "json_at j [] = Some j"
| "json_at (JsonObj fs) (k # ks) = (case map_of fs k of None \<Rightarrow> None | Some v \<Rightarrow> json_at v ks)"
| "json_at _ (k # ks) = None"

fun diff_entry_sound :: "json \<Rightarrow> json \<Rightarrow> jstr \<Rightarrow> packet_diff_entry \<Rightarrow> bool" where
  "diff_entry_sound a b p (DiffAdd q v) =
     (\<exists>ks. q = p @ json_pointer ks \<and> json_at a ks = None \<and> json_at b ks = Some v)"
| "diff_entry_sound a b p (DiffRemove q v) =
     (\<exists>ks. q = p @ json_pointer ks \<and> json_at a ks = Some v \<and> json_at b ks = None)"
| "diff_entry_sound a b p (DiffReplace q v w) =
     (\<exists>ks. q = p @ json_pointer ks \<and> json_at a ks = Some v \<and> json_at b ks = Some w
       \<and> canonical_form v \<noteq> canonical_form w)"

lemma json_pointer_Cons:
  "json_pointer (k # ks) = js ''/'' @ escapeJsonPointerSegment k @ json_pointer ks"
  by (simp add: json_pointer_def)

lemma diff_entry_sound_key:
  assumes "map_of bs k = Some b" and "map_of as k = Some a"
    and "diff_entry_sound b a (p @ js ''/'' @ escapeJsonPointerSegment k) e"
  shows "diff_entry_sound (JsonObj bs) (JsonObj as) p e"
proof (cases e)
  case (DiffAdd q v)
  with assms obtain ks where "q = p @ json_pointer (k # ks)" "json_at b ks = None" "json_at a ks = Some v"
    by (auto simp: json_pointer_Cons)
  with DiffAdd assms show ?thesis by (auto intro!: exI [of _ "k # ks"])
next
  case (DiffRemove q v)
  with assms obtain ks where "q = p @ json_pointer (k # ks)" "json_at b ks = Some v" "json_at a ks = None"
    by (auto simp: json_pointer_Cons)
  with DiffRemove assms show ?thesis by (auto intro!: exI [of _ "k # ks"])
next
  case (DiffReplace q v w)
  with assms obtain ks where "q = p @ json_pointer (k # ks)" "json_at b ks = Some v"
    "json_at a ks = Some w" "canonical_form v \<noteq> canonical_form w"
    by (auto simp: json_pointer_Cons)
  with DiffReplace assms show ?thesis by (auto intro!: exI [of _ "k # ks"])
qed

lemma diff_key_sound:
  assumes "e \<in> set (diff_key bs as p k)"
    and "\<And>b a q. map_of bs k = Some b \<Longrightarrow> map_of as k = Some a \<Longrightarrow> e \<in> set (diffJsonValues b a q)
      \<Longrightarrow> diff_entry_sound b a q e"
  shows "diff_entry_sound (JsonObj bs) (JsonObj as) p e"
proof -
  have ptr: "p @ js ''/'' @ escapeJsonPointerSegment k = p @ json_pointer [k]"
    by (simp add: json_pointer_def)
  show ?thesis
  proof (cases "map_of bs k")
    case None
    then show ?thesis using assms(1)
      by (cases "map_of as k") (auto simp: Let_def ptr simp del: append_assoc intro!: exI [of _ "[k]"])
  next
    case (Some b)
    then show ?thesis using assms
      by (cases "map_of as k")
        (auto simp: Let_def ptr intro!: exI [of _ "[k]"] intro: diff_entry_sound_key [unfolded ptr])
  qed
qed

lemma diff_sound:
  "json_wf a \<Longrightarrow> json_wf b \<Longrightarrow> e \<in> set (diffJsonValues a b p) \<Longrightarrow> diff_entry_sound a b p e"
proof (induction a arbitrary: b p rule: measure_induct_rule [of size])
  case (less a)
  then have neq: "stringifyCanonicalJsonValue a \<noteq> stringifyCanonicalJsonValue b"
    using diff_step_equal by fastforce
  show ?case
  proof (cases "\<exists>bs as. a = JsonObj bs \<and> b = JsonObj as")
    case True
    then obtain bs as where ab: "a = JsonObj bs" "b = JsonObj as" by blast
    from less.prems(3) obtain k where "e \<in> set (diff_key bs as p k)"
      unfolding ab diff_step_objects [OF neq [unfolded ab]] by (auto simp del: Let_def)
    then show ?thesis unfolding ab
      by (rule diff_key_sound)
        (use less.IH less.prems size_map_of_json json_wf_map_of in \<open>unfold ab, blast\<close>)
  next
    case False
    with neq less.prems have "e = DiffReplace p a b" using diff_step_replace by fastforce
    then show ?thesis using neq less.prems stringify_inject
      by (auto intro!: exI [of _ "[]"] simp: json_pointer_def)
  qed
qed

text \<open>Escaping is injective and leaves no separator, so a pointer determines its keys.\<close>

lemma escape_segment:
  "escapeJsonPointerSegment k =
     concat (map (\<lambda>u. if u = 126 then [126, 48] else if u = 47 then [126, 49] else [u]) k)"
  by (induction k) (auto simp: escapeJsonPointerSegment_def replace_unit_def js_def)

lemma escape_no_separator: "47 \<notin> set (escapeJsonPointerSegment k)"
  by (auto simp: escape_segment split: if_splits)

lemma escape_inject: "escapeJsonPointerSegment k = escapeJsonPointerSegment l \<longleftrightarrow> k = l"
proof
  show "escapeJsonPointerSegment k = escapeJsonPointerSegment l \<Longrightarrow> k = l"
  proof (induction k arbitrary: l)
    case Nil
    then show ?case by (cases l) (auto simp: escape_segment split: if_splits)
  next
    case (Cons u k)
    then show ?case by (cases l) (auto simp: escape_segment split: if_splits)
  qed
qed simp

lemma json_pointer_head: "json_pointer ks = [] \<or> (\<exists>t. json_pointer ks = 47 # t)"
  by (cases ks) (auto simp: json_pointer_Cons js_def json_pointer_def)

lemma split_at_separator:
  assumes "xs @ s = ys @ t" and "c \<notin> set xs" and "c \<notin> set ys"
    and "s = [] \<or> (\<exists>r. s = c # r)" and "t = [] \<or> (\<exists>r. t = c # r)"
  shows "xs = ys \<and> s = t"
proof -
  have "takeWhile (\<lambda>x. x \<noteq> c) (zs @ r) = zs" if "c \<notin> set zs" "r = [] \<or> (\<exists>r'. r = c # r')" for zs r
  proof -
    have "takeWhile (\<lambda>x. x \<noteq> c) (zs @ r) = zs @ takeWhile (\<lambda>x. x \<noteq> c) r"
      using that(1) by (intro takeWhile_append2) auto
    then show ?thesis using that(2) by auto
  qed
  from this [OF assms(2,4)] this [OF assms(3,5)] assms(1) have "xs = ys" by simp
  with assms(1) show ?thesis by simp
qed

lemma json_pointer_inject: "json_pointer ks = json_pointer ls \<longleftrightarrow> ks = ls"
proof
  show "json_pointer ks = json_pointer ls \<Longrightarrow> ks = ls"
  proof (induction ks arbitrary: ls)
    case Nil
    then show ?case by (cases ls) (auto simp: json_pointer_def)
  next
    case (Cons k ks)
    then obtain l ls' where ls: "ls = l # ls'" by (cases ls) (auto simp: json_pointer_def)
    with Cons.prems have "escapeJsonPointerSegment k @ json_pointer ks
        = escapeJsonPointerSegment l @ json_pointer ls'"
      by (simp add: json_pointer_Cons)
    then have "escapeJsonPointerSegment k = escapeJsonPointerSegment l \<and> json_pointer ks = json_pointer ls'"
      using escape_no_separator json_pointer_head by (intro split_at_separator) auto
    with Cons.IH ls show ?case by (simp add: escape_inject)
  qed
qed simp

section \<open>Snapshots\<close>

text \<open>
  The components read a value through \<open>JSON.parse\<close> of its text. \<open>js_snapshot v w\<close> says that
  \<open>w\<close> is such a copy of \<open>v\<close>: the same data, with plain prototypes, \<open>-0\<close> read as \<open>0\<close>, and the
  properties of an object possibly in another order.
\<close>

inductive js_snapshot :: "jsval \<Rightarrow> jsval \<Rightarrow> bool" where
  snapshot_null: "js_snapshot JNull JNull"
| snapshot_bool: "js_snapshot (JBool b) (JBool b)"
| snapshot_str: "js_snapshot (JStr s) (JStr s)"
| snapshot_num: "js_snapshot (JNum n) (JNum (if n = NNegZero then NInt 0 else n))"
| snapshot_arr: "list_all2 js_snapshot vs ws \<Longrightarrow> js_snapshot (JArr vs) (JArr ws)"
| snapshot_obj: "distinct (map fst fs) \<Longrightarrow> distinct (map fst gs) \<Longrightarrow>
    (\<forall>k. rel_option js_snapshot (map_of fs k) (map_of gs k)) \<Longrightarrow>
    js_snapshot (JObj p fs) (JObj True gs)"
monos list.rel_mono option.rel_mono

inductive_simps js_snapshot_simps [simp]:
  "js_snapshot JUndef w" "js_snapshot JNull w" "js_snapshot (JBool b) w" "js_snapshot (JNum n) w"
  "js_snapshot (JStr s) w" "js_snapshot (JArr vs) w" "js_snapshot JOther w"

inductive_cases js_snapshot_objE: "js_snapshot (JObj p fs) w"

lemma js_snapshot_get:
  assumes "js_snapshot (JObj p fs) w"
  shows "(js_has w k \<longleftrightarrow> js_has (JObj p fs) k)
    \<and> (js_has w k \<longrightarrow> js_snapshot (js_get (JObj p fs) k) (js_get w k))"
proof -
  from assms obtain gs where w: "w = JObj True gs"
    and rel: "rel_option js_snapshot (map_of fs k) (map_of gs k)"
    by (auto elim: js_snapshot_objE)
  then show ?thesis
    by (auto simp: js_has_iff_map_of elim: option.rel_cases)
qed

text \<open>Values made of JSON data, with safe integers as numbers.\<close>

fun js_data :: "jsval \<Rightarrow> bool" where
  "js_data JUndef = False"
| "js_data JOther = False"
| "js_data (JNum n) = num_isSafeInteger n"
| "js_data (JArr vs) = list_all js_data vs"
| "js_data (JObj p fs) = list_all (\<lambda>(k, v). js_data v) fs"
| "js_data _ = True"

lemma list_all_ex_list_all2: "list_all (\<lambda>x. \<exists>y. R x y) xs \<Longrightarrow> \<exists>ys. list_all2 R xs ys"
  by (induction xs) (auto simp: list_all2_Cons1)

lemma num_safe_finite: "num_isSafeInteger n \<Longrightarrow> num_isFinite n"
  by (cases n) auto

lemma js_data_jsonable: "js_data v \<Longrightarrow> \<exists>j. jsonable v j"
proof (induction v)
  case (JNum n)
  then show ?case by (simp add: num_safe_finite)
next
  case (JArr vs)
  then have "list_all (\<lambda>v. \<exists>j. jsonable v j) vs" by (auto simp: list_all_iff)
  from list_all_ex_list_all2 [OF this] show ?case by (auto simp: jsonable_array)
next
  case (JObj p fs)
  then have "list_all (\<lambda>e. \<exists>e'. entry_rel jsonable e e') fs" by (fastforce simp: list_all_iff)
  from list_all_ex_list_all2 [OF this] show ?case by (auto simp: jsonable_object)
qed auto

lemma js_data_safe_numbers: "js_data v \<Longrightarrow> js_safe_numbers v"
  by (induction v) (fastforce simp: list_all_iff)+

lemma js_data_json:
  assumes "js_data v" and "js_wf v"
  obtains j where "jsonable v j" and "json_ok j"
  using js_data_jsonable [OF assms(1)] jsonable_ok [OF _ assms(2) js_data_safe_numbers [OF assms(1)]]
  by blast

lemma canonical_form_num_iff:
  "canonical_form c = canonical_form (JsonNum n) \<longleftrightarrow>
   (\<exists>m. c = JsonNum m \<and> (if m = NNegZero then NInt 0 else m) = (if n = NNegZero then NInt 0 else n))"
  by (cases c) auto

lemma canonical_form_scalar_iff:
  "canonical_form c = JsonNull \<longleftrightarrow> c = JsonNull"
  "canonical_form c = JsonBool b \<longleftrightarrow> c = JsonBool b"
  "canonical_form c = JsonStr s \<longleftrightarrow> c = JsonStr s"
  by (cases c; auto)+

lemma map_of_own_key_order:
  "distinct (map fst fs) \<Longrightarrow> map_of (own_key_order fs) = map_of fs"
  by (rule map_of_mset_cong [symmetric]) simp_all

lemma json_ok_obj: "json_ok (JsonObj fs) \<Longrightarrow> distinct (map fst fs)"
  by simp

lemma distinct_own_key_order: "distinct (map fst (own_key_order fs)) \<longleftrightarrow> distinct (map fst fs)"
proof (rule mset_eq_imp_distinct_iff)
  show "mset (map fst (own_key_order fs)) = mset (map fst fs)"
    by (simp only: mset_map mset_own_key_order)
qed

lemma of_json_read_obj:
  assumes "json_ok (JsonObj cs)"
  shows "\<exists>gs. of_json (json_read (JsonObj cs)) = JObj True gs \<and> distinct (map fst gs)
    \<and> (\<forall>k. map_of gs k = map_option (\<lambda>c. of_json (json_read c)) (map_of cs k))"
proof -
  let ?r = "own_key_order (map member_read cs)"
  let ?gs = "map (\<lambda>(k, v). (k, of_json v)) ?r"
  have d: "distinct (map fst (map member_read cs))"
    using json_ok_obj [OF assms] by (simp only: map_fst_map_snd)
  then have "distinct (map fst ?r)" by (simp only: distinct_own_key_order)
  then have "distinct (map fst ?gs)" by (simp only: map_fst_map_snd)
  moreover have "map_of ?gs k = map_option (\<lambda>c. of_json (json_read c)) (map_of cs k)" for k
    by (simp only: map_of_map_snd map_of_own_key_order [OF d] option.map_comp comp_def)
  ultimately show ?thesis by simp
qed

lemma snapshot_of_text:
  "jsonable v j \<Longrightarrow> json_ok j \<Longrightarrow> json_ok c \<Longrightarrow> canonical_form c = canonical_form j
    \<Longrightarrow> js_snapshot v (of_json (json_read c))"
proof (induction v arbitrary: j c)
  case (JNum n)
  then obtain m where "c = JsonNum m"
    "(if m = NNegZero then NInt 0 else m) = (if n = NNegZero then NInt 0 else n)"
    by (auto simp: canonical_form_num_iff simp del: canonical_form.simps)
  then show ?case using JNum.prems by (cases m; cases n) auto
next
  case (JArr vs)
  then obtain js' where j: "j = JsonArr js'" "list_all2 jsonable vs js'" by (auto simp: jsonable_array)
  with JArr.prems obtain cs where c: "c = JsonArr cs" "map canonical_form cs = map canonical_form js'"
    by (cases c) auto
  have "list_all2 js_snapshot vs (map (\<lambda>c. of_json (json_read c)) cs)"
    unfolding list_all2_conv_all_nth
  proof (intro conjI allI impI)
    show len: "length vs = length (map (\<lambda>c. of_json (json_read c)) cs)"
      using j(2) c(2) by (metis length_map list_all2_lengthD)
    fix i assume i: "i < length vs"
    have "jsonable (vs ! i) (js' ! i)" "json_ok (js' ! i)" "json_ok (cs ! i)"
      "canonical_form (cs ! i) = canonical_form (js' ! i)"
      using j c JArr.prems i len list_all2_nthD [OF j(2) i]
      by (auto simp: list_all_length list_all2_lengthD dest: arg_cong [of _ _ "\<lambda>xs. xs ! i"])
    from JArr.IH [OF nth_mem [OF i] this] show
      "js_snapshot (vs ! i) (map (\<lambda>c. of_json (json_read c)) cs ! i)"
      using i len by simp
  qed
  then show ?case by (simp add: c comp_def)
next
  case (JObj p fs)
  then obtain es where j: "j = JsonObj es" and es: "list_all2 (entry_rel jsonable) fs es"
    by (auto simp: jsonable_object)
  with JObj.prems obtain cs where c: "c = JsonObj cs" by (cases c) auto
  have de: "distinct (map fst es)" "distinct (map fst cs)" using JObj.prems j c json_ok_obj by auto
  with JObj.prems(4) have canon: "map_option canonical_form (map_of cs k) = map_option canonical_form (map_of es k)" for k
    unfolding j c canonical_form_obj_iff [OF de(2,1)] by blast
  from of_json_read_obj [OF JObj.prems(3) [unfolded c]] obtain gs where
    gs: "of_json (json_read c) = JObj True gs" "distinct (map fst gs)"
    and get: "\<And>k. map_of gs k = map_option (\<lambda>c. of_json (json_read c)) (map_of cs k)"
    unfolding c by blast
  have "rel_option js_snapshot (map_of fs k) (map_of gs k)" for k
  proof (cases "map_of fs k")
    case None
    then show ?thesis using entry_rel_map_of [OF es, of k] canon [of k] get [of k] by auto
  next
    case (Some v)
    with entry_rel_map_of [OF es, of k] obtain e where e: "map_of es k = Some e" "jsonable v e"
      by (auto elim: option.rel_cases)
    with canon [of k] obtain d where d: "map_of cs k = Some d" "canonical_form d = canonical_form e"
      by auto
    have "json_ok e" "json_ok d"
      using json_ok_map_of [OF JObj.prems(2) [unfolded j] e(1)]
        json_ok_map_of [OF JObj.prems(3) [unfolded c] d(1)] .
    from JObj.IH [OF map_of_SomeD [OF Some] _ e(2) this d(2)]
    have "js_snapshot v (of_json (json_read d))" by simp
    then show ?thesis using Some d get [of k] by simp
  qed
  moreover have "distinct (map fst fs)" using entry_rel_map_of [OF es] de by simp
  ultimately show ?case using gs by (simp add: snapshot_obj)
qed (simp_all add: canonical_form_scalar_iff)

lemma js_stringify_jsonable: "jsonable v j \<Longrightarrow> js_stringify v = Some (print_json j)"
proof (induction v arbitrary: j)
  case (JArr vs)
  then obtain ks where j: "j = JsonArr ks" "list_all2 jsonable vs ks" by (auto simp: jsonable_array)
  have "map (\<lambda>v. case js_stringify v of None \<Rightarrow> js ''null'' | Some t \<Rightarrow> t) vs = map print_json ks"
    using j(2) JArr.IH by (induction rule: list_all2_induct) auto
  then show ?case by (simp add: j)
next
  case (JObj p fs)
  then obtain es where j: "j = JsonObj es" and es: "list_all2 (entry_rel jsonable) fs es"
    by (auto simp: jsonable_object)
  have "concat (map (\<lambda>(k, v). case js_stringify v of None \<Rightarrow> []
       | Some t \<Rightarrow> [quote_json k @ js '':'' @ t]) fs)
      = map (\<lambda>(k, v). quote_json k @ js '':'' @ print_json v) es"
    using es JObj.IH
  proof (induction rule: list_all2_induct)
    case (Cons x xs y ys)
    obtain k v e where xy: "x = (k, v)" "y = (k, e)" "jsonable v e" using Cons.hyps(1) by (cases x; cases y) auto
    have "js_stringify v = Some (print_json e)" using Cons.prems [of x v e] xy by simp
    moreover have "concat (map (\<lambda>(k, v). case js_stringify v of None \<Rightarrow> []
        | Some t \<Rightarrow> [quote_json k @ js '':'' @ t]) xs) = map (\<lambda>(k, v). quote_json k @ js '':'' @ print_json v) ys"
      by (rule Cons.IH, rule Cons.prems) simp_all
    ultimately show ?case by (simp add: xy)
  qed simp
  then show ?case by (simp add: j)
qed auto

lemma stringify_parse_snapshot:
  assumes "jsonable v j" and "json_ok j"
  shows "\<exists>w. js_stringify_parse rt v = Some w \<and> js_snapshot v w"
  using js_stringify_jsonable [OF assms(1)] snapshot_of_text [OF assms assms(2) refl]
  by (simp add: js_stringify_parse_def js_JSON_parse_def json_parse_print [OF assms(2)])

text \<open>Everything a component needs of the canonical text of a value it snapshots.\<close>

lemma canonicalize_reread:
  assumes "jsonable v j" and "json_ok j"
  shows "\<exists>text w. canonicalizeJsonValue v = Inr text \<and> well_formed_utf16 text
    \<and> js_JSON_parse rt text = Some w \<and> js_snapshot v w \<and> canonicalizeJsonValue w = Inr text"
proof -
  let ?c = "canonical_form j"
  have ok: "json_ok ?c" using assms(2) by (rule canonical_form_ok)
  let ?w = "of_json (json_read ?c)"
  have "canonicalizeJsonValue v = Inr (print_json ?c)"
    using assms(1) by (simp add: canonicalizeJsonValue_def jsonable_def stringify_eq_print)
  moreover have "js_JSON_parse rt (print_json ?c) = Some ?w"
    by (simp add: js_JSON_parse_def json_parse_print [OF ok])
  moreover have "js_snapshot v ?w" by (rule snapshot_of_text [OF assms ok]) simp
  moreover have "canonicalizeJsonValue ?w = Inr (print_json ?c)"
    using jsonable_of_json [OF json_read_ok [OF ok]] canonical_form_json_read [OF json_ok_wf [OF ok]]
    by (simp add: canonicalizeJsonValue_def jsonable_def stringify_eq_print)
  ultimately show ?thesis using well_formed_print_json by blast
qed

text \<open>A copy has the content of the original.\<close>

lemma snapshot_content:
  "js_snapshot v w \<Longrightarrow> jsonable v j \<Longrightarrow> \<exists>k. jsonable w k \<and> canonical_form k = canonical_form j"
proof (induction v arbitrary: w j)
  case (JNum n)
  then show ?case by (cases n) auto
next
  case (JArr vs)
  then obtain ws js' where w: "w = JArr ws" "list_all2 js_snapshot vs ws"
    and j: "j = JsonArr js'" "list_all2 jsonable vs js'"
    by (auto simp: jsonable_array)
  from w(2) j(2) JArr.IH have "\<exists>ks. list_all2 jsonable ws ks \<and> map canonical_form ks = map canonical_form js'"
  proof (induction vs arbitrary: ws js')
    case (Cons v vs)
    then obtain x xs y ys where xy: "ws = x # xs" "js' = y # ys" "js_snapshot v x" "jsonable v y"
      "list_all2 js_snapshot vs xs" "list_all2 jsonable vs ys" by (auto simp: list_all2_Cons1)
    obtain k where "jsonable x k" "canonical_form k = canonical_form y"
      using Cons.prems(3) [of v x y] xy by auto
    moreover have "\<exists>ks. list_all2 jsonable xs ks \<and> map canonical_form ks = map canonical_form ys"
      by (rule Cons.IH [OF xy(5,6)], rule Cons.prems(3)) simp_all
    then obtain ks where "list_all2 jsonable xs ks" "map canonical_form ks = map canonical_form ys" by blast
    ultimately show ?case by (intro exI [of _ "k # ks"]) (simp add: xy)
  qed simp
  then show ?case by (auto simp: w j jsonable_array)
next
  case (JObj p fs)
  then obtain gs where w: "w = JObj True gs" and d: "distinct (map fst fs)" "distinct (map fst gs)"
    and rel: "\<And>k. rel_option js_snapshot (map_of fs k) (map_of gs k)"
    by (auto elim: js_snapshot_objE)
  from JObj.prems(2) obtain es where j: "j = JsonObj es" and es: "list_all2 (entry_rel jsonable) fs es"
    by (auto simp: jsonable_object)
  have entry: "\<exists>k. jsonable y k \<and> (\<forall>e. map_of es key = Some e \<longrightarrow> canonical_form k = canonical_form e)"
    if y: "map_of gs key = Some y" for key y
  proof -
    from rel [of key] y obtain x where x: "map_of fs key = Some x" "js_snapshot x y"
      by (auto elim: option.rel_cases)
    with entry_rel_map_of [OF es, of key] obtain e where e: "map_of es key = Some e" "jsonable x e"
      by (auto elim: option.rel_cases)
    from JObj.IH [OF map_of_SomeD [OF x(1)] _ x(2) e(2)] e(1) show ?thesis by auto
  qed
  have "list_all (\<lambda>g. \<exists>h. entry_rel jsonable g h \<and> (\<forall>e. map_of es (fst g) = Some e \<longrightarrow>
      canonical_form (snd h) = canonical_form e)) gs"
    using entry d(2) by (fastforce simp: list_all_iff)
  from list_all_ex_list_all2 [OF this] obtain hs where
    hs: "list_all2 (\<lambda>g h. entry_rel jsonable g h \<and> (\<forall>e. map_of es (fst g) = Some e \<longrightarrow>
      canonical_form (snd h) = canonical_form e)) gs hs" by blast
  then have rel_hs: "list_all2 (entry_rel jsonable) gs hs" by (rule list_all2_mono) blast
  have dh: "distinct (map fst hs)" "distinct (map fst es)"
    using entry_rel_map_of [OF rel_hs] entry_rel_map_of [OF es] d by simp_all
  have "map_option canonical_form (map_of hs key) = map_option canonical_form (map_of es key)" for key
  proof (cases "map_of hs key")
    case None
    then show ?thesis
      using entry_rel_map_of [OF rel_hs, of key] entry_rel_map_of [OF es, of key] rel [of key] by auto
  next
    case (Some h)
    then have h: "(key, h) \<in> set hs" by (rule map_of_SomeD)
    with hs obtain g where g: "g \<in> set gs" "fst g = key"
      "\<forall>e. map_of es key = Some e \<longrightarrow> canonical_form h = canonical_form e"
      by (fastforce simp: list_all2_conv_all_nth in_set_conv_nth)
    have "map_of gs key \<noteq> None" using g by (auto simp: map_of_eq_None_iff)
    then obtain e where "map_of es key = Some e"
      using rel [of key] entry_rel_map_of [OF es, of key] by (auto elim: option.rel_cases)
    with g(3) Some show ?thesis by simp
  qed
  then have "canonical_form (JsonObj hs) = canonical_form (JsonObj es)"
    by (simp only: canonical_form_obj_iff [OF dh] simp_thms)
  with rel_hs show ?case by (auto simp: w j jsonable_object)
qed auto

text \<open>Objects are plain, at every depth.\<close>

fun js_plain :: "jsval \<Rightarrow> bool" where
  "js_plain (JArr vs) = list_all js_plain vs"
| "js_plain (JObj p fs) = (p \<and> list_all (\<lambda>(k, v). js_plain v) fs)"
| "js_plain _ = True"

lemma snapshot_is_plain: "js_snapshot v w \<Longrightarrow> js_plain w"
proof (induction v arbitrary: w)
  case (JArr vs)
  then obtain ws where w: "w = JArr ws" and all: "list_all2 js_snapshot vs ws" by auto
  have "list_all js_plain ws" by (rule list_all2_imp_list_all [OF all]) (use JArr.IH in auto)
  then show ?case by (simp add: w)
next
  case (JObj p fs)
  then obtain gs where w: "w = JObj True gs" and d: "distinct (map fst gs)"
    and rel: "\<And>k. rel_option js_snapshot (map_of fs k) (map_of gs k)"
    by (auto elim: js_snapshot_objE)
  have "js_plain y" if "(k, y) \<in> set gs" for k y
  proof -
    have "map_of gs k = Some y" using that d by simp
    with rel [of k] obtain x where x: "map_of fs k = Some x" "js_snapshot x y"
      by (auto elim: option.rel_cases)
    from JObj.IH [OF map_of_SomeD [OF x(1)] _ x(2)] show ?thesis by simp
  qed
  then show ?case by (auto simp: w list_all_iff)
qed auto

section \<open>The interface of a canonicalizer\<close>

text \<open>Equal content: both values convert, to the same canonical form.\<close>

definition same_content :: "jsval \<Rightarrow> jsval \<Rightarrow> bool" where
  "same_content v w \<longleftrightarrow> (\<exists>a b. jsonable v a \<and> jsonable w b \<and> canonical_form a = canonical_form b)"

text \<open>
  Two packages write canonical text with code of their own (\<open>canonicalizeJsonValue\<close> here,
  \<open>canonicalizeJson\<close> in the approval component) and hash it. What their clients rely on is that
  the text is the one of the canonical form; from it follows that the text is well formed, that
  copies have the same text, and that a digest binds the content.
\<close>

locale canonicalizer =
  fixes canon :: "jsval \<Rightarrow> jstr option"
  assumes canon_text: "canon v = Some t \<Longrightarrow> \<exists>j. jsonable v j \<and> t = stringifyCanonicalJsonValue j"
    and canon_plain: "js_plain v \<Longrightarrow> jsonable v j \<Longrightarrow> canon v = Some (stringifyCanonicalJsonValue j)"
begin

lemma canon_well_formed: "canon v = Some t \<Longrightarrow> well_formed_utf16 t"
  by (drule canon_text) (auto simp: stringify_eq_print well_formed_print_json)

lemma canon_snapshot:
  assumes "js_snapshot v w" and "canon v = Some t"
  shows "canon w = Some t"
proof -
  from canon_text [OF assms(2)] obtain j where j: "jsonable v j" "t = stringifyCanonicalJsonValue j"
    by blast
  from snapshot_content [OF assms(1) j(1)] obtain k where k: "jsonable w k"
    "canonical_form k = canonical_form j" by blast
  from canon_plain [OF snapshot_is_plain [OF assms(1)] k(1)] k(2) j(2) show ?thesis
    by (simp add: stringify_eq_print)
qed

lemma canon_same_content:
  assumes "canon v = Some t" and "canon w = Some t"
    and "js_data v" "js_wf v" "js_data w" "js_wf w"
  shows "same_content v w"
proof -
  obtain a where a: "jsonable v a" "json_ok a" using assms(3,4) by (rule js_data_json)
  obtain b where b: "jsonable w b" "json_ok b" using assms(5,6) by (rule js_data_json)
  have "t = stringifyCanonicalJsonValue a" "t = stringifyCanonicalJsonValue b"
    using canon_text [OF assms(1)] canon_text [OF assms(2)] a(1) b(1) by (auto simp: jsonable_def)
  then have "canonical_form a = canonical_form b" using stringify_inject [OF json_ok_wf [OF a(2)] json_ok_wf [OF b(2)]] by simp
  with a b show ?thesis by (auto simp: same_content_def)
qed

lemma canon_digest_binds:
  assumes "canon v = Some s" and "canon w = Some t" and "sha256_hex rt s = Some h"
    and "sha256_hex rt t = Some h" and "js_data v" "js_wf v" "js_data w" "js_wf w"
  shows "same_content v w \<or> digest_collision rt (utf8_encode s) (utf8_encode t)"
  using sha256_hex_inject [OF assms(3,4) canon_well_formed [OF assms(1)] canon_well_formed [OF assms(2)]]
    canon_same_content [OF assms(1) _ assms(5-8)] assms(2) by auto

end

text \<open>The canonicalizer of the packets package, with its errors as \<open>None\<close>.\<close>

definition canonical_text :: "jsval \<Rightarrow> jstr option" where
  "canonical_text v = (case canonicalizeJsonValue v of Inl e \<Rightarrow> None | Inr t \<Rightarrow> Some t)"

lemma canonical_text_iff: "canonical_text v = Some t \<longleftrightarrow> canonicalizeJsonValue v = Inr t"
  by (simp add: canonical_text_def split: sum.splits)

interpretation packet_text: canonicalizer canonical_text
proof
  show "\<exists>j. jsonable v j \<and> t = stringifyCanonicalJsonValue j" if "canonical_text v = Some t" for v t
    using that by (auto simp: canonical_text_iff canonicalizeJsonValue_def bind_result_eq_Inr_iff jsonable_def)
  show "canonical_text v = Some (stringifyCanonicalJsonValue j)" if "js_plain v" "jsonable v j" for v j
    using that by (simp add: canonical_text_iff canonicalizeJsonValue_def jsonable_def)
qed

section \<open>Properties\<close>

text \<open>What \<open>toJsonValue\<close> can convert: no \<open>undefined\<close>, function or non-finite number anywhere.\<close>

fun js_json_domain :: "jsval \<Rightarrow> bool" where
  "js_json_domain JUndef = False"
| "js_json_domain JOther = False"
| "js_json_domain (JNum n) = num_isFinite n"
| "js_json_domain (JArr vs) = list_all js_json_domain vs"
| "js_json_domain (JObj p fs) = list_all (\<lambda>(k, v). js_json_domain v) fs"
| "js_json_domain _ = True"

lemma ex_list_all2_iff: "(\<exists>ys. list_all2 R xs ys) \<longleftrightarrow> list_all (\<lambda>x. \<exists>y. R x y) xs"
  by (induction xs) (auto simp: list_all2_Cons1)

lemma jsonable_domain: "(\<exists>j. jsonable v j) \<longleftrightarrow> js_json_domain v"
proof (induction v)
  case (JArr vs)
  then show ?case using ex_list_all2_iff [of jsonable vs] by (auto simp: jsonable_array list_all_iff)
next
  case (JObj p fs)
  have "(\<exists>j. jsonable (JObj p fs) j) \<longleftrightarrow> list_all (\<lambda>e. \<exists>e'. entry_rel jsonable e e') fs"
    unfolding jsonable_object ex_list_all2_iff [symmetric] by blast
  also have "\<dots> \<longleftrightarrow> list_all (\<lambda>(k, v). \<exists>j. jsonable v j) fs"
    by (auto simp: list_all_iff)
  finally show ?case using JObj by (fastforce simp: list_all_iff)
qed auto

definition error_path :: "packet_type_error \<Rightarrow> jstr" where
  "error_path e = (case e of NonFiniteNumber p \<Rightarrow> p | UnsupportedValue p \<Rightarrow> p | CryptoUnavailable \<Rightarrow> [])"

lemma map_result_Inl: "map_result f xs = Inl e \<Longrightarrow> \<exists>x \<in> set xs. f x = Inl e"
proof (induction xs)
  case (Cons x xs)
  show ?case
  proof (cases "f x")
    case (Inl a)
    then show ?thesis using Cons.prems by simp
  next
    case (Inr b)
    then have "map_result f xs = Inl e" using Cons.prems by (cases "map_result f xs") auto
    then show ?thesis using Cons.IH by auto
  qed
qed simp

lemma bind_result_Inl: "bind_result r (\<lambda>a. Inr (g a)) = Inl e \<longleftrightarrow> r = Inl e"
  by (cases r) auto

lemma toJsonValue_error_path:
  "toJsonValue v path = Inl e \<Longrightarrow> \<exists>rest. error_path e = path @ rest"
proof (induction v path rule: toJsonValue.induct)
  case (5 vs path)
  then have "map_result (\<lambda>(i, v). toJsonValue v (path @ js ''/'' @ show_nat i)) (enumerate 0 vs) = Inl e"
    by (simp add: bind_result_Inl)
  from map_result_Inl [OF this] obtain i v where
    iv: "(i, v) \<in> set (enumerate 0 vs)" "toJsonValue v (path @ js ''/'' @ show_nat i) = Inl e" by auto
  from "5.IH" [OF iv(1) refl iv(2)] show ?case by auto
next
  case (6 p fs path)
  then have "map_result (\<lambda>(k, v). bind_result (toJsonValue v (path @ js ''/'' @ escapeJsonPointerSegment k))
      (\<lambda>j. Inr (k, j))) fs = Inl e"
    by (simp add: bind_result_Inl)
  from map_result_Inl [OF this] obtain k v where
    kv: "(k, v) \<in> set fs" "toJsonValue v (path @ js ''/'' @ escapeJsonPointerSegment k) = Inl e"
    by (auto simp: bind_result_Inl)
  from "6.IH" [OF kv(1) refl kv(2)] show ?case by auto
qed (auto simp: error_path_def split: if_splits)

lemma canonical_form_permute:
  assumes "mset fs = mset gs" and "distinct (map fst fs)"
  shows "canonical_form (JsonObj fs) = canonical_form (JsonObj gs)"
proof -
  have "distinct (map fst gs)" using assms by (metis mset_eq_imp_distinct_iff mset_map)
  then show ?thesis
    using map_of_mset_cong [OF assms] canonical_form_obj_iff [OF assms(2), of gs] by simp
qed

text \<open>
  The canonical text of a value made of JSON data with safe integers exists, reads back to a
  copy of the value, and the copy has the same canonical text: canonicalization is a fixed point
  of reading back, which is what lets every component hash a snapshot instead of its argument.
\<close>

theorem canonicalize_parse_canonicalize:
  assumes "js_data v" and "js_wf v"
  shows "\<exists>text w. canonicalizeJsonValue v = Inr text \<and> js_JSON_parse rt text = Some w
    \<and> js_snapshot v w \<and> canonicalizeJsonValue w = Inr text"
proof -
  obtain j where j: "jsonable v j" "json_ok j" using assms by (rule js_data_json)
  from canonicalize_reread [OF j, of rt] show ?thesis by blast
qed

theorem canonicalize_parse_canonicalize_witness:
  "\<exists>text w. canonicalizeJsonValue (JObj True [(js ''b'', JNum NNegZero), (js ''a'', JNull)]) = Inr text
    \<and> js_JSON_parse \<lparr>rt_digest = None, rt_encoder = True, rt_decimal = (\<lambda>_ _ _. NNaN)\<rparr> text = Some w
    \<and> js_snapshot (JObj True [(js ''b'', JNum NNegZero), (js ''a'', JNull)]) w
    \<and> canonicalizeJsonValue w = Inr text"
  by (rule canonicalize_parse_canonicalize) simp_all

lemma toJsonValue_wf: "toJsonValue v path = Inr j \<Longrightarrow> js_wf v \<Longrightarrow> json_wf j"
  using toJsonValue_iff_jsonable jsonable_wf by blast

text \<open>
  C27. Canonical texts are equal exactly when the values have the same content: the same JSON
  value up to the order of object keys (and \<open>-0\<close> for \<open>0\<close>). This holds for all JavaScript values that
  convert to JSON, whatever finite numbers they contain, fractions included.
\<close>

theorem canonical_text_iff_same_content:
  assumes "toJsonValue v [] = Inr a" and "toJsonValue w [] = Inr b" and "js_wf v" and "js_wf w"
  shows "canonicalizeJsonValue v = canonicalizeJsonValue w \<longleftrightarrow> canonical_form a = canonical_form b"
  using stringify_inject [OF toJsonValue_wf [OF assms(1,3)] toJsonValue_wf [OF assms(2,4)]] assms(1,2)
  by (simp add: canonicalizeJsonValue_def)

theorem canonical_text_iff_same_content_witness:
  "canonicalizeJsonValue (JObj True [(js ''b'', JNum (NFrac False 5 0)), (js ''a'', JNull)])
     = canonicalizeJsonValue (JObj True [(js ''a'', JNull), (js ''b'', JNum (NFrac False 5 0))])
   \<and> canonicalizeJsonValue (JArr [JNum (NFrac False 5 0)]) \<noteq> canonicalizeJsonValue (JArr [JNum (NFrac False 25 0)])"
proof -
  have digits: "frac_digits 5 = 1" "frac_digits 25 = 2" by (simp_all add: frac_digits_def nat_digits.simps)
  have keys: "js ''a'' < js ''b''" "js ''a'' \<noteq> js ''b''" by (simp_all add: js_def)
  let ?v = "JObj True [(js ''b'', JNum (NFrac False 5 0)), (js ''a'', JNull)]"
  let ?w = "JObj True [(js ''a'', JNull), (js ''b'', JNum (NFrac False 5 0))]"
  let ?x = "JArr [JNum (NFrac False 5 0)]" and ?y = "JArr [JNum (NFrac False 25 0)]"
  have "canonicalizeJsonValue ?v = canonicalizeJsonValue ?w"
    by (subst canonical_text_iff_same_content
        [of _ "JsonObj [(js ''b'', JsonNum (NFrac False 5 0)), (js ''a'', JsonNull)]"
          _ "JsonObj [(js ''a'', JsonNull), (js ''b'', JsonNum (NFrac False 5 0))]"])
      (use keys in \<open>simp_all add: digits js_def\<close>)
  moreover have "canonicalizeJsonValue ?x \<noteq> canonicalizeJsonValue ?y"
    by (subst canonical_text_iff_same_content [of _ "JsonArr [JsonNum (NFrac False 5 0)]" _ "JsonArr [JsonNum (NFrac False 25 0)]"])
      (simp_all add: digits)
  ultimately show ?thesis by blast
qed

text \<open>
  The order in which a caller writes the properties of an object does not change the
  canonical text of a value, wherever the object stands in an array or object around it.
\<close>

theorem canonical_text_key_order:
  assumes "mset fs = mset gs" and "distinct (map fst fs)"
  shows "stringifyCanonicalJsonValue (JsonObj fs) = stringifyCanonicalJsonValue (JsonObj gs)"
  using canonical_form_permute [OF assms] by (simp only: stringify_eq_print)

theorem canonical_text_key_order_witness:
  "stringifyCanonicalJsonValue (JsonObj [(js ''b'', JsonNull), (js ''a'', JsonBool True)])
   = stringifyCanonicalJsonValue (JsonObj [(js ''a'', JsonBool True), (js ''b'', JsonNull)])"
  by (rule canonical_text_key_order) (simp_all add: add_mset_commute)

text \<open>
  Conversion to \<open>JsonValue\<close> fails exactly on values with an \<open>undefined\<close>, a function or a
  non-finite number somewhere, and the error names a path below the path it was called with.
\<close>

theorem toJsonValue_total_on_domain:
  "case toJsonValue v path of
     Inr j \<Rightarrow> js_json_domain v
   | Inl e \<Rightarrow> \<not> js_json_domain v \<and> (\<exists>rest. error_path e = path @ rest)"
proof (cases "toJsonValue v path")
  case (Inl e)
  then have "\<not> (\<exists>j. jsonable v j)"
    using toJsonValue_iff_jsonable [of v path] by (metis sum.distinct(1))
  then show ?thesis using Inl jsonable_domain [of v] toJsonValue_error_path [OF Inl] by simp
next
  case (Inr j)
  then show ?thesis using jsonable_domain [of v] toJsonValue_iff_jsonable [of v path j] by auto
qed

text \<open>
  Equal packet hashes mean equal content, or two different byte strings with one SHA-256
  digest: the canonical text is always well-formed UTF-16, so its UTF-8 bytes determine it.
\<close>

theorem hash_binds_content:
  assumes "hashUniversalPacket rt v = Inr h" and "hashUniversalPacket rt w = Inr h"
    and "toJsonValue v [] = Inr a" and "toJsonValue w [] = Inr b" and "js_wf v" and "js_wf w"
  shows "canonical_form a = canonical_form b
    \<or> digest_collision rt (utf8_encode (stringifyCanonicalJsonValue a))
        (utf8_encode (stringifyCanonicalJsonValue b))"
proof -
  let ?s = "stringifyCanonicalJsonValue a" and ?t = "stringifyCanonicalJsonValue b"
  obtain d where d: "sha256_hex rt ?s = Some d" "sha256_hex rt ?t = Some d"
    using assms(1-4)
    by (auto simp: hashUniversalPacket_def canonicalizeUniversalPacket_def canonicalizeJsonValue_def
        split: option.splits)
  have "?s = ?t \<or> digest_collision rt (utf8_encode ?s) (utf8_encode ?t)"
    by (rule sha256_hex_inject [OF d]) (simp_all add: stringify_eq_print well_formed_print_json)
  then show ?thesis
    using stringify_inject [OF toJsonValue_wf [OF assms(3,5)] toJsonValue_wf [OF assms(4,6)]] by blast
qed

theorem hash_binds_content_witness:
  "canonical_form (JsonNum NNegZero) = canonical_form (JsonNum (NInt 0))
   \<or> digest_collision \<lparr>rt_digest = Some Some, rt_encoder = True, rt_decimal = (\<lambda>_ _ _. NNaN)\<rparr>
        (utf8_encode (stringifyCanonicalJsonValue (JsonNum NNegZero)))
        (utf8_encode (stringifyCanonicalJsonValue (JsonNum (NInt 0))))"
proof (rule hash_binds_content [where v = "JNum NNegZero" and w = "JNum (NInt 0)"])
  let ?rt = "\<lparr>rt_digest = Some Some, rt_encoder = True, rt_decimal = (\<lambda>_ _ _. NNaN)\<rparr>"
  have zero: "show_int 0 = js ''0''"
    by (simp add: show_int_def show_nat_def nat_digits.simps digit_unit_def js_def)
  show "hashUniversalPacket ?rt (JNum NNegZero) = Inr (js ''sha256:'' @ bytesToHex (utf8_encode (js ''0'')))"
    "hashUniversalPacket ?rt (JNum (NInt 0)) = Inr (js ''sha256:'' @ bytesToHex (utf8_encode (js ''0'')))"
    by (simp_all add: hashUniversalPacket_def canonicalizeUniversalPacket_def canonicalizeJsonValue_def
        sha256_hex_def zero)
qed (simp_all add: max_safe_integer_def)

text \<open>
  C28. The difference of two packets is empty exactly when their content is equal, and every
  entry points with a JSON pointer at a place where the packets differ in the way it says:
  absent before and present after, present before and absent after, or two different values.
  The packets may contain any finite numbers, fractional amounts included.
\<close>

theorem diff_empty_iff_and_sound:
  assumes "toJsonValue before [] = Inr b" and "toJsonValue after [] = Inr a"
    and "js_wf before" and "js_wf after"
  shows "\<exists>d. diffUniversalPackets before after = Inr d
    \<and> (d = [] \<longleftrightarrow> canonical_form b = canonical_form a)
    \<and> list_all (diff_entry_sound b a []) d"
proof -
  note wf = toJsonValue_wf [OF assms(1,3)] toJsonValue_wf [OF assms(2,4)]
  show ?thesis using assms(1,2) diff_Nil_iff [OF wf, of "[]"] diff_sound [OF wf, of _ "[]"]
    by (simp add: diffUniversalPackets_def list_all_iff)
qed

theorem diff_empty_iff_and_sound_witness:
  "\<exists>d. diffUniversalPackets (JObj True [(js ''a'', JNum (NFrac False 5 0))]) (JObj True []) = Inr d \<and> d \<noteq> []
    \<and> list_all (diff_entry_sound (JsonObj [(js ''a'', JsonNum (NFrac False 5 0))]) (JsonObj []) []) d"
proof -
  have "frac_digits 5 = 1" by (simp add: frac_digits_def nat_digits.simps)
  then show ?thesis
    using diff_empty_iff_and_sound [of "JObj True [(js ''a'', JNum (NFrac False 5 0))]" "JsonObj [(js ''a'', JsonNum (NFrac False 5 0))]"
        "JObj True []" "JsonObj []"] by simp
qed

text \<open>A JSON pointer of a difference determines the keys it was built from.\<close>

theorem json_pointer_determines_keys:
  "json_pointer ks = json_pointer ls \<longleftrightarrow> ks = ls"
  by (rule json_pointer_inject)

end
