(* ===== verification/Js_Date.thy ===== *)
theory Js_Date
  imports Js_Regex
begin

text \<open>
  The part of ECMAScript's \<open>Date\<close> the packages use: time values in milliseconds (ECMA-262
  section \<open>Time Values and Time Range\<close>), \<open>Date.parse\<close> on the ISO date-time format, and
  \<open>toISOString\<close>. The main facts are \<open>year_from_day_unique\<close> (the calendar year of a day
  number) and \<open>iso_fields_time_value\<close>: printing the time value of a field tuple gives the
  fields back exactly when they name a real calendar instant.
\<close>

section \<open>Calendar\<close>

definition day_from_year :: "int \<Rightarrow> int" where
  "day_from_year y =
     365 * (y - 1970) + (y - 1969) div 4 - (y - 1901) div 100 + (y - 1601) div 400"

definition leap_year :: "int \<Rightarrow> bool" where
  "leap_year y \<longleftrightarrow> y mod 4 = 0 \<and> (y mod 100 \<noteq> 0 \<or> y mod 400 = 0)"

definition days_in_year :: "int \<Rightarrow> int" where
  "days_in_year y = (if leap_year y then 366 else 365)"

fun days_before_month :: "bool \<Rightarrow> int \<Rightarrow> int" where
  "days_before_month leap m =
     (let l = (if leap then 1 else 0) in
      if m \<le> 1 then 0 else if m = 2 then 31 else if m = 3 then 59 + l else if m = 4 then 90 + l
      else if m = 5 then 120 + l else if m = 6 then 151 + l else if m = 7 then 181 + l
      else if m = 8 then 212 + l else if m = 9 then 243 + l else if m = 10 then 273 + l
      else if m = 11 then 304 + l else 334 + l)"

fun month_length :: "bool \<Rightarrow> int \<Rightarrow> int" where
  "month_length leap m =
     (if m = 2 then (if leap then 29 else 28)
      else if m = 4 \<or> m = 6 \<or> m = 9 \<or> m = 11 then 30 else 31)"

fun month_from_day :: "bool \<Rightarrow> int \<Rightarrow> int" where
  "month_from_day leap k =
     (let l = (if leap then 1 else 0) in
      if k < 31 then 1 else if k < 59 + l then 2 else if k < 90 + l then 3
      else if k < 120 + l then 4 else if k < 151 + l then 5 else if k < 181 + l then 6
      else if k < 212 + l then 7 else if k < 243 + l then 8 else if k < 273 + l then 9
      else if k < 304 + l then 10 else if k < 334 + l then 11 else 12)"

text \<open>The year of a day number: the greatest \<open>y\<close> with \<open>day_from_year y \<le> d\<close>.\<close>

definition year_from_day :: "int \<Rightarrow> int" where
  "year_from_day d =
     (let y = 1970 + (400 * d) div 146097
      in if d < day_from_year y then y - 1
         else if day_from_year (y + 1) \<le> d then y + 1 else y)"

declare days_before_month.simps [simp del] month_length.simps [simp del]
  month_from_day.simps [simp del]

lemma int_div_bounds:
  fixes a n :: int
  assumes "0 < n"
  shows "n * (a div n) \<le> a" "a < n * (a div n) + n"
  using assms mult_div_mod_eq [of n a] pos_mod_bound [of n a] pos_mod_sign [of n a] by linarith+

lemma int_div_pred:
  fixes y n :: int
  assumes "0 < n"
  shows "y div n = (y - 1) div n + (if y mod n = 0 then 1 else 0)"
proof (cases "y mod n = 0")
  case True
  then have "y - 1 = n * (y div n - 1) + (n - 1)"
    using mult_div_mod_eq [of n y] by (simp add: algebra_simps)
  then have "(y - 1) div n = y div n - 1" using assms
    by (intro int_div_pos_eq [of _ _ _ "n - 1"]) auto
  with True show ?thesis by simp
next
  case False
  have "y - 1 = n * (y div n) + (y mod n - 1)" using mult_div_mod_eq [of n y] by simp
  moreover have "0 \<le> y mod n - 1" "y mod n - 1 < n"
    using False assms pos_mod_bound [of n y] pos_mod_sign [of n y] by linarith+
  ultimately have "(y - 1) div n = y div n" by (rule int_div_pos_eq)
  with False show ?thesis by simp
qed

lemma day_from_year_eq:
  "day_from_year y = 365 * (y - 1) + (y - 1) div 4 - (y - 1) div 100 + (y - 1) div 400 - 719162"
proof -
  have shift: "(y - 1 - n * q) div n = (y - 1) div n - q" if "n \<noteq> 0" for n q :: int
    using that div_mult_self2 [of n "y - 1" "- q"] by simp
  have "(y - 1969) div 4 = (y - 1) div 4 - 492" "(y - 1901) div 100 = (y - 1) div 100 - 19"
    "(y - 1601) div 400 = (y - 1) div 400 - 4"
    using shift [of 4 492] shift [of 100 19] shift [of 400 4] by simp_all
  then have "day_from_year y =
      365 * (y - 1970) + ((y - 1) div 4 - 492) - ((y - 1) div 100 - 19) + ((y - 1) div 400 - 4)"
    by (simp only: day_from_year_def)
  also have "\<dots> = 365 * (y - 1) + p - q + r - 719162"
    if "(y - 1) div 4 = p" "(y - 1) div 100 = q" "(y - 1) div 400 = r" for p q r
    unfolding that by simp
  finally show ?thesis by blast
qed

lemma day_from_year_Suc: "day_from_year (y + 1) = day_from_year y + days_in_year y"
proof -
  have aux: "A - B + C = a - b + c + (if p \<and> (\<not> q \<or> r) then 1 else 0)"
    if "A = a + (if p then 1 else 0)" "B = b + (if q then 1 else 0)"
      "C = c + (if r then 1 else 0)" "q \<Longrightarrow> p" "r \<Longrightarrow> q" for A B C a b c :: int and p q r
    using that(4,5) unfolding that(1-3) by (cases p; cases q; cases r) auto
  have regroup: "a + b - c + d - e = a + (b - c + d) - e" for a b c d e :: int
    by simp
  have "y mod 100 = 0 \<Longrightarrow> y mod 4 = 0" "y mod 400 = 0 \<Longrightarrow> y mod 100 = 0"
    using dvd_trans [of 4 100 y] dvd_trans [of 100 400 y] by (simp_all add: mod_eq_0_iff_dvd)
  then have "y div 4 - y div 100 + y div 400 =
      (y - 1) div 4 - (y - 1) div 100 + (y - 1) div 400 + (if leap_year y then 1 else 0)"
    unfolding leap_year_def by (intro aux int_div_pred) simp_all
  moreover have "day_from_year (y + 1) = 365 * y + (y div 4 - y div 100 + y div 400) - 719162"
    using day_from_year_eq [of "y + 1"] by (simp only: regroup add_diff_cancel_right')
  moreover have "day_from_year y =
      365 * (y - 1) + ((y - 1) div 4 - (y - 1) div 100 + (y - 1) div 400) - 719162"
    using day_from_year_eq [of y] by (simp only: regroup)
  moreover have "d' = d + (if l then 366 else 365)"
    if "z' = z + (if l then 1 else 0)" "d' = 365 * y + z' - 719162" "d = 365 * (y - 1) + z - 719162"
    for z z' d d' :: int and l
    using that by simp
  ultimately show ?thesis unfolding days_in_year_def by blast
qed

lemma day_from_year_strict_mono: "y < y' \<Longrightarrow> day_from_year (y + 1) \<le> day_from_year y'"
proof (induction y' rule: int_gr_induct [where k = y])
  case (step i)
  then show ?case
    using day_from_year_Suc [of i] by (simp add: days_in_year_def split: if_splits)
qed auto

lemma year_from_day_bracket:
  "day_from_year (year_from_day d) \<le> d \<and> d < day_from_year (year_from_day d + 1)"
proof -
  define n where "n = (400 * d) div 146097"
  have n: "146097 * n \<le> 400 * d" "400 * d < 146097 * n + 146097"
    unfolding n_def by (intro int_div_bounds; simp)+
  have bound: "400 * day_from_year (1970 + m) \<le> 146097 * m + 600"
    "146097 * m - 600 \<le> 400 * day_from_year (1970 + m)" for m
  proof -
    have eq: "day_from_year (1970 + m) =
        365 * m + (1 + m) div 4 - (69 + m) div 100 + (369 + m) div 400"
      by (simp add: day_from_year_def)
    have "4 * ((1 + m) div 4) \<le> 1 + m" "1 + m < 4 * ((1 + m) div 4) + 4"
      "100 * ((69 + m) div 100) \<le> 69 + m" "69 + m < 100 * ((69 + m) div 100) + 100"
      "400 * ((369 + m) div 400) \<le> 369 + m" "369 + m < 400 * ((369 + m) div 400) + 400"
      by (intro int_div_bounds; simp)+
    moreover have "400 * (365 * m + p - q + r) \<le> 146097 * m + 600
        \<and> 146097 * m - 600 \<le> 400 * (365 * m + p - q + r)"
      if "4 * p \<le> 1 + m" "1 + m < 4 * p + 4" "100 * q \<le> 69 + m" "69 + m < 100 * q + 100"
        "400 * r \<le> 369 + m" "369 + m < 400 * r + 400" for p q r
      using that by auto
    ultimately show "400 * day_from_year (1970 + m) \<le> 146097 * m + 600"
      "146097 * m - 600 \<le> 400 * day_from_year (1970 + m)"
      unfolding eq by blast+
  qed
  have low: "day_from_year (1970 + n - 1) \<le> d"
    using bound(1) [of "n - 1"] n(1) by (simp add: algebra_simps)
  have high: "d < day_from_year (1970 + n + 1 + 1)"
    using bound(2) [of "n + 2"] n(2) by (simp add: algebra_simps)
  show ?thesis
    using low high unfolding year_from_day_def Let_def n_def [symmetric] by auto
qed

lemma year_from_day_unique:
  assumes "day_from_year y \<le> d" and "d < day_from_year (y + 1)"
  shows "year_from_day d = y"
proof (rule ccontr)
  assume "year_from_day d \<noteq> y"
  then consider "year_from_day d < y" | "y < year_from_day d" by linarith
  then show False
    using day_from_year_strict_mono [of "year_from_day d" y]
      day_from_year_strict_mono [of y "year_from_day d"] year_from_day_bracket [of d] assms
    by cases linarith+
qed

lemma month_cases:
  assumes "1 \<le> (m::int)" "m \<le> 12"
  obtains "m = 1" | "m = 2" | "m = 3" | "m = 4" | "m = 5" | "m = 6"
    | "m = 7" | "m = 8" | "m = 9" | "m = 10" | "m = 11" | "m = 12"
proof -
  have "m = 1 \<or> m = 2 \<or> m = 3 \<or> m = 4 \<or> m = 5 \<or> m = 6 \<or> m = 7 \<or> m = 8 \<or> m = 9 \<or> m = 10
      \<or> m = 11 \<or> m = 12"
    using assms by presburger
  with that show thesis by blast
qed

lemma month_from_day_iff:
  assumes "1 \<le> m" "m \<le> 12" "1 \<le> d" "d \<le> 31"
  shows "month_from_day leap (days_before_month leap m + d - 1) = m \<longleftrightarrow> d \<le> month_length leap m"
  using assms(1,2)
  by (cases rule: month_cases)
    (use assms(3,4) in \<open>auto simp: month_from_day.simps days_before_month.simps
       month_length.simps Let_def\<close>)

lemma days_before_month_bounds:
  assumes "1 \<le> m" "m \<le> 12" "1 \<le> d" "d \<le> 31"
  shows "0 \<le> days_before_month leap m + d - 1"
    and "days_before_month leap m + d - 1 < (if leap then 366 else 365)"
  using assms(1,2)
  by (cases rule: month_cases; use assms(3,4) in \<open>auto simp: days_before_month.simps Let_def\<close>)+

section \<open>Time values\<close>

type_synonym iso_tuple = "int \<times> int \<times> int \<times> int \<times> int \<times> int \<times> int"
  \<comment> \<open>year, month, day, hour, minute, second, millisecond\<close>

fun time_value :: "iso_tuple \<Rightarrow> int" where
  "time_value (y, mo, d, h, mi, s, ms) =
     ((((day_from_year y + days_before_month (leap_year y) mo + d - 1) * 24 + h) * 60 + mi) * 60 + s)
       * 1000 + ms"

definition iso_fields :: "int \<Rightarrow> iso_tuple" where
  "iso_fields t =
     (let day = t div 86400000; r = t mod 86400000; y = year_from_day day;
          k = day - day_from_year y; mo = month_from_day (leap_year y) k
      in (y, mo, k - days_before_month (leap_year y) mo + 1,
          r div 3600000, r div 60000 mod 60, r div 1000 mod 60, r mod 1000))"

text \<open>\<open>Date.parse\<close> on the fields of an ISO date-time: illegal field values give NaN.\<close>

fun date_parse_fields :: "iso_tuple \<Rightarrow> int option" where
  "date_parse_fields (y, mo, d, h, mi, s, ms) =
     (if 1 \<le> mo \<and> mo \<le> 12 \<and> 1 \<le> d \<and> d \<le> 31
         \<and> (h \<le> 23 \<or> h = 24 \<and> mi = 0 \<and> s = 0 \<and> ms = 0) \<and> mi \<le> 59 \<and> s \<le> 59
      then (let t = time_value (y, mo, d, h, mi, s, ms)
            in if \<bar>t\<bar> \<le> 8640000000000000 then Some t else None)
      else None)"

text \<open>The fields name a real calendar instant.\<close>

fun real_instant :: "iso_tuple \<Rightarrow> bool" where
  "real_instant (y, mo, d, h, mi, s, ms) \<longleftrightarrow>
     1 \<le> mo \<and> mo \<le> 12 \<and> 1 \<le> d \<and> d \<le> month_length (leap_year y) mo
     \<and> h \<le> 23 \<and> mi \<le> 59 \<and> s \<le> 59"

lemma iso_fields_of_day_time:
  assumes "0 \<le> r" "r < 86400000"
  shows "iso_fields (day * 86400000 + r) =
    (let y = year_from_day day; k = day - day_from_year y; mo = month_from_day (leap_year y) k
     in (y, mo, k - days_before_month (leap_year y) mo + 1,
         r div 3600000, r div 60000 mod 60, r div 1000 mod 60, r mod 1000))"
proof -
  have "(day * 86400000 + r) div 86400000 = day" "(day * 86400000 + r) mod 86400000 = r"
    using assms by simp_all
  then show ?thesis by (simp only: iso_fields_def Let_def)
qed

lemma time_of_day_fields:
  assumes "0 \<le> h" "h \<le> 23" "0 \<le> mi" "mi \<le> 59" "0 \<le> s" "s \<le> 59" "0 \<le> ms" "ms \<le> (999::int)"
  defines "r \<equiv> ((h * 60 + mi) * 60 + s) * 1000 + ms"
  shows "0 \<le> r" "r < 86400000" "r div 3600000 = h" "r div 60000 mod 60 = mi"
    "r div 1000 mod 60 = s" "r mod 1000 = ms"
proof -
  show "0 \<le> r" "r < 86400000" using assms by (simp_all add: r_def)
  show "r mod 1000 = ms"
    by (rule int_mod_pos_eq [of _ _ "(h * 60 + mi) * 60 + s"]) (use assms in \<open>simp_all add: r_def\<close>)
  have a: "r div 1000 = (h * 60 + mi) * 60 + s"
    by (rule int_div_pos_eq [of _ _ _ ms]) (use assms in \<open>simp_all add: r_def\<close>)
  show "r div 1000 mod 60 = s"
    unfolding a by (rule int_mod_pos_eq [of _ _ "h * 60 + mi"]) (use assms in simp_all)
  have b: "r div 60000 = h * 60 + mi"
    by (rule int_div_pos_eq [of _ _ _ "s * 1000 + ms"]) (use assms in \<open>simp_all add: r_def\<close>)
  show "r div 60000 mod 60 = mi"
    unfolding b by (rule int_mod_pos_eq [of _ _ h]) (use assms in simp_all)
  show "r div 3600000 = h"
    by (rule int_div_pos_eq [of _ _ _ "mi * 60000 + s * 1000 + ms"])
      (use assms in \<open>simp_all add: r_def\<close>)
qed

lemma year_from_day_in_year:
  assumes "1 \<le> mo" "mo \<le> 12" "1 \<le> d" "d \<le> 31"
  shows "year_from_day (day_from_year y + days_before_month (leap_year y) mo + d - 1) = y"
  using days_before_month_bounds [OF assms, of "leap_year y"] day_from_year_Suc [of y]
  by (intro year_from_day_unique) (auto simp: days_in_year_def split: if_splits)

lemma iso_fields_time_value:
  assumes "date_parse_fields f = Some t"
    and nonneg: "case f of (y, mo, d, h, mi, s, ms) \<Rightarrow>
      0 \<le> h \<and> 0 \<le> mi \<and> 0 \<le> s \<and> 0 \<le> ms \<and> ms \<le> 999"
  shows "iso_fields t = f \<longleftrightarrow> real_instant f"
proof -
  obtain y mo d h mi s ms where f: "f = (y, mo, d, h, mi, s, ms)" by (metis prod_cases7)
  let ?l = "leap_year y"
  let ?day = "day_from_year y + days_before_month ?l mo + d - 1"
  have rng: "1 \<le> mo" "mo \<le> 12" "1 \<le> d" "d \<le> 31" "mi \<le> 59" "s \<le> 59"
    "h \<le> 23 \<or> h = 24 \<and> mi = 0 \<and> s = 0 \<and> ms = 0" and t: "t = time_value f"
    using assms(1) by (auto simp: f Let_def split: if_splits)
  have nn: "0 \<le> h" "0 \<le> mi" "0 \<le> s" "0 \<le> ms" "ms \<le> 999" using nonneg by (auto simp: f)
  show ?thesis
  proof (cases "h = 24")
    case True
    then have "t = (?day + 1) * 86400000 + 0" using rng t by (simp add: f)
    then have "fst (snd (snd (snd (iso_fields t)))) = 0"
      using iso_fields_of_day_time [of 0 "?day + 1"] by (simp only: Let_def) simp
    then have "iso_fields t \<noteq> f" using True by (auto simp: f)
    with True show ?thesis by (simp add: f)
  next
    case False
    then have h: "h \<le> 23" using rng by auto
    note tod = time_of_day_fields [OF nn(1) h nn(2) rng(5) nn(3) rng(6) nn(4,5)]
    define day where "day = ?day"
    have yd: "year_from_day day = y"
      unfolding day_def by (rule year_from_day_in_year [OF rng(1-4)])
    have kd: "day - day_from_year y = days_before_month ?l mo + d - 1" by (simp add: day_def)
    have "t = day * 86400000 + (((h * 60 + mi) * 60 + s) * 1000 + ms)"
      using t by (simp add: f day_def algebra_simps)
    then have "iso_fields t = (let k = days_before_month ?l mo + d - 1; m' = month_from_day ?l k
        in (y, m', k - days_before_month ?l m' + 1, h, mi, s, ms))"
      using iso_fields_of_day_time [OF tod(1,2), of day] by (simp only: Let_def tod(3-6) yd kd)
    then show ?thesis
      using month_from_day_iff [OF rng(1-4), of ?l] rng h by (auto simp: f Let_def)
  qed
qed

section \<open>The ISO text of a time value\<close>

definition pad_digits :: "nat \<Rightarrow> nat \<Rightarrow> jstr" where
  "pad_digits w n = replicate (w - length (nat_digits n)) (digit_unit 0) @ show_nat n"

fun iso_text :: "iso_tuple \<Rightarrow> jstr" where
  "iso_text (y, mo, d, h, mi, s, ms) =
     (if 0 \<le> y \<and> y \<le> 9999 then pad_digits 4 (nat y)
      else js (if y < 0 then ''-'' else ''+'') @ pad_digits 6 (nat \<bar>y\<bar>))
     @ js ''-'' @ pad_digits 2 (nat mo) @ js ''-'' @ pad_digits 2 (nat d) @ js ''T''
     @ pad_digits 2 (nat h) @ js '':'' @ pad_digits 2 (nat mi) @ js '':'' @ pad_digits 2 (nat s)
     @ js ''.'' @ pad_digits 3 (nat ms) @ js ''Z''"

definition toISOString :: "int \<Rightarrow> jstr" where
  "toISOString t = iso_text (iso_fields t)"

end
