(* ===== verification/Utc_Time.thy ===== *)
theory Utc_Time
  imports Js_Date Js_Json Js_Utf8
begin

text \<open>
  UTC timestamps of the contracts. Three packages share one parser through \<open>Date\<close>
  (\<open>parseCanonicalUtcTimestamp\<close> of \<open>packet-envelope-v1.ts\<close>, \<open>policy-decision-v1.ts\<close> and
  \<open>approval-evidence-v1.ts\<close>, the same text three times); \<open>execution-request-v1.ts\<close> has its own
  calendar arithmetic, \<open>canonicalUtcTimestampMillisV1\<close>, which counts from year 1 instead of
  1970. The main result, \<open>utc_parsers_agree\<close>, is that the two accept the same texts and differ
  by the constant between the epochs.
\<close>

section \<open>The pattern\<close>

text \<open>\<open>/^(?!0000)(\d{4}-\d{2}-\d{2}T\d{2}:\d{2}:\d{2})(?:\.(\d{1,3}))?Z$/u\<close>\<close>

definition rx_digits :: "nat \<Rightarrow> rx" where
  "rx_digits n = RRep (RCls False cc_digit) n (Some n)"

definition rx_fraction :: rx where
  "rx_fraction = RAlt (RSeq (rx_lit ''.'') (RSeq (RRep (RCls False cc_digit) 1 (Some 3)) (rx_lit ''Z'')))
     (rx_lit ''Z'')"

definition isoDateTimePattern :: rx where
  "isoDateTimePattern =
     RSeq (rx_digits 4) (RSeq (rx_lit ''-'') (RSeq (rx_digits 2) (RSeq (rx_lit ''-'')
     (RSeq (rx_digits 2) (RSeq (rx_lit ''T'') (RSeq (rx_digits 2) (RSeq (rx_lit '':'')
     (RSeq (rx_digits 2) (RSeq (rx_lit '':'') (RSeq (rx_digits 2) rx_fraction))))))))))"

definition isoDateTime_test :: "jstr \<Rightarrow> bool" where
  "isoDateTime_test s \<longleftrightarrow> \<not> js_startsWith s (js ''0000'') \<and> rx_test_u isoDateTimePattern s"

text \<open>The captures of \<open>exec\<close>: the seconds part, and the fraction (empty when it is absent).\<close>

definition isoDateTime_exec :: "jstr \<Rightarrow> (jstr \<times> jstr) option" where
  "isoDateTime_exec s =
     (if isoDateTime_test s then Some (take 19 s, take (length s - 21) (drop 20 s)) else None)"

definition padEnd3 :: "jstr \<Rightarrow> jstr" where
  "padEnd3 s = s @ replicate (3 - length s) 48"

text \<open>\<open>Number\<close> of a run of digits, and the fields at their fixed positions.\<close>

definition js_Number :: "jstr \<Rightarrow> int" where
  "js_Number g = int (digits_value (unit_digits g))"

definition text_fields :: "jstr \<Rightarrow> jstr \<Rightarrow> iso_tuple" where
  "text_fields base fraction =
     (js_Number (take 4 base), js_Number (take 2 (drop 5 base)), js_Number (take 2 (drop 8 base)),
      js_Number (take 2 (drop 11 base)), js_Number (take 2 (drop 14 base)),
      js_Number (take 2 (drop 17 base)), js_Number (padEnd3 fraction))"

section \<open>The two parsers\<close>

text \<open>
  \<open>Date.parse\<close> of a text of the pattern reads the ISO fields. For fields outside their range
  the language leaves the result open; whatever it is, \<open>toISOString\<close> never writes such fields,
  so the comparison below fails as it does for NaN.
\<close>

definition parseCanonicalUtcTimestamp :: "jstr \<Rightarrow> int option" where
  "parseCanonicalUtcTimestamp value =
     (case isoDateTime_exec value of
        None \<Rightarrow> None
      | Some (base, fraction) \<Rightarrow>
          (case date_parse_fields (text_fields base fraction) of
             None \<Rightarrow> None
           | Some instant \<Rightarrow>
               if toISOString instant = base @ js ''.'' @ padEnd3 fraction @ js ''Z''
               then Some instant else None))"

definition isLeapYear :: "int \<Rightarrow> bool" where
  "isLeapYear year \<longleftrightarrow> year mod 4 = 0 \<and> (year mod 100 \<noteq> 0 \<or> year mod 400 = 0)"

definition daysInMonth :: "int \<Rightarrow> int \<Rightarrow> int" where
  "daysInMonth year month =
     (if month = 2 then (if isLeapYear year then 29 else 28)
      else if month \<in> set [4, 6, 9, 11] then 30 else 31)"

definition month_table :: "int list" where
  "month_table = [0, 0, 31, 59, 90, 120, 151, 181, 212, 243, 273, 304, 334]"

definition canonicalUtcTimestampMillisV1 :: "jstr \<Rightarrow> int option" where
  "canonicalUtcTimestampMillisV1 value =
     (case isoDateTime_exec value of
        None \<Rightarrow> None
      | Some (base, fraction) \<Rightarrow>
          (let year = js_Number (take 4 base); month = js_Number (take 2 (drop 5 base));
               day = js_Number (take 2 (drop 8 base)); hour = js_Number (take 2 (drop 11 base));
               minute = js_Number (take 2 (drop 14 base)); second = js_Number (take 2 (drop 17 base))
           in if month < 1 \<or> month > 12 \<or> day < 1 \<or> day > daysInMonth year month
                 \<or> hour > 23 \<or> minute > 59 \<or> second > 59
              then None
              else (let priorYear = year - 1;
                        daysBeforeYear = priorYear * 365 + priorYear div 4 - priorYear div 100
                          + priorYear div 400;
                        daysBeforeMonth = month_table ! nat month
                          + (if month > 2 \<and> isLeapYear year then 1 else 0);
                        completeDays = daysBeforeYear + daysBeforeMonth + day - 1;
                        millisecond = (if length fraction = 0 then 0 else js_Number (padEnd3 fraction))
                    in Some ((((completeDays * 24 + hour) * 60 + minute) * 60 + second) * 1000
                             + millisecond))))"

section \<open>Digits\<close>

lemma digits_value_bound: "\<forall>d \<in> set ds. d < 10 \<Longrightarrow> digits_value ds < 10 ^ length ds"
proof (induction ds rule: rev_induct)
  case (snoc d ds)
  then have "digits_value ds + 1 \<le> 10 ^ length ds" "d < 10" by auto
  then have "10 * digits_value ds + d < 10 * 10 ^ length ds" by linarith
  then show ?case by simp
qed (simp add: digits_value_def)

lemma digits_value_inject:
  "length xs = length ys \<Longrightarrow> \<forall>d \<in> set xs \<union> set ys. d < 10 \<Longrightarrow> digits_value xs = digits_value ys
    \<Longrightarrow> xs = ys"
proof (induction xs arbitrary: ys rule: rev_induct)
  case (snoc x xs)
  then obtain y ys' where ys: "ys = ys' @ [y]" by (cases ys rule: rev_cases) auto
  have "10 * digits_value xs + x = 10 * digits_value ys' + y" "x < 10" "y < 10"
    using snoc.prems ys by auto
  moreover have "x = y \<and> a = b" if "10 * a + x = 10 * b + y" "x < 10" "y < 10" for a b :: nat
  proof -
    have "x = (10 * a + x) mod 10" "(10 * b + y) mod 10 = y" using that(2,3) by simp_all
    with that(1) have "x = y" by metis
    with that(1) show ?thesis by simp
  qed
  ultimately have "x = y" "digits_value xs = digits_value ys'" by blast+
  then show ?case using snoc ys by auto
qed simp

lemma digits_value_leading_zeros: "digits_value (replicate k 0 @ ds) = digits_value ds"
proof -
  have "foldl (\<lambda>n d. 10 * n + d) 0 (replicate k 0) = (0::nat)" by (induction k) auto
  then show ?thesis by (simp add: digits_value_def)
qed

lemma is_digit_unit_unat: "is_digit_unit u \<longleftrightarrow> 48 \<le> unat u \<and> unat u \<le> 57"
  by (simp add: is_digit_unit_def word_le_nat_alt)

lemma unit_digits_less: "list_all is_digit_unit g \<Longrightarrow> \<forall>d \<in> set (unit_digits g). d < 10"
  by (auto simp: unit_digits_def list_all_iff is_digit_unit_unat)

lemma unit_digits_inject:
  assumes "list_all is_digit_unit g" and "list_all is_digit_unit h" and "unit_digits g = unit_digits h"
  shows "g = h"
proof -
  have "map digit_unit (unit_digits x) = x" if "list_all is_digit_unit x" for x
    using that
    by (induction x) (simp_all add: unit_digits_def digit_unit_def is_digit_unit_unat)
  then show ?thesis using assms by metis
qed

lemma length_nat_digits_le: "n < 10 ^ w \<Longrightarrow> 0 < w \<Longrightarrow> length (nat_digits n) \<le> w"
proof (induction w arbitrary: n)
  case (Suc w)
  show ?case
  proof (cases "n < 10")
    case False
    then have "0 < w" using Suc.prems by (cases w) auto
    moreover have "n div 10 < 10 ^ w" using Suc.prems(1) by (intro less_mult_imp_div_less) simp
    ultimately show ?thesis using Suc.IH False by (simp add: nat_digits.simps [of n])
  qed (simp add: nat_digits.simps)
qed simp

lemma pad_digits_facts:
  assumes "n < 10 ^ w" and "0 < w"
  shows "length (pad_digits w n) = w" "list_all is_digit_unit (pad_digits w n)"
    "digits_value (unit_digits (pad_digits w n)) = n"
proof -
  show "length (pad_digits w n) = w"
    using length_nat_digits_le [OF assms] by (simp add: pad_digits_def show_nat_def)
  show "list_all is_digit_unit (pad_digits w n)"
    using show_nat_digits by (auto simp: pad_digits_def list_all_iff is_digit_unit_digit_unit)
  have "unit_digits (pad_digits w n) = replicate (w - length (nat_digits n)) 0 @ nat_digits n"
    using unit_digits_show_nat [of n] by (simp add: pad_digits_def unit_digits_def)
  then show "digits_value (unit_digits (pad_digits w n)) = n"
    by (simp add: digits_value_leading_zeros)
qed

lemma pad_digits_of_group:
  assumes "list_all is_digit_unit g" and "length g = w" and "0 < w"
  shows "pad_digits w (nat (js_Number g)) = g"
proof -
  let ?n = "digits_value (unit_digits g)"
  have "?n < 10 ^ w"
    using digits_value_bound [OF unit_digits_less [OF assms(1)]] assms(2) by (simp add: unit_digits_def)
  note pad = pad_digits_facts [OF this assms(3)]
  have "unit_digits (pad_digits w ?n) = unit_digits g"
    using pad assms unit_digits_less by (intro digits_value_inject) (auto simp: unit_digits_def)
  then show ?thesis using pad(2) assms(1) by (simp add: js_Number_def unit_digits_inject)
qed

lemma pad_digits_inject:
  "m < 10 ^ w \<Longrightarrow> n < 10 ^ w \<Longrightarrow> 0 < w \<Longrightarrow> pad_digits w m = pad_digits w n \<longleftrightarrow> m = n"
  by (metis pad_digits_facts(3))

lemma js_Number_bound:
  "list_all is_digit_unit g \<Longrightarrow> 0 \<le> js_Number g \<and> js_Number g < 10 ^ length g"
  using digits_value_bound [OF unit_digits_less, of g]
  by (simp add: js_Number_def unit_digits_def)

section \<open>Texts of the pattern\<close>

text \<open>The shape of an accepted text: fixed-width digit groups and their separators.\<close>

definition utc_parts :: "jstr \<Rightarrow> jstr list \<Rightarrow> jstr \<Rightarrow> bool" where
  "utc_parts base gs fraction \<longleftrightarrow>
     (\<exists>yy mm dd hh mi ss. gs = [yy, mm, dd, hh, mi, ss]
       \<and> base = yy @ js ''-'' @ mm @ js ''-'' @ dd @ js ''T'' @ hh @ js '':'' @ mi @ js '':'' @ ss
       \<and> length yy = 4 \<and> length mm = 2 \<and> length dd = 2 \<and> length hh = 2 \<and> length mi = 2
       \<and> length ss = 2 \<and> list_all (list_all is_digit_unit) gs
       \<and> list_all is_digit_unit fraction \<and> length fraction \<le> 3)"

lemma rx_match_digits:
  "rx_match (RSeq (RRep (RCls False cc_digit) m (Some n)) r) w \<longleftrightarrow>
     (\<exists>u v. w = u @ v \<and> m \<le> length u \<and> length u \<le> n \<and> list_all (in_class False cc_digit) u
        \<and> rx_match r v)"
  by (auto simp: rx_match_seq rx_match_rep_class at_most_def)

lemma rx_match_lit: "rx_match (rx_lit p) w \<longleftrightarrow> w = map of_char p"
  by (simp add: rx_match_iff_lang lang_rx_lit)

lemma digit_class_units:
  "list_all (in_class False cc_digit) cs \<Longrightarrow> list_all is_digit_unit (map of_nat cs)"
proof -
  have "unat (of_nat c :: code_unit) = c" if "c \<le> 57" for c
    using that by (simp add: unat_of_nat)
  then show "list_all (in_class False cc_digit) cs \<Longrightarrow> list_all is_digit_unit (map of_nat cs)"
    by (auto simp: list_all_iff in_class_def is_digit_unit_unat)
qed

lemma units_of_small_code_points:
  assumes "code_points s = cs" and "\<forall>c \<in> set cs. c < 0x10000"
  shows "s = map of_nat cs"
proof -
  have "s = concat (map units_of_code_point cs)" using units_of_code_points [of s] assms(1) by simp
  also have "\<dots> = map of_nat cs"
    using assms(2) by (induction cs) (simp_all add: units_of_code_point_def)
  finally show ?thesis .
qed

lemma rx_test_u_below:
  assumes "rx_below n r" and "n \<le> 0x10000" and "rx_test_u r s" and "u \<in> set s"
  shows "unat u < n"
proof -
  have below: "\<forall>c \<in> set (code_points s). c < n"
    using assms(1,3) lang_below by (auto simp: rx_test_u_def rx_match_iff_lang)
  then have s: "s = map of_nat (code_points s)"
    using assms(2) by (intro units_of_small_code_points) auto
  then obtain c where c: "c \<in> set (code_points s)" "u = of_nat c"
    using assms(4) by (metis imageE list.set_map)
  then have "c < 65536" using below assms(2) by fastforce
  with c below show ?thesis by (auto simp: unat_of_nat)
qed

lemma digit_class_small: "list_all (in_class False cc_digit) cs \<Longrightarrow> \<forall>c \<in> set cs. c < 0x10000"
  by (auto simp: list_all_iff in_class_def)

lemma map_of_nat_of_char: "map of_nat (map of_char p) = js p"
  by (simp add: js_def of_nat_of_char)

lemma rx_fraction_shape:
  assumes "rx_match rx_fraction v"
  shows "\<exists>f t. v = t @ map of_char ''Z'' \<and> list_all (in_class False cc_digit) f \<and> length f \<le> 3
    \<and> (t = [] \<and> f = [] \<or> t = map of_char ''.'' @ f)"
  using assms unfolding rx_fraction_def rx_match_alt rx_match_lit_seq rx_match_digits rx_match_lit
  by fastforce

lemma isoDateTimePattern_shape:
  assumes "rx_match isoDateTimePattern w"
  shows "\<exists>a b c d e f v. w = a @ map of_char ''-'' @ b @ map of_char ''-'' @ c @ map of_char ''T''
      @ d @ map of_char '':'' @ e @ map of_char '':'' @ f @ v
    \<and> length a = 4 \<and> length b = 2 \<and> length c = 2 \<and> length d = 2 \<and> length e = 2 \<and> length f = 2
    \<and> list_all (list_all (in_class False cc_digit)) [a, b, c, d, e, f] \<and> rx_match rx_fraction v"
  using assms unfolding isoDateTimePattern_def rx_digits_def rx_match_lit_seq rx_match_digits
  by (fastforce simp del: rx_lit.simps)

lemma isoDateTime_exec_shape:
  assumes "isoDateTime_exec s = Some (base, fraction)"
  shows "\<exists>gs. utc_parts base gs fraction"
proof -
  from assms have test: "rx_match isoDateTimePattern (code_points s)"
    and base: "base = take 19 s" and fr: "fraction = take (length s - 21) (drop 20 s)"
    by (auto simp: isoDateTime_exec_def isoDateTime_test_def rx_test_u_def split: if_splits)
  from isoDateTimePattern_shape [OF test] obtain a b c d e f v where
    w: "code_points s = a @ map of_char ''-'' @ b @ map of_char ''-'' @ c @ map of_char ''T''
      @ d @ map of_char '':'' @ e @ map of_char '':'' @ f @ v"
    and len: "length a = 4" "length b = 2" "length c = 2" "length d = 2" "length e = 2" "length f = 2"
    and dig: "list_all (list_all (in_class False cc_digit)) [a, b, c, d, e, f]"
    and v: "rx_match rx_fraction v" by blast
  from rx_fraction_shape [OF v] obtain g t where
    vt: "v = t @ map of_char ''Z''" and g: "list_all (in_class False cc_digit) g" "length g \<le> 3"
    and t: "t = [] \<and> g = [] \<or> t = map of_char ''.'' @ g" by blast
  have small: "\<forall>x \<in> set (code_points s). x < 0x10000"
    using dig g t unfolding w vt by (auto dest!: digit_class_small)
  note s = units_of_small_code_points [OF w small [unfolded w]]
  let ?u = "map of_nat :: nat list \<Rightarrow> jstr"
  have s': "s = ?u a @ js ''-'' @ ?u b @ js ''-'' @ ?u c @ js ''T'' @ ?u d @ js '':'' @ ?u e
      @ js '':'' @ ?u f @ ?u t @ js ''Z''"
    unfolding s vt map_append map_of_nat_of_char by simp
  have "base = ?u a @ js ''-'' @ ?u b @ js ''-'' @ ?u c @ js ''T'' @ ?u d @ js '':'' @ ?u e @ js '':'' @ ?u f"
    unfolding base s' using len by simp
  moreover have "fraction = ?u g"
    unfolding fr s' using len t by (auto simp: js_def)
  moreover have "list_all (list_all is_digit_unit) [?u a, ?u b, ?u c, ?u d, ?u e, ?u f]"
    using dig by (simp only: list.pred_inject digit_class_units simp_thms)
  ultimately have "utc_parts base [?u a, ?u b, ?u c, ?u d, ?u e, ?u f] fraction"
    unfolding utc_parts_def using len g(2) digit_class_units [OF g(1)]
    by (intro exI conjI) (rule refl | simp)+
  then show ?thesis by blast
qed

section \<open>Printing is injective on the fields\<close>

definition fields_in_range :: "iso_tuple \<Rightarrow> bool" where
  "fields_in_range f \<longleftrightarrow> (case f of (y, mo, d, h, mi, s, ms) \<Rightarrow>
     0 \<le> mo \<and> mo \<le> 99 \<and> 0 \<le> d \<and> d \<le> 99 \<and> 0 \<le> h \<and> h \<le> 99 \<and> 0 \<le> mi \<and> mi \<le> 99
     \<and> 0 \<le> s \<and> s \<le> 99 \<and> 0 \<le> ms \<and> ms \<le> 999)"

lemma pad_head: "0 < w \<Longrightarrow> n < 10 ^ w \<Longrightarrow> \<exists>u t. pad_digits w n = u # t \<and> is_digit_unit u"
  using pad_digits_facts [of n w] by (cases "pad_digits w n") auto

lemma pad_append_inject:
  assumes "m < 10 ^ w" "n < 10 ^ w" "0 < w"
  shows "pad_digits w m @ s = pad_digits w n @ t \<longleftrightarrow> m = n \<and> s = t"
  using pad_digits_facts(1) [OF assms(1,3)] pad_digits_facts(1) [OF assms(2,3)]
    pad_digits_inject [OF assms] by (simp add: append_eq_append_conv)

lemma iso_text_inject:
  assumes "fields_in_range f" and "fields_in_range g" and "0 \<le> fst f" "fst f \<le> 9999"
  shows "iso_text f = iso_text g \<longleftrightarrow> f = g"
proof
  assume eq: "iso_text f = iso_text g"
  obtain y mo d h mi s ms where f: "f = (y, mo, d, h, mi, s, ms)" by (metis prod_cases7)
  obtain y' mo' d' h' mi' s' ms' where g: "g = (y', mo', d', h', mi', s', ms')"
    by (metis prod_cases7)
  have four: "nat x < 10 ^ 4" if "x \<le> 9999" for x using that by simp
  have inj2: "pad_digits 2 (nat x) @ u = pad_digits 2 (nat z) @ v \<longleftrightarrow> nat x = nat z \<and> u = v"
    if "x \<le> 99" "z \<le> 99" for x z u v
    by (rule pad_append_inject) (use that in simp_all)
  have inj3: "pad_digits 3 (nat x) = pad_digits 3 (nat z) \<longleftrightarrow> nat x = nat z"
    if "x \<le> 999" "z \<le> 999" for x z
    by (rule pad_digits_inject) (use that in simp_all)
  have y: "0 \<le> y" "y \<le> 9999" using assms f by simp_all
  have "0 \<le> y' \<and> y' \<le> 9999"
  proof (rule ccontr)
    assume out: "\<not> (0 \<le> y' \<and> y' \<le> 9999)"
    obtain u t where u: "pad_digits 4 (nat y) = u # t" "is_digit_unit u"
      using pad_head [OF _ four [OF y(2)]] by auto
    from out have "\<exists>v t'. iso_text g = v # t' \<and> (v = 45 \<or> v = 43)"
      by (auto simp: g js_def)
    then obtain v t' where v: "iso_text g = v # t'" "v = 45 \<or> v = 43" by blast
    have "\<exists>t''. iso_text f = u # t''" using y by (simp add: f u)
    then have "v = u" using eq v by auto
    then show False using u v by (auto simp: is_digit_unit_unat)
  qed
  then show "f = g"
    using eq y assms(1,2)
    by (simp add: f g fields_in_range_def pad_append_inject [OF four four] inj2 inj3
        eq_nat_nat_iff)
qed simp

lemma month_day_range:
  assumes "0 \<le> k" and "k < (if l then 366 else 365)" and "month_from_day l k = m"
  shows "1 \<le> m \<and> m \<le> 12 \<and> 0 \<le> k - days_before_month l m \<and> k - days_before_month l m < 31"
proof (cases l)
  case True
  show ?thesis using assms unfolding True month_from_day.simps Let_def if_True
    by (simp only: split: if_split_asm) (auto simp: days_before_month.simps)
next
  case False
  then have l: "l = False" by simp
  show ?thesis using assms unfolding l month_from_day.simps Let_def if_False
    by (simp only: split: if_split_asm) (auto simp: days_before_month.simps)
qed

lemma iso_fields_in_range: "fields_in_range (iso_fields t)"
proof -
  define day r where "day = t div 86400000" and "r = t mod 86400000"
  define y where "y = year_from_day day"
  define k where "k = day - day_from_year y"
  have r: "0 \<le> r" "r < 86400000" by (simp_all add: r_def)
  have "day_from_year y \<le> day" "day < day_from_year (y + 1)"
    using year_from_day_bracket [of day] by (simp_all add: y_def)
  then have k: "0 \<le> k" "k < days_in_year y" by (simp_all add: k_def day_from_year_Suc)
  note month_day_range [of k "leap_year y", OF k(1) k(2) [unfolded days_in_year_def] refl]
  moreover have "r div 3600000 \<le> 23"
    using zdiv_mono1 [of r 86399999 3600000] r(2) by simp
  moreover have "x mod 60 \<le> 99" "x mod 1000 \<le> 999" for x :: int
    using pos_mod_bound [of 60 x] pos_mod_bound [of 1000 x] by linarith+
  ultimately show ?thesis
    using r by (simp add: fields_in_range_def iso_fields_def Let_def day_def [symmetric] r_def [symmetric]
        y_def [symmetric] k_def [symmetric] pos_imp_zdiv_nonneg_iff)
qed

section \<open>Agreement\<close>

definition epoch_offset :: int where
  "epoch_offset = 62135596800000"

lemma text_fields_parts:
  assumes "utc_parts base gs fraction"
  shows "text_fields base fraction = (js_Number (gs ! 0), js_Number (gs ! 1), js_Number (gs ! 2),
      js_Number (gs ! 3), js_Number (gs ! 4), js_Number (gs ! 5), js_Number (padEnd3 fraction))"
    and "iso_text (text_fields base fraction) = base @ js ''.'' @ padEnd3 fraction @ js ''Z''"
    and "fields_in_range (text_fields base fraction)"
    and "0 \<le> fst (text_fields base fraction)" "fst (text_fields base fraction) \<le> 9999"
proof -
  from assms obtain yy mm dd hh mi ss where gs: "gs = [yy, mm, dd, hh, mi, ss]"
    and base: "base = yy @ js ''-'' @ mm @ js ''-'' @ dd @ js ''T'' @ hh @ js '':'' @ mi @ js '':'' @ ss"
    and len: "length yy = 4" "length mm = 2" "length dd = 2" "length hh = 2" "length mi = 2"
      "length ss = 2"
    and dig: "list_all is_digit_unit yy" "list_all is_digit_unit mm" "list_all is_digit_unit dd"
      "list_all is_digit_unit hh" "list_all is_digit_unit mi" "list_all is_digit_unit ss"
    and fr: "list_all is_digit_unit fraction" "length fraction \<le> 3"
    unfolding utc_parts_def by auto
  have p3: "list_all is_digit_unit (padEnd3 fraction)" "length (padEnd3 fraction) = 3"
    using fr by (auto simp: padEnd3_def list_all_iff is_digit_unit_unat)
  show f: "text_fields base fraction = (js_Number (gs ! 0), js_Number (gs ! 1), js_Number (gs ! 2),
      js_Number (gs ! 3), js_Number (gs ! 4), js_Number (gs ! 5), js_Number (padEnd3 fraction))"
    using len by (simp add: text_fields_def base gs)
  have yb: "0 \<le> js_Number yy" "js_Number yy \<le> 9999"
    using js_Number_bound [OF dig(1)] by (simp_all add: len)
  have b: "0 \<le> js_Number g \<and> js_Number g \<le> 99" if "list_all is_digit_unit g" "length g = 2" for g
    using js_Number_bound [OF that(1)] by (simp add: that(2))
  have b3: "0 \<le> js_Number (padEnd3 fraction) \<and> js_Number (padEnd3 fraction) \<le> 999"
    using js_Number_bound [OF p3(1)] by (simp add: p3(2))
  show "0 \<le> fst (text_fields base fraction)" "fst (text_fields base fraction) \<le> 9999"
    using yb by (simp_all add: f gs)
  show "fields_in_range (text_fields base fraction)"
    using b dig len b3 by (simp add: f gs fields_in_range_def)
  show "iso_text (text_fields base fraction) = base @ js ''.'' @ padEnd3 fraction @ js ''Z''"
    using yb pad_digits_of_group [OF dig(1) len(1)] pad_digits_of_group [OF dig(2) len(2)]
      pad_digits_of_group [OF dig(3) len(3)] pad_digits_of_group [OF dig(4) len(4)]
      pad_digits_of_group [OF dig(5) len(5)] pad_digits_of_group [OF dig(6) len(6)]
      pad_digits_of_group [OF p3]
    unfolding f by (simp add: gs base)
qed

lemma date_parse_real_instant:
  assumes "real_instant (y, mo, d, h, mi, s, ms)"
    and "0 \<le> y" "y \<le> 9999" "0 \<le> h" "0 \<le> mi" "0 \<le> s" "0 \<le> ms" "ms \<le> 999"
  shows "date_parse_fields (y, mo, d, h, mi, s, ms) = Some (time_value (y, mo, d, h, mi, s, ms))"
proof -
  let ?day = "day_from_year y + days_before_month (leap_year y) mo + d - 1"
  have r: "1 \<le> mo" "mo \<le> 12" "1 \<le> d" "d \<le> 31" "h \<le> 23" "mi \<le> 59" "s \<le> 59"
    using assms(1) by (auto simp: month_length.simps split: if_splits)
  have "day_from_year 0 = - 719528" "day_from_year 10000 = 2932897"
    by (simp_all add: day_from_year_def)
  moreover have "day_from_year y \<le> day_from_year (y + 1)"
    by (simp add: day_from_year_Suc days_in_year_def)
  moreover have "day_from_year (y + 1) \<le> day_from_year 10000"
    using assms(3) by (intro day_from_year_strict_mono) simp
  moreover have "day_from_year 0 \<le> day_from_year y"
    using assms(2) day_from_year_strict_mono [of 0 y] day_from_year_Suc [of 0]
    by (cases "y = 0") (auto simp: days_in_year_def split: if_splits)
  moreover note days_before_month_bounds [OF r(1-4), of "leap_year y"]
  ultimately have day: "- 719528 \<le> ?day" "?day \<le> 2933300" by (auto split: if_splits)
  have "\<bar>(((x * 24 + h) * 60 + mi) * 60 + s) * 1000 + ms\<bar> \<le> 8640000000000000"
    if "- 719528 \<le> x" "x \<le> 2933300" for x
    using that r assms(4-8) by (simp add: abs_le_iff)
  from this [OF day] show ?thesis using r by (simp add: Let_def)
qed

text \<open>The parser through \<open>Date\<close> accepts exactly the real instants and returns their time value.\<close>

lemma parseCanonicalUtcTimestamp_eq:
  assumes "isoDateTime_exec value = Some (base, fraction)"
  shows "parseCanonicalUtcTimestamp value =
    (if real_instant (text_fields base fraction)
     then Some (time_value (text_fields base fraction)) else None)"
proof -
  let ?f = "text_fields base fraction"
  from isoDateTime_exec_shape [OF assms] obtain gs where parts: "utc_parts base gs fraction" ..
  note tf = text_fields_parts [OF parts]
  obtain y mo d h mi s ms where f: "?f = (y, mo, d, h, mi, s, ms)" by (metis prod_cases7)
  have rng: "0 \<le> y" "y \<le> 9999" "0 \<le> mo" "0 \<le> d" "0 \<le> h" "0 \<le> mi" "0 \<le> s" "0 \<le> ms" "ms \<le> 999"
    using tf(3-5) by (simp_all add: f fields_in_range_def)
  have iso: "toISOString t = base @ js ''.'' @ padEnd3 fraction @ js ''Z'' \<longleftrightarrow> iso_fields t = ?f" for t
    using iso_text_inject [OF tf(3) iso_fields_in_range tf(4,5), of t]
    unfolding toISOString_def tf(2) by metis
  have "parseCanonicalUtcTimestamp value = (case date_parse_fields ?f of None \<Rightarrow> None
      | Some t \<Rightarrow> if iso_fields t = ?f then Some t else None)"
    by (simp only: parseCanonicalUtcTimestamp_def assms option.case prod.case iso)
  also have "\<dots> = (case date_parse_fields ?f of None \<Rightarrow> None
      | Some t \<Rightarrow> if real_instant ?f then Some t else None)"
    using iso_fields_time_value [of ?f] rng by (auto simp: f split: option.split)
  also have "\<dots> = (if real_instant ?f then Some (time_value ?f) else None)"
    using date_parse_real_instant [of y mo d h mi s ms] rng by (auto simp: f split: option.split)
  finally show ?thesis .
qed

lemma month_table_nth:
  assumes "1 \<le> m" "m \<le> 12"
  shows "month_table ! nat m + (if m > 2 \<and> l then 1 else 0) = days_before_month l m"
  using assms by (cases rule: month_cases; cases l)
    (auto simp: month_table_def days_before_month.simps)

theorem utc_parsers_agree:
  "parseCanonicalUtcTimestamp value
   = map_option (\<lambda>t. t - epoch_offset) (canonicalUtcTimestampMillisV1 value)"
proof (cases "isoDateTime_exec value")
  case None
  then show ?thesis by (simp add: parseCanonicalUtcTimestamp_def canonicalUtcTimestampMillisV1_def)
next
  case (Some m)
  obtain base fraction where m: "isoDateTime_exec value = Some (base, fraction)"
    using Some by (cases m) auto
  obtain y mo d h mi s ms where f: "text_fields base fraction = (y, mo, d, h, mi, s, ms)"
    by (metis prod_cases7)
  then have fs: "js_Number (take 4 base) = y" "js_Number (take 2 (drop 5 base)) = mo"
    "js_Number (take 2 (drop 8 base)) = d" "js_Number (take 2 (drop 11 base)) = h"
    "js_Number (take 2 (drop 14 base)) = mi" "js_Number (take 2 (drop 17 base)) = s"
    "js_Number (padEnd3 fraction) = ms"
    by (simp_all add: text_fields_def)
  have ms: "(if length fraction = 0 then 0 else js_Number (padEnd3 fraction)) = ms"
    using fs(7) by (auto simp: padEnd3_def js_Number_def unit_digits_def digits_value_def
        numeral_3_eq_3)
  have leap: "isLeapYear y = leap_year y" by (simp add: isLeapYear_def leap_year_def)
  have dim: "daysInMonth y mo = month_length (leap_year y) mo"
    by (auto simp: daysInMonth_def month_length.simps leap)
  have bad: "(mo < 1 \<or> mo > 12 \<or> d < 1 \<or> d > month_length (leap_year y) mo \<or> h > 23 \<or> mi > 59 \<or> s > 59)
      = (\<not> real_instant (y, mo, d, h, mi, s, ms))"
    by auto
  have days: "(y - 1) * 365 + (y - 1) div 4 - (y - 1) div 100 + (y - 1) div 400
      = day_from_year y + 719162"
    by (simp add: day_from_year_eq)
  have "canonicalUtcTimestampMillisV1 value =
      (if \<not> real_instant (y, mo, d, h, mi, s, ms) then None
       else Some (((((day_from_year y + 719162 + days_before_month (leap_year y) mo + d - 1) * 24 + h)
         * 60 + mi) * 60 + s) * 1000 + ms))"
  proof (cases "real_instant (y, mo, d, h, mi, s, ms)")
    case True
    then have mo: "1 \<le> mo" "mo \<le> 12" by simp_all
    show ?thesis
      by (simp only: canonicalUtcTimestampMillisV1_def m option.case prod.case Let_def fs(1-6) ms dim
          bad days leap month_table_nth [OF mo])
  next
    case False
    then show ?thesis
      by (simp only: canonicalUtcTimestampMillisV1_def m option.case prod.case Let_def fs(1-6) dim bad
          not_False_eq_True if_True)
  qed
  then show ?thesis
    by (simp add: parseCanonicalUtcTimestamp_eq [OF m] f epoch_offset_def del: real_instant.simps)
qed

text \<open>A timestamp is ASCII.\<close>

lemma isoDateTime_ascii: "isoDateTime_test s \<Longrightarrow> u \<in> set s \<Longrightarrow> unat u < 128"
proof -
  have "rx_below 128 isoDateTimePattern"
    by (simp add: isoDateTimePattern_def rx_digits_def rx_fraction_def)
  then show "isoDateTime_test s \<Longrightarrow> u \<in> set s \<Longrightarrow> unat u < 128"
    using rx_test_u_below [of 128 isoDateTimePattern s u] by (simp add: isoDateTime_test_def)
qed

lemma parsed_timestamp_ascii:
  "parseCanonicalUtcTimestamp s = Some t \<Longrightarrow> u \<in> set s \<Longrightarrow> unat u < 128"
  using isoDateTime_ascii
  by (auto simp: parseCanonicalUtcTimestamp_def isoDateTime_exec_def split: if_splits)

text \<open>Evaluation on a literal timestamp.\<close>

lemma take_js: "take n (js s) = js (take n s)" and drop_js: "drop n (js s) = js (drop n s)"
  by (simp_all add: js_def take_map drop_map)

lemma js_Number_js: "js_Number (js s) = int (digits_value (map (\<lambda>c. of_char c - 48) s))"
  by (simp add: js_Number_def unit_digits_def js_def comp_def)

lemma padEnd3_js: "padEnd3 (js s) = js (s @ replicate (3 - length s) CHR ''0'')"
  by (simp add: padEnd3_def js_def)

lemmas utc_eval [js_eval] = utc_parsers_agree canonicalUtcTimestampMillisV1_def isoDateTime_exec_def
  isoDateTime_test_def isoDateTimePattern_def rx_digits_def rx_fraction_def js_startsWith_def
  take_js drop_js js_Number_js padEnd3_js digits_value_def epoch_offset_def month_table_def
  daysInMonth_def isLeapYear_def

section \<open>Properties\<close>

text \<open>
  C29. The two timestamp parsers of the code base agree: the one through \<open>Date.parse\<close> and
  \<open>toISOString\<close> and the one with its own calendar arithmetic accept the same texts, and their
  results differ by the milliseconds from year 1 to 1970, for every text.
\<close>

theorem timestamp_parsers_agree:
  "parseCanonicalUtcTimestamp value
   = map_option (\<lambda>t. t - epoch_offset) (canonicalUtcTimestampMillisV1 value)"
  by (rule utc_parsers_agree)

text \<open>
  A timestamp is accepted exactly when it matches the pattern and its fields name a real
  calendar instant (no 30 February, no hour 24), and the result is the time value of the fields.
\<close>

theorem timestamp_accepts_real_instants:
  "parseCanonicalUtcTimestamp value = Some t \<longleftrightarrow>
     (\<exists>base fraction. isoDateTime_exec value = Some (base, fraction)
        \<and> real_instant (text_fields base fraction) \<and> t = time_value (text_fields base fraction))"
proof (cases "isoDateTime_exec value")
  case None
  then show ?thesis by (simp add: parseCanonicalUtcTimestamp_def)
next
  case (Some m)
  then show ?thesis
    using parseCanonicalUtcTimestamp_eq [of "value" "fst m" "snd m"] by (cases m) auto
qed

end
