(* ===== verification/Contract_Error.thy ===== *)
theory Contract_Error
  imports Js_Prelude
begin

text \<open>
  The error item every contract package reports, \<open>packages/packets/src/contract-error-envelope-v1.ts\<close>.
  A failure envelope \<open>{ ok: false, ..., errors, side_effects: [] }\<close> is \<open>Inl errors\<close> in the models,
  a success is \<open>Inr result\<close>.
\<close>

record 'code contract_error =
  ce_code :: 'code
  ce_path :: jstr
  ce_message :: jstr
  ce_severity :: jstr

definition createContractErrorV1 :: "'code \<Rightarrow> jstr \<Rightarrow> jstr \<Rightarrow> 'code contract_error" where
  "createContractErrorV1 code path message =
     \<lparr>ce_code = code, ce_path = path, ce_message = message, ce_severity = js ''error''\<rparr>"

text \<open>Whether every error a check appends carries its code is read off the code list.\<close>

lemma createContractErrorV1_code [simp]:
  "ce_code (createContractErrorV1 code path message) = code"
  "ce_path (createContractErrorV1 code path message) = path"
  by (simp_all add: createContractErrorV1_def)

end
