(* ===== verification/Packet_Envelope.thy ===== *)
theory Packet_Envelope
  imports Canonical Utc_Time Contract_Error
begin

text \<open>
  The packet envelope, \<open>packages/packets/src/packet-envelope-v1.ts\<close>: validation of an unknown
  value as \<open>PacketEnvelopeV1\<close>, its canonical text and its hash. Each check of the source returns
  the errors it pushes, in order; \<open>validatePacketEnvelopeV1\<close> concatenates them.

  \<open>packet_shape v r\<close> and \<open>packet_rules r\<close> are the specification: \<open>v\<close> is an object with exactly the
  fields of the record \<open>r\<close>, which obeys the rules of the contract. \<open>validate_iff\<close> says that
  validation decides them, and \<open>packet_shape_snapshot\<close> and \<open>packet_rules_snapshot\<close> that the copy
  read back from the canonical text satisfies them again.
\<close>

section \<open>Data\<close>

datatype packet_envelope_error_code =
    PE_invalid_json | PE_invalid_type | PE_unexpected_field | PE_missing_required_field
  | PE_unsupported_contract_version | PE_unsupported_schema | PE_invalid_field
  | PE_noncanonical_collection | PE_secret_value_embedded | PE_invalid_time_window

type_synonym pe_error = "packet_envelope_error_code contract_error"

definition packet_contract_version :: jstr where
  "packet_contract_version = js ''lnsat.contracts.v1_0''"

definition packet_schema_id :: jstr where
  "packet_schema_id = js ''lnsat.packet_envelope.schema.v1_0''"

definition universalPacketTypes :: "jstr list" where
  "universalPacketTypes = map js
     [''ContextPacket'', ''CapabilityPacket'', ''ExecutionPacket'', ''EnvironmentPacket'',
      ''ResourcePacket'', ''ResultPacket'', ''AuditPacket'', ''PatchPacket'', ''SecretUsePacket'',
      ''NodeTelemetryPacket'']"

definition rootKeys :: "jstr list" where
  "rootKeys = map js
     [''contract_version'', ''schema_id'', ''packet_id'', ''packet_type'', ''actor_ref'',
      ''session_ref'', ''project_ref'', ''intent'', ''risk_level'', ''source_refs'',
      ''resource_refs'', ''policy_profile_ref'', ''permission_envelope'', ''budget'',
      ''constraints'', ''requires_approval'', ''idempotency_key'', ''created_at'', ''expires_at'']"

definition permissionEnvelopeKeys :: "jstr list" where
  "permissionEnvelopeKeys = map js [''allow'', ''block'']"

definition budgetKeys :: "jstr list" where
  "budgetKeys = map js
     [''tokens'', ''runtime_seconds'', ''cost_microusd'', ''cpu_millicores'', ''memory_bytes'']"

section \<open>Patterns\<close>

abbreviation cc_ident :: char_class where
  "cc_ident \<equiv> cc_lower @ cc_digit"

abbreviation cc_ident_rest :: char_class where
  "cc_ident_rest \<equiv> cc_lower @ cc_digit @ cc_chars ''_-''"

text \<open>\<open>/^pkt_[a-z0-9][a-z0-9_-]{7,63}$/u\<close> and the like\<close>

definition rx_identifier :: "string \<Rightarrow> nat \<Rightarrow> rx" where
  "rx_identifier prefix most =
     RSeq (rx_lit prefix) (RSeq (RCls False cc_ident) (RRep (RCls False cc_ident_rest) 7 (Some most)))"

definition packetIdPattern :: "jstr \<Rightarrow> bool" where
  "packetIdPattern = rx_test_u (rx_identifier ''pkt_'' 63)"

definition idempotencyKeyPattern :: "jstr \<Rightarrow> bool" where
  "idempotencyKeyPattern = rx_test_u (rx_identifier ''idem_'' 127)"

text \<open>\<open>[^\s\u0000-\u001f\u007f]{1,n}\<close>\<close>

definition rx_ref_tail :: "nat \<Rightarrow> rx" where
  "rx_ref_tail n = RRep (RCls True (cc_space @ cc_control)) 1 (Some n)"

definition referencePattern :: "jstr \<Rightarrow> bool" where
  "referencePattern =
     rx_test_u (RSeq (RCls False cc_lower)
       (RSeq (RRep (RCls False (cc_lower @ cc_digit @ cc_chars ''+.-'')) 0 None)
         (RSeq (rx_lit '':'') (rx_ref_tail 240))))"

definition permissionPattern :: "jstr \<Rightarrow> bool" where
  "permissionPattern =
     rx_test_u (RSeq (RCls False cc_lower) (RSeq (RRep (RCls False cc_ident) 0 None)
       (RRep (RSeq (RCls False (cc_chars ''._:-'')) (RRep (RCls False cc_ident) 1 None)) 0 None)))"

text \<open>
  With the flags \<open>iu\<close> a letter matches every character with the same simple case folding: both
  cases, and U+017F for \<open>s\<close>, U+212A for \<open>k\<close>. The dot excludes line terminators.
\<close>

definition cc_fold :: "char \<Rightarrow> char_class" where
  "cc_fold c =
     (if CHR ''a'' \<le> c \<and> c \<le> CHR ''z'' then
        [(of_char c, of_char c), (of_char c - 32, of_char c - 32)]
        @ (if c = CHR ''s'' then [(0x17F, 0x17F)] else [])
        @ (if c = CHR ''k'' then [(0x212A, 0x212A)] else [])
      else [(of_char c, of_char c)])"

primrec rx_lit_i :: "string \<Rightarrow> rx" where
  "rx_lit_i [] = REps"
| "rx_lit_i (c # s) = RSeq (RCls False (cc_fold c)) (rx_lit_i s)"

definition rx_alternatives :: "rx list \<Rightarrow> rx" where
  "rx_alternatives rs = foldr RAlt rs RZero"

definition credential_words :: "string list" where
  "credential_words = [''secret'', ''password'', ''token'', ''api_key'', ''private_key'', ''credential'']"

definition forbiddenCredentialFieldPattern :: "jstr \<Rightarrow> bool" where
  "forbiddenCredentialFieldPattern =
     rx_test_u (RSeq (rx_opt (RSeq (RRep (RCls True [(10, 10), (13, 13), (0x2028, 0x2029)]) 0 None)
                                   (rx_lit_i ''_'')))
       (RSeq (rx_alternatives (map rx_lit_i credential_words)) (rx_opt (rx_lit_i ''_value''))))"

section \<open>Checks\<close>

text \<open>
  The loop as written. At a high surrogate in the last position \<open>charCodeAt\<close> gives NaN, both
  comparisons with NaN are false, and the string is accepted.
\<close>

fun isWellFormedUnicode :: "jstr \<Rightarrow> bool" where
  "isWellFormedUnicode [] = True"
| "isWellFormedUnicode [u] = (\<not> (\<not> is_high_surrogate u \<and> is_low_surrogate u))"
| "isWellFormedUnicode (u # v # us) =
     (if is_high_surrogate u then (if \<not> is_low_surrogate v then False else isWellFormedUnicode us)
      else if is_low_surrogate u then False else isWellFormedUnicode (v # us))"

definition invalid_field :: "jstr \<Rightarrow> string \<Rightarrow> pe_error" where
  "invalid_field path message = createContractErrorV1 PE_invalid_field path (js message)"

fun requirePatternString :: "jsval \<Rightarrow> jstr \<Rightarrow> (jstr \<Rightarrow> bool) \<Rightarrow> nat \<Rightarrow> jstr \<Rightarrow> pe_error list" where
  "requirePatternString (JStr s) path pattern maxLength message =
     (if length s = 0 \<or> length s > maxLength \<or> \<not> isWellFormedUnicode s \<or> \<not> pattern s
      then [createContractErrorV1 PE_invalid_field path message] else [])"
| "requirePatternString v path pattern maxLength message =
     [createContractErrorV1 PE_invalid_field path message]"

fun requireBoundedWellFormedString :: "jsval \<Rightarrow> jstr \<Rightarrow> nat \<Rightarrow> nat \<Rightarrow> pe_error list" where
  "requireBoundedWellFormedString (JStr s) path minLength maxLength =
     (if length s < minLength \<or> length s > maxLength \<or> \<not> isWellFormedUnicode s
      then [invalid_field path ''Value must be a bounded well-formed Unicode string.''] else [])"
| "requireBoundedWellFormedString v path minLength maxLength =
     [invalid_field path ''Value must be a bounded well-formed Unicode string.'']"

definition requireReference :: "jsval \<Rightarrow> jstr \<Rightarrow> string \<Rightarrow> pe_error list" where
  "requireReference value path requiredScheme =
     requirePatternString value path referencePattern 256
       (drop 1 path @ js '' must be a bounded '' @ js requiredScheme @ js '': reference.'')
     @ (case value of
          JStr s \<Rightarrow> if \<not> js_startsWith s (js requiredScheme @ js '':'')
                    then [createContractErrorV1 PE_invalid_field path
                            (drop 1 path @ js '' must use the '' @ js requiredScheme @ js '': scheme.'')]
                    else []
        | _ \<Rightarrow> [])"

definition requireTimestamp :: "jsval \<Rightarrow> jstr \<Rightarrow> pe_error list" where
  "requireTimestamp value path =
     requirePatternString value path isoDateTime_test 40
       (drop 1 path @ js '' must be a canonical UTC timestamp.'')
     @ (case value of
          JStr s \<Rightarrow> if isoDateTime_test s \<and> parseCanonicalUtcTimestamp s = None
                    then [createContractErrorV1 PE_invalid_field path
                            (drop 1 path @ js '' must identify a real UTC instant.'')]
                    else []
        | _ \<Rightarrow> [])"

definition validateExactKeys :: "jsval \<Rightarrow> jstr list \<Rightarrow> jstr list \<Rightarrow> jstr \<Rightarrow> pe_error list" where
  "validateExactKeys value requiredKeys allowedKeys path =
     concat (map (\<lambda>key. if key \<notin> set allowedKeys
       then [createContractErrorV1 PE_unexpected_field path (js ''Unexpected field.'')] else [])
       (js_keys value))
     @ concat (map (\<lambda>key. if \<not> js_has value key
       then [createContractErrorV1 PE_missing_required_field
               (path @ js ''/'' @ escapeJsonPointerSegment key) (js ''Required field is missing.'')]
       else []) requiredKeys)"

text \<open>\<open>value.some((item, index) => index > 0 && value[index - 1] >= item)\<close>\<close>

fun some_not_ascending :: "jstr list \<Rightarrow> bool" where
  "some_not_ascending (x # y # zs) \<longleftrightarrow> y \<le> x \<or> some_not_ascending (y # zs)"
| "some_not_ascending _ \<longleftrightarrow> False"

fun validateSortedUniqueStrings :: "jsval \<Rightarrow> jstr \<Rightarrow> (jstr \<Rightarrow> bool) \<Rightarrow> nat \<Rightarrow> pe_error list" where
  "validateSortedUniqueStrings (JArr vs) path pattern maxLength =
     concat (map (\<lambda>(index, item). requirePatternString item (path @ js ''/'' @ show_nat index)
       pattern maxLength (js ''Array entries must be bounded canonical strings.'')) (enumerate 0 vs))
     @ (if list_all js_isString vs \<and> some_not_ascending (map as_str vs)
        then [createContractErrorV1 PE_noncanonical_collection path
                (js ''Set-like arrays must be sorted in ascending order without duplicates.'')]
        else [])"
| "validateSortedUniqueStrings v path pattern maxLength =
     [invalid_field path ''Value must be an array.'']"

definition validateSortedUniqueReferences :: "jsval \<Rightarrow> jstr \<Rightarrow> pe_error list" where
  "validateSortedUniqueReferences value path = validateSortedUniqueStrings value path referencePattern 256"

definition validateSortedUniquePermissions :: "jsval \<Rightarrow> jstr \<Rightarrow> pe_error list" where
  "validateSortedUniquePermissions value path = validateSortedUniqueStrings value path permissionPattern 128"

definition validatePermissionEnvelope :: "jsval \<Rightarrow> pe_error list" where
  "validatePermissionEnvelope value =
     (if \<not> js_isPlainObject value
      then [invalid_field (js ''/permission_envelope'') ''permission_envelope must be an object.'']
      else
        validateExactKeys value permissionEnvelopeKeys permissionEnvelopeKeys (js ''/permission_envelope'')
        @ validateSortedUniquePermissions (fld value ''allow'') (js ''/permission_envelope/allow'')
        @ validateSortedUniquePermissions (fld value ''block'') (js ''/permission_envelope/block'')
        @ (case (fld value ''allow'', fld value ''block'') of
             (JArr allow, JArr block) \<Rightarrow>
               concat (map (\<lambda>(index, permission).
                 if js_isString permission \<and> permission \<in> set (filter js_isString block)
                 then [invalid_field (js ''/permission_envelope/allow/'' @ show_nat index)
                         ''A permission cannot appear in both allow and block.'']
                 else []) (enumerate 0 allow))
           | _ \<Rightarrow> []))"

fun budget_amount_bad :: "jsval \<Rightarrow> bool" where
  "budget_amount_bad (JNum n) \<longleftrightarrow> \<not> num_isSafeInteger n \<or> num_less_int n 0 \<or> n = NNegZero"
| "budget_amount_bad _ \<longleftrightarrow> True"

definition validateBudget :: "jsval \<Rightarrow> pe_error list" where
  "validateBudget value =
     (if \<not> js_isPlainObject value then [invalid_field (js ''/budget'') ''budget must be an object.'']
      else
        validateExactKeys value budgetKeys budgetKeys (js ''/budget'')
        @ concat (map (\<lambda>key. if budget_amount_bad (js_get value key)
            then [createContractErrorV1 PE_invalid_field (js ''/budget/'' @ key)
                    (js ''budget.'' @ key @ js '' must be a non-negative safe integer.'')]
            else []) budgetKeys))"

text \<open>The key part of \<open>validateJsonObject\<close>.\<close>

definition validateJsonKey :: "jstr \<Rightarrow> jstr \<Rightarrow> pe_error list" where
  "validateJsonKey key itemPath =
     (if \<not> isWellFormedUnicode key
      then [invalid_field itemPath ''JSON object keys must contain well-formed Unicode.''] else [])
     @ (if forbiddenCredentialFieldPattern key
        then [createContractErrorV1 PE_secret_value_embedded itemPath
                (js ''Credential values are forbidden; use an explicit reference field.'')]
        else [])"

function validateJsonValue :: "jsval \<Rightarrow> jstr \<Rightarrow> pe_error list" where
  "validateJsonValue JNull path = []"
| "validateJsonValue (JBool b) path = []"
| "validateJsonValue (JStr s) path =
     (if \<not> isWellFormedUnicode s
      then [invalid_field path ''JSON strings must contain well-formed Unicode.''] else [])"
| "validateJsonValue (JNum n) path =
     (if \<not> num_isSafeInteger n \<or> n = NNegZero
      then [invalid_field path ''Canonical packet JSON permits safe integers only.''] else [])"
| "validateJsonValue (JArr vs) path =
     concat (map (\<lambda>(index, item). validateJsonValue item (path @ js ''/'' @ show_nat index))
       (enumerate 0 vs))"
| "validateJsonValue (JObj plain fs) path =
     (if plain
      then concat (map (\<lambda>(key, item). validateJsonKey key (path @ js ''/*'')
             @ validateJsonValue item (path @ js ''/*'')) fs)
      else [invalid_field path ''Value must belong to the canonical JSON domain.''])"
| "validateJsonValue JUndef path = [invalid_field path ''Value must belong to the canonical JSON domain.'']"
| "validateJsonValue JOther path = [invalid_field path ''Value must belong to the canonical JSON domain.'']"
  by pat_completeness auto
termination
proof (relation "measure (\<lambda>(v, path). size v)")
  fix vs :: "jsval list" and x :: "nat \<times> jsval" and i v and path :: jstr
  assume "x \<in> set (enumerate 0 vs)" and "(i, v) = x"
  then have "v \<in> set vs" by (metis enumerate_eq_zip set_zip_rightD)
  then show "((v, path @ js ''/'' @ show_nat i), JArr vs, path) \<in> measure (\<lambda>(v, path). size v)"
    by (auto simp: size_list_estimation' less_Suc_eq_le)
next
  fix p :: bool and fs :: "(jstr \<times> jsval) list" and x :: "jstr \<times> jsval" and k v and path :: jstr
  assume "x \<in> set fs" and "(k, v) = x"
  then have "size v < size (JObj p fs)" by (induction fs) auto
  then show "((v, path @ js ''/*''), JObj p fs, path) \<in> measure (\<lambda>(v, path). size v)" by simp
qed simp

text \<open>\<open>validateJsonObject\<close> is called on plain objects only.\<close>

definition validateJsonObject :: "jsval \<Rightarrow> jstr \<Rightarrow> pe_error list" where
  "validateJsonObject value path =
     (case value of
        JObj plain fs \<Rightarrow> concat (map (\<lambda>(key, item). validateJsonKey key (path @ js ''/*'')
          @ validateJsonValue item (path @ js ''/*'')) fs)
      | _ \<Rightarrow> [])"

fun risk_level_bad :: "jsval \<Rightarrow> bool" where
  "risk_level_bad (JNum n) \<longleftrightarrow> \<not> num_isSafeInteger n \<or> num_less_int n 0 \<or> num_greater_int n 8"
| "risk_level_bad _ \<longleftrightarrow> True"

definition time_window_errors :: "jsval \<Rightarrow> jsval \<Rightarrow> pe_error list" where
  "time_window_errors created_at expires_at =
     (case (created_at, expires_at) of
        (JStr c, JStr e) \<Rightarrow>
          if isoDateTime_test c \<and> isoDateTime_test e
             \<and> (case (parseCanonicalUtcTimestamp c, parseCanonicalUtcTimestamp e) of
                  (Some createdAt, Some expiresAt) \<Rightarrow> expiresAt \<le> createdAt
                | _ \<Rightarrow> True)
          then [createContractErrorV1 PE_invalid_time_window (js ''/expires_at'')
                  (js ''expires_at must be a valid UTC instant after created_at.'')]
          else []
      | _ \<Rightarrow> [])"

definition packet_errors :: "jsval \<Rightarrow> pe_error list" where
  "packet_errors value =
     validateExactKeys value rootKeys rootKeys []
     @ (if js_has value (js ''contract_version'') \<and> fld value ''contract_version'' \<noteq> JStr packet_contract_version
        then [createContractErrorV1 PE_unsupported_contract_version (js ''/contract_version'')
                (js ''contract_version must be the exact supported v1 contract version.'')] else [])
     @ (if js_has value (js ''schema_id'') \<and> fld value ''schema_id'' \<noteq> JStr packet_schema_id
        then [createContractErrorV1 PE_unsupported_schema (js ''/schema_id'')
                (js ''schema_id must be the exact supported v1 packet envelope schema.'')] else [])
     @ requirePatternString (fld value ''packet_id'') (js ''/packet_id'') packetIdPattern 68
         (js ''packet_id must use a canonical pkt_ identifier.'')
     @ (if fld value ''packet_type'' \<notin> JStr ` set universalPacketTypes
        then [invalid_field (js ''/packet_type'') ''packet_type must be a known universal packet type.'']
        else [])
     @ requireReference (fld value ''actor_ref'') (js ''/actor_ref'') ''identity''
     @ requireReference (fld value ''session_ref'') (js ''/session_ref'') ''session''
     @ requireReference (fld value ''project_ref'') (js ''/project_ref'') ''project''
     @ requireBoundedWellFormedString (fld value ''intent'') (js ''/intent'') 1 4096
     @ (if risk_level_bad (fld value ''risk_level'')
        then [invalid_field (js ''/risk_level'') ''risk_level must be an integer from 0 through 8.'']
        else [])
     @ validateSortedUniqueReferences (fld value ''source_refs'') (js ''/source_refs'')
     @ validateSortedUniqueReferences (fld value ''resource_refs'') (js ''/resource_refs'')
     @ requireReference (fld value ''policy_profile_ref'') (js ''/policy_profile_ref'') ''policy''
     @ validatePermissionEnvelope (fld value ''permission_envelope'')
     @ validateBudget (fld value ''budget'')
     @ (if \<not> js_isPlainObject (fld value ''constraints'')
        then [invalid_field (js ''/constraints'') ''constraints must be a JSON object.'']
        else validateJsonObject (fld value ''constraints'') (js ''/constraints''))
     @ (if \<not> js_isBoolean (fld value ''requires_approval'')
        then [invalid_field (js ''/requires_approval'') ''requires_approval must be boolean.'']
        else [])
     @ requirePatternString (fld value ''idempotency_key'') (js ''/idempotency_key'')
         idempotencyKeyPattern 133 (js ''idempotency_key must use a canonical idem_ identifier.'')
     @ requireTimestamp (fld value ''created_at'') (js ''/created_at'')
     @ requireTimestamp (fld value ''expires_at'') (js ''/expires_at'')
     @ time_window_errors (fld value ''created_at'') (fld value ''expires_at'')"

definition validatePacketEnvelopeV1 :: "jsval \<Rightarrow> pe_error list + jsval" where
  "validatePacketEnvelopeV1 value =
     (if \<not> js_isPlainObject value
      then Inl [createContractErrorV1 PE_invalid_type [] (js ''Packet envelope must be a plain object.'')]
      else (let errors = packet_errors value in if errors \<noteq> [] then Inl errors else Inr value))"

definition parsePacketEnvelopeV1Json :: "('a js_runtime_scheme) \<Rightarrow> jstr \<Rightarrow> pe_error list + jsval" where
  "parsePacketEnvelopeV1Json rt input =
     (case js_JSON_parse rt input of
        None \<Rightarrow> Inl [createContractErrorV1 PE_invalid_json []
                  (js ''Packet envelope JSON must be syntactically valid.'')]
      | Some value \<Rightarrow> validatePacketEnvelopeV1 value)"

datatype packet_throw =
    InvalidForCanonicalization "(packet_envelope_error_code \<times> jstr) option"
  | CanonicalizationFailed packet_type_error
  | PacketHashUnavailable

definition canonicalizePacketEnvelopeV1 :: "jsval \<Rightarrow> packet_throw + jstr" where
  "canonicalizePacketEnvelopeV1 packet =
     (case validatePacketEnvelopeV1 packet of
        Inl errors \<Rightarrow> Inl (InvalidForCanonicalization
          (case errors of [] \<Rightarrow> None | firstError # _ \<Rightarrow> Some (ce_code firstError, ce_path firstError)))
      | Inr valid \<Rightarrow>
          (case canonicalizeJsonValue valid of
             Inl e \<Rightarrow> Inl (CanonicalizationFailed e)
           | Inr text \<Rightarrow> Inr text))"

definition hashPacketEnvelopeV1 :: "('a js_runtime_scheme) \<Rightarrow> jsval \<Rightarrow> packet_throw + jstr" where
  "hashPacketEnvelopeV1 rt packet =
     bind_result (canonicalizePacketEnvelopeV1 packet) (\<lambda>canonical.
       case sha256_hex rt canonical of
         None \<Rightarrow> Inl PacketHashUnavailable
       | Some hash \<Rightarrow> Inr (js ''sha256:'' @ hash))"

lemmas packet_patterns_eval [js_eval] = packetIdPattern_def idempotencyKeyPattern_def rx_identifier_def
  referencePattern_def rx_ref_tail_def permissionPattern_def forbiddenCredentialFieldPattern_def
  credential_words_def rx_alternatives_def cc_fold_def less_eq_char_def

section \<open>What the checks accept\<close>

definition bounded_string :: "(jstr \<Rightarrow> bool) \<Rightarrow> nat \<Rightarrow> jstr \<Rightarrow> bool" where
  "bounded_string pattern most s \<longleftrightarrow>
     s \<noteq> [] \<and> length s \<le> most \<and> isWellFormedUnicode s \<and> pattern s"

definition scheme_ref :: "string \<Rightarrow> jstr \<Rightarrow> bool" where
  "scheme_ref scheme s \<longleftrightarrow> bounded_string referencePattern 256 s \<and> js_startsWith s (js scheme @ js '':'')"

definition string_set :: "(jstr \<Rightarrow> bool) \<Rightarrow> nat \<Rightarrow> jstr list \<Rightarrow> bool" where
  "string_set pattern most ss \<longleftrightarrow> list_all (bounded_string pattern most) ss \<and> sorted_wrt (<) ss"

definition real_timestamp :: "jstr \<Rightarrow> bool" where
  "real_timestamp s \<longleftrightarrow> bounded_string isoDateTime_test 40 s \<and> parseCanonicalUtcTimestamp s \<noteq> None"

fun constraint_ok :: "jsval \<Rightarrow> bool" where
  "constraint_ok JNull \<longleftrightarrow> True"
| "constraint_ok (JBool b) \<longleftrightarrow> True"
| "constraint_ok (JStr s) \<longleftrightarrow> isWellFormedUnicode s"
| "constraint_ok (JNum n) \<longleftrightarrow> num_isSafeInteger n \<and> n \<noteq> NNegZero"
| "constraint_ok (JArr vs) \<longleftrightarrow> list_all constraint_ok vs"
| "constraint_ok (JObj plain fs) \<longleftrightarrow> plain
     \<and> list_all (\<lambda>(k, v). isWellFormedUnicode k \<and> \<not> forbiddenCredentialFieldPattern k \<and> constraint_ok v) fs"
| "constraint_ok _ \<longleftrightarrow> False"

lemma invalid_field_not_Nil [simp]: "[createContractErrorV1 c p m] \<noteq> []"
  by simp

lemma requirePatternString_ok [check_ok]:
  "requirePatternString v path pattern most msg = [] \<longleftrightarrow> (\<exists>s. v = JStr s \<and> bounded_string pattern most s)"
  by (cases v) (auto simp: bounded_string_def)

lemma requireBounded_ok [check_ok]:
  "requireBoundedWellFormedString v path least most = [] \<longleftrightarrow>
     (\<exists>s. v = JStr s \<and> least \<le> length s \<and> length s \<le> most \<and> isWellFormedUnicode s)"
  by (cases v) auto

lemma requireReference_ok [check_ok]:
  "requireReference v path scheme = [] \<longleftrightarrow> (\<exists>s. v = JStr s \<and> scheme_ref scheme s)"
  by (cases v) (auto simp: requireReference_def scheme_ref_def bounded_string_def)

lemma requireTimestamp_ok [check_ok]:
  "requireTimestamp v path = [] \<longleftrightarrow> (\<exists>s. v = JStr s \<and> real_timestamp s)"
  by (cases v) (auto simp: requireTimestamp_def check_ok real_timestamp_def bounded_string_def)

lemma validateExactKeys_ok [check_ok]:
  "validateExactKeys v keys keys path = [] \<longleftrightarrow> set (js_keys v) = set keys"
  unfolding validateExactKeys_def append_is_Nil_conv concat_map_eq_Nil_iff js_has_def
  by (simp add: set_eq_subset subset_iff Ball_def) blast

lemma some_not_ascending_iff: "some_not_ascending ss \<longleftrightarrow> \<not> sorted_wrt (<) ss"
proof (induction ss rule: some_not_ascending.induct)
  case (1 x y zs)
  have "sorted_wrt (<) (x # y # zs) \<longleftrightarrow> x < y \<and> sorted_wrt (<) (y # zs)"
    by (rule sorted_wrt2) (simp add: transp_def)
  then show ?case using 1 by auto
qed auto

lemma all_strings_iff: "(\<forall>v \<in> set vs. \<exists>s. v = JStr s \<and> P s) \<longleftrightarrow> (\<exists>ss. vs = map JStr ss \<and> list_all P ss)"
proof
  assume "\<forall>v \<in> set vs. \<exists>s. v = JStr s \<and> P s"
  then have "vs = map JStr (map as_str vs) \<and> list_all P (map as_str vs)"
    by (induction vs) auto
  then show "\<exists>ss. vs = map JStr ss \<and> list_all P ss" by blast
qed (auto simp: list_all_iff)

lemma map_as_str [simp]: "map as_str (map JStr ss) = ss" "map (as_str \<circ> JStr) ss = ss"
  by (induction ss) auto

lemma map_JStr_inject [simp]: "map JStr a = map JStr b \<longleftrightarrow> a = b"
  by (simp add: inj_map_eq_map inj_def)

lemma enumerate_all_iff: "(\<forall>(i, v) \<in> set (enumerate n vs). P v) \<longleftrightarrow> (\<forall>v \<in> set vs. P v)"
  by (induction vs arbitrary: n) auto

lemma sortedStrings_ok [check_ok]:
  "validateSortedUniqueStrings v path pattern most = [] \<longleftrightarrow>
     (\<exists>ss. v = JArr (map JStr ss) \<and> string_set pattern most ss)"
proof (cases v)
  case (JArr vs)
  let ?e = "concat (map (\<lambda>(index, item). requirePatternString item (path @ js ''/'' @ show_nat index)
       pattern most (js ''Array entries must be bounded canonical strings.'')) (enumerate 0 vs))"
  have "?e = [] \<longleftrightarrow> (\<forall>v \<in> set vs. \<exists>s. v = JStr s \<and> bounded_string pattern most s)"
    using enumerate_all_iff [of 0 vs "\<lambda>v. \<exists>s. v = JStr s \<and> bounded_string pattern most s"]
    by (simp add: concat_map_eq_Nil_iff case_prod_unfold check_ok)
  also have "\<dots> \<longleftrightarrow> (\<exists>ss. vs = map JStr ss \<and> list_all (bounded_string pattern most) ss)"
    by (rule all_strings_iff)
  finally show ?thesis
    unfolding JArr validateSortedUniqueStrings.simps append_is_Nil_conv
    by (auto simp: string_set_def some_not_ascending_iff list_all_iff)
qed (auto simp: invalid_field_def)

declare requirePatternString.simps [simp del] requireBoundedWellFormedString.simps [simp del]
  validateSortedUniqueStrings.simps [simp del]

lemma permissionEnvelope_ok [check_ok]:
  "validatePermissionEnvelope v = [] \<longleftrightarrow>
     js_isPlainObject v \<and> set (js_keys v) = set permissionEnvelopeKeys
     \<and> (\<exists>allow block. fld v ''allow'' = JArr (map JStr allow) \<and> fld v ''block'' = JArr (map JStr block)
          \<and> string_set permissionPattern 128 allow \<and> string_set permissionPattern 128 block
          \<and> set allow \<inter> set block = {})"
proof -
  have disj: "(\<forall>x \<in> set (enumerate 0 (map JStr allow)). (case x of (i, p) \<Rightarrow>
        if js_isString p \<and> p \<in> JStr ` set block then [e i] else []) = [])
      \<longleftrightarrow> set allow \<inter> set block = {}"
    for allow block and e :: "nat \<Rightarrow> pe_error"
  proof -
    have "(\<forall>x \<in> set (enumerate 0 (map JStr allow)). (case x of (i, p) \<Rightarrow>
        if js_isString p \<and> p \<in> JStr ` set block then [e i] else []) = [])
      \<longleftrightarrow> (\<forall>(i, p) \<in> set (enumerate 0 (map JStr allow)). \<not> (js_isString p \<and> p \<in> JStr ` set block))"
      by (rule ball_cong) auto
    also have "\<dots> \<longleftrightarrow> (\<forall>p \<in> set (map JStr allow). \<not> (js_isString p \<and> p \<in> JStr ` set block))"
      by (rule enumerate_all_iff)
    finally show ?thesis by auto
  qed
  show ?thesis
    unfolding validatePermissionEnvelope_def validateSortedUniquePermissions_def
    by (cases "js_isPlainObject v") (auto simp: check_ok disj invalid_field_def)
qed

fun safe_amount :: "jsval \<Rightarrow> int \<Rightarrow> bool" where
  "safe_amount v i \<longleftrightarrow> v = JNum (NInt i) \<and> 0 \<le> i \<and> i \<le> max_safe_integer"

lemma budget_amount_ok [check_ok]: "\<not> budget_amount_bad v \<longleftrightarrow> (\<exists>i. safe_amount v i)"
proof (cases v)
  case (JNum n)
  then show ?thesis by (cases n) auto
qed auto

lemma validateBudget_ok [check_ok]:
  "validateBudget v = [] \<longleftrightarrow> js_isPlainObject v \<and> set (js_keys v) = set budgetKeys
     \<and> (\<forall>k \<in> set budgetKeys. \<exists>i. safe_amount (js_get v k) i)"
  unfolding validateBudget_def
  by (auto simp: check_ok concat_map_eq_Nil_iff invalid_field_def simp del: safe_amount.simps
      simp flip: budget_amount_ok)

lemma validateJsonKey_ok [check_ok]:
  "validateJsonKey k path = [] \<longleftrightarrow> isWellFormedUnicode k \<and> \<not> forbiddenCredentialFieldPattern k"
  by (simp add: validateJsonKey_def)

lemma validateJsonValue_ok [check_ok]: "validateJsonValue v path = [] \<longleftrightarrow> constraint_ok v"
proof (induction v path rule: validateJsonValue.induct)
  case (5 vs path)
  have "validateJsonValue (JArr vs) path = [] \<longleftrightarrow>
      (\<forall>(i, v) \<in> set (enumerate 0 vs). constraint_ok v)"
    using "5" by (fastforce simp: concat_map_eq_Nil_iff)
  also have "\<dots> \<longleftrightarrow> (\<forall>v \<in> set vs. constraint_ok v)" by (rule enumerate_all_iff)
  finally show ?case by (simp add: list_all_iff)
next
  case (6 plain fs path)
  show ?case
  proof (cases plain)
    case True
    then show ?thesis using "6" by (fastforce simp: concat_map_eq_Nil_iff list_all_iff check_ok)
  qed simp
qed auto

lemma validateJsonObject_ok [check_ok]:
  "js_isPlainObject v \<Longrightarrow> validateJsonObject v path = [] \<longleftrightarrow> constraint_ok v"
  by (cases v) (auto simp: validateJsonObject_def check_ok concat_map_eq_Nil_iff list_all_iff)

definition num_reads :: "jsnum \<Rightarrow> int \<Rightarrow> bool" where
  "num_reads n i \<longleftrightarrow> n = NInt i \<or> n = NNegZero \<and> i = 0"

lemma risk_level_ok [check_ok]:
  "\<not> risk_level_bad v \<longleftrightarrow> (\<exists>n i. v = JNum n \<and> num_reads n i \<and> 0 \<le> i \<and> i \<le> 8)"
proof (cases v)
  case (JNum n)
  then show ?thesis by (cases n) (auto simp: num_reads_def max_safe_integer_def)
qed auto

definition window_ok :: "jstr \<Rightarrow> jstr \<Rightarrow> bool" where
  "window_ok c e \<longleftrightarrow> (\<exists>t u. parseCanonicalUtcTimestamp c = Some t \<and> parseCanonicalUtcTimestamp e = Some u \<and> t < u)"

lemma time_window_ok [check_ok]:
  "real_timestamp c \<Longrightarrow> real_timestamp e \<Longrightarrow>
     time_window_errors (JStr c) (JStr e) = [] \<longleftrightarrow> window_ok c e"
  by (auto simp: time_window_errors_def real_timestamp_def bounded_string_def window_ok_def)

section \<open>Specification\<close>

record packet_envelope_v1 =
  pe_packet_id :: jstr
  pe_packet_type :: jstr
  pe_actor_ref :: jstr
  pe_session_ref :: jstr
  pe_project_ref :: jstr
  pe_intent :: jstr
  pe_risk_level :: int
  pe_source_refs :: "jstr list"
  pe_resource_refs :: "jstr list"
  pe_policy_profile_ref :: jstr
  pe_allow :: "jstr list"
  pe_block :: "jstr list"
  pe_tokens :: int
  pe_runtime_seconds :: int
  pe_cost_microusd :: int
  pe_cpu_millicores :: int
  pe_memory_bytes :: int
  pe_constraints :: jsval
  pe_requires_approval :: bool
  pe_idempotency_key :: jstr
  pe_created_at :: jstr
  pe_expires_at :: jstr

definition permission_shape :: "jsval \<Rightarrow> jstr list \<Rightarrow> jstr list \<Rightarrow> bool" where
  "permission_shape v allow block \<longleftrightarrow>
     js_isPlainObject v \<and> set (js_keys v) = set permissionEnvelopeKeys
     \<and> fld v ''allow'' = JArr (map JStr allow) \<and> fld v ''block'' = JArr (map JStr block)"

definition budget_shape :: "jsval \<Rightarrow> int list \<Rightarrow> bool" where
  "budget_shape v amounts \<longleftrightarrow>
     js_isPlainObject v \<and> set (js_keys v) = set budgetKeys
     \<and> map (js_get v) budgetKeys = map (\<lambda>i. JNum (NInt i)) amounts"

definition packet_shape :: "jsval \<Rightarrow> packet_envelope_v1 \<Rightarrow> bool" where
  "packet_shape v r \<longleftrightarrow>
     js_isPlainObject v \<and> set (js_keys v) = set rootKeys
     \<and> fld v ''contract_version'' = JStr packet_contract_version
     \<and> fld v ''schema_id'' = JStr packet_schema_id
     \<and> fld v ''packet_id'' = JStr (pe_packet_id r)
     \<and> fld v ''packet_type'' = JStr (pe_packet_type r)
     \<and> fld v ''actor_ref'' = JStr (pe_actor_ref r)
     \<and> fld v ''session_ref'' = JStr (pe_session_ref r)
     \<and> fld v ''project_ref'' = JStr (pe_project_ref r)
     \<and> fld v ''intent'' = JStr (pe_intent r)
     \<and> (\<exists>n. fld v ''risk_level'' = JNum n \<and> num_reads n (pe_risk_level r))
     \<and> fld v ''source_refs'' = JArr (map JStr (pe_source_refs r))
     \<and> fld v ''resource_refs'' = JArr (map JStr (pe_resource_refs r))
     \<and> fld v ''policy_profile_ref'' = JStr (pe_policy_profile_ref r)
     \<and> permission_shape (fld v ''permission_envelope'') (pe_allow r) (pe_block r)
     \<and> budget_shape (fld v ''budget'') [pe_tokens r, pe_runtime_seconds r, pe_cost_microusd r,
          pe_cpu_millicores r, pe_memory_bytes r]
     \<and> fld v ''constraints'' = pe_constraints r \<and> js_isPlainObject (pe_constraints r)
     \<and> fld v ''requires_approval'' = JBool (pe_requires_approval r)
     \<and> fld v ''idempotency_key'' = JStr (pe_idempotency_key r)
     \<and> fld v ''created_at'' = JStr (pe_created_at r)
     \<and> fld v ''expires_at'' = JStr (pe_expires_at r)"

definition amount_ok :: "int \<Rightarrow> bool" where
  "amount_ok i \<longleftrightarrow> 0 \<le> i \<and> i \<le> max_safe_integer"

definition packet_rules :: "packet_envelope_v1 \<Rightarrow> bool" where
  "packet_rules r \<longleftrightarrow>
     bounded_string packetIdPattern 68 (pe_packet_id r)
     \<and> pe_packet_type r \<in> set universalPacketTypes
     \<and> scheme_ref ''identity'' (pe_actor_ref r)
     \<and> scheme_ref ''session'' (pe_session_ref r)
     \<and> scheme_ref ''project'' (pe_project_ref r)
     \<and> (1 \<le> length (pe_intent r) \<and> length (pe_intent r) \<le> 4096 \<and> isWellFormedUnicode (pe_intent r))
     \<and> (0 \<le> pe_risk_level r \<and> pe_risk_level r \<le> 8)
     \<and> string_set referencePattern 256 (pe_source_refs r)
     \<and> string_set referencePattern 256 (pe_resource_refs r)
     \<and> scheme_ref ''policy'' (pe_policy_profile_ref r)
     \<and> string_set permissionPattern 128 (pe_allow r)
     \<and> string_set permissionPattern 128 (pe_block r)
     \<and> set (pe_allow r) \<inter> set (pe_block r) = {}
     \<and> list_all amount_ok [pe_tokens r, pe_runtime_seconds r, pe_cost_microusd r,
          pe_cpu_millicores r, pe_memory_bytes r]
     \<and> constraint_ok (pe_constraints r)
     \<and> bounded_string idempotencyKeyPattern 133 (pe_idempotency_key r)
     \<and> real_timestamp (pe_created_at r) \<and> real_timestamp (pe_expires_at r)
     \<and> window_ok (pe_created_at r) (pe_expires_at r)"

lemma budget_iff:
  "validateBudget v = [] \<longleftrightarrow>
     (\<exists>a b c d e. budget_shape v [a, b, c, d, e] \<and> list_all amount_ok [a, b, c, d, e])"
  unfolding check_ok budget_shape_def amount_ok_def by (auto simp: budgetKeys_def)

lemma permission_iff:
  "validatePermissionEnvelope v = [] \<longleftrightarrow>
     (\<exists>allow block. permission_shape v allow block \<and> string_set permissionPattern 128 allow
        \<and> string_set permissionPattern 128 block \<and> set allow \<inter> set block = {})"
  unfolding check_ok permission_shape_def by blast

lemma packet_errors_Nil_if:
  assumes "packet_shape v r" and "packet_rules r"
  shows "packet_errors v = []"
proof -
  have "validateBudget (fld v ''budget'') = []"
    unfolding budget_iff using assms unfolding packet_shape_def packet_rules_def by blast
  moreover have "validatePermissionEnvelope (fld v ''permission_envelope'') = []"
    unfolding permission_iff using assms unfolding packet_shape_def packet_rules_def by blast
  moreover have "\<not> risk_level_bad (fld v ''risk_level'')"
    unfolding check_ok using assms unfolding packet_shape_def packet_rules_def by blast
  ultimately show ?thesis
    using assms unfolding packet_errors_def packet_shape_def packet_rules_def
    by (simp add: requirePatternString_ok requireReference_ok requireBounded_ok requireTimestamp_ok
        validateExactKeys_ok sortedStrings_ok validateJsonObject_ok time_window_ok
        validateSortedUniqueReferences_def)
qed

lemma packet_errors_NilD:
  assumes "packet_errors v = []" and "js_isPlainObject v"
  shows "\<exists>r. packet_shape v r \<and> packet_rules r"
proof -
  note e = assms(1) [unfolded packet_errors_def append_is_Nil_conv]
  have keys: "set (js_keys v) = set rootKeys" using e by (simp add: check_ok)
  then have "js_has v (js ''contract_version'')" "js_has v (js ''schema_id'')"
    by (simp_all add: js_has_def rootKeys_def)
  with e have cv: "fld v ''contract_version'' = JStr packet_contract_version"
    "fld v ''schema_id'' = JStr packet_schema_id" by (auto split: if_splits)
  from e obtain pid where pid: "fld v ''packet_id'' = JStr pid" "bounded_string packetIdPattern 68 pid"
    by (auto simp: requirePatternString_ok)
  from e obtain pt where pt: "fld v ''packet_type'' = JStr pt" "pt \<in> set universalPacketTypes"
    by (auto split: if_splits)
  from e obtain ar sr pr ppr where refs: "fld v ''actor_ref'' = JStr ar" "scheme_ref ''identity'' ar"
    "fld v ''session_ref'' = JStr sr" "scheme_ref ''session'' sr"
    "fld v ''project_ref'' = JStr pr" "scheme_ref ''project'' pr"
    "fld v ''policy_profile_ref'' = JStr ppr" "scheme_ref ''policy'' ppr"
    by (auto simp: requireReference_ok)
  from e obtain it where it: "fld v ''intent'' = JStr it" "1 \<le> length it" "length it \<le> 4096"
    "isWellFormedUnicode it" by (auto simp: requireBounded_ok)
  from e have "\<not> risk_level_bad (fld v ''risk_level'')" by (auto split: if_splits)
  then obtain n rl where rl: "fld v ''risk_level'' = JNum n" "num_reads n rl" "0 \<le> rl" "rl \<le> 8"
    by (auto simp: risk_level_ok)
  from e obtain srcs ress where sets: "fld v ''source_refs'' = JArr (map JStr srcs)"
    "string_set referencePattern 256 srcs" "fld v ''resource_refs'' = JArr (map JStr ress)"
    "string_set referencePattern 256 ress"
    by (auto simp: validateSortedUniqueReferences_def sortedStrings_ok)
  from e obtain al bl where pm: "permission_shape (fld v ''permission_envelope'') al bl"
    "string_set permissionPattern 128 al" "string_set permissionPattern 128 bl" "set al \<inter> set bl = {}"
    by (auto simp: permission_iff)
  from e obtain b1 b2 b3 b4 b5 where bd: "budget_shape (fld v ''budget'') [b1, b2, b3, b4, b5]"
    "list_all amount_ok [b1, b2, b3, b4, b5]"
    using budget_iff [of "fld v ''budget''"] by blast
  from e have con: "js_isPlainObject (fld v ''constraints'')" "constraint_ok (fld v ''constraints'')"
    using validateJsonObject_ok by (auto split: if_splits)
  from e obtain ra where ra: "fld v ''requires_approval'' = JBool ra"
    by (auto simp: js_isBoolean_iff split: if_splits)
  from e obtain ik where ik: "fld v ''idempotency_key'' = JStr ik"
    "bounded_string idempotencyKeyPattern 133 ik" by (auto simp: requirePatternString_ok)
  from e obtain ca ea where ts: "fld v ''created_at'' = JStr ca" "real_timestamp ca"
    "fld v ''expires_at'' = JStr ea" "real_timestamp ea" by (auto simp: requireTimestamp_ok)
  from e ts have win: "window_ok ca ea" by (simp add: time_window_ok)
  let ?r = "\<lparr>pe_packet_id = pid, pe_packet_type = pt, pe_actor_ref = ar, pe_session_ref = sr,
      pe_project_ref = pr, pe_intent = it, pe_risk_level = rl, pe_source_refs = srcs,
      pe_resource_refs = ress, pe_policy_profile_ref = ppr, pe_allow = al, pe_block = bl,
      pe_tokens = b1, pe_runtime_seconds = b2, pe_cost_microusd = b3, pe_cpu_millicores = b4,
      pe_memory_bytes = b5, pe_constraints = fld v ''constraints'', pe_requires_approval = ra,
      pe_idempotency_key = ik, pe_created_at = ca, pe_expires_at = ea\<rparr>"
  have "packet_shape v ?r"
    unfolding packet_shape_def using assms(2) keys cv pid pt refs it rl sets pm bd con ra ik ts by simp
  moreover have "packet_rules ?r"
    unfolding packet_rules_def using pid pt refs it rl sets pm bd con ik ts win by simp
  ultimately show ?thesis by blast
qed

lemma validate_iff:
  "validatePacketEnvelopeV1 v = Inr p \<longleftrightarrow> p = v \<and> (\<exists>r. packet_shape v r \<and> packet_rules r)"
proof -
  have "packet_shape v r \<Longrightarrow> js_isPlainObject v" for r by (simp add: packet_shape_def)
  then show ?thesis
    using packet_errors_Nil_if packet_errors_NilD
    by (auto simp: validatePacketEnvelopeV1_def Let_def)
qed

section \<open>Valid packets are canonical JSON\<close>

lemma constraint_data: "constraint_ok v \<Longrightarrow> js_data v"
  by (induction v) (fastforce simp: list_all_iff)+

lemma js_data_object:
  assumes "js_isObject v" and "js_wf v" and "\<And>k. k \<in> set (js_keys v) \<Longrightarrow> js_data (js_get v k)"
  shows "js_data v"
proof -
  from assms(1) obtain p fs where v: "v = JObj p fs" by (auto simp: js_isObject_iff)
  have "js_data x" if "(k, x) \<in> set fs" for k x
  proof -
    have "map_of fs k = Some x" using that assms(2) by (simp add: v)
    then show ?thesis using assms(3) [of k] that by (force simp: v)
  qed
  then show ?thesis by (auto simp: v list_all_iff)
qed

lemma js_data_strings: "js_data (JArr (map JStr ss))"
  by (simp add: list_all_iff)

lemma permission_data: "permission_shape v allow block \<Longrightarrow> js_wf v \<Longrightarrow> js_data v"
  by (rule js_data_object)
    (auto simp: permission_shape_def js_isObject_iff js_isPlainObject_iff permissionEnvelopeKeys_def
      js_data_strings simp del: js_data.simps js_get.simps)

lemma budget_amount:
  assumes "budget_shape v amounts" and "k \<in> set budgetKeys"
  shows "\<exists>i \<in> set amounts. js_get v k = JNum (NInt i)"
proof -
  have "js_get v ` set budgetKeys = (\<lambda>i. JNum (NInt i)) ` set amounts"
    using assms(1) unfolding budget_shape_def list.set_map [symmetric] by (simp only:)
  with assms(2) show ?thesis by (metis imageE imageI)
qed

lemma budget_data:
  "budget_shape v amounts \<Longrightarrow> list_all amount_ok amounts \<Longrightarrow> js_wf v \<Longrightarrow> js_data v"
proof (rule js_data_object)
  fix k assume b: "budget_shape v amounts" and a: "list_all amount_ok amounts" and k: "k \<in> set (js_keys v)"
  then obtain i where "i \<in> set amounts" "js_get v k = JNum (NInt i)"
    using budget_amount [OF b, of k] by (auto simp: budget_shape_def)
  then show "js_data (js_get v k)" using a by (simp add: list_all_iff amount_ok_def)
qed (auto simp: budget_shape_def js_isObject_iff js_isPlainObject_iff)

lemma packet_data:
  assumes "packet_shape v r" and "packet_rules r" and "js_wf v"
  shows "js_data v"
proof (rule js_data_object [OF _ assms(3)])
  show "js_isObject v" using assms(1) by (auto simp: packet_shape_def js_isObject_iff js_isPlainObject_iff)
  have "js_data (fld v ''permission_envelope'')"
    using assms(1) js_wf_get [OF assms(3)] by (intro permission_data) (auto simp: packet_shape_def)
  moreover have "js_data (fld v ''budget'')"
    by (rule budget_data) (use assms js_wf_get [OF assms(3)] in \<open>auto simp: packet_shape_def packet_rules_def\<close>)
  moreover have "js_data (fld v ''constraints'')"
    using assms(1,2) by (simp add: packet_shape_def packet_rules_def constraint_data)
  moreover have "js_data (fld v ''risk_level'')"
    using assms(1,2) by (auto simp: packet_shape_def packet_rules_def num_reads_def max_safe_integer_def)
  ultimately have "list_all (\<lambda>k. js_data (js_get v k)) rootKeys"
    using assms(1) unfolding packet_shape_def rootKeys_def
    by (simp add: js_data_strings del: js_data.simps(4))
  moreover fix k assume "k \<in> set (js_keys v)"
  then have "k \<in> set rootKeys" using assms(1) by (simp add: packet_shape_def)
  ultimately show "js_data (js_get v k)" by (simp add: list_all_iff)
qed

text \<open>A valid packet has a canonical text, and the text reads back to a copy of the packet.\<close>

lemma canonicalize_valid_packet:
  assumes "validatePacketEnvelopeV1 v = Inr p" and "js_wf v"
  shows "\<exists>text w. canonicalizePacketEnvelopeV1 v = Inr text \<and> canonicalizeJsonValue w = Inr text
    \<and> well_formed_utf16 text \<and> js_JSON_parse rt text = Some w \<and> js_snapshot v w"
proof -
  from assms(1) obtain r where p: "p = v" and r: "packet_shape v r" "packet_rules r"
    by (auto simp: validate_iff)
  obtain j where "jsonable v j" "json_ok j"
    using packet_data [OF r assms(2)] assms(2) by (rule js_data_json)
  from canonicalize_reread [OF this, of rt] assms(1) p show ?thesis
    by (auto simp: canonicalizePacketEnvelopeV1_def)
qed

lemma canonicalize_packet_valid:
  "canonicalizePacketEnvelopeV1 v = Inr text \<Longrightarrow> validatePacketEnvelopeV1 v = Inr v"
  by (auto simp: canonicalizePacketEnvelopeV1_def validatePacketEnvelopeV1_def Let_def
      split: sum.splits if_splits)

lemma packet_hash_text:
  assumes "hashPacketEnvelopeV1 rt v = Inr h" and "js_wf v"
  shows "\<exists>text w hex. canonicalizePacketEnvelopeV1 v = Inr text \<and> well_formed_utf16 text
    \<and> sha256_hex rt text = Some hex \<and> h = js ''sha256:'' @ hex
    \<and> js_JSON_parse rt text = Some w \<and> js_snapshot v w"
proof -
  from assms(1) obtain t hex where t: "canonicalizePacketEnvelopeV1 v = Inr t"
    "sha256_hex rt t = Some hex" "h = js ''sha256:'' @ hex"
    by (auto simp: hashPacketEnvelopeV1_def bind_result_eq_Inr_iff split: option.splits)
  from canonicalize_valid_packet [OF canonicalize_packet_valid [OF t(1)] assms(2), of rt] t
  show ?thesis by auto
qed

section \<open>The copy is valid again\<close>

lemma snapshot_strings: "js_snapshot (JArr (map JStr ss)) w \<longleftrightarrow> w = JArr (map JStr ss)"
proof -
  have "list_all2 js_snapshot (map JStr ss) ws \<longleftrightarrow> ws = map JStr ss" for ws
    by (induction ss arbitrary: ws) (auto simp: list_all2_Cons1)
  then show ?thesis by auto
qed

text \<open>Values a copy leaves unchanged.\<close>

definition fixed_value :: "jsval \<Rightarrow> bool" where
  "fixed_value v \<longleftrightarrow> js_isString v \<or> js_isBoolean v \<or> (\<exists>ss. v = JArr (map JStr ss))"

lemma fixed_value_simps [simp]:
  "fixed_value (JStr s)" "fixed_value (JBool b)" "fixed_value (JArr (map JStr ss))"
  by (auto simp: fixed_value_def)

lemma snapshot_fixed: "js_snapshot v w \<Longrightarrow> fixed_value v \<Longrightarrow> w = v"
  by (auto simp: fixed_value_def js_isString_iff js_isBoolean_iff snapshot_strings
      simp del: js_snapshot_simps(6))

lemma snapshot_plain: "js_snapshot v w \<Longrightarrow> js_isPlainObject v \<Longrightarrow> js_isPlainObject w"
  by (cases v) (auto elim: js_snapshot_objE)

lemma snapshot_keys: "js_snapshot v w \<Longrightarrow> js_isObject v \<Longrightarrow> set (js_keys w) = set (js_keys v)"
  using js_snapshot_get by (fastforce simp: js_isObject_iff js_has_def)

lemma snapshot_field:
  "js_snapshot v w \<Longrightarrow> js_isObject v \<Longrightarrow> k \<in> set (js_keys v) \<Longrightarrow> js_snapshot (js_get v k) (js_get w k)"
  using js_snapshot_get by (fastforce simp: js_isObject_iff js_has_def)

lemma constraint_snapshot: "js_snapshot v w \<Longrightarrow> constraint_ok v \<Longrightarrow> constraint_ok w"
proof (induction v arbitrary: w)
  case (JArr vs)
  then obtain ws where w: "w = JArr ws" and all: "list_all2 js_snapshot vs ws" by auto
  have "list_all constraint_ok ws"
    by (rule list_all2_imp_list_all [OF all]) (use JArr in \<open>auto simp: list_all_iff\<close>)
  then show ?case by (simp add: w)
next
  case (JObj p fs)
  then obtain gs where w: "w = JObj True gs" and d: "distinct (map fst gs)"
    and rel: "\<And>k. rel_option js_snapshot (map_of fs k) (map_of gs k)"
    by (auto elim: js_snapshot_objE)
  have "isWellFormedUnicode k \<and> \<not> forbiddenCredentialFieldPattern k \<and> constraint_ok y"
    if "(k, y) \<in> set gs" for k y
  proof -
    have "map_of gs k = Some y" using that d by simp
    with rel [of k] obtain x where x: "map_of fs k = Some x" "js_snapshot x y"
      by (auto elim: option.rel_cases)
    from map_of_SomeD [OF x(1)] show ?thesis
      using JObj.IH [of "(k, x)" x y] JObj.prems(2) x(2) by (auto simp: list_all_iff)
  qed
  then show ?case by (auto simp: w list_all_iff)
qed auto

lemma permission_snapshot:
  assumes "permission_shape v allow block" and "js_snapshot v w"
  shows "permission_shape w allow block"
proof -
  have o: "js_isObject v" using assms(1) by (auto simp: permission_shape_def js_isPlainObject_iff)
  have "js ''allow'' \<in> set (js_keys v)" "js ''block'' \<in> set (js_keys v)"
    using assms(1) by (simp_all add: permission_shape_def permissionEnvelopeKeys_def)
  then have "js_snapshot (fld v ''allow'') (fld w ''allow'')" "js_snapshot (fld v ''block'') (fld w ''block'')"
    using snapshot_field [OF assms(2) o] by blast+
  then show ?thesis
    using assms(1) snapshot_plain [OF assms(2)] snapshot_keys [OF assms(2) o]
    by (auto simp: permission_shape_def snapshot_strings simp del: js_snapshot_simps)
qed

lemma budget_snapshot:
  assumes "budget_shape v amounts" and "js_snapshot v w"
  shows "budget_shape w amounts"
proof -
  have o: "js_isObject v" using assms(1) by (auto simp: budget_shape_def js_isPlainObject_iff)
  have "js_get w k = js_get v k" if k: "k \<in> set budgetKeys" for k
  proof -
    obtain i where "js_get v k = JNum (NInt i)" using budget_amount [OF assms(1) k] by blast
    moreover have "js_snapshot (js_get v k) (js_get w k)"
      using assms k by (intro snapshot_field o) (auto simp: budget_shape_def)
    ultimately show ?thesis by auto
  qed
  then have "map (js_get w) budgetKeys = map (js_get v) budgetKeys" by simp
  with assms(1) snapshot_plain [OF assms(2)] snapshot_keys [OF assms(2) o] show ?thesis
    unfolding budget_shape_def by metis
qed

text \<open>The record of the copy: the same but for the constraints, which are copied too.\<close>

lemma packet_shape_snapshot:
  assumes "packet_shape v r" and "js_snapshot v w"
  shows "packet_shape w (r\<lparr>pe_constraints := fld w ''constraints''\<rparr>)
    \<and> js_snapshot (pe_constraints r) (fld w ''constraints'')"
proof -
  have o: "js_isObject v" using assms(1) by (auto simp: packet_shape_def js_isPlainObject_iff)
  have f: "js_snapshot (fld v k) (fld w k)" if "js k \<in> set rootKeys" for k
    using assms that by (intro snapshot_field o) (auto simp: packet_shape_def)
  let ?fixed = "[''contract_version'', ''schema_id'', ''packet_id'', ''packet_type'', ''actor_ref'',
      ''session_ref'', ''project_ref'', ''intent'', ''source_refs'', ''resource_refs'',
      ''policy_profile_ref'', ''requires_approval'', ''idempotency_key'', ''created_at'', ''expires_at'']"
  have "list_all (\<lambda>k. js k \<in> set rootKeys \<and> fixed_value (fld v k)) ?fixed"
    using assms(1) unfolding packet_shape_def by (simp add: rootKeys_def)
  then have fixed: "js k \<in> set rootKeys \<and> fixed_value (fld v k)" if "k \<in> set ?fixed" for k
    using that unfolding list_all_iff by (rule bspec)
  have eqs: "fld w k = fld v k" if "k \<in> set ?fixed" for k
    using snapshot_fixed [OF f [of k]] fixed [OF that] by simp
  have con: "js_snapshot (pe_constraints r) (fld w ''constraints'')"
    using f [of "''constraints''"] assms(1) by (simp add: packet_shape_def rootKeys_def)
  have risk: "\<exists>n. fld w ''risk_level'' = JNum n \<and> num_reads n (pe_risk_level r)"
    using f [of "''risk_level''"] assms(1) by (auto simp: packet_shape_def rootKeys_def num_reads_def)
  have "permission_shape (fld w ''permission_envelope'') (pe_allow r) (pe_block r)"
    by (rule permission_snapshot [OF _ f [of "''permission_envelope''"]])
      (use assms(1) in \<open>simp_all add: packet_shape_def rootKeys_def\<close>)
  moreover have "budget_shape (fld w ''budget'') [pe_tokens r, pe_runtime_seconds r,
      pe_cost_microusd r, pe_cpu_millicores r, pe_memory_bytes r]"
    by (rule budget_snapshot [OF _ f [of "''budget''"]])
      (use assms(1) in \<open>simp_all add: packet_shape_def rootKeys_def\<close>)
  ultimately have "packet_shape w (r\<lparr>pe_constraints := fld w ''constraints''\<rparr>)"
    using assms(1) snapshot_plain [OF assms(2)] snapshot_keys [OF assms(2) o] risk
      snapshot_plain [OF con]
    unfolding packet_shape_def by (simp add: eqs)
  with con show ?thesis by blast
qed

lemma packet_rules_snapshot:
  "packet_rules r \<Longrightarrow> js_snapshot (pe_constraints r) c \<Longrightarrow> packet_rules (r\<lparr>pe_constraints := c\<rparr>)"
  using constraint_snapshot by (simp add: packet_rules_def)

text \<open>Reading back a valid packet gives a valid packet with the same record and the same text.\<close>

lemma valid_packet_reread:
  assumes "packet_shape v r" and "packet_rules r" and "js_wf v"
  shows "\<exists>t w. canonicalizePacketEnvelopeV1 v = Inr t \<and> js_JSON_parse rt t = Some w
    \<and> js_snapshot v w \<and> packet_shape w (r\<lparr>pe_constraints := fld w ''constraints''\<rparr>)
    \<and> validatePacketEnvelopeV1 w = Inr w \<and> canonicalizePacketEnvelopeV1 w = Inr t"
proof -
  have "validatePacketEnvelopeV1 v = Inr v" using assms by (auto simp: validate_iff)
  from canonicalize_valid_packet [OF this assms(3), of rt] obtain t w where
    t: "canonicalizePacketEnvelopeV1 v = Inr t" "js_JSON_parse rt t = Some w" "js_snapshot v w"
    "canonicalizeJsonValue w = Inr t" by blast
  note w = packet_shape_snapshot [OF assms(1) t(3)]
  have valid: "validatePacketEnvelopeV1 w = Inr w"
    using w packet_rules_snapshot [OF assms(2)] by (auto simp: validate_iff)
  then have "canonicalizePacketEnvelopeV1 w = Inr t"
    using t(4) by (simp add: canonicalizePacketEnvelopeV1_def)
  with t w valid show ?thesis by blast
qed

lemma hash_of_same_text:
  "canonicalizePacketEnvelopeV1 v = canonicalizePacketEnvelopeV1 w \<Longrightarrow>
     hashPacketEnvelopeV1 rt v = hashPacketEnvelopeV1 rt w"
  by (simp add: hashPacketEnvelopeV1_def)

section \<open>The record of a packet is unique\<close>

lemma num_reads_unique: "num_reads n i \<Longrightarrow> num_reads n j \<Longrightarrow> i = j"
  by (auto simp: num_reads_def)

lemma packet_shape_unique:
  assumes "packet_shape v r" and "packet_shape v s"
  shows "r = s"
proof -
  have b: "[pe_tokens r, pe_runtime_seconds r, pe_cost_microusd r, pe_cpu_millicores r, pe_memory_bytes r]
      = [pe_tokens s, pe_runtime_seconds s, pe_cost_microusd s, pe_cpu_millicores s, pe_memory_bytes s]"
  proof -
    have "inj (\<lambda>i. JNum (NInt i))" by (simp add: inj_def)
    moreover have "map (\<lambda>i. JNum (NInt i)) [pe_tokens r, pe_runtime_seconds r, pe_cost_microusd r,
          pe_cpu_millicores r, pe_memory_bytes r]
        = map (\<lambda>i. JNum (NInt i)) [pe_tokens s, pe_runtime_seconds s, pe_cost_microusd s,
          pe_cpu_millicores s, pe_memory_bytes s]"
      using assms unfolding packet_shape_def budget_shape_def by (simp only:)
    ultimately show ?thesis by (simp only: inj_map_eq_map)
  qed
  have p: "pe_allow r = pe_allow s" "pe_block r = pe_block s"
    using assms unfolding packet_shape_def permission_shape_def by simp_all
  have "pe_risk_level r = pe_risk_level s"
    using assms num_reads_unique unfolding packet_shape_def by (metis jsval.inject(2))
  with b p assms show ?thesis unfolding packet_shape_def by simp
qed

lemma packet_hash_fields:
  assumes "hashPacketEnvelopeV1 rt v = Inr h" and "hashPacketEnvelopeV1 rt w = Inr h"
    and "js_wf v" and "js_wf w" and "packet_shape v r" and "packet_shape w s"
  shows "(canonicalizePacketEnvelopeV1 v = canonicalizePacketEnvelopeV1 w
      \<and> r\<lparr>pe_constraints := JNull\<rparr> = s\<lparr>pe_constraints := JNull\<rparr>)
    \<or> (\<exists>x y. canonicalizePacketEnvelopeV1 v = Inr x \<and> canonicalizePacketEnvelopeV1 w = Inr y
        \<and> digest_collision rt (utf8_encode x) (utf8_encode y))"
proof -
  from packet_hash_text [OF assms(1,3)] obtain x u hx where
    x: "canonicalizePacketEnvelopeV1 v = Inr x" "well_formed_utf16 x" "sha256_hex rt x = Some hx"
    "h = js ''sha256:'' @ hx" "js_JSON_parse rt x = Some u" "js_snapshot v u" by blast
  from packet_hash_text [OF assms(2,4)] obtain y u' hy where
    y: "canonicalizePacketEnvelopeV1 w = Inr y" "well_formed_utf16 y" "sha256_hex rt y = Some hy"
    "h = js ''sha256:'' @ hy" "js_JSON_parse rt y = Some u'" "js_snapshot w u'" by blast
  show ?thesis
  proof (cases "x = y")
    case True
    then have "u' = u" using x y by simp
    have "r\<lparr>pe_constraints := fld u ''constraints''\<rparr> = s\<lparr>pe_constraints := fld u ''constraints''\<rparr>"
      using packet_shape_snapshot [OF assms(5) x(6)] packet_shape_snapshot [OF assms(6) y(6)]
      unfolding \<open>u' = u\<close> by (blast intro: packet_shape_unique)
    from arg_cong [OF this, of "\<lambda>q. q\<lparr>pe_constraints := JNull\<rparr>"]
    have "r\<lparr>pe_constraints := JNull\<rparr> = s\<lparr>pe_constraints := JNull\<rparr>" by simp
    then show ?thesis using True x y by simp
  next
    case False
    then show ?thesis using sha256_hex_inject [OF x(3) _ x(2) y(2)] x y by simp
  qed
qed

end
