(* ===== verification/Packet_Sample.thy ===== *)
theory Packet_Sample
  imports Packet_Envelope
begin

text \<open>
  A concrete packet of the contract with its record, and the facts that evaluate the patterns
  and timestamps it uses; the components evaluate their models on it.
\<close>

section \<open>A sample packet\<close>

text \<open>Object, string, array and number literals, and a packet of the contract.\<close>

definition obj :: "(string \<times> jsval) list \<Rightarrow> jsval" where
  "obj fs = JObj True (map (\<lambda>(k, v). (js k, v)) fs)"

definition jtext :: "string \<Rightarrow> jsval" where
  "jtext s = JStr (js s)"

definition jtexts :: "string list \<Rightarrow> jsval" where
  "jtexts ss = JArr (map JStr (map js ss))"

definition jint :: "int \<Rightarrow> jsval" where
  "jint i = JNum (NInt i)"

definition sample_digest :: string where
  "sample_digest = ''sha256:'' @ replicate 64 (CHR ''a'')"

definition sample_proposal :: jsval where
  "sample_proposal = obj [
    (''schema_id'', jtext ''lnsat.execution_proposal.schema.v1_0''),
    (''derivation_profile'', jtext ''lnsat.execution_request.packet_embedded.v1''),
    (''action'', obj [(''kind'', jtext ''deploy''), (''arguments'', obj [(''replicas'', jint 2)])]),
    (''target'', obj [(''resource_ref'', jtext ''service:api''), (''identity'', obj [(''region'', jtext ''eu'')])]),
    (''configuration_digest'', jtext sample_digest),
    (''adapter'', obj [(''ref'', jtext ''adapter:d1''), (''version'', jtext ''1.0'')]),
    (''executable_digest'', jtext sample_digest),
    (''audience'', jtext ''service:api'')]"

definition sample_constraints :: jsval where
  "sample_constraints = obj [(''retries'', jint 2), (''secret_ref'', jtext ''vault:deploy-key''),
    (''execution_proposal'', sample_proposal)]"

definition sample_packet :: jsval where
  "sample_packet = obj [
    (''contract_version'', jtext ''lnsat.contracts.v1_0''),
    (''schema_id'', jtext ''lnsat.packet_envelope.schema.v1_0''),
    (''packet_id'', jtext ''pkt_deploy_0001''),
    (''packet_type'', jtext ''ExecutionPacket''),
    (''actor_ref'', jtext ''identity:agent:a1''),
    (''session_ref'', jtext ''session:s1''),
    (''project_ref'', jtext ''project:p1''),
    (''intent'', jtext ''deploy''),
    (''risk_level'', jint 5),
    (''source_refs'', jtexts [''repo:main'']),
    (''resource_refs'', jtexts [''service:api'']),
    (''policy_profile_ref'', jtext ''policy:agent_sandbox''),
    (''permission_envelope'', obj [(''allow'', jtexts [''deploy.request'']), (''block'', jtexts [''root''])]),
    (''budget'', obj [(''tokens'', jint 1), (''runtime_seconds'', jint 2), (''cost_microusd'', jint 3),
       (''cpu_millicores'', jint 4), (''memory_bytes'', jint 5)]),
    (''constraints'', sample_constraints),
    (''requires_approval'', JBool True),
    (''idempotency_key'', jtext ''idem_deploy_0001''),
    (''created_at'', jtext ''2026-01-02T03:04:05Z''),
    (''expires_at'', jtext ''2026-01-02T04:04:05Z'')]"

definition sample_record :: packet_envelope_v1 where
  "sample_record = \<lparr>pe_packet_id = js ''pkt_deploy_0001'', pe_packet_type = js ''ExecutionPacket'',
      pe_actor_ref = js ''identity:agent:a1'', pe_session_ref = js ''session:s1'',
      pe_project_ref = js ''project:p1'', pe_intent = js ''deploy'', pe_risk_level = 5,
      pe_source_refs = [js ''repo:main''], pe_resource_refs = [js ''service:api''],
      pe_policy_profile_ref = js ''policy:agent_sandbox'', pe_allow = [js ''deploy.request''],
      pe_block = [js ''root''], pe_tokens = 1, pe_runtime_seconds = 2, pe_cost_microusd = 3,
      pe_cpu_millicores = 4, pe_memory_bytes = 5, pe_constraints = sample_constraints,
      pe_requires_approval = True, pe_idempotency_key = js ''idem_deploy_0001'',
      pe_created_at = js ''2026-01-02T03:04:05Z'', pe_expires_at = js ''2026-01-02T04:04:05Z''\<rparr>"

lemmas literal_eval [js_eval] = obj_def jtext_def jtexts_def jint_def

lemma well_formed_ascii [simp]: "isWellFormedUnicode (js s)"
proof -
  have "isWellFormedUnicode s" if "well_formed_utf16 s" for s
    using that by (induction s rule: well_formed_utf16.induct) (auto split: if_splits)
  then show ?thesis by simp
qed

lemma sample_shape: "packet_shape sample_packet sample_record"
  by (simp add: packet_shape_def sample_packet_def sample_record_def sample_constraints_def js_eval
      packet_contract_version_def packet_schema_id_def rootKeys_def permission_shape_def
      permissionEnvelopeKeys_def budget_shape_def budgetKeys_def num_reads_def)

lemma sample_timestamps:
  "isoDateTime_test (js ''2026-01-02T03:04:05Z'')" "isoDateTime_test (js ''2026-01-02T04:04:05Z'')"
  "parseCanonicalUtcTimestamp (js ''2026-01-02T03:04:05Z'') = Some 1767323045000"
  "parseCanonicalUtcTimestamp (js ''2026-01-02T04:04:05Z'') = Some 1767326645000"
  by (simp_all add: js_eval)

lemma sample_references:
  "referencePattern (js ''identity:agent:a1'')" "referencePattern (js ''session:s1'')"
  "referencePattern (js ''project:p1'')" "referencePattern (js ''policy:agent_sandbox'')"
  "referencePattern (js ''repo:main'')" "referencePattern (js ''service:api'')"
  by (simp_all add: js_eval)

lemma sample_permissions:
  "permissionPattern (js ''deploy.request'')" "permissionPattern (js ''root'')"
  by (simp_all add: js_eval)

lemma sample_identifiers:
  "packetIdPattern (js ''pkt_deploy_0001'')" "idempotencyKeyPattern (js ''idem_deploy_0001'')"
  by (simp_all add: js_eval)

lemma sample_constraint_keys:
  "\<forall>k \<in> set [''retries'', ''secret_ref'', ''execution_proposal'', ''schema_id'', ''derivation_profile'', ''action'',
     ''kind'', ''arguments'', ''replicas'']. \<not> forbiddenCredentialFieldPattern (js k)"
  "\<forall>k \<in> set [''target'', ''resource_ref'', ''identity'', ''region'', ''configuration_digest'', ''adapter'', ''ref'',
     ''version'', ''executable_digest'', ''audience'']. \<not> forbiddenCredentialFieldPattern (js k)"
  by (simp_all add: js_eval)

lemmas sample_facts = sample_timestamps sample_references sample_permissions sample_identifiers
  sample_constraint_keys

lemma sample_constraints_ok: "constraint_ok sample_constraints"
  using sample_constraint_keys by (simp add: sample_constraints_def sample_proposal_def literal_eval max_safe_integer_def)

lemma sample_rules: "packet_rules sample_record"
  by (simp add: packet_rules_def sample_record_def bounded_string_def scheme_ref_def string_set_def
      sample_facts universalPacketTypes_def real_timestamp_def window_ok_def js_startsWith_def take_js
      js_append [symmetric] amount_ok_def max_safe_integer_def sample_constraints_ok)

lemma sample_wf: "js_wf sample_packet"
  by (simp add: sample_packet_def sample_constraints_def sample_proposal_def literal_eval)

definition sample_runtime :: js_runtime where
  "sample_runtime = \<lparr>rt_digest = Some (\<lambda>bytes. Some (take 32 (bytes @ replicate 32 0))),
     rt_encoder = True, rt_decimal = (\<lambda>_ _ _. NNaN)\<rparr>"

end
