(* ===== verification/Packet_Properties.thy ===== *)
theory Packet_Properties
  imports Packet_Sample
begin

text \<open>
  The properties of the packet envelope: validation decides the contract, valid packets survive
  canonicalization and reading back, credentials are refused at every depth, and the hash binds
  every field.
\<close>

section \<open>Credentials at any depth\<close>

text \<open>The property names of a value, at every depth that plain objects and arrays reach.\<close>

fun deep_keys :: "jsval \<Rightarrow> jstr list" where
  "deep_keys (JArr vs) = concat (map deep_keys vs)"
| "deep_keys (JObj plain fs) = (if plain then concat (map (\<lambda>(k, v). k # deep_keys v) fs) else [])"
| "deep_keys _ = []"

lemma set_concat_enumerate:
  "set (concat (map (\<lambda>(i, v). f i v) (enumerate n vs))) = (\<Union>(i, v) \<in> set (enumerate n vs). set (f i v))"
  by auto

lemma enumerate_member: "v \<in> set vs \<Longrightarrow> \<exists>i. (i, v) \<in> set (enumerate n vs)"
  by (induction vs arbitrary: n) auto

lemma validateJsonValue_credential:
  "k \<in> set (deep_keys v) \<Longrightarrow> forbiddenCredentialFieldPattern k \<Longrightarrow>
   PE_secret_value_embedded \<in> ce_code ` set (validateJsonValue v path)"
proof (induction v path rule: validateJsonValue.induct)
  case (5 vs path)
  then obtain v where v: "v \<in> set vs" "k \<in> set (deep_keys v)" by auto
  then obtain i where i: "(i, v) \<in> set (enumerate 0 vs)" using enumerate_member by metis
  from "5.IH" [OF i refl v(2) "5.prems"(2)] i show ?case by force
next
  case (6 plain fs path)
  then have plain by (auto split: if_splits)
  with "6.prems" obtain k' v where kv: "(k', v) \<in> set fs" and k: "k = k' \<or> k \<in> set (deep_keys v)" by auto
  from k show ?case
  proof
    assume "k = k'"
    then have "PE_secret_value_embedded \<in> ce_code ` set (validateJsonKey k' (path @ js ''/*''))"
      using "6.prems" by (simp add: validateJsonKey_def)
    with kv \<open>plain\<close> show ?thesis by force
  next
    assume "k \<in> set (deep_keys v)"
    from "6.IH" [OF \<open>plain\<close> kv refl this "6.prems"(2)] kv \<open>plain\<close> show ?thesis by force
  qed
qed auto

lemma validateJsonObject_credential:
  assumes "js_isPlainObject v" and "k \<in> set (deep_keys v)" and "forbiddenCredentialFieldPattern k"
  shows "PE_secret_value_embedded \<in> ce_code ` set (validateJsonObject v path)"
proof -
  obtain fs where "v = JObj True fs" using assms(1) by (auto simp: js_isPlainObject_iff)
  moreover from this have "validateJsonObject v path = validateJsonValue v path"
    by (simp add: validateJsonObject_def)
  ultimately show ?thesis using validateJsonValue_credential [OF assms(2,3)] by metis
qed

lemma snoc_exists_iff: "(\<exists>t u. s = t @ [u] \<and> P t u) \<longleftrightarrow> s \<noteq> [] \<and> P (butlast s) (last s)"
  by (cases s rule: rev_cases) auto

section \<open>Properties\<close>

text \<open>
  C4. Validation decides the contract: it accepts a value exactly when the value is a plain
  object with the nineteen fields of the envelope and no other, of the right types, that obey
  the rules of the contract (identifier and reference grammars, bounds, sorted sets without
  duplicates, disjoint permissions, safe integers, no credential field, a real and non-empty
  validity window); it returns the value itself.
\<close>

theorem validation_decides_contract:
  "validatePacketEnvelopeV1 v = Inr p \<longleftrightarrow> p = v \<and> (\<exists>r. packet_shape v r \<and> packet_rules r)"
  by (rule validate_iff)

text \<open>
  C20. A valid packet is never lost by canonicalization: its canonical text exists, parsing the
  text as a packet succeeds, the parsed packet is a copy of the original and has the same
  canonical text again.
\<close>

theorem valid_packet_canonical_roundtrip:
  assumes "validatePacketEnvelopeV1 v = Inr p" and "js_wf v"
  shows "\<exists>text w. canonicalizePacketEnvelopeV1 v = Inr text
    \<and> parsePacketEnvelopeV1Json rt text = Inr w \<and> js_snapshot v w
    \<and> canonicalizePacketEnvelopeV1 w = Inr text"
proof -
  from assms(1) obtain r where r: "packet_shape v r" "packet_rules r" by (auto simp: validate_iff)
  from valid_packet_reread [OF r assms(2), of rt] show ?thesis
    by (auto simp: parsePacketEnvelopeV1Json_def)
qed

theorem valid_packet_canonical_roundtrip_witness:
  "\<exists>text w. canonicalizePacketEnvelopeV1 sample_packet = Inr text
    \<and> parsePacketEnvelopeV1Json \<lparr>rt_digest = None, rt_encoder = True, rt_decimal = (\<lambda>_ _ _. NNaN)\<rparr> text = Inr w
    \<and> js_snapshot sample_packet w \<and> canonicalizePacketEnvelopeV1 w = Inr text"
proof (rule valid_packet_canonical_roundtrip [OF _ sample_wf])
  show "validatePacketEnvelopeV1 sample_packet = Inr sample_packet"
    using sample_shape sample_rules by (auto simp: validate_iff)
qed

text \<open>
  C26. A credential field name anywhere inside the constraints, at any depth of objects and
  arrays, makes validation fail, and the failure reports \<open>packet_envelope.secret_value_embedded\<close>.
\<close>

theorem credential_field_rejected:
  assumes "js_isPlainObject v" and "js_isPlainObject (fld v ''constraints'')"
    and "k \<in> set (deep_keys (fld v ''constraints''))" and "forbiddenCredentialFieldPattern k"
  shows "\<exists>errors. validatePacketEnvelopeV1 v = Inl errors
    \<and> PE_secret_value_embedded \<in> ce_code ` set errors"
proof -
  have "PE_secret_value_embedded \<in> ce_code ` set (packet_errors v)"
    using validateJsonObject_credential [OF assms(2-4), of "js ''/constraints''"] assms(2)
    by (simp add: packet_errors_def image_Un)
  then have "packet_errors v \<noteq> []" by auto
  with \<open>PE_secret_value_embedded \<in> _\<close> assms(1) show ?thesis
    by (simp add: validatePacketEnvelopeV1_def Let_def)
qed

theorem credential_field_rejected_witness:
  "\<exists>errors. validatePacketEnvelopeV1 (obj [(''constraints'', obj [(''env'', JArr [obj [(''db_password'', JNull)]])])])
      = Inl errors \<and> PE_secret_value_embedded \<in> ce_code ` set errors"
  by (rule credential_field_rejected [where k = "js ''db_password''"]) (simp_all add: js_eval)

text \<open>
  C21. The packet hash binds every field of the envelope: two valid packets with one hash have
  equal records (up to the order of keys inside the constraints), or their two different
  canonical byte strings have one SHA-256 digest.
\<close>

theorem packet_hash_binds_fields:
  assumes "hashPacketEnvelopeV1 rt v = Inr h" and "hashPacketEnvelopeV1 rt w = Inr h"
    and "js_wf v" and "js_wf w" and "packet_shape v r" and "packet_shape w s"
  shows "(canonicalizePacketEnvelopeV1 v = canonicalizePacketEnvelopeV1 w
      \<and> r\<lparr>pe_constraints := JNull\<rparr> = s\<lparr>pe_constraints := JNull\<rparr>)
    \<or> (\<exists>x y. canonicalizePacketEnvelopeV1 v = Inr x \<and> canonicalizePacketEnvelopeV1 w = Inr y
        \<and> digest_collision rt (utf8_encode x) (utf8_encode y))"
  by (rule packet_hash_fields [OF assms])

text \<open>The same packet written with its fields in reverse order.\<close>

definition reversed_packet :: jsval where
  "reversed_packet = (case sample_packet of JObj p fs \<Rightarrow> JObj p (rev fs) | v \<Rightarrow> v)"

lemma get_rev: "distinct (map fst fs) \<Longrightarrow> js_get (JObj p (rev fs)) = js_get (JObj p fs)"
  using map_of_mset_cong [of fs "rev fs"] by (auto simp: fun_eq_iff)

lemma canonicalize_rev:
  assumes "jsonable (JObj p fs) j" and "distinct (map fst fs)"
  shows "canonicalizeJsonValue (JObj p (rev fs)) = canonicalizeJsonValue (JObj p fs)"
proof -
  obtain es where es: "j = JsonObj es" "list_all2 (entry_rel jsonable) fs es" using assms(1) by (auto simp: jsonable_object)
  then have rev: "jsonable (JObj p (rev fs)) (JsonObj (rev es))" by (auto simp: jsonable_object list_all2_rev)
  have "distinct (map fst es)" using entry_rel_map_of [OF es(2)] assms(2) by simp
  then have "stringifyCanonicalJsonValue (JsonObj (rev es)) = stringifyCanonicalJsonValue (JsonObj es)"
    using canonical_form_permute [of "rev es" es] by (simp add: stringify_eq_print rev_map flip: rev_map)
  then show ?thesis using assms(1) rev by (simp add: canonicalizeJsonValue_def jsonable_def es(1))
qed

theorem packet_hash_binds_fields_witness:
  "\<exists>h. hashPacketEnvelopeV1 \<lparr>rt_digest = Some Some, rt_encoder = True, rt_decimal = (\<lambda>_ _ _. NNaN)\<rparr> sample_packet = Inr h
    \<and> hashPacketEnvelopeV1 \<lparr>rt_digest = Some Some, rt_encoder = True, rt_decimal = (\<lambda>_ _ _. NNaN)\<rparr> reversed_packet = Inr h
    \<and> sample_packet \<noteq> reversed_packet \<and> packet_shape sample_packet sample_record \<and> packet_shape reversed_packet sample_record
    \<and> canonicalizePacketEnvelopeV1 sample_packet = canonicalizePacketEnvelopeV1 reversed_packet"
proof -
  let ?rt = "\<lparr>rt_digest = Some Some, rt_encoder = True, rt_decimal = (\<lambda>_ _ _. NNaN)\<rparr>"
  obtain fs where fs: "sample_packet = JObj True fs" by (simp add: sample_packet_def obj_def)
  have reversed: "reversed_packet = JObj True (rev fs)" unfolding reversed_packet_def fs jsval.case ..
  have distinct: "distinct (map fst fs)" using sample_wf by (simp add: fs)
  have wf: "js_wf reversed_packet" using sample_wf by (simp add: fs reversed rev_map [symmetric])
  have shape: "packet_shape reversed_packet sample_record"
    using sample_shape unfolding packet_shape_def reversed get_rev [OF distinct] fs by simp
  have neq: "sample_packet \<noteq> reversed_packet" by (simp add: reversed_packet_def sample_packet_def obj_def jtext_def js_def)
  have valid: "validatePacketEnvelopeV1 sample_packet = Inr sample_packet" "validatePacketEnvelopeV1 reversed_packet = Inr reversed_packet"
    using sample_shape shape sample_rules by (auto simp: validate_iff)
  obtain j where "jsonable sample_packet j"
    using packet_data [OF sample_shape sample_rules sample_wf] sample_wf by (rule js_data_json)
  from canonicalize_rev [OF this [unfolded fs] distinct]
  have same: "canonicalizePacketEnvelopeV1 reversed_packet = canonicalizePacketEnvelopeV1 sample_packet"
    by (simp add: canonicalizePacketEnvelopeV1_def valid) (simp add: fs reversed)
  obtain h where h: "hashPacketEnvelopeV1 ?rt sample_packet = Inr h"
    using canonicalize_valid_packet [OF valid(1) sample_wf, of ?rt]
    by (auto simp: hashPacketEnvelopeV1_def sha256_hex_def)
  then have h': "hashPacketEnvelopeV1 ?rt reversed_packet = Inr h" by (simp add: hashPacketEnvelopeV1_def same)
  from packet_hash_binds_fields [OF h h' sample_wf wf sample_shape shape]
  have "canonicalizePacketEnvelopeV1 sample_packet = canonicalizePacketEnvelopeV1 reversed_packet"
    by (auto simp: digest_collision_def)
  then show ?thesis using h h' neq sample_shape shape by blast
qed

text \<open>
  The Unicode check of the envelope accepts exactly the well-formed strings and, beyond
  them, the strings that end in an unpaired high surrogate after a well-formed prefix: at the
  last position \<open>charCodeAt\<close> yields NaN and neither comparison rejects it.
\<close>

theorem unicode_check_accepts:
  "isWellFormedUnicode s \<longleftrightarrow>
     well_formed_utf16 s \<or> (\<exists>t u. s = t @ [u] \<and> well_formed_utf16 t \<and> is_high_surrogate u)"
proof -
  have "isWellFormedUnicode s \<longleftrightarrow>
      well_formed_utf16 s \<or> s \<noteq> [] \<and> well_formed_utf16 (butlast s) \<and> is_high_surrogate (last s)"
  proof (induction s rule: isWellFormedUnicode.induct)
    case (3 u v us)
    then show ?case by (cases us) auto
  qed auto
  then show ?thesis
    using snoc_exists_iff [of s "\<lambda>t u. well_formed_utf16 t \<and> is_high_surrogate u"] by simp
qed

end
