(* ===== verification/Policy_Decision.thy ===== *)
theory Policy_Decision
  imports Packet_Sample
begin

text \<open>
  The policy component, \<open>packages/policy/src/policy-decision-v1.ts\<close>: classification of the
  capabilities a packet requests and the decision over the whole packet, evaluated on a snapshot
  of the packet inside its validity window.

  The decision object is a record; \<open>policy_decision_object\<close> is the JavaScript object it stands
  for, which the approval component receives as an unknown value. \<open>policy_outcome\<close> is the abstract
  specification on the packet record, and \<open>decide_refines_outcome\<close> says the operation computes it.
\<close>

section \<open>Data\<close>

datatype policy_kind = Allow | Deny | ApprovalRequired

datatype policy_reason =
    ProfileUnsupported | NoCapabilityRequested | CapabilityForbidden | CapabilityUnknown
  | PacketRequiresApproval | RiskRequiresApproval | CapabilityRequiresApproval

datatype policy_decision_error_code =
    PD_invalid_packet | PD_invalid_evaluation_time | PD_packet_expired | PD_hash_unavailable

record capability_decision =
  cd_capability :: jstr
  cd_decision :: policy_kind
  cd_reason_code :: "policy_reason option"

record policy_decision_v1 =
  pd_decision_id :: jstr
  pd_packet_id :: jstr
  pd_packet_schema_id :: jstr
  pd_packet_hash :: jstr
  pd_idempotency_key :: jstr
  pd_actor_ref :: jstr
  pd_session_ref :: jstr
  pd_project_ref :: jstr
  pd_resource_refs :: "jstr list"
  pd_policy_profile_ref :: jstr
  pd_risk_level :: int
  pd_capability_decisions :: "capability_decision list"
  pd_decision :: policy_kind
  pd_requires_approval :: bool
  pd_reason_codes :: "policy_reason list"
  pd_evaluated_at :: jstr
  pd_expires_at :: jstr

definition policy_contract_version :: jstr where
  "policy_contract_version = js ''lnsat.contracts.v1_0''"

definition policy_schema_id :: jstr where
  "policy_schema_id = js ''lnsat.policy_decision.schema.v1_0''"

definition supportedProfiles :: "jstr list" where
  "supportedProfiles = map js [''policy:agent_sandbox'']"

definition allowedCapabilities :: "jstr list" where
  "allowedCapabilities = map js [''context.read'', ''repository.read'', ''tests.run.sandbox'']"

definition approvalRequiredCapabilities :: "jstr list" where
  "approvalRequiredCapabilities = map js
     [''database.migration.request'', ''deploy.request'', ''runbook.execute.request'',
      ''secret.use.brokered'', ''service.restart.request'']"

definition forbiddenCapabilities :: "jstr list" where
  "forbiddenCapabilities = map js
     [''billing.write'', ''database.prod.write'', ''database.write'', ''deploy.execute'',
      ''destructive.execute'', ''network.open'', ''root'', ''secret.read'', ''security.write'', ''ssh'']"

definition approval_risk_threshold :: int where
  "approval_risk_threshold = 5"

definition reasonOrder :: "policy_reason list" where
  "reasonOrder = [ProfileUnsupported, NoCapabilityRequested, CapabilityForbidden, CapabilityUnknown,
     PacketRequiresApproval, RiskRequiresApproval, CapabilityRequiresApproval]"

section \<open>Operations\<close>

definition classifyCapability :: "jstr \<Rightarrow> bool \<Rightarrow> capability_decision" where
  "classifyCapability capability profileSupported =
     (if \<not> profileSupported then
        \<lparr>cd_capability = capability, cd_decision = Deny, cd_reason_code = Some ProfileUnsupported\<rparr>
      else if capability \<in> set forbiddenCapabilities then
        \<lparr>cd_capability = capability, cd_decision = Deny, cd_reason_code = Some CapabilityForbidden\<rparr>
      else if capability \<in> set approvalRequiredCapabilities then
        \<lparr>cd_capability = capability, cd_decision = ApprovalRequired,
         cd_reason_code = Some CapabilityRequiresApproval\<rparr>
      else if capability \<in> set allowedCapabilities then
        \<lparr>cd_capability = capability, cd_decision = Allow, cd_reason_code = None\<rparr>
      else
        \<lparr>cd_capability = capability, cd_decision = Deny, cd_reason_code = Some CapabilityUnknown\<rparr>)"

definition selectDecision :: "policy_reason list \<Rightarrow> policy_kind" where
  "selectDecision reasonCodes =
     (if list_ex (\<lambda>reason. reason \<in> set [ProfileUnsupported, NoCapabilityRequested,
           CapabilityForbidden, CapabilityUnknown]) reasonCodes then Deny
      else if length reasonCodes > 0 then ApprovalRequired
      else Allow)"

text \<open>The set \<open>reasons\<close>, in the order the loop adds to it.\<close>

definition collect_reasons :: "bool \<Rightarrow> capability_decision list \<Rightarrow> bool \<Rightarrow> int \<Rightarrow> policy_reason list" where
  "collect_reasons profileSupported capabilityDecisions requires_approval risk_level =
     (if \<not> profileSupported then [ProfileUnsupported] else [])
     @ (if length capabilityDecisions = 0 then [NoCapabilityRequested] else [])
     @ List.map_filter cd_reason_code capabilityDecisions
     @ (if requires_approval then [PacketRequiresApproval] else [])
     @ (if risk_level \<ge> approval_risk_threshold then [RiskRequiresApproval] else [])"

type_synonym pd_error = "policy_decision_error_code contract_error"

definition pd_failure :: "policy_decision_error_code \<Rightarrow> string \<Rightarrow> string \<Rightarrow> pd_error list + policy_decision_v1" where
  "pd_failure code path message = Inl [createContractErrorV1 code (js path) (js message)]"

definition invalid_packet_failure :: "pd_error list + policy_decision_v1" where
  "invalid_packet_failure = pd_failure PD_invalid_packet ''/packet''
     ''Packet must satisfy the exact v1 packet-envelope contract.''"

definition invalid_time_failure :: "pd_error list + policy_decision_v1" where
  "invalid_time_failure = pd_failure PD_invalid_evaluation_time ''/evaluated_at''
     ''evaluated_at must be a real canonical UTC instant.''"

definition hash_failure :: "pd_error list + policy_decision_v1" where
  "hash_failure = pd_failure PD_hash_unavailable ''/packet''
     ''Validated packet hash could not be produced.''"

definition newline :: jstr where
  "newline = [10]"

definition policy_decision_id_input :: "jstr \<Rightarrow> jstr \<Rightarrow> jstr" where
  "policy_decision_id_input packetHash evaluatedAt =
     policy_schema_id @ newline @ packetHash @ newline @ evaluatedAt"

text \<open>The part of the operation after the hashes: the decision over the snapshot.\<close>

definition policy_result :: "jsval \<Rightarrow> jstr \<Rightarrow> jstr \<Rightarrow> jstr \<Rightarrow> policy_decision_v1" where
  "policy_result packetSnapshot packetHash decisionId evaluatedAtInput =
     (let profileSupported = as_str (fld packetSnapshot ''policy_profile_ref'') \<in> set supportedProfiles;
          capabilityDecisions = map (\<lambda>capability. classifyCapability (as_str capability) profileSupported)
            (as_list (fld (fld packetSnapshot ''permission_envelope'') ''allow''));
          reasons = collect_reasons profileSupported capabilityDecisions
            (as_bool (fld packetSnapshot ''requires_approval'')) (as_int (fld packetSnapshot ''risk_level''));
          reasonCodes = filter (\<lambda>reason. reason \<in> set reasons) reasonOrder;
          decision = selectDecision reasonCodes
      in \<lparr>pd_decision_id = decisionId,
          pd_packet_id = as_str (fld packetSnapshot ''packet_id''),
          pd_packet_schema_id = as_str (fld packetSnapshot ''schema_id''),
          pd_packet_hash = packetHash,
          pd_idempotency_key = as_str (fld packetSnapshot ''idempotency_key''),
          pd_actor_ref = as_str (fld packetSnapshot ''actor_ref''),
          pd_session_ref = as_str (fld packetSnapshot ''session_ref''),
          pd_project_ref = as_str (fld packetSnapshot ''project_ref''),
          pd_resource_refs = map as_str (as_list (fld packetSnapshot ''resource_refs'')),
          pd_policy_profile_ref = as_str (fld packetSnapshot ''policy_profile_ref''),
          pd_risk_level = as_int (fld packetSnapshot ''risk_level''),
          pd_capability_decisions = capabilityDecisions,
          pd_decision = decision,
          pd_requires_approval = (decision = ApprovalRequired),
          pd_reason_codes = reasonCodes,
          pd_evaluated_at = evaluatedAtInput,
          pd_expires_at = as_str (fld packetSnapshot ''expires_at'')\<rparr>)"

text \<open>Snapshot, window check and hashes.\<close>

definition decide_snapshot ::
  "('a js_runtime_scheme) \<Rightarrow> jsval \<Rightarrow> jstr \<Rightarrow> int \<Rightarrow> pd_error list + policy_decision_v1" where
  "decide_snapshot rt packetSnapshot evaluatedAtInput evaluatedAt =
     (case (parseCanonicalUtcTimestamp (as_str (fld packetSnapshot ''created_at'')),
            parseCanonicalUtcTimestamp (as_str (fld packetSnapshot ''expires_at''))) of
        (Some createdAt, Some expiresAt) \<Rightarrow>
          if evaluatedAt < createdAt \<or> evaluatedAt \<ge> expiresAt
          then pd_failure PD_packet_expired ''/evaluated_at''
                 ''Policy evaluation must occur inside the packet validity window.''
          else (case hashPacketEnvelopeV1 rt packetSnapshot of
                  Inl e \<Rightarrow> hash_failure
                | Inr packetHash \<Rightarrow>
                    (case sha256_hex rt (policy_decision_id_input packetHash evaluatedAtInput) of
                       None \<Rightarrow> hash_failure
                     | Some hex \<Rightarrow> Inr (policy_result packetSnapshot packetHash (js ''pol_'' @ hex)
                         evaluatedAtInput)))
      | _ \<Rightarrow> pd_failure PD_packet_expired ''/evaluated_at''
               ''Policy evaluation must occur inside the packet validity window.'')"

definition decidePacketEnvelopePolicyV1 ::
  "('a js_runtime_scheme) \<Rightarrow> jsval \<Rightarrow> jsval \<Rightarrow> pd_error list + policy_decision_v1" where
  "decidePacketEnvelopePolicyV1 rt packet options =
     (case validatePacketEnvelopeV1 packet of
        Inl e \<Rightarrow> invalid_packet_failure
      | Inr valid \<Rightarrow>
          if \<not> js_isPlainObject options \<or> \<not> js_isString (fld options ''evaluated_at'')
          then invalid_time_failure
          else (let evaluatedAtInput = as_str (fld options ''evaluated_at'') in
            case parseCanonicalUtcTimestamp evaluatedAtInput of
              None \<Rightarrow> invalid_time_failure
            | Some evaluatedAt \<Rightarrow>
                (case canonicalizePacketEnvelopeV1 valid of
                   Inl e \<Rightarrow> invalid_packet_failure
                 | Inr canonical \<Rightarrow>
                     (case js_JSON_parse rt canonical of
                        None \<Rightarrow> invalid_packet_failure
                      | Some packetSnapshot \<Rightarrow>
                          decide_snapshot rt packetSnapshot evaluatedAtInput evaluatedAt))))"

section \<open>The decision as a JavaScript object\<close>

primrec policy_kind_text :: "policy_kind \<Rightarrow> jstr" where
  "policy_kind_text Allow = js ''allow''"
| "policy_kind_text Deny = js ''deny''"
| "policy_kind_text ApprovalRequired = js ''approval_required''"

primrec policy_reason_text :: "policy_reason \<Rightarrow> jstr" where
  "policy_reason_text ProfileUnsupported = js ''policy.profile_unsupported''"
| "policy_reason_text NoCapabilityRequested = js ''policy.no_capability_requested''"
| "policy_reason_text CapabilityForbidden = js ''policy.capability_forbidden''"
| "policy_reason_text CapabilityUnknown = js ''policy.capability_unknown''"
| "policy_reason_text PacketRequiresApproval = js ''policy.packet_requires_approval''"
| "policy_reason_text RiskRequiresApproval = js ''policy.risk_requires_approval''"
| "policy_reason_text CapabilityRequiresApproval = js ''policy.capability_requires_approval''"

definition capability_decision_object :: "capability_decision \<Rightarrow> jsval" where
  "capability_decision_object d =
     obj [(''capability'', JStr (cd_capability d)),
          (''decision'', JStr (policy_kind_text (cd_decision d))),
          (''reason_code'', (case cd_reason_code d of None \<Rightarrow> JNull | Some r \<Rightarrow> JStr (policy_reason_text r)))]"

definition policy_decision_object :: "policy_decision_v1 \<Rightarrow> jsval" where
  "policy_decision_object d =
     obj [(''contract_version'', JStr policy_contract_version),
          (''schema_id'', JStr policy_schema_id),
          (''decision_id'', JStr (pd_decision_id d)),
          (''packet_ref'', obj [(''packet_id'', JStr (pd_packet_id d)),
             (''schema_id'', JStr (pd_packet_schema_id d)),
             (''packet_hash'', JStr (pd_packet_hash d)),
             (''idempotency_key'', JStr (pd_idempotency_key d))]),
          (''actor_ref'', JStr (pd_actor_ref d)),
          (''session_ref'', JStr (pd_session_ref d)),
          (''project_ref'', JStr (pd_project_ref d)),
          (''resource_refs'', JArr (map JStr (pd_resource_refs d))),
          (''policy_profile_ref'', JStr (pd_policy_profile_ref d)),
          (''risk_level'', JNum (NInt (pd_risk_level d))),
          (''capability_decisions'', JArr (map capability_decision_object (pd_capability_decisions d))),
          (''decision'', JStr (policy_kind_text (pd_decision d))),
          (''requires_approval'', JBool (pd_requires_approval d)),
          (''reason_codes'', JArr (map (\<lambda>r. JStr (policy_reason_text r)) (pd_reason_codes d))),
          (''evaluated_at'', JStr (pd_evaluated_at d)),
          (''expires_at'', JStr (pd_expires_at d)),
          (''side_effects'', JArr [])]"

section \<open>Specification\<close>

text \<open>The decision a packet record deserves.\<close>

definition supported_profile :: "packet_envelope_v1 \<Rightarrow> bool" where
  "supported_profile r \<longleftrightarrow> pe_policy_profile_ref r \<in> set supportedProfiles"

definition grantable :: "jstr \<Rightarrow> bool" where
  "grantable c \<longleftrightarrow> c \<in> set allowedCapabilities \<or> c \<in> set approvalRequiredCapabilities"

definition policy_outcome :: "packet_envelope_v1 \<Rightarrow> policy_kind" where
  "policy_outcome r =
     (if \<not> supported_profile r \<or> pe_allow r = [] \<or> \<not> list_all grantable (pe_allow r) then Deny
      else if pe_requires_approval r \<or> 5 \<le> pe_risk_level r
              \<or> list_ex (\<lambda>c. c \<in> set approvalRequiredCapabilities) (pe_allow r) then ApprovalRequired
      else Allow)"

definition record_reasons :: "packet_envelope_v1 \<Rightarrow> policy_reason list" where
  "record_reasons r =
     (let ds = map (\<lambda>c. classifyCapability c (supported_profile r)) (pe_allow r) in
      filter (\<lambda>reason. reason \<in> set (collect_reasons (supported_profile r) ds (pe_requires_approval r)
        (pe_risk_level r))) reasonOrder)"

definition policy_decision_of :: "packet_envelope_v1 \<Rightarrow> jstr \<Rightarrow> jstr \<Rightarrow> jstr \<Rightarrow> policy_decision_v1" where
  "policy_decision_of r packetHash decisionId evaluatedAt =
     \<lparr>pd_decision_id = decisionId, pd_packet_id = pe_packet_id r, pd_packet_schema_id = packet_schema_id,
      pd_packet_hash = packetHash, pd_idempotency_key = pe_idempotency_key r,
      pd_actor_ref = pe_actor_ref r, pd_session_ref = pe_session_ref r, pd_project_ref = pe_project_ref r,
      pd_resource_refs = pe_resource_refs r, pd_policy_profile_ref = pe_policy_profile_ref r,
      pd_risk_level = pe_risk_level r,
      pd_capability_decisions = map (\<lambda>c. classifyCapability c (supported_profile r)) (pe_allow r),
      pd_decision = selectDecision (record_reasons r),
      pd_requires_approval = (selectDecision (record_reasons r) = ApprovalRequired),
      pd_reason_codes = record_reasons r, pd_evaluated_at = evaluatedAt, pd_expires_at = pe_expires_at r\<rparr>"

lemma capability_lists_disjoint:
  "c \<in> set forbiddenCapabilities \<Longrightarrow> c \<notin> set approvalRequiredCapabilities \<and> c \<notin> set allowedCapabilities"
  "c \<in> set approvalRequiredCapabilities \<Longrightarrow> c \<notin> set allowedCapabilities"
  by (auto simp: forbiddenCapabilities_def approvalRequiredCapabilities_def allowedCapabilities_def)

lemma classify_reason:
  "cd_reason_code (classifyCapability c b) =
     (if \<not> b then Some ProfileUnsupported
      else if c \<in> set forbiddenCapabilities then Some CapabilityForbidden
      else if c \<in> set approvalRequiredCapabilities then Some CapabilityRequiresApproval
      else if c \<in> set allowedCapabilities then None else Some CapabilityUnknown)"
  by (simp add: classifyCapability_def)

lemma classify_capability [simp]: "cd_capability (classifyCapability c b) = c"
  by (simp add: classifyCapability_def)

lemma set_map_filter: "set (List.map_filter f xs) = {y. \<exists>x \<in> set xs. f x = Some y}"
  by (force simp: List.map_filter_def image_iff)

lemma set_record_reasons:
  "set (record_reasons r) =
     {reason. case reason of
        ProfileUnsupported \<Rightarrow> \<not> supported_profile r
      | NoCapabilityRequested \<Rightarrow> pe_allow r = []
      | CapabilityForbidden \<Rightarrow> supported_profile r \<and> (\<exists>c \<in> set (pe_allow r). c \<in> set forbiddenCapabilities)
      | CapabilityUnknown \<Rightarrow> supported_profile r
          \<and> (\<exists>c \<in> set (pe_allow r). c \<notin> set forbiddenCapabilities \<and> \<not> grantable c)
      | PacketRequiresApproval \<Rightarrow> pe_requires_approval r
      | RiskRequiresApproval \<Rightarrow> 5 \<le> pe_risk_level r
      | CapabilityRequiresApproval \<Rightarrow> supported_profile r
          \<and> (\<exists>c \<in> set (pe_allow r). c \<in> set approvalRequiredCapabilities)}"
proof -
  let ?ds = "map (\<lambda>c. classifyCapability c (supported_profile r)) (pe_allow r)"
  have all: "set reasonOrder = UNIV"
    using policy_reason.exhaust by (auto simp: reasonOrder_def)
  have "reason \<in> set (record_reasons r) \<longleftrightarrow> reason \<in> set (collect_reasons (supported_profile r) ?ds
      (pe_requires_approval r) (pe_risk_level r))" for reason
    by (simp add: record_reasons_def Let_def all)
  moreover have "reason \<in> set (collect_reasons (supported_profile r) ?ds (pe_requires_approval r)
      (pe_risk_level r)) \<longleftrightarrow> reason \<in> set (if \<not> supported_profile r then [ProfileUnsupported] else [])
      \<or> reason \<in> set (if pe_allow r = [] then [NoCapabilityRequested] else [])
      \<or> (\<exists>c \<in> set (pe_allow r). cd_reason_code (classifyCapability c (supported_profile r)) = Some reason)
      \<or> reason \<in> set (if pe_requires_approval r then [PacketRequiresApproval] else [])
      \<or> reason \<in> set (if 5 \<le> pe_risk_level r then [RiskRequiresApproval] else [])" for reason
    by (simp add: collect_reasons_def set_map_filter approval_risk_threshold_def)
  ultimately show ?thesis
    by (intro set_eqI; case_tac x)
      (auto simp: classify_reason grantable_def dest: capability_lists_disjoint split: if_splits)
qed

lemma selectDecision_record_reasons: "selectDecision (record_reasons r) = policy_outcome r"
proof -
  let ?R = "set (record_reasons r)"
  have deny: "list_ex (\<lambda>reason. reason \<in> set [ProfileUnsupported, NoCapabilityRequested,
      CapabilityForbidden, CapabilityUnknown]) (record_reasons r) \<longleftrightarrow>
      \<not> supported_profile r \<or> pe_allow r = [] \<or> \<not> list_all grantable (pe_allow r)"
  proof -
    have "list_ex (\<lambda>reason. reason \<in> set [ProfileUnsupported, NoCapabilityRequested,
        CapabilityForbidden, CapabilityUnknown]) (record_reasons r) \<longleftrightarrow>
        ProfileUnsupported \<in> ?R \<or> NoCapabilityRequested \<in> ?R \<or> CapabilityForbidden \<in> ?R
        \<or> CapabilityUnknown \<in> ?R"
      by (auto simp: list_ex_iff)
    also have "\<dots> \<longleftrightarrow> \<not> supported_profile r \<or> pe_allow r = [] \<or> \<not> list_all grantable (pe_allow r)"
      unfolding set_record_reasons
      by (auto simp: list_all_iff grantable_def dest: capability_lists_disjoint)
    finally show ?thesis .
  qed
  have "length (record_reasons r) > 0 \<longleftrightarrow> ?R \<noteq> {}" by simp
  also have "?R \<noteq> {} \<longleftrightarrow> (\<not> supported_profile r \<or> pe_allow r = [] \<or> \<not> list_all grantable (pe_allow r))
      \<or> pe_requires_approval r \<or> 5 \<le> pe_risk_level r
      \<or> list_ex (\<lambda>c. c \<in> set approvalRequiredCapabilities) (pe_allow r)"
  proof -
    have "?R \<noteq> {} \<longleftrightarrow> (\<exists>x. x \<in> ?R)" by (simp only: ex_in_conv)
    also have "\<dots> \<longleftrightarrow> ProfileUnsupported \<in> ?R \<or> NoCapabilityRequested \<in> ?R \<or> CapabilityForbidden \<in> ?R
        \<or> CapabilityUnknown \<in> ?R \<or> PacketRequiresApproval \<in> ?R \<or> RiskRequiresApproval \<in> ?R
        \<or> CapabilityRequiresApproval \<in> ?R"
      by (metis policy_reason.exhaust)
    finally show ?thesis unfolding set_record_reasons
      by (auto simp: list_all_iff list_ex_iff grantable_def dest: capability_lists_disjoint)
  qed
  finally show ?thesis unfolding selectDecision_def deny policy_outcome_def by auto
qed

section \<open>The operation computes the specification\<close>

lemma as_int_num_reads: "num_reads n i \<Longrightarrow> as_int (JNum n) = i"
  by (auto simp: num_reads_def)

lemma policy_result_shape:
  assumes "packet_shape w r"
  shows "policy_result w h i t = policy_decision_of r h i t"
proof -
  have "as_int (fld w ''risk_level'') = pe_risk_level r"
    using assms as_int_num_reads by (auto simp: packet_shape_def)
  moreover have "map (\<lambda>c. classifyCapability (as_str c) b)
      (as_list (fld (fld w ''permission_envelope'') ''allow'')) = map (\<lambda>c. classifyCapability c b) (pe_allow r)" for b
    using assms by (simp add: packet_shape_def permission_shape_def)
  ultimately show ?thesis
    using assms unfolding packet_shape_def
    by (simp add: policy_result_def policy_decision_of_def record_reasons_def supported_profile_def Let_def)
qed

lemma policy_decision_of_constraints [simp]:
  "policy_decision_of (r\<lparr>pe_constraints := c\<rparr>) h i t = policy_decision_of r h i t"
  by (simp add: policy_decision_of_def record_reasons_def supported_profile_def)

definition options_time :: "jsval \<Rightarrow> jstr \<Rightarrow> bool" where
  "options_time options t \<longleftrightarrow> js_isPlainObject options \<and> fld options ''evaluated_at'' = JStr t"

lemma decide_eq:
  assumes "packet_shape v r" and "packet_rules r" and "js_wf v"
    and "options_time options t" and "parseCanonicalUtcTimestamp t = Some e"
    and "parseCanonicalUtcTimestamp (pe_created_at r) = Some c"
    and "parseCanonicalUtcTimestamp (pe_expires_at r) = Some x"
  shows "decidePacketEnvelopePolicyV1 rt v options =
    (if e < c \<or> x \<le> e then pd_failure PD_packet_expired ''/evaluated_at''
       ''Policy evaluation must occur inside the packet validity window.''
     else case hashPacketEnvelopeV1 rt v of Inl _ \<Rightarrow> hash_failure
       | Inr h \<Rightarrow> (case sha256_hex rt (policy_decision_id_input h t) of None \<Rightarrow> hash_failure
           | Some hex \<Rightarrow> Inr (policy_decision_of r h (js ''pol_'' @ hex) t)))"
proof -
  from valid_packet_reread [OF assms(1-3), of rt] obtain u w where
    u: "canonicalizePacketEnvelopeV1 v = Inr u" "js_JSON_parse rt u = Some w"
    and shape: "packet_shape w (r\<lparr>pe_constraints := fld w ''constraints''\<rparr>)"
    and again: "canonicalizePacketEnvelopeV1 w = Inr u" by blast
  have valid: "validatePacketEnvelopeV1 v = Inr v" using assms(1,2) by (auto simp: validate_iff)
  have hash: "hashPacketEnvelopeV1 rt w = hashPacketEnvelopeV1 rt v"
    using u(1) again by (intro hash_of_same_text) simp
  have "decidePacketEnvelopePolicyV1 rt v options = decide_snapshot rt w t e"
    using assms(4,5) by (simp add: decidePacketEnvelopePolicyV1_def valid options_time_def u)
  moreover have "as_str (fld w ''created_at'') = pe_created_at r" "as_str (fld w ''expires_at'') = pe_expires_at r"
    using shape by (simp_all add: packet_shape_def)
  ultimately show ?thesis
    by (simp add: decide_snapshot_def assms(6,7) hash policy_result_shape [OF shape] not_less
        split: sum.split option.split)
qed

text \<open>Any decision comes from a valid packet inside its window and is the decision of its record.\<close>

lemma decide_InrD:
  assumes "decidePacketEnvelopePolicyV1 rt v options = Inr d" and "js_wf v"
  shows "\<exists>r t e c x h hex. packet_shape v r \<and> packet_rules r \<and> options_time options t
    \<and> parseCanonicalUtcTimestamp t = Some e \<and> parseCanonicalUtcTimestamp (pe_created_at r) = Some c
    \<and> parseCanonicalUtcTimestamp (pe_expires_at r) = Some x \<and> c \<le> e \<and> e < x
    \<and> hashPacketEnvelopeV1 rt v = Inr h \<and> sha256_hex rt (policy_decision_id_input h t) = Some hex
    \<and> d = policy_decision_of r h (js ''pol_'' @ hex) t"
proof -
  have fails: "pd_failure a b m \<noteq> Inr d" for a b m by (simp add: pd_failure_def)
  note nf = invalid_packet_failure_def invalid_time_failure_def hash_failure_def fails
  obtain p where "validatePacketEnvelopeV1 v = Inr p"
    using assms(1) by (auto simp: decidePacketEnvelopePolicyV1_def nf split: sum.splits)
  then obtain r where r: "packet_shape v r" "packet_rules r" by (auto simp: validate_iff)
  then have valid: "validatePacketEnvelopeV1 v = Inr v" by (auto simp: validate_iff)
  then have "js_isPlainObject options" "js_isString (fld options ''evaluated_at'')"
    using assms(1) by (auto simp: decidePacketEnvelopePolicyV1_def nf split: if_splits)
  then obtain t where t: "options_time options t" by (auto simp: options_time_def js_isString_iff)
  then obtain e where e: "parseCanonicalUtcTimestamp t = Some e"
    using assms(1) valid
    by (cases "parseCanonicalUtcTimestamp t")
      (auto simp: decidePacketEnvelopePolicyV1_def options_time_def nf)
  obtain c x where cx: "parseCanonicalUtcTimestamp (pe_created_at r) = Some c"
    "parseCanonicalUtcTimestamp (pe_expires_at r) = Some x"
    using r(2) by (auto simp: packet_rules_def window_ok_def)
  from assms(1) obtain h hex where "c \<le> e" "e < x" "hashPacketEnvelopeV1 rt v = Inr h"
    "sha256_hex rt (policy_decision_id_input h t) = Some hex"
    "d = policy_decision_of r h (js ''pol_'' @ hex) t"
    unfolding decide_eq [OF r assms(2) t e cx]
    by (auto simp: nf not_less not_le split: if_splits sum.splits option.splits)
  with r t e cx show ?thesis by blast
qed

definition sha256_available :: "('a js_runtime_scheme) \<Rightarrow> bool" where
  "sha256_available rt \<longleftrightarrow> rt_encoder rt
     \<and> (\<exists>digest. rt_digest rt = Some digest \<and> (\<forall>bytes. \<exists>d. digest bytes = Some d \<and> length d = 32))"

lemma sha256_availableD:
  "sha256_available rt \<Longrightarrow> \<exists>d. sha256_hex rt s = Some (bytesToHex d) \<and> length d = 32"
  by (fastforce simp: sha256_available_def sha256_hex_def)

lemma decide_total:
  assumes "packet_shape v r" and "packet_rules r" and "js_wf v" and "options_time options t"
    and "parseCanonicalUtcTimestamp t = Some e"
    and "parseCanonicalUtcTimestamp (pe_created_at r) = Some c"
    and "parseCanonicalUtcTimestamp (pe_expires_at r) = Some x" and "c \<le> e" and "e < x"
    and "sha256_available rt"
  shows "\<exists>h i. decidePacketEnvelopePolicyV1 rt v options = Inr (policy_decision_of r h i t)"
proof -
  from valid_packet_reread [OF assms(1-3), of rt] obtain u where
    u: "canonicalizePacketEnvelopeV1 v = Inr u" by blast
  with sha256_availableD [OF assms(10), of u] obtain h where "hashPacketEnvelopeV1 rt v = Inr h"
    by (auto simp: hashPacketEnvelopeV1_def)
  moreover obtain d where "sha256_hex rt (policy_decision_id_input h t) = Some (bytesToHex d)"
    using sha256_availableD [OF assms(10)] by blast
  ultimately have "decidePacketEnvelopePolicyV1 rt v options
      = Inr (policy_decision_of r h (js ''pol_'' @ bytesToHex d) t)"
    using assms(8,9) by (simp add: decide_eq [OF assms(1-7)])
  then show ?thesis by blast
qed

section \<open>Identity\<close>

lemma bytesToHex_plain: "u \<in> set (bytesToHex bs) \<Longrightarrow> 48 \<le> unat u \<and> unat u < 128"
proof -
  have "unat (b :: byte) div 16 < 16" for b
    using unsigned_less [of b, where 'a = nat] by (intro less_mult_imp_div_less) simp
  moreover from this have "unat (b :: byte) div 16 < 41" for b by (rule less_trans) simp
  ultimately show "u \<in> set (bytesToHex bs) \<Longrightarrow> 48 \<le> unat u \<and> unat u < 128"
    by (auto simp: bytesToHex_def unat_hex_digit)
qed

lemma sha256_hex_plain: "sha256_hex rt s = Some h \<Longrightarrow> u \<in> set h \<Longrightarrow> 48 \<le> unat u \<and> unat u < 128"
  using bytesToHex_plain by (auto simp: sha256_hex_def split: option.splits if_splits)

lemma hash_units:
  assumes "hashPacketEnvelopeV1 rt v = Inr h" and "u \<in> set h"
  shows "unat u < 128 \<and> u \<noteq> 10"
proof -
  obtain s hex where "sha256_hex rt s = Some hex" "h = js ''sha256:'' @ hex"
    using assms(1) by (auto simp: hashPacketEnvelopeV1_def bind_result_eq_Inr_iff split: option.splits)
  then show ?thesis using assms(2) sha256_hex_plain [of rt s hex u] by (auto simp: js_def)
qed

lemma ascii_well_formed: "\<forall>u \<in> set s. unat u < 128 \<Longrightarrow> well_formed_utf16 s"
  by (rule well_formed_plain) fastforce

lemma well_formed_newline: "well_formed_utf16 newline"
  by (simp add: newline_def is_high_surrogate_def is_low_surrogate_def)

lemma decision_id_input_well_formed:
  assumes "hashPacketEnvelopeV1 rt v = Inr h" and "parseCanonicalUtcTimestamp t = Some e"
  shows "well_formed_utf16 (policy_decision_id_input h t)"
proof -
  have "well_formed_utf16 h" "well_formed_utf16 t"
    using hash_units [OF assms(1)] parsed_timestamp_ascii [OF assms(2)]
    by (auto intro!: ascii_well_formed)
  then show ?thesis
    unfolding policy_decision_id_input_def policy_schema_id_def
    by (intro well_formed_append well_formed_js well_formed_newline)
qed

lemma decision_id_input_inject:
  assumes "hashPacketEnvelopeV1 rt v = Inr h" and "hashPacketEnvelopeV1 rt w = Inr h'"
    and "policy_decision_id_input h t = policy_decision_id_input h' t'"
  shows "h = h' \<and> t = t'"
proof -
  have "h @ newline @ t = h' @ newline @ t'" using assms(3) by (simp add: policy_decision_id_input_def)
  then have "h = h' \<and> newline @ t = newline @ t'"
    by (rule split_at_separator [where c = 10])
      (use hash_units [OF assms(1)] hash_units [OF assms(2)] in \<open>auto simp: newline_def\<close>)
  then show ?thesis by simp
qed

lemma policy_decision_of_fields:
  "r\<lparr>pe_constraints := JNull\<rparr> = s\<lparr>pe_constraints := JNull\<rparr> \<Longrightarrow>
     policy_decision_of r h i t = policy_decision_of s h i t"
  by (metis policy_decision_of_constraints)

section \<open>Properties\<close>

lemma sample_runtime_available: "sha256_available sample_runtime"
  by (simp add: sample_runtime_def sha256_available_def min_def)

definition sample_options :: jsval where
  "sample_options = obj [(''evaluated_at'', jtext ''2026-01-02T03:04:06Z'')]"

lemma sample_options_time: "options_time sample_options (js ''2026-01-02T03:04:06Z'')"
  by (simp add: options_time_def sample_options_def literal_eval)

lemma sample_evaluated: "parseCanonicalUtcTimestamp (js ''2026-01-02T03:04:06Z'') = Some 1767323046000"
  by (simp add: js_eval)

lemma sample_decision:
  "\<exists>h i. decidePacketEnvelopePolicyV1 sample_runtime sample_packet sample_options
     = Inr (policy_decision_of sample_record h i (js ''2026-01-02T03:04:06Z''))"
  by (rule decide_total [OF sample_shape sample_rules sample_wf sample_options_time sample_evaluated,
        where c = 1767323045000 and x = 1767326645000])
    (simp_all add: sample_record_def sample_timestamps sample_runtime_available)

text \<open>
  C9. Every decision the policy returns is the decision its packet deserves: deny for an
  unsupported profile, an empty request or any capability outside the two grantable lists;
  otherwise approval for a packet that asks for it, a risk of five or more or a capability that
  needs it; otherwise allow. Approval is marked as required exactly in the second case, and the
  evaluation lies inside the validity window of the packet.
\<close>

theorem policy_decides_outcome:
  assumes "decidePacketEnvelopePolicyV1 rt v options = Inr d" and "js_wf v"
  shows "\<exists>r e c x. packet_shape v r \<and> pd_decision d = policy_outcome r
    \<and> pd_requires_approval d = (policy_outcome r = ApprovalRequired)
    \<and> pd_reason_codes d = record_reasons r
    \<and> map cd_capability (pd_capability_decisions d) = pe_allow r
    \<and> parseCanonicalUtcTimestamp (pd_evaluated_at d) = Some e
    \<and> parseCanonicalUtcTimestamp (pe_created_at r) = Some c
    \<and> parseCanonicalUtcTimestamp (pd_expires_at d) = Some x \<and> c \<le> e \<and> e < x"
proof -
  from decide_InrD [OF assms] obtain r t e c x h hex where
    r: "packet_shape v r" and t: "parseCanonicalUtcTimestamp t = Some e"
    "parseCanonicalUtcTimestamp (pe_created_at r) = Some c"
    "parseCanonicalUtcTimestamp (pe_expires_at r) = Some x" "c \<le> e" "e < x"
    and d: "d = policy_decision_of r h (js ''pol_'' @ hex) t" by blast
  have "map cd_capability (pd_capability_decisions d) = pe_allow r"
    by (simp add: d policy_decision_of_def comp_def)
  with r t show ?thesis
    by (auto simp: d policy_decision_of_def selectDecision_record_reasons)
qed

theorem policy_decides_outcome_witness:
  "\<exists>d r e c x. decidePacketEnvelopePolicyV1 sample_runtime sample_packet sample_options = Inr d
    \<and> packet_shape sample_packet r \<and> pd_decision d = policy_outcome r
    \<and> pd_requires_approval d = (policy_outcome r = ApprovalRequired)
    \<and> pd_reason_codes d = record_reasons r
    \<and> map cd_capability (pd_capability_decisions d) = pe_allow r
    \<and> parseCanonicalUtcTimestamp (pd_evaluated_at d) = Some e
    \<and> parseCanonicalUtcTimestamp (pe_created_at r) = Some c
    \<and> parseCanonicalUtcTimestamp (pd_expires_at d) = Some x \<and> c \<le> e \<and> e < x"
proof -
  obtain d where d: "decidePacketEnvelopePolicyV1 sample_runtime sample_packet sample_options = Inr d"
    using sample_decision by blast
  from policy_decides_outcome [OF d sample_wf] d show ?thesis by blast
qed

text \<open>
  C5. The policy never allows what it must not: an allow decision is given only to a packet of a
  supported profile that requests at least one capability, every one of them on the allow list
  and none forbidden or in need of approval, with a risk below five and no request for approval.
\<close>

theorem allow_is_safe:
  assumes "decidePacketEnvelopePolicyV1 rt v options = Inr d" and "js_wf v" and "pd_decision d = Allow"
  shows "\<exists>r. packet_shape v r \<and> supported_profile r \<and> pe_allow r \<noteq> []
    \<and> list_all (\<lambda>c. c \<in> set allowedCapabilities \<and> c \<notin> set approvalRequiredCapabilities
         \<and> c \<notin> set forbiddenCapabilities) (pe_allow r)
    \<and> \<not> pe_requires_approval r \<and> pe_risk_level r < 5"
proof -
  from decide_InrD [OF assms(1,2)] obtain r h hex t where r: "packet_shape v r"
    and d: "d = policy_decision_of r h (js ''pol_'' @ hex) t" by blast
  have "policy_outcome r = Allow"
    using assms(3) by (simp add: d policy_decision_of_def selectDecision_record_reasons)
  then show ?thesis using r capability_lists_disjoint
    by (auto simp: policy_outcome_def grantable_def list_all_iff list_ex_iff split: if_splits
        intro!: exI [of _ r])
qed

definition allowed_packet :: jsval where
  "allowed_packet = (case sample_packet of JObj p fs \<Rightarrow> JObj p (map (\<lambda>(k, v).
     if k = js ''permission_envelope'' then (k, obj [(''allow'', jtexts [''context.read'']), (''block'', jtexts [])])
     else if k = js ''risk_level'' then (k, jint 1)
     else if k = js ''requires_approval'' then (k, JBool False) else (k, v)) fs) | v \<Rightarrow> v)"

definition allowed_record :: packet_envelope_v1 where
  "allowed_record = sample_record\<lparr>pe_allow := [js ''context.read''], pe_block := [], pe_risk_level := 1,
     pe_requires_approval := False\<rparr>"

lemma allowed_shape: "packet_shape allowed_packet allowed_record"
  using sample_shape
  by (simp add: packet_shape_def sample_packet_def sample_record_def js_eval allowed_packet_def
      allowed_record_def permission_shape_def permissionEnvelopeKeys_def num_reads_def rootKeys_def)

lemma allowed_rules: "packet_rules allowed_record"
proof -
  have "permissionPattern (js ''context.read'')" by (simp add: js_eval)
  then show ?thesis using sample_rules
    by (simp add: packet_rules_def allowed_record_def string_set_def bounded_string_def)
qed

lemma allowed_wf: "js_wf allowed_packet"
  by (simp add: allowed_packet_def sample_packet_def sample_constraints_def sample_proposal_def literal_eval)

theorem allow_is_safe_witness:
  "\<exists>d r. decidePacketEnvelopePolicyV1 sample_runtime allowed_packet sample_options = Inr d
    \<and> packet_shape allowed_packet r \<and> supported_profile r \<and> pe_allow r \<noteq> []
    \<and> list_all (\<lambda>c. c \<in> set allowedCapabilities \<and> c \<notin> set approvalRequiredCapabilities
         \<and> c \<notin> set forbiddenCapabilities) (pe_allow r)
    \<and> \<not> pe_requires_approval r \<and> pe_risk_level r < 5"
proof -
  have "\<exists>h i. decidePacketEnvelopePolicyV1 sample_runtime allowed_packet sample_options
      = Inr (policy_decision_of allowed_record h i (js ''2026-01-02T03:04:06Z''))"
    by (rule decide_total [OF allowed_shape allowed_rules allowed_wf sample_options_time sample_evaluated,
          where c = 1767323045000 and x = 1767326645000])
      (simp_all add: sample_record_def allowed_record_def sample_timestamps sample_runtime_available)
  then obtain h i where d: "decidePacketEnvelopePolicyV1 sample_runtime allowed_packet sample_options
      = Inr (policy_decision_of allowed_record h i (js ''2026-01-02T03:04:06Z''))" by blast
  have "policy_outcome allowed_record = Allow"
    by (simp add: policy_outcome_def allowed_record_def sample_record_def supported_profile_def
        supportedProfiles_def grantable_def allowedCapabilities_def approvalRequiredCapabilities_def)
  then have "pd_decision (policy_decision_of allowed_record h i (js ''2026-01-02T03:04:06Z'')) = Allow"
    by (simp add: policy_decision_of_def selectDecision_record_reasons)
  from allow_is_safe [OF d allowed_wf this] d show ?thesis by blast
qed

text \<open>
  The policy always answers: a valid packet evaluated at a real instant inside its window,
  with SHA-256 available, gets a decision, and the decision carries the identity of the packet.
\<close>

theorem policy_always_decides:
  assumes "packet_shape v r" and "packet_rules r" and "js_wf v" and "options_time options t"
    and "parseCanonicalUtcTimestamp t = Some e"
    and "parseCanonicalUtcTimestamp (pe_created_at r) = Some c"
    and "parseCanonicalUtcTimestamp (pe_expires_at r) = Some x" and "c \<le> e" and "e < x"
    and "sha256_available rt"
  shows "\<exists>d. decidePacketEnvelopePolicyV1 rt v options = Inr d \<and> pd_packet_id d = pe_packet_id r
    \<and> pd_evaluated_at d = t \<and> hashPacketEnvelopeV1 rt v = Inr (pd_packet_hash d)"
proof -
  from decide_total [OF assms] obtain d where d: "decidePacketEnvelopePolicyV1 rt v options = Inr d"
    by blast
  from decide_InrD [OF d assms(3)] assms(1,4) d show ?thesis
    by (auto simp: policy_decision_of_def options_time_def dest: packet_shape_unique)
qed

theorem policy_always_decides_witness:
  "\<exists>d. decidePacketEnvelopePolicyV1 sample_runtime sample_packet sample_options = Inr d
    \<and> pd_packet_id d = pe_packet_id sample_record \<and> pd_evaluated_at d = js ''2026-01-02T03:04:06Z''
    \<and> hashPacketEnvelopeV1 sample_runtime sample_packet = Inr (pd_packet_hash d)"
  by (rule policy_always_decides [OF sample_shape sample_rules sample_wf sample_options_time sample_evaluated,
        where c = 1767323045000 and x = 1767326645000])
    (simp_all add: sample_record_def sample_timestamps sample_runtime_available)

text \<open>
  Outside the validity window \<open>created_at <= evaluated_at < expires_at\<close> a valid packet is
  refused with \<open>policy_decision.packet_expired\<close> and nothing else, whatever the runtime.
\<close>

theorem policy_window_enforced:
  assumes "packet_shape v r" and "packet_rules r" and "js_wf v" and "options_time options t"
    and "parseCanonicalUtcTimestamp t = Some e"
    and "parseCanonicalUtcTimestamp (pe_created_at r) = Some c"
    and "parseCanonicalUtcTimestamp (pe_expires_at r) = Some x" and "e < c \<or> x \<le> e"
  shows "\<exists>m. decidePacketEnvelopePolicyV1 rt v options
    = Inl [createContractErrorV1 PD_packet_expired (js ''/evaluated_at'') m]"
  using assms(8) by (auto simp: decide_eq [OF assms(1-7)] pd_failure_def)

theorem policy_window_enforced_witness:
  "\<exists>m. decidePacketEnvelopePolicyV1 sample_runtime sample_packet
      (obj [(''evaluated_at'', jtext ''2026-01-02T04:04:05Z'')])
    = Inl [createContractErrorV1 PD_packet_expired (js ''/evaluated_at'') m]"
  by (rule policy_window_enforced [OF sample_shape sample_rules sample_wf, where t = "js ''2026-01-02T04:04:05Z''"
        and e = 1767326645000 and c = 1767323045000 and x = 1767326645000])
    (simp_all add: sample_record_def sample_timestamps options_time_def literal_eval)

text \<open>
  The decision identity binds the decision: two decisions with one \<open>decision_id\<close> are equal in
  every field, or SHA-256 maps two different identity inputs or two different canonical packets
  to one digest.
\<close>

theorem decision_id_binds_decision:
  assumes "decidePacketEnvelopePolicyV1 rt v options = Inr d"
    and "decidePacketEnvelopePolicyV1 rt w options' = Inr d'"
    and "js_wf v" and "js_wf w" and "pd_decision_id d = pd_decision_id d'"
  shows "d = d'
    \<or> digest_collision rt (utf8_encode (policy_decision_id_input (pd_packet_hash d) (pd_evaluated_at d)))
        (utf8_encode (policy_decision_id_input (pd_packet_hash d') (pd_evaluated_at d')))
    \<or> (\<exists>x y. canonicalizePacketEnvelopeV1 v = Inr x \<and> canonicalizePacketEnvelopeV1 w = Inr y
        \<and> digest_collision rt (utf8_encode x) (utf8_encode y))"
proof -
  from decide_InrD [OF assms(1,3)] obtain r t e h hex where
    r: "packet_shape v r" "parseCanonicalUtcTimestamp t = Some e" "hashPacketEnvelopeV1 rt v = Inr h"
    "sha256_hex rt (policy_decision_id_input h t) = Some hex"
    and d: "d = policy_decision_of r h (js ''pol_'' @ hex) t" by blast
  from decide_InrD [OF assms(2,4)] obtain r' t' e' h' hex' where
    r': "packet_shape w r'" "parseCanonicalUtcTimestamp t' = Some e'" "hashPacketEnvelopeV1 rt w = Inr h'"
    "sha256_hex rt (policy_decision_id_input h' t') = Some hex'"
    and d': "d' = policy_decision_of r' h' (js ''pol_'' @ hex') t'" by blast
  have hex: "hex' = hex" using assms(5) by (simp add: d d' policy_decision_of_def)
  from sha256_hex_inject [OF r(4) r'(4) [unfolded hex] decision_id_input_well_formed [OF r(3,2)]
      decision_id_input_well_formed [OF r'(3,2)]]
  show ?thesis
  proof
    assume "policy_decision_id_input h t = policy_decision_id_input h' t'"
    from decision_id_input_inject [OF r(3) r'(3) this] have eq: "h' = h" "t' = t" by simp_all
    from packet_hash_fields [OF r(3) r'(3) [unfolded eq] assms(3,4) r(1) r'(1)] show ?thesis
      using policy_decision_of_fields [of r r'] by (auto simp: d d' eq hex)
  next
    assume "digest_collision rt (utf8_encode (policy_decision_id_input h t))
      (utf8_encode (policy_decision_id_input h' t'))"
    then show ?thesis by (simp add: d d' policy_decision_of_def)
  qed
qed

theorem decision_id_binds_decision_witness:
  "\<exists>d. decidePacketEnvelopePolicyV1 sample_runtime sample_packet sample_options = Inr d \<and>
    (d = d
    \<or> digest_collision sample_runtime (utf8_encode (policy_decision_id_input (pd_packet_hash d) (pd_evaluated_at d)))
        (utf8_encode (policy_decision_id_input (pd_packet_hash d) (pd_evaluated_at d)))
    \<or> (\<exists>x y. canonicalizePacketEnvelopeV1 sample_packet = Inr x
        \<and> canonicalizePacketEnvelopeV1 sample_packet = Inr y
        \<and> digest_collision sample_runtime (utf8_encode x) (utf8_encode y)))"
proof -
  obtain d where d: "decidePacketEnvelopePolicyV1 sample_runtime sample_packet sample_options = Inr d"
    using sample_decision by blast
  from decision_id_binds_decision [OF d d sample_wf sample_wf refl] d show ?thesis by blast
qed

end
