(* ===== verification/Approval_Evidence.thy ===== *)
theory Approval_Evidence
  imports Policy_Decision
begin

text \<open>
  The approval component, \<open>packages/policy/src/approval-evidence-v1.ts\<close>: it turns a policy
  decision that requires approval into an approval request, and a request into a human decision.
  Both operations take unknown values: they validate them field by field, work on a
  \<open>JSON.parse(JSON.stringify(...))\<close> snapshot, recompute the identity the value claims and bind
  the result to it. Requests and decisions are the JavaScript objects of the source.
\<close>

section \<open>Contract\<close>

datatype approval_error_code =
    AR_invalid_policy_decision | AR_not_required | AR_invalid_request_time | AR_expired
  | AR_hash_unavailable | AD_invalid_request | AD_invalid_input | AD_self_approval_forbidden
  | AD_expired | AD_hash_unavailable

type_synonym ae_error = "approval_error_code contract_error"

definition approval_contract_version :: jstr where
  "approval_contract_version = js ''lnsat.contracts.v1_0''"

definition approval_request_schema_id :: jstr where
  "approval_request_schema_id = js ''lnsat.approval_request.schema.v1_0''"

definition approval_decision_schema_id :: jstr where
  "approval_decision_schema_id = js ''lnsat.approval_decision.schema.v1_0''"

definition denialPolicyReasons :: "jstr list" where
  "denialPolicyReasons = map js
     [''policy.profile_unsupported'', ''policy.no_capability_requested'',
      ''policy.capability_forbidden'', ''policy.capability_unknown'']"

definition approvalPolicyReasons :: "jstr list" where
  "approvalPolicyReasons = map js
     [''policy.packet_requires_approval'', ''policy.risk_requires_approval'',
      ''policy.capability_requires_approval'']"

definition policyReasonOrder :: "jstr list" where
  "policyReasonOrder = map js
     [''policy.profile_unsupported'', ''policy.no_capability_requested'',
      ''policy.capability_forbidden'', ''policy.capability_unknown'',
      ''policy.packet_requires_approval'', ''policy.risk_requires_approval'',
      ''policy.capability_requires_approval'']"

text \<open>\<open>policyReasonCodes\<close> has the elements of \<open>policyReasonOrder\<close>.\<close>

definition policyReasonCodes :: "jstr list" where
  "policyReasonCodes = policyReasonOrder"

definition capabilityReasonCodes :: "jsval list" where
  "capabilityReasonCodes = map (\<lambda>s. JStr (js s))
     [''policy.profile_unsupported'', ''policy.capability_forbidden'', ''policy.capability_unknown'',
      ''policy.capability_requires_approval''] @ [JNull]"

definition deniedReasonCodes :: "jstr list" where
  "deniedReasonCodes = map js
     [''approval.operator_denied'', ''approval.scope_rejected'', ''approval.evidence_insufficient'',
      ''approval.request_superseded'']"

definition approvalReasonCodes :: "jstr list" where
  "approvalReasonCodes = js ''approval.operator_approved'' # deniedReasonCodes"

text \<open>\<open>/^identity:[^\s\u0000-\u001f\u007f]{1,240}$/u\<close> and the like\<close>

definition rx_prefixed :: "string \<Rightarrow> nat \<Rightarrow> jstr \<Rightarrow> bool" where
  "rx_prefixed prefix most = rx_test_u (RSeq (rx_lit prefix) (rx_ref_tail most))"

definition identityRefPattern :: "jstr \<Rightarrow> bool" where
  "identityRefPattern = rx_prefixed ''identity:'' 240"

definition humanIdentityRefPattern :: "jstr \<Rightarrow> bool" where
  "humanIdentityRefPattern = rx_prefixed ''identity:human:'' 234"

definition sessionRefPattern :: "jstr \<Rightarrow> bool" where
  "sessionRefPattern = rx_prefixed ''session:'' 240"

definition projectRefPattern :: "jstr \<Rightarrow> bool" where
  "projectRefPattern = rx_prefixed ''project:'' 240"

definition rx_hex64 :: "string \<Rightarrow> jstr \<Rightarrow> bool" where
  "rx_hex64 prefix = rx_test_u (RSeq (rx_lit prefix) (RRep (RCls False (cc_digit @ [(97, 102)])) 64 (Some 64)))"

definition decisionIdPattern :: "jstr \<Rightarrow> bool" where
  "decisionIdPattern = rx_hex64 ''pol_''"

definition requestIdPattern :: "jstr \<Rightarrow> bool" where
  "requestIdPattern = rx_hex64 ''apr_''"

definition packetHashPattern :: "jstr \<Rightarrow> bool" where
  "packetHashPattern = rx_hex64 ''sha256:''"

section \<open>Validators\<close>

definition hasExactKeys :: "jsval \<Rightarrow> jstr list \<Rightarrow> bool" where
  "hasExactKeys value keys \<longleftrightarrow> sort (js_keys value) = sort keys"

fun isSortedUnique :: "jstr list \<Rightarrow> bool" where
  "isSortedUnique (x # y # zs) \<longleftrightarrow> x < y \<and> isSortedUnique (y # zs)"
| "isSortedUnique _ \<longleftrightarrow> True"

definition isUnique :: "jsval list \<Rightarrow> bool" where
  "isUnique values \<longleftrightarrow> card (set values) = length values"

definition isEmptyArray :: "jsval \<Rightarrow> bool" where
  "isEmptyArray v \<longleftrightarrow> (case v of JArr vs \<Rightarrow> length vs = 0 | _ \<Rightarrow> False)"

definition isSortedUniqueRefs :: "jsval \<Rightarrow> bool" where
  "isSortedUniqueRefs v \<longleftrightarrow> (case v of
     JArr vs \<Rightarrow> list_all (text_ok (\<lambda>s. length s \<le> 256 \<and> referencePattern s)) vs
       \<and> isSortedUnique (map as_str vs)
   | _ \<Rightarrow> False)"

definition isSortedUniqueCapabilities :: "jsval \<Rightarrow> bool" where
  "isSortedUniqueCapabilities v \<longleftrightarrow> (case v of
     JArr vs \<Rightarrow> length vs > 0 \<and> list_all (text_ok (\<lambda>s. length s \<le> 128 \<and> permissionPattern s)) vs
       \<and> isSortedUnique (map as_str vs)
   | _ \<Rightarrow> False)"

definition real_instant_text :: "jstr \<Rightarrow> bool" where
  "real_instant_text s \<longleftrightarrow> parseCanonicalUtcTimestamp s \<noteq> None"

definition isPolicyDecisionPacketRef :: "jsval \<Rightarrow> bool" where
  "isPolicyDecisionPacketRef value \<longleftrightarrow>
     js_isPlainObject value
     \<and> hasExactKeys value (map js [''packet_id'', ''schema_id'', ''packet_hash'', ''idempotency_key''])
     \<and> text_ok packetIdPattern (fld value ''packet_id'')
     \<and> fld value ''schema_id'' = JStr (js ''lnsat.packet_envelope.schema.v1_0'')
     \<and> text_ok packetHashPattern (fld value ''packet_hash'')
     \<and> text_ok idempotencyKeyPattern (fld value ''idempotency_key'')"

definition isApprovalCapabilityDecision :: "jsval \<Rightarrow> bool" where
  "isApprovalCapabilityDecision value \<longleftrightarrow>
     js_isPlainObject value
     \<and> hasExactKeys value (map js [''capability'', ''decision'', ''reason_code''])
     \<and> text_ok (\<lambda>s. length s \<le> 128 \<and> permissionPattern s) (fld value ''capability'')
     \<and> text_ok (\<lambda>s. s \<in> set (map js [''allow'', ''deny'', ''approval_required''])) (fld value ''decision'')
     \<and> fld value ''reason_code'' \<in> set capabilityReasonCodes
     \<and> ((fld value ''decision'' = jtext ''allow'' \<and> fld value ''reason_code'' = JNull)
        \<or> (fld value ''decision'' = jtext ''deny''
           \<and> (fld value ''reason_code'' = jtext ''policy.profile_unsupported''
              \<or> fld value ''reason_code'' = jtext ''policy.capability_forbidden''
              \<or> fld value ''reason_code'' = jtext ''policy.capability_unknown''))
        \<or> (fld value ''decision'' = jtext ''approval_required''
           \<and> fld value ''reason_code'' = jtext ''policy.capability_requires_approval''))"

fun js_indexOf :: "jstr list \<Rightarrow> jstr \<Rightarrow> int" where
  "js_indexOf [] x = - 1"
| "js_indexOf (y # ys) x =
     (if y = x then 0 else (let i = js_indexOf ys x in if i = - 1 then - 1 else i + 1))"

fun reasons_in_order :: "jstr list \<Rightarrow> bool" where
  "reasons_in_order (x # y # zs) \<longleftrightarrow>
     js_indexOf policyReasonOrder x < js_indexOf policyReasonOrder y \<and> reasons_in_order (y # zs)"
| "reasons_in_order _ \<longleftrightarrow> True"

definition risk_at_least :: "jsval \<Rightarrow> int \<Rightarrow> bool" where
  "risk_at_least v i \<longleftrightarrow> (case v of JNum n \<Rightarrow> \<not> num_less_int n i | _ \<Rightarrow> False)"

definition isApprovalPolicySemanticsConsistent :: "jsval \<Rightarrow> bool" where
  "isApprovalPolicySemanticsConsistent value \<longleftrightarrow>
     (let capability_decisions = as_list (fld value ''capability_decisions'');
          reason_codes = map as_str (as_list (fld value ''reason_codes''))
      in as_str (fld value ''policy_profile_ref'') \<in> set supportedProfiles
         \<and> list_all (\<lambda>item.
              if as_str (fld item ''capability'') \<in> set allowedCapabilities
              then fld item ''decision'' = jtext ''allow'' \<and> fld item ''reason_code'' = JNull
              else if as_str (fld item ''capability'') \<in> set approvalRequiredCapabilities
              then fld item ''decision'' = jtext ''approval_required''
                   \<and> fld item ''reason_code'' = jtext ''policy.capability_requires_approval''
              else False) capability_decisions
         \<and> ((js ''policy.risk_requires_approval'' \<in> set reason_codes)
            = risk_at_least (fld value ''risk_level'') approval_risk_threshold)
         \<and> ((js ''policy.capability_requires_approval'' \<in> set reason_codes)
            = list_ex (\<lambda>item. fld item ''decision'' = jtext ''approval_required'') capability_decisions)
         \<and> reasons_in_order reason_codes)"

definition isPolicyDecisionConsistent :: "jsval \<Rightarrow> bool" where
  "isPolicyDecisionConsistent value \<longleftrightarrow>
     (let reason_codes = map as_str (as_list (fld value ''reason_codes''));
          capability_decisions = as_list (fld value ''capability_decisions'');
          denialPresent = list_ex (\<lambda>reason. reason \<in> set denialPolicyReasons) reason_codes;
          approvalPresent = list_ex (\<lambda>reason. reason \<in> set approvalPolicyReasons) reason_codes
      in if fld value ''decision'' = jtext ''allow'' then
           fld value ''requires_approval'' = JBool False \<and> length reason_codes = 0
           \<and> length capability_decisions > 0
           \<and> list_all (\<lambda>item. fld item ''decision'' = jtext ''allow'') capability_decisions
         else if fld value ''decision'' = jtext ''deny'' then
           fld value ''requires_approval'' = JBool False \<and> denialPresent
         else
           fld value ''requires_approval'' = JBool True \<and> \<not> denialPresent \<and> approvalPresent
           \<and> length capability_decisions > 0
           \<and> list_all (\<lambda>item. fld item ''decision'' \<noteq> jtext ''deny'') capability_decisions
           \<and> isApprovalPolicySemanticsConsistent value)"

definition policyDecisionKeys :: "jstr list" where
  "policyDecisionKeys = map js
     [''contract_version'', ''schema_id'', ''decision_id'', ''packet_ref'', ''actor_ref'',
      ''session_ref'', ''project_ref'', ''resource_refs'', ''policy_profile_ref'', ''risk_level'',
      ''capability_decisions'', ''decision'', ''requires_approval'', ''reason_codes'',
      ''evaluated_at'', ''expires_at'', ''side_effects'']"

definition risk_integer_ok :: "jsval \<Rightarrow> bool" where
  "risk_integer_ok v \<longleftrightarrow> (case v of
     JNum n \<Rightarrow> num_isInteger n \<and> \<not> num_less_int n 0 \<and> \<not> num_greater_int n 8 | _ \<Rightarrow> False)"

definition isPolicyDecisionV1 :: "jsval \<Rightarrow> bool" where
  "isPolicyDecisionV1 value \<longleftrightarrow>
     js_isPlainObject value \<and> hasExactKeys value policyDecisionKeys
     \<and> fld value ''contract_version'' = jtext ''lnsat.contracts.v1_0''
     \<and> fld value ''schema_id'' = jtext ''lnsat.policy_decision.schema.v1_0''
     \<and> text_ok decisionIdPattern (fld value ''decision_id'')
     \<and> text_ok identityRefPattern (fld value ''actor_ref'')
     \<and> text_ok sessionRefPattern (fld value ''session_ref'')
     \<and> text_ok projectRefPattern (fld value ''project_ref'')
     \<and> text_ok (\<lambda>s. js_startsWith s (js ''policy:'')) (fld value ''policy_profile_ref'')
     \<and> risk_integer_ok (fld value ''risk_level'')
     \<and> fld value ''decision'' \<in> set (map jtext [''allow'', ''deny'', ''approval_required''])
     \<and> js_isBoolean (fld value ''requires_approval'')
     \<and> text_ok real_instant_text (fld value ''evaluated_at'')
     \<and> text_ok real_instant_text (fld value ''expires_at'')
     \<and> isEmptyArray (fld value ''side_effects'')
     \<and> isSortedUniqueRefs (fld value ''resource_refs'')
     \<and> isPolicyDecisionPacketRef (fld value ''packet_ref'')
     \<and> (case fld value ''capability_decisions'' of
          JArr items \<Rightarrow> list_all isApprovalCapabilityDecision items
            \<and> isSortedUnique (map (\<lambda>item. as_str (fld item ''capability'')) items)
        | _ \<Rightarrow> False)
     \<and> (case fld value ''reason_codes'' of
          JArr reasons \<Rightarrow> list_all (text_ok (\<lambda>s. s \<in> set policyReasonCodes)) reasons \<and> isUnique reasons
        | _ \<Rightarrow> False)
     \<and> isPolicyDecisionConsistent value"

definition isApprovalPolicyDecisionRef :: "jsval \<Rightarrow> bool" where
  "isApprovalPolicyDecisionRef value \<longleftrightarrow>
     js_isPlainObject value \<and> hasExactKeys value (map js [''schema_id'', ''decision_id'', ''packet_hash''])
     \<and> fld value ''schema_id'' = jtext ''lnsat.policy_decision.schema.v1_0''
     \<and> text_ok decisionIdPattern (fld value ''decision_id'')
     \<and> text_ok packetHashPattern (fld value ''packet_hash'')"

definition approvalRequestKeys :: "jstr list" where
  "approvalRequestKeys = map js
     [''contract_version'', ''schema_id'', ''approval_request_id'', ''status'',
      ''policy_decision_ref'', ''requester_ref'', ''session_ref'', ''project_ref'',
      ''resource_refs'', ''requested_capabilities'', ''policy_reason_codes'', ''requested_at'',
      ''expires_at'', ''side_effects'']"

definition isApprovalRequestV1 :: "jsval \<Rightarrow> bool" where
  "isApprovalRequestV1 value \<longleftrightarrow>
     js_isPlainObject value \<and> hasExactKeys value approvalRequestKeys
     \<and> fld value ''contract_version'' = jtext ''lnsat.contracts.v1_0''
     \<and> fld value ''schema_id'' = jtext ''lnsat.approval_request.schema.v1_0''
     \<and> text_ok requestIdPattern (fld value ''approval_request_id'')
     \<and> fld value ''status'' = jtext ''requested''
     \<and> isApprovalPolicyDecisionRef (fld value ''policy_decision_ref'')
     \<and> text_ok identityRefPattern (fld value ''requester_ref'')
     \<and> text_ok sessionRefPattern (fld value ''session_ref'')
     \<and> text_ok projectRefPattern (fld value ''project_ref'')
     \<and> isSortedUniqueRefs (fld value ''resource_refs'')
     \<and> isSortedUniqueCapabilities (fld value ''requested_capabilities'')
     \<and> (case fld value ''policy_reason_codes'' of
          JArr reasons \<Rightarrow> length reasons > 0
            \<and> list_all (text_ok (\<lambda>s. s \<in> set approvalPolicyReasons)) reasons \<and> isUnique reasons
        | _ \<Rightarrow> False)
     \<and> text_ok real_instant_text (fld value ''requested_at'')
     \<and> text_ok real_instant_text (fld value ''expires_at'')
     \<and> isEmptyArray (fld value ''side_effects'')"

section \<open>Canonical text\<close>

text \<open>\<open>None\<close> is the \<open>TypeError\<close> of the source.\<close>

fun canonicalizeJson :: "jsval \<Rightarrow> jstr option" where
  "canonicalizeJson JNull = Some (js ''null'')"
| "canonicalizeJson (JBool b) = Some (js (if b then ''true'' else ''false''))"
| "canonicalizeJson (JStr s) = Some (quote_json s)"
| "canonicalizeJson (JNum n) = (if \<not> num_isFinite n then None else Some (print_num n))"
| "canonicalizeJson (JArr vs) =
     map_option (\<lambda>ts. js ''['' @ json_join ts @ js '']'') (option_list (map canonicalizeJson vs))"
| "canonicalizeJson (JObj plain fs) =
     (if plain
      then map_option (\<lambda>ts. js ''{'' @ json_join ts @ js ''}'')
        (option_list (map (\<lambda>(k, t). map_option (\<lambda>t. quote_json k @ js '':'' @ t) t)
          (sort_key fst (map (\<lambda>(k, v). (k, canonicalizeJson v)) fs))))
      else None)"
| "canonicalizeJson JUndef = None"
| "canonicalizeJson JOther = None"

section \<open>Operations\<close>

definition ae_failure :: "approval_error_code \<Rightarrow> string \<Rightarrow> string \<Rightarrow> ae_error list + jsval" where
  "ae_failure code path message = Inl [createContractErrorV1 code (js path) (js message)]"

definition invalid_decision_failure :: "ae_error list + jsval" where
  "invalid_decision_failure = ae_failure AR_invalid_policy_decision ''/policy_decision''
     ''Policy decision must satisfy the exact v1 approval-required contract.''"

definition invalid_request_time_failure :: "ae_error list + jsval" where
  "invalid_request_time_failure = ae_failure AR_invalid_request_time ''/requested_at''
     ''requested_at must be a real canonical UTC instant.''"

definition request_expired_failure :: "ae_error list + jsval" where
  "request_expired_failure = ae_failure AR_expired ''/requested_at''
     ''Approval request must occur inside the policy decision validity window.''"

definition request_hash_failure :: "ae_error list + jsval" where
  "request_hash_failure = ae_failure AR_hash_unavailable ''/policy_decision''
     ''Approval request identity could not be produced.''"

definition approval_request_body :: "jsval \<Rightarrow> jstr \<Rightarrow> (string \<times> jsval) list" where
  "approval_request_body snapshot requestedAtInput =
     [(''contract_version'', JStr approval_contract_version),
      (''schema_id'', JStr approval_request_schema_id),
      (''status'', jtext ''requested''),
      (''policy_decision_ref'', obj
         [(''schema_id'', fld snapshot ''schema_id''),
          (''decision_id'', fld snapshot ''decision_id''),
          (''packet_hash'', fld (fld snapshot ''packet_ref'') ''packet_hash'')]),
      (''requester_ref'', fld snapshot ''actor_ref''),
      (''session_ref'', fld snapshot ''session_ref''),
      (''project_ref'', fld snapshot ''project_ref''),
      (''resource_refs'', JArr (as_list (fld snapshot ''resource_refs''))),
      (''requested_capabilities'', JArr (map (\<lambda>item. fld item ''capability'')
         (as_list (fld snapshot ''capability_decisions'')))),
      (''policy_reason_codes'', JArr (as_list (fld snapshot ''reason_codes''))),
      (''requested_at'', JStr requestedAtInput),
      (''expires_at'', fld snapshot ''expires_at''),
      (''side_effects'', JArr [])]"

text \<open>The hashing part of \<open>createApprovalRequestV1\<close>, inside its \<open>try\<close>.\<close>

definition create_bound_request ::
  "('a js_runtime_scheme) \<Rightarrow> jsval \<Rightarrow> jstr \<Rightarrow> ae_error list + jsval" where
  "create_bound_request rt snapshot requestedAtInput =
     (case sha256_hex rt (as_str (fld snapshot ''schema_id'') @ newline
             @ as_str (fld (fld snapshot ''packet_ref'') ''packet_hash'') @ newline
             @ as_str (fld snapshot ''evaluated_at'')) of
        None \<Rightarrow> request_hash_failure
      | Some hex \<Rightarrow>
          if JStr (js ''pol_'' @ hex) \<noteq> fld snapshot ''decision_id''
          then ae_failure AR_invalid_policy_decision ''/policy_decision/decision_id''
                 ''Policy decision identity does not match its bound evidence.''
          else (case canonicalizeJson (obj (approval_request_body snapshot requestedAtInput)) of
                  None \<Rightarrow> request_hash_failure
                | Some canonical \<Rightarrow>
                    (case sha256_hex rt canonical of
                       None \<Rightarrow> request_hash_failure
                     | Some hex \<Rightarrow> Inr (obj (approval_request_body snapshot requestedAtInput
                         @ [(''approval_request_id'', JStr (js ''apr_'' @ hex))])))))"

definition createApprovalRequestV1 ::
  "('a js_runtime_scheme) \<Rightarrow> jsval \<Rightarrow> jsval \<Rightarrow> ae_error list + jsval" where
  "createApprovalRequestV1 rt rawDecision rawOptions =
     (if \<not> isPolicyDecisionV1 rawDecision then invalid_decision_failure
      else if fld rawDecision ''decision'' \<noteq> jtext ''approval_required''
              \<or> fld rawDecision ''requires_approval'' \<noteq> JBool True
      then ae_failure AR_not_required ''/policy_decision/decision''
             ''Approval evidence can only be requested for approval-required policy decisions.''
      else if \<not> js_isPlainObject rawOptions \<or> \<not> hasExactKeys rawOptions [js ''requested_at'']
              \<or> \<not> js_isString (fld rawOptions ''requested_at'')
      then invalid_request_time_failure
      else (let requestedAtInput = as_str (fld rawOptions ''requested_at'') in
        case parseCanonicalUtcTimestamp requestedAtInput of
          None \<Rightarrow> invalid_request_time_failure
        | Some requestedAt \<Rightarrow>
            (case js_stringify_parse rt rawDecision of
               None \<Rightarrow> invalid_decision_failure
             | Some snapshot \<Rightarrow>
                 (case (parseCanonicalUtcTimestamp (as_str (fld snapshot ''evaluated_at'')),
                        parseCanonicalUtcTimestamp (as_str (fld snapshot ''expires_at''))) of
                    (Some evaluatedAt, Some expiresAt) \<Rightarrow>
                      if requestedAt < evaluatedAt \<or> requestedAt \<ge> expiresAt
                      then request_expired_failure
                      else create_bound_request rt snapshot requestedAtInput
                  | _ \<Rightarrow> request_expired_failure))))"

definition invalid_request_failure :: "ae_error list + jsval" where
  "invalid_request_failure = ae_failure AD_invalid_request ''/approval_request''
     ''Approval request must satisfy the exact v1 contract.''"

definition decision_expired_failure :: "ae_error list + jsval" where
  "decision_expired_failure = ae_failure AD_expired ''/decided_at''
     ''Approval decision must occur inside the request validity window.''"

definition decision_hash_failure :: "ae_error list + jsval" where
  "decision_hash_failure = ae_failure AD_hash_unavailable ''/approval_request''
     ''Approval decision identity could not be produced.''"

definition decisionOptionKeys :: "jstr list" where
  "decisionOptionKeys = map js
     [''approver_ref'', ''approver_session_ref'', ''decision'', ''reason_code'', ''decided_at'']"

definition decision_options_ok :: "jsval \<Rightarrow> bool" where
  "decision_options_ok rawOptions \<longleftrightarrow>
     js_isPlainObject rawOptions \<and> hasExactKeys rawOptions decisionOptionKeys
     \<and> text_ok humanIdentityRefPattern (fld rawOptions ''approver_ref'')
     \<and> text_ok sessionRefPattern (fld rawOptions ''approver_session_ref'')
     \<and> (fld rawOptions ''decision'' = jtext ''approved'' \<or> fld rawOptions ''decision'' = jtext ''denied'')
     \<and> text_ok (\<lambda>s. s \<in> set approvalReasonCodes) (fld rawOptions ''reason_code'')
     \<and> text_ok real_instant_text (fld rawOptions ''decided_at'')
     \<and> \<not> (fld rawOptions ''decision'' = jtext ''approved''
          \<and> fld rawOptions ''reason_code'' \<noteq> jtext ''approval.operator_approved'')
     \<and> \<not> (fld rawOptions ''decision'' = jtext ''denied''
          \<and> \<not> text_ok (\<lambda>s. s \<in> set deniedReasonCodes) (fld rawOptions ''reason_code''))"

definition approvalRequestBody :: "jsval \<Rightarrow> jsval" where
  "approvalRequestBody request = (case request of
     JObj plain fs \<Rightarrow> JObj True (filter (\<lambda>(k, v). k \<noteq> js ''approval_request_id'') fs) | v \<Rightarrow> v)"

definition approval_decision_id_input :: "jsval \<Rightarrow> jsval \<Rightarrow> jstr" where
  "approval_decision_id_input snapshot rawOptions =
     approval_decision_schema_id @ newline @ as_str (fld snapshot ''approval_request_id'') @ newline
     @ as_str (fld rawOptions ''decision'') @ newline @ as_str (fld rawOptions ''decided_at'') @ newline
     @ as_str (fld rawOptions ''approver_ref'') @ newline
     @ as_str (fld rawOptions ''approver_session_ref'') @ newline
     @ as_str (fld rawOptions ''reason_code'')"

definition approval_decision_object :: "jsval \<Rightarrow> jsval \<Rightarrow> jstr \<Rightarrow> jsval" where
  "approval_decision_object snapshot rawOptions decisionId =
     obj [(''contract_version'', JStr approval_contract_version),
          (''schema_id'', JStr approval_decision_schema_id),
          (''approval_decision_id'', JStr decisionId),
          (''approval_request_ref'', obj
             [(''schema_id'', fld snapshot ''schema_id''),
              (''approval_request_id'', fld snapshot ''approval_request_id''),
              (''policy_decision_id'', fld (fld snapshot ''policy_decision_ref'') ''decision_id'')]),
          (''approver_ref'', fld rawOptions ''approver_ref''),
          (''approver_session_ref'', fld rawOptions ''approver_session_ref''),
          (''decision'', fld rawOptions ''decision''),
          (''reason_code'', fld rawOptions ''reason_code''),
          (''decided_at'', fld rawOptions ''decided_at''),
          (''expires_at'', fld snapshot ''expires_at''),
          (''approval_gate_satisfied'', JBool (fld rawOptions ''decision'' = jtext ''approved'')),
          (''execution_authorized'', JBool False),
          (''side_effects'', JArr [])]"

definition decide_bound_request ::
  "('a js_runtime_scheme) \<Rightarrow> jsval \<Rightarrow> jsval \<Rightarrow> ae_error list + jsval" where
  "decide_bound_request rt snapshot rawOptions =
     (case canonicalizeJson (approvalRequestBody snapshot) of
        None \<Rightarrow> decision_hash_failure
      | Some canonical \<Rightarrow>
          (case sha256_hex rt canonical of
             None \<Rightarrow> decision_hash_failure
           | Some hex \<Rightarrow>
               if JStr (js ''apr_'' @ hex) \<noteq> fld snapshot ''approval_request_id''
               then ae_failure AD_invalid_request ''/approval_request/approval_request_id''
                      ''Approval request identity does not match its bound evidence.''
               else if fld rawOptions ''approver_ref'' = fld snapshot ''requester_ref''
               then ae_failure AD_self_approval_forbidden ''/approver_ref''
                      ''The requester cannot approve or deny the same approval request.''
               else (case sha256_hex rt (approval_decision_id_input snapshot rawOptions) of
                       None \<Rightarrow> decision_hash_failure
                     | Some hex \<Rightarrow> Inr (approval_decision_object snapshot rawOptions (js ''apd_'' @ hex)))))"

definition decideApprovalRequestV1 ::
  "('a js_runtime_scheme) \<Rightarrow> jsval \<Rightarrow> jsval \<Rightarrow> ae_error list + jsval" where
  "decideApprovalRequestV1 rt rawRequest rawOptions =
     (if \<not> isApprovalRequestV1 rawRequest then invalid_request_failure
      else if \<not> decision_options_ok rawOptions
      then ae_failure AD_invalid_input ''/decision''
             ''Approval decision input must satisfy the exact v1 human-decision contract.''
      else (case js_stringify_parse rt rawRequest of
              None \<Rightarrow> invalid_request_failure
            | Some snapshot \<Rightarrow>
                (case (parseCanonicalUtcTimestamp (as_str (fld rawOptions ''decided_at'')),
                       parseCanonicalUtcTimestamp (as_str (fld snapshot ''requested_at'')),
                       parseCanonicalUtcTimestamp (as_str (fld snapshot ''expires_at''))) of
                   (Some decidedAt, Some requestedAt, Some expiresAt) \<Rightarrow>
                     if decidedAt < requestedAt \<or> decidedAt \<ge> expiresAt
                     then decision_expired_failure
                     else decide_bound_request rt snapshot rawOptions
                 | _ \<Rightarrow> decision_expired_failure)))"

section \<open>The canonicalizer\<close>

lemma canonicalizeJson_jsonable:
  "js_plain v \<Longrightarrow> jsonable v j \<Longrightarrow> canonicalizeJson v = Some (stringifyCanonicalJsonValue j)"
proof (induction v arbitrary: j)
  case (JArr vs)
  then obtain ks where j: "j = JsonArr ks" "list_all2 jsonable vs ks" by (auto simp: jsonable_array)
  have "map canonicalizeJson vs = map Some (map stringifyCanonicalJsonValue ks)"
    using j(2) JArr.IH JArr.prems(1) by (induction rule: list_all2_induct) auto
  then show ?case by (simp only: j canonicalizeJson.simps stringifyCanonicalJsonValue.simps
        option_list_Some [THEN iffD2] option.map)
next
  case (JObj p fs)
  then obtain es where j: "j = JsonObj es" and es: "list_all2 (entry_rel jsonable) fs es"
    by (auto simp: jsonable_object)
  have "map (\<lambda>(k, v). (k, canonicalizeJson v)) fs
      = map (\<lambda>(k, t). (k, Some t)) (map (\<lambda>(k, v). (k, stringifyCanonicalJsonValue v)) es)"
    using es JObj.IH JObj.prems(1)
  proof (induction rule: list_all2_induct)
    case (Cons x xs y ys)
    obtain k v e where xy: "x = (k, v)" "y = (k, e)" "jsonable v e" using Cons.hyps(1) by (cases x; cases y) auto
    have "canonicalizeJson v = Some (stringifyCanonicalJsonValue e)"
      using Cons.prems(1) [of x v e] Cons.prems(2) xy by simp
    moreover have "map (\<lambda>(k, v). (k, canonicalizeJson v)) xs
        = map (\<lambda>(k, t). (k, Some t)) (map (\<lambda>(k, v). (k, stringifyCanonicalJsonValue v)) ys)"
      by (rule Cons.IH, rule Cons.prems(1)) (use Cons.prems(2) in simp_all)
    ultimately show ?case by (simp add: xy)
  qed simp
  then have "map (\<lambda>(k, t). map_option (\<lambda>t. quote_json k @ js '':'' @ t) t)
        (sort_key fst (map (\<lambda>(k, v). (k, canonicalizeJson v)) fs))
      = map Some (map (\<lambda>(k, t). quote_json k @ js '':'' @ t)
          (sort_key fst (map (\<lambda>(k, v). (k, stringifyCanonicalJsonValue v)) es)))"
    by (simp only: sort_key_fst_map_snd) (simp add: case_prod_unfold)
  moreover have p using JObj.prems(1) by simp
  ultimately show ?case
    by (simp only: j canonicalizeJson.simps stringifyCanonicalJsonValue.simps
        option_list_Some [THEN iffD2] option.map if_True)
qed auto

lemma canonicalizeJson_SomeD: "canonicalizeJson v = Some t \<Longrightarrow> js_plain v \<and> js_json_domain v"
proof (induction v arbitrary: t)
  case (JArr vs)
  then obtain ts where "map canonicalizeJson vs = map Some ts" by (auto simp: option_list_Some)
  then have "\<forall>v \<in> set vs. \<exists>t. canonicalizeJson v = Some t"
    by (metis (mono_tags, lifting) imageE image_eqI list.set_map)
  then show ?case using JArr.IH by (fastforce simp: list_all_iff)
next
  case (JObj p fs)
  then obtain ts where p: p and ts: "map (\<lambda>(k, t). map_option (\<lambda>t. quote_json k @ js '':'' @ t) t)
      (sort_key fst (map (\<lambda>(k, v). (k, canonicalizeJson v)) fs)) = map Some ts"
    by (auto simp: option_list_Some split: if_splits)
  have "canonicalizeJson v \<noteq> None" if "(k, v) \<in> set fs" for k v
  proof
    assume "canonicalizeJson v = None"
    then have "(k, None) \<in> set (sort_key fst (map (\<lambda>(k, v). (k, canonicalizeJson v)) fs))"
      using that by force
    then have "None \<in> set (map Some ts)" unfolding ts [symmetric] by force
    then show False by simp
  qed
  then show ?case using JObj.IH p by (fastforce simp: list_all_iff)
qed (auto split: if_splits)

interpretation approval_text: canonicalizer canonicalizeJson
proof
  show "\<exists>j. jsonable v j \<and> t = stringifyCanonicalJsonValue j" if "canonicalizeJson v = Some t" for v t
    using canonicalizeJson_SomeD [OF that] jsonable_domain [of v] canonicalizeJson_jsonable [of v] that by auto
qed (rule canonicalizeJson_jsonable)

section \<open>What the validators accept\<close>

lemma hasExactKeys_set: "hasExactKeys v keys \<Longrightarrow> set (js_keys v) = set keys"
  unfolding hasExactKeys_def by (metis set_sort)

lemma texts_iff: "list_all (text_ok P) vs \<longleftrightarrow> (\<exists>ss. vs = map JStr ss \<and> list_all P ss)"
  using all_strings_iff [of vs P] by (simp add: list_all_iff text_ok_iff)

lemma isSortedUnique_iff: "isSortedUnique ss \<longleftrightarrow> sorted_wrt (<) ss"
proof (induction ss rule: isSortedUnique.induct)
  case (1 x y zs)
  have "sorted_wrt (<) (x # y # zs) \<longleftrightarrow> x < y \<and> sorted_wrt (<) (y # zs)"
    by (rule sorted_wrt2) (simp add: transp_def)
  then show ?case using 1 by simp
qed auto

lemma isSortedUniqueRefs_iff:
  "isSortedUniqueRefs v \<longleftrightarrow> (\<exists>ss. v = JArr (map JStr ss) \<and> sorted_wrt (<) ss
     \<and> list_all (\<lambda>s. length s \<le> 256 \<and> referencePattern s) ss)"
  by (cases v) (auto simp: isSortedUniqueRefs_def texts_iff isSortedUnique_iff)

lemma isSortedUniqueCapabilities_iff:
  "isSortedUniqueCapabilities v \<longleftrightarrow> (\<exists>ss. v = JArr (map JStr ss) \<and> ss \<noteq> [] \<and> sorted_wrt (<) ss
     \<and> list_all (\<lambda>s. length s \<le> 128 \<and> permissionPattern s) ss)"
  by (cases v) (auto simp: isSortedUniqueCapabilities_def texts_iff isSortedUnique_iff)

lemma isEmptyArray_iff: "isEmptyArray v \<longleftrightarrow> v = JArr []"
  by (cases v) (auto simp: isEmptyArray_def)

lemma isUnique_iff: "isUnique vs \<longleftrightarrow> distinct vs"
  unfolding isUnique_def by (metis card_distinct distinct_card)

lemma risk_integer_reads:
  assumes "num_wf n" and "risk_integer_ok (JNum n)"
  shows "\<exists>i. num_reads n i \<and> 0 \<le> i \<and> i \<le> 8"
proof (cases n)
  case (NFrac neg s k)
  have s: "0 < s" "k < frac_digits s \<or> 21 < k" "frac_digits s \<le> k" using assms NFrac
    by (simp_all add: risk_integer_ok_def)
  then have k: "21 < k" by simp
  show ?thesis
  proof (cases neg)
    case True
    then have "num_less_int n 0" using s NFrac by (simp add: frac_signed_def mult_less_0_iff)
    then show ?thesis using assms(2) by (simp add: risk_integer_ok_def)
  next
    case False
    have "8 < int s * 10 ^ nat (k - frac_digits s)"
    proof (cases "k = frac_digits s")
      case True
      then have "\<not> length (nat_digits s) \<le> 1" using k by (simp add: frac_digits_def)
      then have "10 \<le> s" using length_nat_digits_le [of s 1] s(1) by (cases "s < 10") simp_all
      then show ?thesis using True by simp
    next
      case neq: False
      then obtain m where m: "nat (k - frac_digits s) = Suc m"
        using s(3) by (metis diff_gt_0_iff_gt gr0_implies_Suc linorder_neqE_linordered_idom not_le zero_less_nat_eq)
      have "1 * 10 \<le> int s * (10 * 10 ^ m)" by (rule mult_mono) (use s(1) in simp_all)
      then show ?thesis by (simp add: m)
    qed
    then have "num_greater_int n 8" using s(3) NFrac False by (simp add: frac_signed_def)
    then show ?thesis using assms(2) by (simp add: risk_integer_ok_def)
  qed
qed (use assms in \<open>auto simp: risk_integer_ok_def num_reads_def\<close>)

section \<open>What a copy keeps\<close>

lemma snapshot_keeps:
  assumes "js_snapshot v w" and "js_get v k = x" and "fixed_value x"
  shows "js_get w k = x"
proof (cases v)
  case (JObj p fs)
  have "x \<noteq> JUndef" using assms(3) by (auto simp: fixed_value_def)
  then have "map_of fs k \<noteq> None" using assms(2) JObj by (cases "map_of fs k") simp_all
  then have "k \<in> set (js_keys v)" by (simp add: JObj map_of_eq_None_iff)
  then have "js_snapshot x (js_get w k)"
    using snapshot_field [OF assms(1), of k] assms(2) JObj by (simp add: js_isObject_iff)
  then show ?thesis using assms(3) by (rule snapshot_fixed)
qed (use assms in \<open>auto simp: fixed_value_def\<close>)

lemma text_ok_fixed: "text_ok P v \<Longrightarrow> fixed_value v"
  by (auto simp: text_ok_iff)

lemma jtext_fixed: "fixed_value (jtext s)"
  by (simp add: jtext_def)

lemma refs_fixed: "isSortedUniqueRefs v \<Longrightarrow> fixed_value v" "isSortedUniqueCapabilities v \<Longrightarrow> fixed_value v"
  by (auto simp: isSortedUniqueRefs_iff isSortedUniqueCapabilities_iff)

lemma fixed_data: "fixed_value v \<Longrightarrow> js_data v"
  by (auto simp: fixed_value_def js_isString_iff js_isBoolean_iff js_data_strings simp del: js_data.simps(4))

lemma fixed_plain: "fixed_value v \<Longrightarrow> js_plain v"
  by (auto simp: fixed_value_def js_isString_iff js_isBoolean_iff list_all_iff)

lemma strings_fixed:
  "(case v of JArr vs \<Rightarrow> list_all (text_ok P) vs | _ \<Rightarrow> False) \<Longrightarrow> fixed_value v"
  by (cases v) (auto simp: texts_iff)

lemmas fixed_intros = text_ok_fixed jtext_fixed refs_fixed strings_fixed

text \<open>An object with known keys is made of JSON data, and is plain, when its fields are.\<close>

lemma js_data_keys:
  assumes "js_isPlainObject v" and "hasExactKeys v keys" and "js_wf v"
    and "list_all (\<lambda>k. js_data (js_get v k)) keys"
  shows "js_data v"
  by (rule js_data_object [OF _ assms(3)])
    (use assms hasExactKeys_set [OF assms(2)] in \<open>auto simp: js_isObject_iff js_isPlainObject_iff list_all_iff\<close>)

lemma js_plain_keys:
  assumes "js_isPlainObject v" and "hasExactKeys v keys" and "js_wf v"
    and "list_all (\<lambda>k. js_plain (js_get v k)) keys"
  shows "js_plain v"
proof -
  from assms(1) obtain fs where v: "v = JObj True fs" by (auto simp: js_isPlainObject_iff)
  have "js_plain x" if "(k, x) \<in> set fs" for k x
  proof -
    have "map_of fs k = Some x" using that assms(3) by (simp add: v)
    moreover have "k \<in> set keys" using hasExactKeys_set [OF assms(2)] that by (force simp: v)
    ultimately show ?thesis using assms(4) by (fastforce simp: v list_all_iff)
  qed
  then show ?thesis by (auto simp: v list_all_iff)
qed

section \<open>Valid policy decisions\<close>

lemma packet_ref_data: "isPolicyDecisionPacketRef v \<Longrightarrow> js_wf v \<Longrightarrow> js_data v"
  by (rule js_data_keys [where keys = "map js [''packet_id'', ''schema_id'', ''packet_hash'', ''idempotency_key'']"])
    (auto simp: isPolicyDecisionPacketRef_def intro: fixed_data fixed_intros)

lemma capability_decision_data: "isApprovalCapabilityDecision v \<Longrightarrow> js_wf v \<Longrightarrow> js_data v"
  by (rule js_data_keys [where keys = "map js [''capability'', ''decision'', ''reason_code'']"])
    (auto simp: isApprovalCapabilityDecision_def jtext_def intro: fixed_data fixed_intros)

lemma decision_list_field:
  assumes "isPolicyDecisionV1 v"
  obtains items where "fld v ''capability_decisions'' = JArr items" "list_all isApprovalCapabilityDecision items"
  using assms by (cases "fld v ''capability_decisions''") (auto simp: isPolicyDecisionV1_def)

lemma policy_decision_fixed:
  assumes "isPolicyDecisionV1 v"
  shows "k \<in> set (map js [''contract_version'', ''schema_id'', ''decision_id'', ''actor_ref'',
    ''session_ref'', ''project_ref'', ''resource_refs'', ''policy_profile_ref'', ''decision'',
    ''requires_approval'', ''reason_codes'', ''evaluated_at'', ''expires_at'']) \<Longrightarrow> fixed_value (js_get v k)"
proof -
  have "fixed_value (fld v ''reason_codes'')"
    by (rule strings_fixed [where P = "\<lambda>s. s \<in> set policyReasonCodes"])
      (use assms in \<open>auto simp: isPolicyDecisionV1_def split: jsval.splits\<close>)
  with assms show "k \<in> set (map js [''contract_version'', ''schema_id'', ''decision_id'', ''actor_ref'',
    ''session_ref'', ''project_ref'', ''resource_refs'', ''policy_profile_ref'', ''decision'',
    ''requires_approval'', ''reason_codes'', ''evaluated_at'', ''expires_at'']) \<Longrightarrow> fixed_value (js_get v k)"
    unfolding isPolicyDecisionV1_def
    by (auto simp: js_isBoolean_iff jtext_def intro: fixed_intros)
qed

lemma policy_decision_data:
  assumes "isPolicyDecisionV1 v" and "js_wf v"
  shows "js_data v"
proof (rule js_data_keys [where keys = policyDecisionKeys])
  have "js_data (fld v ''packet_ref'')"
    using assms js_wf_get by (auto simp: isPolicyDecisionV1_def intro!: packet_ref_data)
  moreover obtain items where items: "fld v ''capability_decisions'' = JArr items"
    "list_all isApprovalCapabilityDecision items" using assms(1) by (rule decision_list_field)
  then have "list_all js_data items"
    using js_wf_get [OF assms(2), of "js ''capability_decisions''"]
    by (auto simp: list_all_iff intro: capability_decision_data)
  then have "js_data (fld v ''capability_decisions'')" by (simp add: items)
  moreover have "fld v ''side_effects'' = JArr []" using assms(1) by (simp add: isPolicyDecisionV1_def isEmptyArray_iff)
  moreover have "js_data (fld v ''risk_level'')"
  proof -
    have r: "risk_integer_ok (fld v ''risk_level'')" using assms(1) by (simp add: isPolicyDecisionV1_def)
    then obtain n where n: "fld v ''risk_level'' = JNum n"
      by (cases "fld v ''risk_level''") (auto simp: risk_integer_ok_def)
    have "num_wf n" using js_wf_get [OF assms(2), of "js ''risk_level''"] by (simp add: n)
    from risk_integer_reads [OF this] r n show ?thesis
      by (auto simp: num_reads_def max_safe_integer_def)
  qed
  ultimately show "list_all (\<lambda>k. js_data (js_get v k)) policyDecisionKeys"
    using policy_decision_fixed [OF assms(1)] fixed_data
    by (simp add: policyDecisionKeys_def)
qed (use assms in \<open>auto simp: isPolicyDecisionV1_def\<close>)

lemma policy_decision_copy:
  assumes "isPolicyDecisionV1 v" and "js_wf v"
  shows "\<exists>w. js_stringify_parse rt v = Some w \<and> js_snapshot v w"
proof -
  obtain j where "jsonable v j" "json_ok j"
    using policy_decision_data [OF assms] assms(2) by (rule js_data_json)
  then show ?thesis by (rule stringify_parse_snapshot)
qed

lemma snapshot_capabilities:
  assumes "list_all isApprovalCapabilityDecision items" and "list_all2 js_snapshot items copies"
  shows "map (\<lambda>item. fld item ''capability'') copies = map (\<lambda>item. fld item ''capability'') items"
  using assms(2,1)
proof (induction rule: list_all2_induct)
  case (Cons x xs y ys)
  have "fixed_value (fld x ''capability'')"
    using Cons.prems by (auto simp: isApprovalCapabilityDecision_def intro: fixed_intros)
  from snapshot_keeps [OF Cons.hyps(1) refl this] Cons show ?case by simp
qed simp

lemma policy_decision_copy_keeps:
  assumes "isPolicyDecisionV1 v" and "js_snapshot v w"
  shows "approval_request_body w t = approval_request_body v t"
    and "fld w ''decision_id'' = fld v ''decision_id''" "fld w ''schema_id'' = fld v ''schema_id''"
    and "fld w ''evaluated_at'' = fld v ''evaluated_at''" "fld w ''expires_at'' = fld v ''expires_at''"
    and "fld (fld w ''packet_ref'') ''packet_hash'' = fld (fld v ''packet_ref'') ''packet_hash''"
proof -
  note keep = snapshot_keeps [OF assms(2) refl policy_decision_fixed [OF assms(1)]]
  show k: "fld w ''decision_id'' = fld v ''decision_id''" "fld w ''schema_id'' = fld v ''schema_id''"
    "fld w ''evaluated_at'' = fld v ''evaluated_at''" "fld w ''expires_at'' = fld v ''expires_at''"
    by (simp_all add: keep)
  have obj: "js_isPlainObject v" "set (js_keys v) = set policyDecisionKeys"
    using assms(1) hasExactKeys_set by (auto simp: isPolicyDecisionV1_def)
  then have field: "js_snapshot (js_get v k) (js_get w k)" if "k \<in> set policyDecisionKeys" for k
    using snapshot_field [OF assms(2)] that by (auto simp: js_isObject_iff js_isPlainObject_iff)
  have "isPolicyDecisionPacketRef (fld v ''packet_ref'')" using assms(1) by (simp add: isPolicyDecisionV1_def)
  then have "fixed_value (fld (fld v ''packet_ref'') ''packet_hash'')"
    by (auto simp: isPolicyDecisionPacketRef_def intro: fixed_intros)
  then show hash: "fld (fld w ''packet_ref'') ''packet_hash'' = fld (fld v ''packet_ref'') ''packet_hash''"
    by (intro snapshot_keeps [OF field refl]) (simp_all add: policyDecisionKeys_def)
  obtain items where items: "fld v ''capability_decisions'' = JArr items"
    "list_all isApprovalCapabilityDecision items" using assms(1) by (rule decision_list_field)
  have "js_snapshot (JArr items) (fld w ''capability_decisions'')"
    using field [of "js ''capability_decisions''"] by (simp add: items policyDecisionKeys_def)
  then obtain copies where copies: "fld w ''capability_decisions'' = JArr copies"
    "list_all2 js_snapshot items copies" by auto
  then have "map (\<lambda>item. fld item ''capability'') (as_list (fld w ''capability_decisions''))
      = map (\<lambda>item. fld item ''capability'') (as_list (fld v ''capability_decisions''))"
    using snapshot_capabilities [OF items(2)] items by simp
  then show "approval_request_body w t = approval_request_body v t"
    unfolding approval_request_body_def hash by (simp add: keep)
qed

section \<open>Creation works on the decision itself\<close>

definition request_options :: "jsval \<Rightarrow> jstr \<Rightarrow> bool" where
  "request_options options t \<longleftrightarrow> js_isPlainObject options \<and> hasExactKeys options [js ''requested_at'']
     \<and> fld options ''requested_at'' = JStr t"

definition approval_needed :: "jsval \<Rightarrow> bool" where
  "approval_needed v \<longleftrightarrow> isPolicyDecisionV1 v \<and> fld v ''decision'' = jtext ''approval_required''
     \<and> fld v ''requires_approval'' = JBool True"

definition decision_window :: "jsval \<Rightarrow> int \<Rightarrow> bool" where
  "decision_window v q \<longleftrightarrow> (\<exists>e x. parseCanonicalUtcTimestamp (as_str (fld v ''evaluated_at'')) = Some e
     \<and> parseCanonicalUtcTimestamp (as_str (fld v ''expires_at'')) = Some x \<and> e \<le> q \<and> q < x)"

lemma create_eq:
  assumes "approval_needed v" and "js_wf v" and "request_options options t"
    and "parseCanonicalUtcTimestamp t = Some q"
  shows "createApprovalRequestV1 rt v options =
    (if decision_window v q then create_bound_request rt v t else request_expired_failure)"
proof -
  have v: "isPolicyDecisionV1 v" using assms(1) by (simp add: approval_needed_def)
  from policy_decision_copy [OF this assms(2), of rt] obtain w where
    w: "js_stringify_parse rt v = Some w" "js_snapshot v w" by blast
  note keep = policy_decision_copy_keeps [OF v w(2)]
  have "create_bound_request rt w t = create_bound_request rt v t"
    unfolding create_bound_request_def keep ..
  then show ?thesis using assms
    by (auto simp: createApprovalRequestV1_def approval_needed_def request_options_def w keep
        decision_window_def split: option.split)
qed

lemma create_InrD:
  assumes "createApprovalRequestV1 rt v options = Inr r" and "js_wf v"
  shows "\<exists>t q. approval_needed v \<and> request_options options t \<and> parseCanonicalUtcTimestamp t = Some q
    \<and> decision_window v q \<and> create_bound_request rt v t = Inr r"
proof -
  have fails: "ae_failure a b m \<noteq> Inr r" for a b m by (simp add: ae_failure_def)
  note nf = invalid_decision_failure_def invalid_request_time_failure_def request_expired_failure_def fails fails [symmetric]
  have v: "approval_needed v" and opt: "js_isPlainObject options" "hasExactKeys options [js ''requested_at'']"
    "js_isString (fld options ''requested_at'')"
    using assms(1) by (auto simp: createApprovalRequestV1_def approval_needed_def nf split: if_splits)
  from opt obtain t where t: "request_options options t" by (auto simp: request_options_def js_isString_iff)
  then obtain q where q: "parseCanonicalUtcTimestamp t = Some q"
    using assms(1) v opt
    by (cases "parseCanonicalUtcTimestamp t")
      (auto simp: createApprovalRequestV1_def approval_needed_def request_options_def nf)
  from create_eq [OF v assms(2) t q, of rt] assms(1) v t q show ?thesis
    by (auto simp: nf split: if_splits)
qed

section \<open>Valid approval requests\<close>

lemma decision_ref_fixed:
  "isApprovalPolicyDecisionRef v \<Longrightarrow> k \<in> set (map js [''schema_id'', ''decision_id'', ''packet_hash'']) \<Longrightarrow>
     fixed_value (js_get v k)"
  by (auto simp: isApprovalPolicyDecisionRef_def intro: fixed_intros)

lemma decision_ref_data:
  assumes "isApprovalPolicyDecisionRef v" and "js_wf v"
  shows "js_data v \<and> js_plain v"
proof -
  let ?keys = "map js [''schema_id'', ''decision_id'', ''packet_hash'']"
  have "js_isPlainObject v" "hasExactKeys v ?keys" using assms(1) by (simp_all add: isApprovalPolicyDecisionRef_def)
  moreover have "list_all (\<lambda>k. js_data (js_get v k)) ?keys" "list_all (\<lambda>k. js_plain (js_get v k)) ?keys"
    unfolding list_all_iff using decision_ref_fixed [OF assms(1)] fixed_data fixed_plain by blast+
  ultimately show ?thesis using js_data_keys js_plain_keys assms(2) by blast
qed

lemma approval_request_fixed:
  assumes "isApprovalRequestV1 v"
  shows "k \<in> set approvalRequestKeys \<Longrightarrow> k \<noteq> js ''policy_decision_ref'' \<Longrightarrow> fixed_value (js_get v k)"
proof -
  have "fixed_value (fld v ''policy_reason_codes'')"
    by (rule strings_fixed [where P = "\<lambda>s. s \<in> set approvalPolicyReasons"])
      (use assms in \<open>auto simp: isApprovalRequestV1_def split: jsval.splits\<close>)
  moreover have "fixed_value (JArr [])" using fixed_value_simps(3) [of "[]"] by simp
  ultimately show "k \<in> set approvalRequestKeys \<Longrightarrow> k \<noteq> js ''policy_decision_ref'' \<Longrightarrow> fixed_value (js_get v k)"
    using assms unfolding isApprovalRequestV1_def isEmptyArray_iff
    by (auto simp: approvalRequestKeys_def intro: fixed_intros)
qed

lemma approval_request_data:
  assumes "isApprovalRequestV1 v" and "js_wf v"
  shows "js_data v" and "js_plain v"
proof -
  have v: "js_isPlainObject v" "hasExactKeys v approvalRequestKeys"
    and ref: "isApprovalPolicyDecisionRef (fld v ''policy_decision_ref'')"
    using assms(1) by (simp_all add: isApprovalRequestV1_def)
  note d = decision_ref_data [OF ref js_wf_get [OF assms(2)]]
  have "js_data (js_get v k) \<and> js_plain (js_get v k)" if "k \<in> set approvalRequestKeys" for k
    using d approval_request_fixed [OF assms(1) that] fixed_data fixed_plain by blast
  then show "js_data v" "js_plain v"
    using js_data_keys [OF v assms(2)] js_plain_keys [OF v assms(2)] by (simp_all add: list_all_iff)
qed

lemma request_body_snapshot:
  "js_snapshot v w \<Longrightarrow> js_isObject v \<Longrightarrow> js_snapshot (approvalRequestBody v) (approvalRequestBody w)"
proof -
  have filt: "map_of (filter (\<lambda>(k, v). k \<noteq> a) fs) k = (if k = a then None else map_of fs k)" for a k fs
    by (induction fs) auto
  have dist: "distinct (map fst (filter P fs))" if "distinct (map fst fs)" for P fs
    using that by (rule distinct_map_filter)
  show "js_snapshot v w \<Longrightarrow> js_isObject v \<Longrightarrow> ?thesis"
    by (auto simp: js_isObject_iff approvalRequestBody_def filt dist elim!: js_snapshot_objE
        intro!: snapshot_obj)
qed

lemma request_body_data:
  assumes "js_isPlainObject v"
  shows "js_data v \<Longrightarrow> js_data (approvalRequestBody v)" "js_wf v \<Longrightarrow> js_wf (approvalRequestBody v)"
    "js_plain v \<Longrightarrow> js_plain (approvalRequestBody v)"
  using assms by (auto simp: js_isPlainObject_iff approvalRequestBody_def list_all_iff distinct_map_filter)

lemma request_body_text:
  assumes "isApprovalRequestV1 v" and "js_wf v"
  shows "\<exists>t. canonicalizeJson (approvalRequestBody v) = Some t"
proof -
  have v: "js_isPlainObject v" using assms(1) by (simp add: isApprovalRequestV1_def)
  note b = request_body_data [OF v]
  obtain j where "jsonable (approvalRequestBody v) j"
    using b(1) [OF approval_request_data(1) [OF assms]] b(2) [OF assms(2)] by (rule js_data_json)
  from approval_text.canon_plain [OF b(3) [OF approval_request_data(2) [OF assms]] this]
  show ?thesis by blast
qed

lemma approval_request_copy_keeps:
  assumes "isApprovalRequestV1 v" and "js_wf v" and "js_snapshot v w"
  shows "decide_bound_request rt w options = decide_bound_request rt v options"
    and "fld w ''requested_at'' = fld v ''requested_at''" "fld w ''expires_at'' = fld v ''expires_at''"
proof -
  have v: "js_isPlainObject v" "js_isObject v" "set (js_keys v) = set approvalRequestKeys"
    using assms(1) hasExactKeys_set by (auto simp: isApprovalRequestV1_def js_isPlainObject_iff js_isObject_iff)
  have keep: "js_get w k = js_get v k" if "k \<in> set approvalRequestKeys" "k \<noteq> js ''policy_decision_ref''" for k
    by (rule snapshot_keeps [OF assms(3) refl approval_request_fixed [OF assms(1) that]])
  then show k: "fld w ''requested_at'' = fld v ''requested_at''" "fld w ''expires_at'' = fld v ''expires_at''"
    by (simp_all add: approvalRequestKeys_def)
  have k': "fld w ''schema_id'' = fld v ''schema_id''" "fld w ''requester_ref'' = fld v ''requester_ref''"
    "fld w ''approval_request_id'' = fld v ''approval_request_id''"
    by (simp_all add: keep approvalRequestKeys_def)
  have ref: "js_snapshot (fld v ''policy_decision_ref'') (fld w ''policy_decision_ref'')"
    using snapshot_field [OF assms(3) v(2)] v(3) by (simp add: approvalRequestKeys_def)
  have "fixed_value (fld (fld v ''policy_decision_ref'') ''decision_id'')"
    using assms(1) by (intro decision_ref_fixed) (simp_all add: isApprovalRequestV1_def)
  from snapshot_keeps [OF ref refl this]
  have id: "fld (fld w ''policy_decision_ref'') ''decision_id'' = fld (fld v ''policy_decision_ref'') ''decision_id''" .
  obtain t where "canonicalizeJson (approvalRequestBody v) = Some t"
    using request_body_text [OF assms(1,2)] by blast
  with approval_text.canon_snapshot [OF request_body_snapshot [OF assms(3) v(2)]]
  have "canonicalizeJson (approvalRequestBody w) = canonicalizeJson (approvalRequestBody v)" by simp
  then show "decide_bound_request rt w options = decide_bound_request rt v options"
    unfolding decide_bound_request_def approval_decision_id_input_def approval_decision_object_def
      id k k' by simp
qed

definition request_window :: "jsval \<Rightarrow> int \<Rightarrow> bool" where
  "request_window v d \<longleftrightarrow> (\<exists>q x. parseCanonicalUtcTimestamp (as_str (fld v ''requested_at'')) = Some q
     \<and> parseCanonicalUtcTimestamp (as_str (fld v ''expires_at'')) = Some x \<and> q \<le> d \<and> d < x)"

lemma decide_request_eq:
  assumes "isApprovalRequestV1 v" and "js_wf v" and "decision_options_ok options"
    and "parseCanonicalUtcTimestamp (as_str (fld options ''decided_at'')) = Some d"
  shows "decideApprovalRequestV1 rt v options =
    (if request_window v d then decide_bound_request rt v options else decision_expired_failure)"
proof -
  obtain j where "jsonable v j" "json_ok j"
    using approval_request_data(1) [OF assms(1,2)] assms(2) by (rule js_data_json)
  from stringify_parse_snapshot [OF this, of rt] obtain w where
    w: "js_stringify_parse rt v = Some w" "js_snapshot v w" by blast
  show ?thesis using assms
    by (auto simp: decideApprovalRequestV1_def w approval_request_copy_keeps [OF assms(1,2) w(2)]
        request_window_def split: option.split)
qed

lemma decide_request_InrD:
  assumes "decideApprovalRequestV1 rt v options = Inr a" and "js_wf v"
  shows "\<exists>d. isApprovalRequestV1 v \<and> decision_options_ok options
    \<and> parseCanonicalUtcTimestamp (as_str (fld options ''decided_at'')) = Some d
    \<and> request_window v d \<and> decide_bound_request rt v options = Inr a"
proof -
  have fails: "ae_failure c b m \<noteq> Inr a" for c b m by (simp add: ae_failure_def)
  note nf = invalid_request_failure_def decision_expired_failure_def fails fails [symmetric]
  have v: "isApprovalRequestV1 v" "decision_options_ok options"
    using assms(1) by (auto simp: decideApprovalRequestV1_def nf split: if_splits)
  then obtain d where d: "parseCanonicalUtcTimestamp (as_str (fld options ''decided_at'')) = Some d"
    by (auto simp: decision_options_ok_def text_ok_iff real_instant_text_def)
  from decide_request_eq [OF v(1) assms(2) v(2) d, of rt] assms(1) v d show ?thesis
    by (auto simp: nf split: if_splits)
qed

section \<open>Patterns\<close>

lemma rx_prefixed_iff:
  "rx_prefixed p most s \<longleftrightarrow> (\<exists>v. code_points s = map of_char p @ v \<and> 1 \<le> length v \<and> length v \<le> most
     \<and> list_all (in_class True (cc_space @ cc_control)) v)"
  by (auto simp: rx_prefixed_def rx_test_u_def rx_match_lit_seq rx_ref_tail_def rx_match_rep_class at_most_def)

lemma no_early_separator:
  assumes "u @ [c] @ v = p @ [c] @ w" and "c \<notin> set u" and "c \<notin> set p"
  shows "u = p \<and> v = w"
  using split_at_separator [of u "[c] @ v" p "[c] @ w" c] assms by auto

lemma scheme_ref_prefixed:
  assumes "scheme_ref p s" and "CHR '':'' \<notin> set p"
  shows "rx_prefixed (p @ '':'') 240 s"
proof -
  let ?cls = "cc_lower @ cc_digit @ cc_chars ''+.-''"
  have colon: "\<not> in_class False cc_lower 58" "\<not> in_class False ?cls 58"
    by (simp_all add: in_class_def)
  have start: "take (length p + 1) s = js (p @ '':'')"
    using assms(1) by (simp add: scheme_ref_def js_startsWith_def js_append)
  have ref: "referencePattern s" using assms(1) by (simp add: scheme_ref_def bounded_string_def)
  then obtain c u v where cp: "code_points s = (c # u) @ [58] @ v"
    and c: "in_class False cc_lower c" and u: "list_all (in_class False ?cls) u"
    and v: "rx_match (rx_ref_tail 240) v"
    unfolding referencePattern_def rx_test_u_def rx_match_class_seq rx_match_seq [of "RRep _ _ _"]
      rx_match_lit_seq rx_match_rep_class by auto
  have "s = js (p @ '':'') @ drop (length p + 1) s" using start by (metis append_take_drop_id)
  then have "code_points s = map of_char (p @ '':'') @ code_points (drop (length p + 1) s)"
    by (metis code_points_append_js)
  then have "(c # u) @ [58] @ v = map of_char p @ [58] @ code_points (drop (length p + 1) s)"
    using cp by simp
  moreover have "58 \<notin> set (c # u)" using c u colon by (auto simp: list_all_iff)
  moreover have "58 \<notin> set (map of_char p :: nat list)"
  proof
    assume "58 \<in> set (map of_char p :: nat list)"
    then obtain d where "d \<in> set p" "of_char d = (of_char CHR '':'' :: nat)" by auto
    then show False using assms(2) by (simp only: of_char_eq_iff)
  qed
  ultimately have "c # u = map of_char p" by (blast dest: no_early_separator)
  then show ?thesis using cp v
    by (auto simp: rx_prefixed_iff rx_ref_tail_def rx_match_rep_class at_most_def)
qed

lemma code_points_plain: "\<forall>u \<in> set s. unat u < 0xD800 \<Longrightarrow> code_points s = map unat s"
  by (induction s rule: code_points.induct) (auto simp: is_high_surrogate_def word_le_nat_alt)

lemma hex64_bytes:
  assumes d: "length d = 32"
  shows "rx_hex64 p (js p @ bytesToHex d)"
proof -
  have digit: "in_class False [(48, 57), (97, 102)] (unat (hex_digit n :: code_unit))" if "n < 16" for n
    using that by (auto simp: unat_hex_digit in_class_def)
  have "unat (b :: byte) div 16 < 16" for b
    using unsigned_less [of b, where 'a = nat] by (intro less_mult_imp_div_less) simp
  then have "list_all (in_class False (cc_digit @ [(97, 102)])) (map unat (bytesToHex d))"
    unfolding bytesToHex_def by (auto simp: list_all_iff intro!: digit)
  moreover have "length (bytesToHex bs) = 2 * length bs" for bs by (induction bs) (auto simp: bytesToHex_def)
  then have "length (bytesToHex d) = 64" using d by simp
  moreover have "code_points (bytesToHex d) = map unat (bytesToHex d)"
    by (rule code_points_plain) (use bytesToHex_plain in fastforce)
  ultimately show ?thesis
    by (simp add: rx_hex64_def rx_test_u_def rx_match_lit_seq rx_match_rep_class at_most_def)
qed

lemma hex64:
  assumes "sha256_available rt" and "sha256_hex rt s = Some hex"
  shows "rx_hex64 p (js p @ hex)"
  using sha256_availableD [OF assms(1), of s] assms(2) hex64_bytes by auto

end
