(* ===== verification/Approval_Policy.thy ===== *)
theory Approval_Policy
  imports Approval_Evidence
begin

text \<open>
  How the approval component continues the policy component: every decision object the policy
  produces satisfies the validator of the approval component (\<open>policy_object_valid\<close>), and every
  request the approval component creates satisfies its own request validator
  (\<open>created_request_valid\<close>).
\<close>

section \<open>Decisions of the policy are valid\<close>

lemma fld_obj: "js_get (obj fs) (js k) = (case map_of fs k of Some v \<Rightarrow> v | None \<Rightarrow> JUndef)"
proof -
  have "map_of (map (\<lambda>(k, v). (js k, v)) fs) (js k) = map_of fs k"
    by (induction fs) auto
  then show ?thesis by (simp add: obj_def)
qed

lemma obj_plain [simp]: "js_isPlainObject (obj fs)"
  by (simp add: obj_def)

lemma obj_exact_keys: "mset (map fst fs) = mset ks \<Longrightarrow> hasExactKeys (obj fs) (map js ks)"
proof -
  assume "mset (map fst fs) = mset ks"
  then have "mset (map (js \<circ> fst) fs) = mset (map js ks)" by (metis list.map_comp mset_map)
  moreover have "js_keys (obj fs) = map (js \<circ> fst) fs" by (simp add: obj_def case_prod_unfold)
  ultimately show ?thesis unfolding hasExactKeys_def by (metis mset_sort sorted_list_of_multiset_mset)
qed

lemma reasons_in_order_sorted:
  "sorted_wrt (\<lambda>x y. js_indexOf policyReasonOrder x < js_indexOf policyReasonOrder y) rs \<Longrightarrow> reasons_in_order rs"
  by (induction rs rule: reasons_in_order.induct) auto

lemma record_reasons_in_order: "reasons_in_order (map policy_reason_text (record_reasons r))"
proof -
  have "sorted_wrt (\<lambda>a b. js_indexOf policyReasonOrder (policy_reason_text a)
      < js_indexOf policyReasonOrder (policy_reason_text b)) reasonOrder"
    by (simp add: reasonOrder_def policyReasonOrder_def)
  then show ?thesis unfolding record_reasons_def
    by (intro reasons_in_order_sorted) (auto simp: sorted_wrt_map intro: sorted_wrt_filter)
qed

lemma policy_reason_text_inject [simp]: "policy_reason_text a = policy_reason_text b \<longleftrightarrow> a = b"
  by (cases a; cases b) simp_all

lemma policy_kind_text_inject [simp]: "policy_kind_text a = policy_kind_text b \<longleftrightarrow> a = b"
  by (cases a; cases b) simp_all

lemma record_reasons_distinct: "distinct (record_reasons r)"
  unfolding record_reasons_def Let_def by (rule distinct_filter) (simp add: reasonOrder_def)

lemma capability_object_valid:
  assumes "length c \<le> 128" and "permissionPattern c"
  shows "isApprovalCapabilityDecision (capability_decision_object (classifyCapability c b))"
proof -
  let ?d = "classifyCapability c b"
  have keys: "hasExactKeys (capability_decision_object ?d) (map js [''capability'', ''decision'', ''reason_code''])"
    unfolding capability_decision_object_def by (rule obj_exact_keys) simp
  show ?thesis using assms keys
    unfolding isApprovalCapabilityDecision_def
    by (simp add: capability_decision_object_def fld_obj text_ok_def classifyCapability_def
        capabilityReasonCodes_def jtext_def)
qed

lemma decision_object_fields:
  "fld (policy_decision_object d) ''decision'' = JStr (policy_kind_text (pd_decision d))"
  "fld (policy_decision_object d) ''requires_approval'' = JBool (pd_requires_approval d)"
  "fld (policy_decision_object d) ''evaluated_at'' = JStr (pd_evaluated_at d)"
  "fld (policy_decision_object d) ''expires_at'' = JStr (pd_expires_at d)"
  "fld (policy_decision_object d) ''schema_id'' = JStr policy_schema_id"
  "fld (policy_decision_object d) ''decision_id'' = JStr (pd_decision_id d)"
  "fld (policy_decision_object d) ''actor_ref'' = JStr (pd_actor_ref d)"
  "fld (policy_decision_object d) ''risk_level'' = JNum (NInt (pd_risk_level d))"
  "fld (policy_decision_object d) ''policy_profile_ref'' = JStr (pd_policy_profile_ref d)"
  "fld (fld (policy_decision_object d) ''packet_ref'') ''packet_hash'' = JStr (pd_packet_hash d)"
  "fld (policy_decision_object d) ''capability_decisions''
     = JArr (map capability_decision_object (pd_capability_decisions d))"
  "fld (policy_decision_object d) ''reason_codes''
     = JArr (map JStr (map policy_reason_text (pd_reason_codes d)))"
  by (simp_all add: policy_decision_object_def fld_obj comp_def)

lemma capability_object_fields:
  "fld (capability_decision_object c) ''capability'' = JStr (cd_capability c)"
  "fld (capability_decision_object c) ''decision'' = JStr (policy_kind_text (cd_decision c))"
  "fld (capability_decision_object c) ''reason_code''
     = (case cd_reason_code c of None \<Rightarrow> JNull | Some r \<Rightarrow> JStr (policy_reason_text r))"
  by (simp_all add: capability_decision_object_def fld_obj)

lemma kind_text_literals:
  "JStr (policy_kind_text k) = jtext ''allow'' \<longleftrightarrow> k = Allow"
  "JStr (policy_kind_text k) = jtext ''deny'' \<longleftrightarrow> k = Deny"
  "JStr (policy_kind_text k) = jtext ''approval_required'' \<longleftrightarrow> k = ApprovalRequired"
  by (cases k; simp add: jtext_def)+

lemma reason_text_sets:
  "policy_reason_text a \<in> set denialPolicyReasons \<longleftrightarrow>
     a \<in> {ProfileUnsupported, NoCapabilityRequested, CapabilityForbidden, CapabilityUnknown}"
  "policy_reason_text a \<in> set approvalPolicyReasons \<longleftrightarrow>
     a \<in> {PacketRequiresApproval, RiskRequiresApproval, CapabilityRequiresApproval}"
  "policy_reason_text a \<in> set policyReasonCodes"
  by (cases a; simp add: denialPolicyReasons_def approvalPolicyReasons_def policyReasonCodes_def
      policyReasonOrder_def)+

lemma reason_text_mem:
  "js ''policy.risk_requires_approval'' \<in> policy_reason_text ` A \<longleftrightarrow> RiskRequiresApproval \<in> A"
  "js ''policy.capability_requires_approval'' \<in> policy_reason_text ` A \<longleftrightarrow> CapabilityRequiresApproval \<in> A"
  using policy_reason_text_inject policy_reason_text.simps(6,7) by (metis image_iff)+

lemma semantics_consistent:
  assumes "policy_outcome r = ApprovalRequired"
  shows "isApprovalPolicySemanticsConsistent (policy_decision_object (policy_decision_of r h i t))"
proof -
  have p: "supported_profile r" and g: "\<forall>c \<in> set (pe_allow r). grantable c"
    using assms by (auto simp: policy_outcome_def list_all_iff split: if_splits)
  have classify: "classifyCapability c True = (if c \<in> set allowedCapabilities
      then \<lparr>cd_capability = c, cd_decision = Allow, cd_reason_code = None\<rparr>
      else \<lparr>cd_capability = c, cd_decision = ApprovalRequired, cd_reason_code = Some CapabilityRequiresApproval\<rparr>)"
    if "c \<in> set (pe_allow r)" for c
    using g that capability_lists_disjoint [of c] by (auto simp: classifyCapability_def grantable_def)
  have risk: "RiskRequiresApproval \<in> set (record_reasons r) \<longleftrightarrow> 5 \<le> pe_risk_level r"
    unfolding set_record_reasons by simp
  have cap: "CapabilityRequiresApproval \<in> set (record_reasons r)
      \<longleftrightarrow> (\<exists>c \<in> set (pe_allow r). c \<in> set approvalRequiredCapabilities)"
    unfolding set_record_reasons using p by simp
  show ?thesis
    unfolding isApprovalPolicySemanticsConsistent_def Let_def decision_object_fields as_list.simps
      map_map as_str.simps comp_def list.set_map
    using p g record_reasons_in_order [of r]
    by (auto simp: policy_decision_of_def supported_profile_def list_all_iff list_ex_iff capability_object_fields
        kind_text_literals classify risk_at_least_def approval_risk_threshold_def reason_text_mem risk cap
        grantable_def jtext_def dest: capability_lists_disjoint)
qed

lemma decision_consistent:
  "isPolicyDecisionConsistent (policy_decision_object (policy_decision_of r h i t))"
proof -
  let ?d = "policy_decision_of r h i t"
  have dec: "pd_decision ?d = policy_outcome r" "pd_requires_approval ?d = (policy_outcome r = ApprovalRequired)"
    by (simp_all add: policy_decision_of_def selectDecision_record_reasons)
  have reasons: "pd_reason_codes ?d = record_reasons r" by (simp add: policy_decision_of_def)
  have caps: "pd_capability_decisions ?d = map (\<lambda>c. classifyCapability c (supported_profile r)) (pe_allow r)"
    by (simp add: policy_decision_of_def)
  have deny: "list_ex (\<lambda>reason. reason \<in> set denialPolicyReasons) (map policy_reason_text (record_reasons r))
      \<longleftrightarrow> policy_outcome r = Deny"
  proof -
    have "list_ex (\<lambda>reason. reason \<in> set denialPolicyReasons) (map policy_reason_text (record_reasons r))
        \<longleftrightarrow> list_ex (\<lambda>reason. reason \<in> set [ProfileUnsupported, NoCapabilityRequested,
           CapabilityForbidden, CapabilityUnknown]) (record_reasons r)"
      by (auto simp: list_ex_iff reason_text_sets)
    also have "\<dots> \<longleftrightarrow> selectDecision (record_reasons r) = Deny" by (simp add: selectDecision_def)
    finally show ?thesis by (simp add: selectDecision_record_reasons)
  qed
  have none: "policy_outcome r = Allow \<Longrightarrow> record_reasons r = []"
    using selectDecision_record_reasons [of r] by (auto simp: selectDecision_def split: if_splits)
  have some: "policy_outcome r = ApprovalRequired \<Longrightarrow>
      list_ex (\<lambda>reason. reason \<in> set approvalPolicyReasons) (map policy_reason_text (record_reasons r))"
  proof -
    assume a: "policy_outcome r = ApprovalRequired"
    then have "record_reasons r \<noteq> []" using selectDecision_record_reasons [of r]
      by (cases "record_reasons r") (simp_all add: selectDecision_def)
    then have x: "hd (record_reasons r) \<in> set (record_reasons r)" (is "?x \<in> _") by (rule list.set_sel(1))
    have "policy_reason_text ?x \<notin> set denialPolicyReasons" using deny a x by (auto simp: list_ex_iff)
    then have "policy_reason_text ?x \<in> set approvalPolicyReasons"
      by (cases ?x) (simp_all add: reason_text_sets del: policy_reason_text.simps)
    then show ?thesis using x by (auto simp: list_ex_iff)
  qed
  have all: "cd_decision (classifyCapability c (supported_profile r)) = Allow"
    if "policy_outcome r = Allow" "c \<in> set (pe_allow r)" for c
    using that capability_lists_disjoint [of c]
    by (auto simp: policy_outcome_def classifyCapability_def grantable_def list_all_iff list_ex_iff split: if_splits)
  have nodeny: "cd_decision (classifyCapability c (supported_profile r)) \<noteq> Deny"
    if "policy_outcome r = ApprovalRequired" "c \<in> set (pe_allow r)" for c
    using that capability_lists_disjoint [of c]
    by (auto simp: policy_outcome_def classifyCapability_def grantable_def list_all_iff split: if_splits)
  have ne: "policy_outcome r \<noteq> Deny \<Longrightarrow> pe_allow r \<noteq> []" by (auto simp: policy_outcome_def)
  show ?thesis
    unfolding isPolicyDecisionConsistent_def Let_def decision_object_fields as_list.simps map_as_str
      kind_text_literals dec reasons deny
    using none some all nodeny ne semantics_consistent [of r h i t]
    by (cases "policy_outcome r")
      (auto simp: caps list_all_iff capability_object_fields kind_text_literals jtext_def [symmetric])
qed

lemma policy_object_keys: "hasExactKeys (policy_decision_object d) policyDecisionKeys"
  unfolding policy_decision_object_def policyDecisionKeys_def by (rule obj_exact_keys) simp

lemma decision_packet_ref:
  "fld (policy_decision_object d) ''packet_ref'' = obj [(''packet_id'', JStr (pd_packet_id d)),
     (''schema_id'', JStr (pd_packet_schema_id d)), (''packet_hash'', JStr (pd_packet_hash d)),
     (''idempotency_key'', JStr (pd_idempotency_key d))]"
  by (simp add: policy_decision_object_def fld_obj)

lemma policy_packet_ref:
  assumes "packet_rules r" and "rx_hex64 ''sha256:'' h"
  shows "isPolicyDecisionPacketRef (fld (policy_decision_object (policy_decision_of r h i t)) ''packet_ref'')"
  unfolding isPolicyDecisionPacketRef_def decision_packet_ref
  using assms obj_exact_keys [of "[(''packet_id'', JStr (pe_packet_id r)), (''schema_id'', JStr packet_schema_id),
      (''packet_hash'', JStr h), (''idempotency_key'', JStr (pe_idempotency_key r))]"
      "[''packet_id'', ''schema_id'', ''packet_hash'', ''idempotency_key'']"]
  by (simp add: fld_obj policy_decision_of_def text_ok_def packet_rules_def bounded_string_def
      packet_schema_id_def packetHashPattern_def)

lemma policy_object_valid:
  assumes "packet_rules r" and "rx_hex64 ''sha256:'' h" and "rx_hex64 ''pol_'' i"
    and "parseCanonicalUtcTimestamp t = Some e"
  shows "isPolicyDecisionV1 (policy_decision_object (policy_decision_of r h i t))"
proof -
  let ?d = "policy_decision_of r h i t"
  let ?v = "policy_decision_object ?d"
  have fields: "fld ?v ''contract_version'' = jtext ''lnsat.contracts.v1_0''"
    "fld ?v ''session_ref'' = JStr (pe_session_ref r)" "fld ?v ''project_ref'' = JStr (pe_project_ref r)"
    "fld ?v ''resource_refs'' = JArr (map JStr (pe_resource_refs r))" "fld ?v ''side_effects'' = JArr []"
    by (simp_all add: policy_decision_object_def fld_obj policy_decision_of_def jtext_def policy_contract_version_def)
  have refs: "identityRefPattern (pe_actor_ref r)" "sessionRefPattern (pe_session_ref r)"
    "projectRefPattern (pe_project_ref r)"
    using assms(1) scheme_ref_prefixed [of "''identity''"] scheme_ref_prefixed [of "''session''"]
      scheme_ref_prefixed [of "''project''"]
    by (simp_all add: packet_rules_def identityRefPattern_def sessionRefPattern_def projectRefPattern_def)
  have prof: "js_startsWith (pe_policy_profile_ref r) (js ''policy:'')"
    using assms(1) js_append [of "''policy''" "'':''"] by (simp add: packet_rules_def scheme_ref_def)
  have sorted: "sorted_wrt (<) (pe_resource_refs r)" "sorted_wrt (<) (pe_allow r)"
    "list_all (\<lambda>s. length s \<le> 256 \<and> referencePattern s) (pe_resource_refs r)"
    "\<And>c. c \<in> set (pe_allow r) \<Longrightarrow> length c \<le> 128 \<and> permissionPattern c"
    using assms(1) by (auto simp: packet_rules_def string_set_def bounded_string_def list_all_iff)
  have caps: "list_all isApprovalCapabilityDecision (map capability_decision_object (pd_capability_decisions ?d))"
    "isSortedUnique (map (\<lambda>item. as_str (fld item ''capability''))
       (map capability_decision_object (pd_capability_decisions ?d)))"
    using sorted capability_object_valid
    by (auto simp: list_all_iff policy_decision_of_def comp_def capability_object_fields isSortedUnique_iff)
  have reasons: "list_all (text_ok (\<lambda>s. s \<in> set policyReasonCodes))
      (map JStr (map policy_reason_text (pd_reason_codes ?d)))"
    "isUnique (map JStr (map policy_reason_text (pd_reason_codes ?d)))"
    using record_reasons_distinct
    by (auto simp: list_all_iff text_ok_def reason_text_sets isUnique_iff distinct_map policy_decision_of_def
        inj_on_def)
  have times: "real_instant_text t" "real_instant_text (pe_expires_at r)"
    using assms(1,4) by (auto simp: real_instant_text_def packet_rules_def real_timestamp_def)
  have risk: "0 \<le> pe_risk_level r" "pe_risk_level r \<le> 8" using assms(1) by (simp_all add: packet_rules_def)
  have kind: "JStr (policy_kind_text k) \<in> set (map jtext [''allow'', ''deny'', ''approval_required''])" for k
    by (cases k) (simp_all add: jtext_def)
  have d: "pd_decision_id ?d = i" "pd_actor_ref ?d = pe_actor_ref r" "pd_evaluated_at ?d = t"
    "pd_policy_profile_ref ?d = pe_policy_profile_ref r" "pd_risk_level ?d = pe_risk_level r"
    "pd_expires_at ?d = pe_expires_at r"
    by (simp_all add: policy_decision_of_def)
  have plain: "js_isPlainObject ?v" by (simp add: policy_decision_object_def)
  show ?thesis
    unfolding isPolicyDecisionV1_def decision_object_fields fields jsval.case isSortedUniqueRefs_iff isEmptyArray_iff
    using plain policy_object_keys [of ?d] policy_packet_ref [OF assms(1,2), of i t]
      decision_consistent [of r h i t] caps reasons kind sorted(1,3)
    by (simp add: text_ok_def policy_schema_id_def jtext_def decisionIdPattern_def d refs prof times
        risk assms(3) risk_integer_ok_def not_less del: list.map)
qed

section \<open>Created requests are valid\<close>

definition created_request :: "jsval \<Rightarrow> jstr \<Rightarrow> jstr \<Rightarrow> jsval" where
  "created_request v t i = obj (approval_request_body v t @ [(''approval_request_id'', JStr i)])"

lemma created_request_fields:
  "fld (created_request v t i) ''contract_version'' = jtext ''lnsat.contracts.v1_0''"
  "fld (created_request v t i) ''schema_id'' = JStr approval_request_schema_id"
  "fld (created_request v t i) ''status'' = jtext ''requested''"
  "fld (created_request v t i) ''approval_request_id'' = JStr i"
  "fld (created_request v t i) ''policy_decision_ref'' = obj
         [(''schema_id'', fld v ''schema_id''),
          (''decision_id'', fld v ''decision_id''),
          (''packet_hash'', fld (fld v ''packet_ref'') ''packet_hash'')]"
  "fld (created_request v t i) ''requester_ref'' = fld v ''actor_ref''"
  "fld (created_request v t i) ''session_ref'' = fld v ''session_ref''"
  "fld (created_request v t i) ''project_ref'' = fld v ''project_ref''"
  "fld (created_request v t i) ''resource_refs'' = JArr (as_list (fld v ''resource_refs''))"
  "fld (created_request v t i) ''requested_capabilities'' = JArr (map (\<lambda>item. fld item ''capability'')
     (as_list (fld v ''capability_decisions'')))"
  "fld (created_request v t i) ''policy_reason_codes'' = JArr (as_list (fld v ''reason_codes''))"
  "fld (created_request v t i) ''requested_at'' = JStr t"
  "fld (created_request v t i) ''expires_at'' = fld v ''expires_at''"
  "fld (created_request v t i) ''side_effects'' = JArr []"
  by (simp_all add: created_request_def approval_request_body_def fld_obj approval_contract_version_def jtext_def)

lemma created_request_keys: "hasExactKeys (created_request v t i) approvalRequestKeys"
  unfolding created_request_def approvalRequestKeys_def
  by (rule obj_exact_keys) (simp add: approval_request_body_def)

lemma created_request_body:
  "approvalRequestBody (created_request v t i) = obj (approval_request_body v t)"
  by (simp add: approvalRequestBody_def created_request_def obj_def approval_request_body_def)

lemma created_request_valid:
  assumes "approval_needed v" and "requestIdPattern i" and "parseCanonicalUtcTimestamp t = Some q"
  shows "isApprovalRequestV1 (created_request v t i)"
proof -
  have v: "isPolicyDecisionV1 v" "fld v ''decision'' = jtext ''approval_required''"
    using assms(1) by (simp_all add: approval_needed_def)
  then have consistent: "isPolicyDecisionConsistent v" by (simp add: isPolicyDecisionV1_def)
  obtain reasons where reasons: "fld v ''reason_codes'' = JArr (map JStr reasons)"
    "list_all (\<lambda>s. s \<in> set policyReasonCodes) reasons" "isUnique (map JStr reasons)"
    using v(1) by (cases "fld v ''reason_codes''") (auto simp: isPolicyDecisionV1_def texts_iff)
  obtain items where items: "fld v ''capability_decisions'' = JArr items"
    "list_all isApprovalCapabilityDecision items"
    "isSortedUnique (map (\<lambda>item. as_str (fld item ''capability'')) items)"
    using v(1) by (cases "fld v ''capability_decisions''") (auto simp: isPolicyDecisionV1_def)
  have c: "\<not> list_ex (\<lambda>s. s \<in> set denialPolicyReasons) reasons"
    "list_ex (\<lambda>s. s \<in> set approvalPolicyReasons) reasons" "items \<noteq> []"
    using consistent v(2) by (auto simp: isPolicyDecisionConsistent_def reasons items jtext_def Let_def)
  have split: "set policyReasonCodes = set denialPolicyReasons \<union> set approvalPolicyReasons"
    by (simp add: policyReasonCodes_def policyReasonOrder_def denialPolicyReasons_def
        approvalPolicyReasons_def insert_commute)
  have reasons_ok: "reasons \<noteq> []" "list_all (text_ok (\<lambda>s. s \<in> set approvalPolicyReasons)) (map JStr reasons)"
    using c reasons(2) by (auto simp: list_all_iff list_ex_iff split text_ok_def)
  have item: "\<exists>s. fld x ''capability'' = JStr s \<and> length s \<le> 128 \<and> permissionPattern s"
    if "x \<in> set items" for x
    using items(2) that by (auto simp: list_all_iff isApprovalCapabilityDecision_def text_ok_iff)
  have "isSortedUniqueCapabilities (JArr (map (\<lambda>item. fld item ''capability'') items))"
    using c(3) items(3) item by (fastforce simp: isSortedUniqueCapabilities_def list_all_iff comp_def text_ok_iff)
  moreover have "isApprovalPolicyDecisionRef (obj [(''schema_id'', fld v ''schema_id''),
      (''decision_id'', fld v ''decision_id''), (''packet_hash'', fld (fld v ''packet_ref'') ''packet_hash'')])"
    unfolding isApprovalPolicyDecisionRef_def
    using v(1) obj_exact_keys [of "[(''schema_id'', fld v ''schema_id''),
      (''decision_id'', fld v ''decision_id''), (''packet_hash'', fld (fld v ''packet_ref'') ''packet_hash'')]"
        "[''schema_id'', ''decision_id'', ''packet_hash'']"]
    by (simp add: fld_obj isPolicyDecisionV1_def isPolicyDecisionPacketRef_def)
  moreover have "JArr (as_list (fld v ''resource_refs'')) = fld v ''resource_refs''"
    using v(1) by (auto simp: isPolicyDecisionV1_def isSortedUniqueRefs_iff)
  ultimately show ?thesis
    unfolding isApprovalRequestV1_def created_request_fields
    using v(1) assms(2,3) reasons reasons_ok created_request_keys [of v t i]
    by (simp add: isPolicyDecisionV1_def items isEmptyArray_iff created_request_def
        approval_request_schema_id_def jtext_def text_ok_def real_instant_text_def)
qed

lemma created_request_wf:
  assumes "js_wf v"
  shows "js_wf (created_request v t i)"
proof -
  note wf = js_wf_get [OF assms]
  have arr: "list_all js_wf (as_list x)" if "js_wf x" for x using that by (cases x) simp_all
  have "js_wf (js_get x k)" if "x \<in> set (as_list (fld v ''capability_decisions''))" for x k
    using arr [OF wf] that by (auto simp: list_all_iff intro: js_wf_get)
  then show ?thesis
    using wf arr [OF wf] js_wf_get [OF wf]
    by (simp add: created_request_def approval_request_body_def obj_def jtext_def list_all_iff del: js_get.simps)
qed

end
