(* ===== verification/Execution_Request.thy ===== *)
theory Execution_Request
  imports Approval_Policy
begin

text \<open>
  Execution requests, \<open>packages/packets/src/execution-request-v1.ts\<close>: the proposal embedded in an
  approved packet, and the canonical request that binds it to the packet hash and to the decision,
  request and approval ids of the chain.

  The packet is a JavaScript value; the other inputs are typed texts. A thrown
  \<open>ExecutionRequestV1Error\<close> is \<open>Inl\<close> its code. Timestamps are read by
  \<open>canonicalUtcTimestampMillisV1\<close> (in \<open>Utc_Time\<close>).
\<close>

section \<open>Data\<close>

datatype execution_request_error_code =
    ER_invalid_packet | ER_proposal_missing | ER_proposal_invalid | ER_chain_invalid | ER_time_invalid
  | ER_canonicalization_failed

record execution_proposal_v1 =
  xp_kind :: jstr
  xp_arguments :: jsval
  xp_resource_ref :: jstr
  xp_identity :: jsval
  xp_configuration_digest :: jstr
  xp_adapter_ref :: jstr
  xp_adapter_version :: jstr
  xp_executable_digest :: jstr
  xp_audience :: jstr

record execution_request_input =
  xi_packet :: jsval
  xi_packet_sha256 :: jstr
  xi_policy_decision_id :: jstr
  xi_approval_request_id :: jstr
  xi_approval_decision_id :: jstr
  xi_requester_ref :: jstr
  xi_requester_session_ref :: jstr
  xi_approver_ref :: jstr
  xi_approver_session_ref :: jstr
  xi_prepared_at :: jstr
  xi_expires_at :: jstr

record derived_execution_request =
  xd_request :: jsval
  xd_canonical_request :: jstr
  xd_request_digest :: jstr
  xd_action_digest :: jstr
  xd_target_digest :: jstr
  xd_configuration_digest :: jstr
  xd_executable_digest :: jstr

section \<open>Checks\<close>

fun er_isWellFormedUnicode :: "jstr \<Rightarrow> bool" where
  "er_isWellFormedUnicode [] = True"
| "er_isWellFormedUnicode [unit] = (\<not> is_high_surrogate unit \<and> \<not> is_low_surrogate unit)"
| "er_isWellFormedUnicode (unit # after # rest) =
     (if is_high_surrogate unit then (if \<not> is_low_surrogate after then False else er_isWellFormedUnicode rest)
      else if is_low_surrogate unit then False
      else er_isWellFormedUnicode (after # rest))"

definition asObject :: "jsval \<Rightarrow> jsval option" where
  "asObject value = (if js_isPlainObject value then Some value else None)"

definition er_hasExactKeys :: "jsval \<Rightarrow> string list \<Rightarrow> bool" where
  "er_hasExactKeys value expected \<longleftrightarrow>
     length (js_keys value) = length expected \<and> list_all (\<lambda>key. js_has value (js key)) expected"

fun isBoundedString :: "jsval \<Rightarrow> nat \<Rightarrow> bool" where
  "isBoundedString (JStr value) maximumUtf16Length \<longleftrightarrow>
     length value > 0 \<and> length value \<le> maximumUtf16Length \<and> er_isWellFormedUnicode value
     \<and> \<not> some_in_class cc_Cc (code_points value)"
| "isBoundedString _ maximumUtf16Length \<longleftrightarrow> False"

fun isLowercaseSha256 :: "jsval \<Rightarrow> bool" where
  "isLowercaseSha256 (JStr value) \<longleftrightarrow> rx_hex64 ''sha256:'' value"
| "isLowercaseSha256 _ \<longleftrightarrow> False"

fun isAdapterVersion :: "jsval \<Rightarrow> bool" where
  "isAdapterVersion (JStr value) \<longleftrightarrow> length value \<le> 128
     \<and> rx_test_u (RSeq (RCls False (cc_upper @ cc_lower @ cc_digit))
         (rx_opt (RSeq (rx_star (rx_cls (cc_upper @ cc_lower @ cc_digit @ cc_chars ''._-'')))
            (RCls False (cc_upper @ cc_lower @ cc_digit))))) value"
| "isAdapterVersion _ \<longleftrightarrow> False"

text \<open>\<open>value.indexOf(":")\<close>, \<open>None\<close> being -1.\<close>

fun index_of_unit :: "code_unit \<Rightarrow> jstr \<Rightarrow> nat option" where
  "index_of_unit c [] = None"
| "index_of_unit c (u # us) = (if u = c then Some 0 else map_option Suc (index_of_unit c us))"

definition isValidReferenceV1 :: "jstr \<Rightarrow> bool" where
  "isValidReferenceV1 value =
     (case index_of_unit 58 value of
        None \<Rightarrow> False
      | Some separator \<Rightarrow>
          if separator = 0 \<or> length value > 256 \<or> \<not> er_isWellFormedUnicode value then False
          else (let scheme = take separator value; remainder = drop (separator + 1) value in
            rx_test_u (RSeq (RCls False cc_lower)
              (rx_star (rx_cls (cc_lower @ cc_digit @ cc_chars ''+.-'')))) scheme
            \<and> length remainder > 0
            \<and> length (code_points remainder) \<le> 240
            \<and> \<not> some_in_class cc_White_Space (code_points remainder)
            \<and> \<not> some_in_class cc_control (code_points remainder)))"

fun isCanonicalJsonValue :: "jsval \<Rightarrow> bool" where
  "isCanonicalJsonValue JNull = True"
| "isCanonicalJsonValue (JBool b) = True"
| "isCanonicalJsonValue (JStr s) = er_isWellFormedUnicode s"
| "isCanonicalJsonValue (JNum n) = (num_isSafeInteger n \<and> n \<noteq> NNegZero)"
| "isCanonicalJsonValue (JArr vs) = list_all isCanonicalJsonValue vs"
| "isCanonicalJsonValue (JObj plain fs) =
     (plain \<and> list_all (\<lambda>(key, item). er_isWellFormedUnicode key \<and> isCanonicalJsonValue item) fs)"
| "isCanonicalJsonValue JUndef = False"
| "isCanonicalJsonValue JOther = False"

fun isCanonicalJsonObject :: "jsval \<Rightarrow> bool" where
  "isCanonicalJsonObject (JObj plain fs) =
     list_all (\<lambda>(key, item). er_isWellFormedUnicode key \<and> isCanonicalJsonValue item) fs"
| "isCanonicalJsonObject _ = True"

definition cloneCanonicalObject :: "('a js_runtime_scheme) \<Rightarrow> jsval \<Rightarrow> jsval option" where
  "cloneCanonicalObject rt value =
     (case canonicalizeJsonValue value of Inl e \<Rightarrow> None | Inr canonical \<Rightarrow> js_JSON_parse rt canonical)"

section \<open>The proposal\<close>

definition proposalKeys :: "string list" where
  "proposalKeys = [''schema_id'', ''derivation_profile'', ''action'', ''target'', ''configuration_digest'',
     ''adapter'', ''executable_digest'', ''audience'']"

definition proposal_schema_id :: string where
  "proposal_schema_id = ''lnsat.execution_proposal.schema.v1_0''"

definition derivation_profile :: string where
  "derivation_profile = ''lnsat.execution_request.packet_embedded.v1''"

definition proposal_header_ok :: "jsval \<Rightarrow> bool" where
  "proposal_header_ok proposal \<longleftrightarrow>
     asObject proposal \<noteq> None \<and> er_hasExactKeys proposal proposalKeys
     \<and> fld proposal ''schema_id'' = jtext proposal_schema_id
     \<and> fld proposal ''derivation_profile'' = jtext derivation_profile"

definition action_ok :: "jsval \<Rightarrow> bool" where
  "action_ok action \<longleftrightarrow> asObject action \<noteq> None \<and> er_hasExactKeys action [''kind'', ''arguments'']
     \<and> isBoundedString (fld action ''kind'') 256"

definition target_ok :: "jsval \<Rightarrow> jsval \<Rightarrow> bool" where
  "target_ok packet target \<longleftrightarrow> asObject target \<noteq> None \<and> er_hasExactKeys target [''resource_ref'', ''identity'']
     \<and> js_isString (fld target ''resource_ref'') \<and> isValidReferenceV1 (as_str (fld target ''resource_ref''))
     \<and> fld target ''resource_ref'' \<in> set (as_list (fld packet ''resource_refs''))"

definition adapter_ok :: "jsval \<Rightarrow> bool" where
  "adapter_ok adapter \<longleftrightarrow> asObject adapter \<noteq> None \<and> er_hasExactKeys adapter [''ref'', ''version'']
     \<and> js_isString (fld adapter ''ref'') \<and> isValidReferenceV1 (as_str (fld adapter ''ref''))
     \<and> 64 \<notin> set (as_str (fld adapter ''ref''))
     \<and> isAdapterVersion (fld adapter ''version'')
     \<and> length (as_str (fld adapter ''ref'')) + length (as_str (fld adapter ''version'')) + 1 \<le> 256"

definition proposal_fields_ok :: "jsval \<Rightarrow> jsval \<Rightarrow> bool" where
  "proposal_fields_ok packet proposal \<longleftrightarrow>
     action_ok (fld proposal ''action'') \<and> target_ok packet (fld proposal ''target'')
     \<and> adapter_ok (fld proposal ''adapter'')
     \<and> isLowercaseSha256 (fld proposal ''configuration_digest'')
     \<and> isLowercaseSha256 (fld proposal ''executable_digest'')
     \<and> js_isString (fld proposal ''audience'') \<and> isValidReferenceV1 (as_str (fld proposal ''audience''))"

definition parseExecutionProposalV1 ::
  "('a js_runtime_scheme) \<Rightarrow> jsval \<Rightarrow> execution_request_error_code + execution_proposal_v1" where
  "parseExecutionProposalV1 rt packet =
     (if \<not> js_has (fld packet ''constraints'') (js ''execution_proposal'') then Inl ER_proposal_missing
      else (let proposal = fld (fld packet ''constraints'') ''execution_proposal'' in
        if \<not> proposal_header_ok proposal then Inl ER_proposal_invalid
        else if \<not> proposal_fields_ok packet proposal then Inl ER_proposal_invalid
        else (let action = fld proposal ''action''; target = fld proposal ''target'';
                  adapter = fld proposal ''adapter'';
                  argumentsValue = fld action ''arguments''; identity = fld target ''identity'' in
          if asObject argumentsValue = None \<or> asObject identity = None
             \<or> \<not> isCanonicalJsonObject argumentsValue \<or> \<not> isCanonicalJsonObject identity
          then Inl ER_proposal_invalid
          else (case (cloneCanonicalObject rt argumentsValue, cloneCanonicalObject rt identity) of
              (Some canonicalArguments, Some canonicalIdentity) \<Rightarrow>
                Inr \<lparr>xp_kind = as_str (fld action ''kind''), xp_arguments = canonicalArguments,
                  xp_resource_ref = as_str (fld target ''resource_ref''), xp_identity = canonicalIdentity,
                  xp_configuration_digest = as_str (fld proposal ''configuration_digest''),
                  xp_adapter_ref = as_str (fld adapter ''ref''),
                  xp_adapter_version = as_str (fld adapter ''version''),
                  xp_executable_digest = as_str (fld proposal ''executable_digest''),
                  xp_audience = as_str (fld proposal ''audience'')\<rparr>
            | _ \<Rightarrow> Inl ER_proposal_invalid))))"

section \<open>Digests\<close>

definition sha256Bytes :: "('a js_runtime_scheme) \<Rightarrow> byte list \<Rightarrow> jstr option" where
  "sha256Bytes rt bytes =
     (case rt_digest rt of
        None \<Rightarrow> None
      | Some digest \<Rightarrow> map_option (\<lambda>d. js ''sha256:'' @ bytesToHex d) (digest bytes))"

definition sha256Text :: "('a js_runtime_scheme) \<Rightarrow> jstr \<Rightarrow> jstr option" where
  "sha256Text rt text = (if \<not> rt_encoder rt then None else sha256Bytes rt (utf8_encode text))"

text \<open>Domain, a zero byte, the length as four bytes, the canonical bytes.\<close>

definition framed_bytes :: "string \<Rightarrow> byte list \<Rightarrow> byte list" where
  "framed_bytes domain canonicalBytes =
     (let n = min (length canonicalBytes) 0xffffffff in
      utf8_encode (js domain) @ [0]
      @ [of_nat (n div 2 ^ 24 mod 256), of_nat (n div 2 ^ 16 mod 256), of_nat (n div 2 ^ 8 mod 256),
         of_nat (n mod 256)]
      @ canonicalBytes)"

definition domainDigest :: "('a js_runtime_scheme) \<Rightarrow> string \<Rightarrow> jsval \<Rightarrow> jstr option" where
  "domainDigest rt domain value =
     (if \<not> rt_encoder rt then None
      else (case canonicalizeJsonValue value of
              Inl e \<Rightarrow> None
            | Inr canonical \<Rightarrow> sha256Bytes rt (framed_bytes domain (utf8_encode canonical))))"

definition ACTION_DIGEST_DOMAIN_V1 :: string where
  "ACTION_DIGEST_DOMAIN_V1 = ''lnsat.execution-request.action.v1''"

definition TARGET_DIGEST_DOMAIN_V1 :: string where
  "TARGET_DIGEST_DOMAIN_V1 = ''lnsat.execution-request.target.v1''"

section \<open>The request\<close>

definition execution_action :: "execution_proposal_v1 \<Rightarrow> jsval" where
  "execution_action p = obj [(''kind'', JStr (xp_kind p)), (''arguments'', xp_arguments p)]"

definition execution_target :: "execution_proposal_v1 \<Rightarrow> jsval" where
  "execution_target p = obj [(''resource_ref'', JStr (xp_resource_ref p)), (''identity'', xp_identity p)]"

definition execution_request :: "execution_request_input \<Rightarrow> execution_proposal_v1 \<Rightarrow> jsval" where
  "execution_request input p = obj
     [(''contract_version'', jtext ''lnsat.contracts.v1_0''),
      (''schema_id'', jtext ''lnsat.execution_request.schema.v1_0''),
      (''derivation_profile'', jtext derivation_profile),
      (''packet_ref'', obj [(''schema_id'', jtext ''lnsat.packet_envelope.schema.v1_0''),
         (''packet_id'', fld (xi_packet input) ''packet_id''),
         (''packet_sha256'', JStr (xi_packet_sha256 input))]),
      (''policy_decision_ref'', obj [(''schema_id'', jtext ''lnsat.policy_decision.schema.v1_0''),
         (''decision_id'', JStr (xi_policy_decision_id input))]),
      (''approval_request_ref'', obj [(''schema_id'', jtext ''lnsat.approval_request.schema.v1_0''),
         (''approval_request_id'', JStr (xi_approval_request_id input))]),
      (''approval_decision_ref'', obj [(''schema_id'', jtext ''lnsat.approval_decision.schema.v1_0''),
         (''approval_decision_id'', JStr (xi_approval_decision_id input))]),
      (''requester_ref'', JStr (xi_requester_ref input)),
      (''requester_session_ref'', JStr (xi_requester_session_ref input)),
      (''approver_ref'', JStr (xi_approver_ref input)),
      (''approver_session_ref'', JStr (xi_approver_session_ref input)),
      (''project_ref'', fld (xi_packet input) ''project_ref''),
      (''resource_ref'', JStr (xp_resource_ref p)),
      (''action'', execution_action p), (''target'', execution_target p),
      (''configuration_digest'', JStr (xp_configuration_digest p)),
      (''adapter'', obj [(''ref'', JStr (xp_adapter_ref p)), (''version'', JStr (xp_adapter_version p))]),
      (''executable_digest'', JStr (xp_executable_digest p)),
      (''audience'', JStr (xp_audience p)),
      (''prepared_at'', JStr (xi_prepared_at input)),
      (''expires_at'', JStr (xi_expires_at input))]"

definition chain_ok :: "jstr \<Rightarrow> execution_request_input \<Rightarrow> bool" where
  "chain_ok calculatedPacketHash input \<longleftrightarrow>
     calculatedPacketHash = xi_packet_sha256 input
     \<and> isLowercaseSha256 (JStr (xi_packet_sha256 input))
     \<and> rx_hex64 ''pol_'' (xi_policy_decision_id input)
     \<and> rx_hex64 ''apr_'' (xi_approval_request_id input)
     \<and> rx_hex64 ''apd_'' (xi_approval_decision_id input)
     \<and> isValidReferenceV1 (xi_requester_ref input)
     \<and> isValidReferenceV1 (xi_requester_session_ref input)
     \<and> isValidReferenceV1 (xi_approver_ref input)
     \<and> isValidReferenceV1 (xi_approver_session_ref input)"

definition window_valid :: "jstr \<Rightarrow> jstr \<Rightarrow> bool" where
  "window_valid prepared_at expires_at \<longleftrightarrow>
     (case (canonicalUtcTimestampMillisV1 prepared_at, canonicalUtcTimestampMillisV1 expires_at) of
        (Some preparedAt, Some expiresAt) \<Rightarrow> preparedAt < expiresAt
      | _ \<Rightarrow> False)"

definition derive_digests ::
  "('a js_runtime_scheme) \<Rightarrow> jsval \<Rightarrow> execution_proposal_v1 \<Rightarrow>
    execution_request_error_code + derived_execution_request" where
  "derive_digests rt request proposal =
     (case canonicalizeJsonValue request of
        Inl e \<Rightarrow> Inl ER_canonicalization_failed
      | Inr canonicalRequest \<Rightarrow>
          (case (sha256Text rt canonicalRequest,
                 domainDigest rt ACTION_DIGEST_DOMAIN_V1 (execution_action proposal),
                 domainDigest rt TARGET_DIGEST_DOMAIN_V1 (execution_target proposal)) of
             (Some requestDigest, Some actionDigest, Some targetDigest) \<Rightarrow>
               Inr \<lparr>xd_request = request, xd_canonical_request = canonicalRequest,
                 xd_request_digest = requestDigest, xd_action_digest = actionDigest,
                 xd_target_digest = targetDigest,
                 xd_configuration_digest = xp_configuration_digest proposal,
                 xd_executable_digest = xp_executable_digest proposal\<rparr>
           | _ \<Rightarrow> Inl ER_canonicalization_failed))"

definition deriveExecutionRequestV1 ::
  "('a js_runtime_scheme) \<Rightarrow> execution_request_input \<Rightarrow> execution_request_error_code + derived_execution_request" where
  "deriveExecutionRequestV1 rt input =
     (case hashPacketEnvelopeV1 rt (xi_packet input) of
        Inl e \<Rightarrow> Inl ER_invalid_packet
      | Inr calculatedPacketHash \<Rightarrow>
          if \<not> chain_ok calculatedPacketHash input then Inl ER_chain_invalid
          else if \<not> window_valid (xi_prepared_at input) (xi_expires_at input) then Inl ER_time_invalid
          else bind_result (parseExecutionProposalV1 rt (xi_packet input)) (\<lambda>proposal.
            derive_digests rt (execution_request input proposal) proposal))"

end
