(* ===== verification/Execution_Laws.thy ===== *)
theory Execution_Laws
  imports Execution_Request
begin

text \<open>
  Laws of the execution requests: a canonical copy is determined by its content, so equal canonical
  texts mean equal proposals and requests (\<open>canonical_copy_eq\<close>, \<open>same_request\<close>); what a derivation
  establishes (\<open>derive_facts\<close>); the framed digests determine domain and content
  (\<open>framed_bytes_inject\<close>, \<open>framed_domains_differ\<close>); and a packet read back from its canonical text
  carries the same proposal (\<open>parse_proposal_reread\<close>).
\<close>

section \<open>Objects that are JSON\<close>

definition json_value :: "jsval \<Rightarrow> bool" where
  "json_value v \<longleftrightarrow> (\<exists>j. jsonable v j \<and> json_ok j)"

lemma json_value_str [simp]: "json_value (JStr s)" "json_value (jtext t)"
  by (simp_all add: json_value_def jtext_def)

lemma json_value_obj:
  assumes "distinct (map fst fs)" and "\<forall>(k, v) \<in> set fs. json_value v"
  shows "json_value (obj fs)"
proof -
  have "list_all (\<lambda>e. \<exists>d. entry_rel jsonable e d \<and> json_ok (snd d)) (map (\<lambda>(k, v). (js k, v)) fs)"
    using assms(2) by (auto simp: list_all_iff json_value_def)
  from list_all_ex_list_all2 [OF this] obtain es where
    "list_all2 (\<lambda>e d. entry_rel jsonable e d \<and> json_ok (snd d)) (map (\<lambda>(k, v). (js k, v)) fs) es" by blast
  then have es: "list_all2 (entry_rel jsonable) (map (\<lambda>(k, v). (js k, v)) fs) es"
    and ok: "list_all (\<lambda>d. json_ok (snd d)) es"
    by (auto simp: list_all2_conv_all_nth list_all_length)
  have "map fst es = map js (map fst fs)" using entry_rel_map_of [OF es] by (simp add: comp_def case_prod_unfold)
  then have "distinct (map fst es)" using assms(1) by (simp add: distinct_map inj_on_def)
  then show ?thesis using es ok
    by (auto simp: json_value_def obj_def jsonable_object case_prod_unfold)
qed

lemma same_text_content:
  assumes "json_value v" and "json_value w" and "canonicalizeJsonValue v = Inr t" and "canonicalizeJsonValue w = Inr t"
  shows "same_content v w"
proof -
  obtain a b where a: "jsonable v a" "json_ok a" and b: "jsonable w b" "json_ok b"
    using assms(1,2) by (auto simp: json_value_def)
  then have "stringifyCanonicalJsonValue a = stringifyCanonicalJsonValue b"
    using assms(3,4) by (simp add: canonicalizeJsonValue_def jsonable_def)
  then show ?thesis using a b stringify_inject json_ok_wf by (auto simp: same_content_def)
qed

lemma same_content_text:
  assumes "same_content v w" and "canonicalizeJsonValue v = Inr s" and "canonicalizeJsonValue w = Inr t"
  shows "s = t"
  using assms by (auto simp: same_content_def canonicalizeJsonValue_def jsonable_def stringify_eq_print)

lemma same_content_str [simp]:
  "same_content (JStr s) (JStr t) \<longleftrightarrow> s = t"
  by (simp add: same_content_def)

text \<open>Objects with the same keys and the same content agree field by field.\<close>

lemma same_content_obj:
  assumes "same_content (obj fs) (obj gs)" and "distinct (map fst fs)" and "map fst gs = map fst fs"
    and "map_of fs k = Some x" and "map_of gs k = Some y"
  shows "same_content x y"
proof -
  let ?f = "map (\<lambda>(k, v). (js k, v)) fs" and ?g = "map (\<lambda>(k, v). (js k, v)) gs"
  obtain a b where a: "jsonable (JObj True ?f) a" and b: "jsonable (JObj True ?g) b"
    and ab: "canonical_form a = canonical_form b"
    using assms(1) by (auto simp: same_content_def obj_def)
  obtain as where as: "a = JsonObj as" "list_all2 (entry_rel jsonable) ?f as"
    using a [unfolded jsonable_object] by blast
  obtain bs where bs: "b = JsonObj bs" "list_all2 (entry_rel jsonable) ?g bs"
    using b [unfolded jsonable_object] by blast
  note eq = ab [unfolded as(1) bs(1)]
  have fsts: "map fst (map (\<lambda>(k, v). (js k, v)) hs) = map js (map fst hs)" for hs :: "(string \<times> jsval) list"
    by (induction hs) auto
  have keys: "map fst as = map js (map fst fs)" "map fst bs = map js (map fst fs)"
    using entry_rel_map_of [OF as(2)] entry_rel_map_of [OF bs(2)] by (simp_all only: fsts assms(3))
  have "distinct (map fst as)" "distinct (map fst bs)"
    unfolding keys using assms(2) by (simp_all add: distinct_map inj_on_def)
  note same = eq [unfolded canonical_form_obj_iff [OF this], rule_format, of "js k"]
  have mo: "map_of (map (\<lambda>(k, v). (js k, v)) hs) (js k) = map_of hs k" for hs :: "(string \<times> jsval) list"
    by (induction hs) auto
  have "rel_option jsonable (Some x) (map_of as (js k))" "rel_option jsonable (Some y) (map_of bs (js k))"
    using entry_rel_map_of [OF as(2), of "js k"] entry_rel_map_of [OF bs(2), of "js k"] assms(4,5) by (simp_all add: mo)
  then obtain a b where "map_of as (js k) = Some a" "jsonable x a" "map_of bs (js k) = Some b" "jsonable y b"
    by (auto simp: option_rel_Some1)
  then show ?thesis using same by (auto simp: same_content_def)
qed

lemma same_content_fields:
  assumes "same_content (obj fs) (obj gs)" and "distinct (map fst fs)" and "map fst gs = map fst fs"
  shows "list_all2 same_content (map snd fs) (map snd gs)"
proof (rule list_all2_all_nthI)
  show len: "length (map snd fs) = length (map snd gs)" using assms(3) by (metis length_map)
  fix n assume n: "n < length (map snd fs)"
  have k: "fst (gs ! n) = fst (fs ! n)" using n len assms(3) by (metis length_map nth_map)
  have at: "map_of hs (fst (hs ! n)) = Some (snd (hs ! n))"
    if "n < length hs" "distinct (map fst hs)" for hs :: "(string \<times> jsval) list"
    using that by (simp add: map_of_is_SomeI)
  have "map_of fs (fst (fs ! n)) = Some (snd (fs ! n))" "map_of gs (fst (fs ! n)) = Some (snd (gs ! n))"
    using at [of fs] at [of gs] n len assms(2,3) k by simp_all
  then show "same_content (map snd fs ! n) (map snd gs ! n)"
    using same_content_obj [OF assms] n len by simp
qed

section \<open>Canonical copies\<close>

lemma canonical_value_data: "isCanonicalJsonValue v \<Longrightarrow> js_data v"
  by (induction v) (auto simp: list_all_iff)

text \<open>A value that is the reading of its own canonical text.\<close>

definition canonical_copy :: "('a js_runtime_scheme) \<Rightarrow> jsval \<Rightarrow> bool" where
  "canonical_copy rt c \<longleftrightarrow> json_value c \<and>
     (\<exists>t. canonicalizeJsonValue c = Inr t \<and> well_formed_utf16 t \<and> js_JSON_parse rt t = Some c)"

lemma clone_object:
  assumes "js_data v" and "js_wf v"
  shows "\<exists>c t. cloneCanonicalObject rt v = Some c \<and> canonicalizeJsonValue v = Inr t \<and> canonicalizeJsonValue c = Inr t
    \<and> js_snapshot v c \<and> canonical_copy rt c"
proof -
  obtain j where j: "jsonable v j" "json_ok j" using assms by (rule js_data_json)
  from canonicalize_reread [OF this, of rt] obtain t c where
    t: "canonicalizeJsonValue v = Inr t" "well_formed_utf16 t" "js_JSON_parse rt t = Some c" "js_snapshot v c"
    "canonicalizeJsonValue c = Inr t" by blast
  have printed: "t = print_json (canonical_form j)"
    using t(1) j(1) by (simp add: canonicalizeJsonValue_def jsonable_def stringify_eq_print)
  have cf: "json_ok (canonical_form j)" by (rule canonical_form_ok [OF j(2)])
  have "c = of_json (json_read (canonical_form j))"
    using t(3) by (simp add: js_JSON_parse_def printed json_parse_print [OF cf])
  then have "json_value c"
    using jsonable_of_json [OF json_read_ok [OF cf]] json_read_ok [OF cf] by (auto simp: json_value_def)
  then show ?thesis using t by (auto simp: cloneCanonicalObject_def canonical_copy_def)
qed

lemma canonical_copy_eq:
  assumes "canonical_copy rt c" and "canonical_copy rt d" and "same_content c d"
  shows "c = d"
  using assms same_content_text by (fastforce simp: canonical_copy_def)

section \<open>Proposals\<close>

lemma wf_fld: "js_wf v \<Longrightarrow> js_wf (fld v k)"
  by (rule js_wf_get)

lemma parse_proposal_facts:
  assumes "parseExecutionProposalV1 rt packet = Inr p"
  shows "proposal_header_ok (fld (fld packet ''constraints'') ''execution_proposal'')"
    and "proposal_fields_ok packet (fld (fld packet ''constraints'') ''execution_proposal'')"
    and "js_wf packet \<Longrightarrow> canonical_copy rt (xp_arguments p) \<and> canonical_copy rt (xp_identity p)"
proof -
  let ?whole = "fld (fld packet ''constraints'') ''execution_proposal''"
  let ?args = "fld (fld ?whole ''action'') ''arguments''" and ?id = "fld (fld ?whole ''target'') ''identity''"
  have facts: "proposal_header_ok ?whole" "proposal_fields_ok packet ?whole" "js_isPlainObject ?args" "js_isPlainObject ?id"
    "isCanonicalJsonObject ?args" "isCanonicalJsonObject ?id"
    "cloneCanonicalObject rt ?args = Some (xp_arguments p)" "cloneCanonicalObject rt ?id = Some (xp_identity p)"
    using assms by (auto simp: parseExecutionProposalV1_def Let_def asObject_def split: if_splits option.splits)
  show "proposal_header_ok ?whole" "proposal_fields_ok packet ?whole" by (fact facts(1,2))+
  have data: "js_data v" if "js_isPlainObject v" "isCanonicalJsonObject v" for v
    using that by (auto simp: js_isPlainObject_iff elim!: list.pred_mono_strong intro: canonical_value_data)
  show "canonical_copy rt (xp_arguments p) \<and> canonical_copy rt (xp_identity p)" if wf: "js_wf packet"
    using clone_object [OF data [OF facts(3,5)], of rt] clone_object [OF data [OF facts(4,6)], of rt] facts(7,8)
      wf_fld [OF wf_fld [OF wf_fld [OF wf_fld [OF wf]]]] by auto
qed

section \<open>Requests\<close>

lemma json_value_action: "canonical_copy rt (xp_arguments p) \<Longrightarrow> json_value (execution_action p)"
  unfolding execution_action_def by (rule json_value_obj) (simp_all add: canonical_copy_def)

lemma json_value_target: "canonical_copy rt (xp_identity p) \<Longrightarrow> json_value (execution_target p)"
  unfolding execution_target_def by (rule json_value_obj) (simp_all add: canonical_copy_def)

lemma same_action:
  assumes "same_content (execution_action p) (execution_action q)"
    and "canonical_copy rt (xp_arguments p)" and "canonical_copy rt (xp_arguments q)"
  shows "xp_kind p = xp_kind q \<and> xp_arguments p = xp_arguments q"
  using same_content_fields [OF assms(1) [unfolded execution_action_def]] canonical_copy_eq [OF assms(2,3)] by simp

lemma same_target:
  assumes "same_content (execution_target p) (execution_target q)"
    and "canonical_copy rt (xp_identity p)" and "canonical_copy rt (xp_identity q)"
  shows "xp_resource_ref p = xp_resource_ref q \<and> xp_identity p = xp_identity q"
  using same_content_fields [OF assms(1) [unfolded execution_target_def]] canonical_copy_eq [OF assms(2,3)] by simp

lemma json_value_request:
  assumes "canonical_copy rt (xp_arguments p)" and "canonical_copy rt (xp_identity p)"
    and "fld (xi_packet input) ''packet_id'' = JStr a" and "fld (xi_packet input) ''project_ref'' = JStr b"
  shows "json_value (execution_request input p)"
  unfolding execution_request_def
  by (rule json_value_obj)
    (simp_all add: assms json_value_obj json_value_action [OF assms(1)] json_value_target [OF assms(2)])

lemma same_request:
  assumes "same_content (execution_request input p) (execution_request input' q)"
    and "canonical_copy rt (xp_arguments p)" and "canonical_copy rt (xp_identity p)"
    and "canonical_copy rt (xp_arguments q)" and "canonical_copy rt (xp_identity q)"
    and "fld (xi_packet input) ''packet_id'' = JStr a" and "fld (xi_packet input) ''project_ref'' = JStr b"
    and "fld (xi_packet input') ''packet_id'' = JStr a'" and "fld (xi_packet input') ''project_ref'' = JStr b'"
  shows "execution_request input p = execution_request input' q"
proof -
  have fields: "same_content (obj [(''schema_id'', jtext ''lnsat.packet_envelope.schema.v1_0''), (''packet_id'', JStr a),
        (''packet_sha256'', JStr (xi_packet_sha256 input))])
      (obj [(''schema_id'', jtext ''lnsat.packet_envelope.schema.v1_0''), (''packet_id'', JStr a'),
        (''packet_sha256'', JStr (xi_packet_sha256 input'))])"
    "same_content (obj [(''schema_id'', jtext ''lnsat.policy_decision.schema.v1_0''),
        (''decision_id'', JStr (xi_policy_decision_id input))])
      (obj [(''schema_id'', jtext ''lnsat.policy_decision.schema.v1_0''),
        (''decision_id'', JStr (xi_policy_decision_id input'))])"
    "same_content (obj [(''schema_id'', jtext ''lnsat.approval_request.schema.v1_0''),
        (''approval_request_id'', JStr (xi_approval_request_id input))])
      (obj [(''schema_id'', jtext ''lnsat.approval_request.schema.v1_0''),
        (''approval_request_id'', JStr (xi_approval_request_id input'))])"
    "same_content (obj [(''schema_id'', jtext ''lnsat.approval_decision.schema.v1_0''),
        (''approval_decision_id'', JStr (xi_approval_decision_id input))])
      (obj [(''schema_id'', jtext ''lnsat.approval_decision.schema.v1_0''),
        (''approval_decision_id'', JStr (xi_approval_decision_id input'))])"
    "same_content (obj [(''ref'', JStr (xp_adapter_ref p)), (''version'', JStr (xp_adapter_version p))])
      (obj [(''ref'', JStr (xp_adapter_ref q)), (''version'', JStr (xp_adapter_version q))])"
    "same_content (execution_action p) (execution_action q)" "same_content (execution_target p) (execution_target q)"
    "b = b'" "xi_requester_ref input = xi_requester_ref input'"
    "xi_requester_session_ref input = xi_requester_session_ref input'"
    "xi_approver_ref input = xi_approver_ref input'" "xi_approver_session_ref input = xi_approver_session_ref input'"
    "xp_configuration_digest p = xp_configuration_digest q" "xp_executable_digest p = xp_executable_digest q"
    "xp_audience p = xp_audience q" "xi_prepared_at input = xi_prepared_at input'"
    "xi_expires_at input = xi_expires_at input'"
    using same_content_fields [OF assms(1) [unfolded execution_request_def]] assms(6-9) by simp_all
  note parts = same_action [OF fields(6) assms(2,4)] same_target [OF fields(7) assms(3,5)]
    same_content_fields [OF fields(1)] same_content_fields [OF fields(2)] same_content_fields [OF fields(3)]
    same_content_fields [OF fields(4)] same_content_fields [OF fields(5)]
  show ?thesis using parts fields(8-)
    by (simp add: execution_request_def execution_action_def execution_target_def assms(6-9))
qed

section \<open>What a derivation establishes\<close>

lemma derive_facts:
  assumes "deriveExecutionRequestV1 rt input = Inr d"
  obtains p where "hashPacketEnvelopeV1 rt (xi_packet input) = Inr (xi_packet_sha256 input)"
    and "chain_ok (xi_packet_sha256 input) input" and "window_valid (xi_prepared_at input) (xi_expires_at input)"
    and "parseExecutionProposalV1 rt (xi_packet input) = Inr p"
    and "xd_request d = execution_request input p"
    and "canonicalizeJsonValue (xd_request d) = Inr (xd_canonical_request d)"
    and "sha256Text rt (xd_canonical_request d) = Some (xd_request_digest d)"
    and "domainDigest rt ACTION_DIGEST_DOMAIN_V1 (execution_action p) = Some (xd_action_digest d)"
    and "domainDigest rt TARGET_DIGEST_DOMAIN_V1 (execution_target p) = Some (xd_target_digest d)"
    and "xd_configuration_digest d = xp_configuration_digest p" and "xd_executable_digest d = xp_executable_digest p"
proof -
  obtain h p where h: "hashPacketEnvelopeV1 rt (xi_packet input) = Inr h" "chain_ok h input"
    "window_valid (xi_prepared_at input) (xi_expires_at input)"
    "parseExecutionProposalV1 rt (xi_packet input) = Inr p"
    "derive_digests rt (execution_request input p) p = Inr d"
    using assms by (auto simp: deriveExecutionRequestV1_def bind_result_eq_Inr_iff split: sum.splits if_splits)
  moreover have "h = xi_packet_sha256 input" using h(2) by (simp add: chain_ok_def)
  moreover have "xd_request d = execution_request input p"
    "canonicalizeJsonValue (xd_request d) = Inr (xd_canonical_request d)"
    "sha256Text rt (xd_canonical_request d) = Some (xd_request_digest d)"
    "domainDigest rt ACTION_DIGEST_DOMAIN_V1 (execution_action p) = Some (xd_action_digest d)"
    "domainDigest rt TARGET_DIGEST_DOMAIN_V1 (execution_target p) = Some (xd_target_digest d)"
    "xd_configuration_digest d = xp_configuration_digest p" "xd_executable_digest d = xp_executable_digest p"
    using h(5) by (auto simp: derive_digests_def split: sum.splits option.splits)
  ultimately show ?thesis using that by blast
qed

lemma hashed_packet_shape:
  assumes "hashPacketEnvelopeV1 rt v = Inr h"
  obtains r where "validatePacketEnvelopeV1 v = Inr v" and "packet_shape v r" and "packet_rules r"
proof -
  obtain t where "canonicalizePacketEnvelopeV1 v = Inr t"
    using assms by (auto simp: hashPacketEnvelopeV1_def bind_result_eq_Inr_iff)
  from canonicalize_packet_valid [OF this] that show ?thesis by (auto simp: validate_iff)
qed

section \<open>Digests\<close>

lemma sha256Bytes_inject:
  assumes "sha256Bytes rt x = Some h" and "sha256Bytes rt y = Some h"
  shows "x = y \<or> digest_collision rt x y"
  using assms by (auto simp: sha256Bytes_def digest_collision_def bytesToHex_inject split: option.splits)

lemma framed_bytes_inject: "framed_bytes domain x = framed_bytes domain y \<Longrightarrow> x = y"
  by (simp add: framed_bytes_def Let_def)

lemma framed_domains_differ:
  "framed_bytes ACTION_DIGEST_DOMAIN_V1 x \<noteq> framed_bytes TARGET_DIGEST_DOMAIN_V1 y"
proof
  assume eq: "framed_bytes ACTION_DIGEST_DOMAIN_V1 x = framed_bytes TARGET_DIGEST_DOMAIN_V1 y"
  have len: "length (utf8_encode (js ACTION_DIGEST_DOMAIN_V1)) = length (utf8_encode (js TARGET_DIGEST_DOMAIN_V1))"
    by (simp add: ACTION_DIGEST_DOMAIN_V1_def TARGET_DIGEST_DOMAIN_V1_def utf8_encode_def utf8_of_scalar_def
        scalar_value_def)
  have "utf8_encode (js ACTION_DIGEST_DOMAIN_V1) = utf8_encode (js TARGET_DIGEST_DOMAIN_V1)"
    using eq len by (simp add: framed_bytes_def Let_def)
  then have "js ACTION_DIGEST_DOMAIN_V1 = js TARGET_DIGEST_DOMAIN_V1"
    using utf8_encode_inject by simp
  then show False by (simp add: ACTION_DIGEST_DOMAIN_V1_def TARGET_DIGEST_DOMAIN_V1_def)
qed

section \<open>Copies of a packet carry the same proposal\<close>

text \<open>
  \<open>y\<close> is what is read where \<open>x\<close> was written: nothing in both places, or a copy of a value that
  packet constraints admit.
\<close>

definition copied :: "jsval \<Rightarrow> jsval \<Rightarrow> bool" where
  "copied x y \<longleftrightarrow> x = JUndef \<and> y = JUndef \<or> js_snapshot x y \<and> constraint_ok x"

lemma copied_get:
  assumes "copied x y"
  shows "copied (js_get x k) (js_get y k)" and "js_has y k = js_has x k"
proof -
  have "copied (js_get x k) (js_get y k) \<and> js_has y k = js_has x k"
  proof (cases x)
    case (JObj p fs)
    then have snap: "js_snapshot (JObj p fs) y" and ok: "constraint_ok (JObj p fs)"
      using assms by (auto simp: copied_def)
    note get = js_snapshot_get [OF snap, of k]
    show ?thesis
    proof (cases "js_has y k")
      case True
      then have "js_has (JObj p fs) k" and "js_snapshot (js_get (JObj p fs) k) (js_get y k)" using get by auto
      moreover from this(1) obtain v where "map_of fs k = Some v" by (auto simp: js_has_iff_map_of)
      ultimately show ?thesis using ok map_of_SomeD [of fs k v] True JObj
        by (auto simp: copied_def list_all_iff)
    next
      case False
      moreover obtain gs where "y = JObj True gs" using snap by (auto elim: js_snapshot_objE)
      ultimately show ?thesis using get JObj by (auto simp: copied_def js_has_iff_map_of split: option.splits)
    qed
  qed (use assms in \<open>auto simp: copied_def js_has_def\<close>)
  then show "copied (js_get x k) (js_get y k)" "js_has y k = js_has x k" by auto
qed

lemma asObject_None: "asObject z = None \<longleftrightarrow> \<not> js_isPlainObject z"
  by (simp add: asObject_def)

lemma copied_plain: "copied x y \<Longrightarrow> js_isPlainObject y = js_isPlainObject x"
  by (cases x) (auto simp: copied_def elim: js_snapshot_objE)

lemma copied_str: "copied x y \<Longrightarrow> y = JStr s \<longleftrightarrow> x = JStr s"
  by (cases x) (auto simp: copied_def elim: js_snapshot_objE)

lemma copied_text:
  assumes "copied x y"
  shows "js_isString y = js_isString x" and "as_str y = as_str x" and "isBoundedString y n = isBoundedString x n"
    and "isLowercaseSha256 y = isLowercaseSha256 x" and "isAdapterVersion y = isAdapterVersion x"
proof -
  have "x = y \<or> \<not> js_isString x \<and> \<not> js_isString y"
  proof (cases x)
    case (JStr s)
    then show ?thesis using copied_str [OF assms, of s] by blast
  qed (cases y; use copied_str [OF assms] in simp)+
  moreover have "as_str z = []" "\<not> isBoundedString z n" "\<not> isLowercaseSha256 z" "\<not> isAdapterVersion z"
    if "\<not> js_isString z" for z
    using that by (cases z; simp)+
  ultimately show "js_isString y = js_isString x" "as_str y = as_str x" "isBoundedString y n = isBoundedString x n"
    "isLowercaseSha256 y = isLowercaseSha256 x" "isAdapterVersion y = isAdapterVersion x"
    by auto
qed

lemma copied_keys:
  assumes "copied x y"
  shows "er_hasExactKeys y ks = er_hasExactKeys x ks"
proof -
  have "length (js_keys y) = length (js_keys x)"
  proof (cases x)
    case (JObj p fs)
    then obtain gs where y: "y = JObj True gs" and d: "distinct (map fst fs)" "distinct (map fst gs)"
      using assms by (auto simp: copied_def elim: js_snapshot_objE)
    have "set (map fst gs) = set (map fst fs)"
      using copied_get(2) [OF assms] by (auto simp: JObj y js_has_def)
    then have "card (set (map fst gs)) = card (set (map fst fs))" by simp
    then show ?thesis using d by (simp only: distinct_card length_map JObj y js_keys.simps)
  qed (use assms in \<open>auto simp: copied_def\<close>)
  then show ?thesis using copied_get(2) [OF assms] by (simp add: er_hasExactKeys_def)
qed

lemma copied_canonical_value:
  "js_snapshot x y \<Longrightarrow> constraint_ok x \<Longrightarrow> isCanonicalJsonValue y = isCanonicalJsonValue x"
proof (induction x arbitrary: y)
  case (JArr vs)
  then obtain ws where y: "y = JArr ws" and all: "list_all2 js_snapshot vs ws" by auto
  have "list_all isCanonicalJsonValue ws = list_all isCanonicalJsonValue vs"
    using all JArr.IH JArr.prems(2)
    by (induction rule: list_all2_induct) auto
  then show ?case by (simp add: y)
next
  case (JObj p fs)
  then obtain gs where y: "y = JObj True gs" and d: "distinct (map fst fs)" "distinct (map fst gs)"
    and rel: "\<And>k. rel_option js_snapshot (map_of fs k) (map_of gs k)"
    by (auto elim: js_snapshot_objE)
  have p: "p" using JObj.prems(2) by simp
  have entry: "isCanonicalJsonValue w = isCanonicalJsonValue v"
    if "map_of fs k = Some v" "map_of gs k = Some w" for k v w
    using rel [of k] that JObj.IH [OF map_of_SomeD [OF that(1)], of v w] map_of_SomeD [OF that(1)] JObj.prems(2)
    by (auto simp: list_all_iff)
  have forall: "list_all (\<lambda>(k, v). P k v) hs \<longleftrightarrow> (\<forall>k v. map_of hs k = Some v \<longrightarrow> P k v)"
    if "distinct (map fst hs)" for hs :: "(jstr \<times> jsval) list" and P
    using that by (auto simp: list_all_iff dest: map_of_SomeD)
  have "map_of gs k = None \<longleftrightarrow> map_of fs k = None" for k using rel [of k] by auto
  then show ?case using entry p by (simp add: y forall [OF d(1)] forall [OF d(2)]) (metis option.exhaust)
qed auto

lemma copied_canonical_object:
  assumes "copied x y"
  shows "isCanonicalJsonObject y = isCanonicalJsonObject x"
proof (cases x)
  case (JObj p fs)
  then have "js_snapshot (JObj p fs) y" "constraint_ok (JObj p fs)" using assms by (auto simp: copied_def)
  moreover from this obtain gs where "y = JObj True gs" by (auto elim: js_snapshot_objE)
  ultimately show ?thesis using copied_canonical_value JObj by fastforce
qed (use assms in \<open>auto simp: copied_def\<close>)

lemma copied_clone:
  assumes "copied x y"
  shows "cloneCanonicalObject rt y = cloneCanonicalObject rt x"
proof (cases "x = JUndef")
  case False
  then have snap: "js_snapshot x y" "constraint_ok x" using assms by (auto simp: copied_def)
  then obtain j where "jsonable x j" using js_data_jsonable constraint_data by blast
  then obtain t where t: "canonical_text x = Some t"
    by (auto simp: canonical_text_iff canonicalizeJsonValue_def jsonable_def)
  from packet_text.canon_snapshot [OF snap(1) t] t show ?thesis
    by (simp add: canonical_text_iff cloneCanonicalObject_def)
qed (use assms in \<open>auto simp: copied_def\<close>)

lemma copied_parts:
  assumes "copied x y"
  shows "proposal_header_ok y = proposal_header_ok x" and "action_ok y = action_ok x"
    and "adapter_ok y = adapter_ok x"
  using copied_plain [OF assms] copied_keys [OF assms] copied_text [OF copied_get(1) [OF assms]]
    copied_str [OF copied_get(1) [OF assms]]
  by (simp_all add: proposal_header_ok_def action_ok_def adapter_ok_def asObject_def jtext_def)

lemma copied_target:
  assumes "copied x y" and "fld w ''resource_refs'' = fld v ''resource_refs''"
  shows "target_ok w y = target_ok v x"
proof (cases "js_isString (fld x ''resource_ref'')")
  case True
  then have "fld y ''resource_ref'' = fld x ''resource_ref''"
    using copied_str [OF copied_get(1) [OF assms(1)]] by (auto simp: js_isString_iff)
  then show ?thesis using copied_plain [OF assms(1)] copied_keys [OF assms(1)] assms(2)
    by (simp add: target_ok_def asObject_def)
next
  case False
  then show ?thesis using copied_text(1) [OF copied_get(1) [OF assms(1)]] by (simp add: target_ok_def)
qed

lemma parse_proposal_copied:
  assumes "copied (fld v ''constraints'') (fld w ''constraints'')"
    and "fld w ''resource_refs'' = fld v ''resource_refs''"
  shows "parseExecutionProposalV1 rt w = parseExecutionProposalV1 rt v"
proof -
  let ?x = "fld (fld v ''constraints'') ''execution_proposal''"
  let ?y = "fld (fld w ''constraints'') ''execution_proposal''"
  have whole: "copied ?x ?y" by (rule copied_get(1) [OF assms(1)])
  note part = copied_get(1) [OF whole]
  note leaf = copied_get(1) [OF part]
  have fields: "proposal_fields_ok w ?y = proposal_fields_ok v ?x"
    using copied_parts(2,3) [OF part] copied_target [OF part assms(2)] copied_text [OF part]
    by (simp add: proposal_fields_ok_def)
  show ?thesis
    unfolding parseExecutionProposalV1_def Let_def copied_get(2) [OF assms(1)] copied_parts(1) [OF whole] fields
      asObject_None copied_plain [OF leaf] copied_canonical_object [OF leaf] copied_clone [OF leaf]
      copied_text(2) [OF leaf] copied_text(2) [OF part] ..
qed

text \<open>Reading a valid packet back from its canonical text changes nothing of its proposal.\<close>

lemma parse_proposal_reread:
  assumes "packet_shape v r" and "packet_rules r" and "js_snapshot v w"
  shows "parseExecutionProposalV1 rt w = parseExecutionProposalV1 rt v"
proof (rule parse_proposal_copied)
  note w = packet_shape_snapshot [OF assms(1,3)]
  show "copied (fld v ''constraints'') (fld w ''constraints'')"
    using w assms(1,2) by (simp add: copied_def packet_shape_def packet_rules_def)
  show "fld w ''resource_refs'' = fld v ''resource_refs''"
    using w assms(1) by (simp add: packet_shape_def)
qed

end
