(* ===== verification/Approval_Properties.thy ===== *)
theory Approval_Properties
  imports Approval_Policy
begin

text \<open>
  The properties of the approval component: how it continues the policy component, what a
  created request and a human decision guarantee, and what the identities bind.
\<close>

section \<open>Creation\<close>

lemma create_bound_request_cases:
  assumes "sha256_available rt" and "approval_needed v" and "js_wf v"
    and "parseCanonicalUtcTimestamp t = Some q"
  obtains hex i where "sha256_hex rt (as_str (fld v ''schema_id'') @ newline
        @ as_str (fld (fld v ''packet_ref'') ''packet_hash'') @ newline @ as_str (fld v ''evaluated_at'')) = Some hex"
    and "requestIdPattern i"
    and "create_bound_request rt v t =
      (if JStr (js ''pol_'' @ hex) \<noteq> fld v ''decision_id''
       then ae_failure AR_invalid_policy_decision ''/policy_decision/decision_id''
              ''Policy decision identity does not match its bound evidence.''
       else Inr (created_request v t i))"
    and "\<exists>c h. canonicalizeJson (obj (approval_request_body v t)) = Some c \<and> sha256_hex rt c = Some h
      \<and> i = js ''apr_'' @ h"
proof -
  obtain hex where hex: "sha256_hex rt (as_str (fld v ''schema_id'') @ newline
        @ as_str (fld (fld v ''packet_ref'') ''packet_hash'') @ newline @ as_str (fld v ''evaluated_at'')) = Some hex"
    using sha256_availableD [OF assms(1)] by blast
  have some: "requestIdPattern (js ''apr_'' @ h)" if "sha256_hex rt c = Some h" for c h
    using hex64 [OF assms(1) that] by (simp add: requestIdPattern_def)
  have "isApprovalRequestV1 (created_request v t (js ''apr_'' @ hex))"
    using created_request_valid [OF assms(2) some [OF hex] assms(4)] .
  from request_body_text [OF this created_request_wf [OF assms(3)]] obtain c where
    c: "canonicalizeJson (obj (approval_request_body v t)) = Some c"
    unfolding created_request_body by blast
  obtain h where h: "sha256_hex rt c = Some h" using sha256_availableD [OF assms(1)] by blast
  show ?thesis
  proof (rule that [OF hex some [OF h]])
    show "create_bound_request rt v t =
      (if JStr (js ''pol_'' @ hex) \<noteq> fld v ''decision_id''
       then ae_failure AR_invalid_policy_decision ''/policy_decision/decision_id''
              ''Policy decision identity does not match its bound evidence.''
       else Inr (created_request v t (js ''apr_'' @ h)))"
      unfolding create_bound_request_def hex c option.case h created_request_def ..
  qed (use c h in blast)
qed

lemma create_bound_InrD:
  assumes "create_bound_request rt v t = Inr r"
  shows "\<exists>hex c h. sha256_hex rt (as_str (fld v ''schema_id'') @ newline
        @ as_str (fld (fld v ''packet_ref'') ''packet_hash'') @ newline @ as_str (fld v ''evaluated_at'')) = Some hex
    \<and> fld v ''decision_id'' = JStr (js ''pol_'' @ hex)
    \<and> canonicalizeJson (obj (approval_request_body v t)) = Some c \<and> sha256_hex rt c = Some h
    \<and> r = created_request v t (js ''apr_'' @ h)"
  using assms
  by (auto simp: create_bound_request_def request_hash_failure_def ae_failure_def created_request_def
      split: option.splits if_splits)

lemma policy_decision_facts:
  assumes "decidePacketEnvelopePolicyV1 rt p options = Inr d" and "js_wf p" and "sha256_available rt"
  shows "isPolicyDecisionV1 (policy_decision_object d)"
    and "\<exists>hex. sha256_hex rt (policy_schema_id @ newline @ pd_packet_hash d @ newline @ pd_evaluated_at d) = Some hex
      \<and> pd_decision_id d = js ''pol_'' @ hex"
    and "pd_requires_approval d = (pd_decision d = ApprovalRequired)"
proof -
  from decide_InrD [OF assms(1,2)] obtain r t e h hex where
    r: "packet_rules r" "parseCanonicalUtcTimestamp t = Some e" "hashPacketEnvelopeV1 rt p = Inr h"
    and hex: "sha256_hex rt (policy_decision_id_input h t) = Some hex"
    and d: "d = policy_decision_of r h (js ''pol_'' @ hex) t" by blast
  obtain s k where "sha256_hex rt s = Some k" "h = js ''sha256:'' @ k"
    using packet_hash_text [OF r(3) assms(2)] by blast
  then have "rx_hex64 ''sha256:'' h" using hex64 [OF assms(3)] by simp
  from policy_object_valid [OF r(1) this hex64 [OF assms(3) hex] r(2)] d
  show "isPolicyDecisionV1 (policy_decision_object d)" by simp
  show "\<exists>hex. sha256_hex rt (policy_schema_id @ newline @ pd_packet_hash d @ newline @ pd_evaluated_at d) = Some hex
      \<and> pd_decision_id d = js ''pol_'' @ hex"
    using hex by (simp add: d policy_decision_of_def policy_decision_id_input_def)
  show "pd_requires_approval d = (pd_decision d = ApprovalRequired)"
    by (simp add: d policy_decision_of_def)
qed

lemma policy_object_wf:
  assumes "decidePacketEnvelopePolicyV1 rt p options = Inr d" and "js_wf p"
  shows "js_wf (policy_decision_object d)"
proof -
  from decide_InrD [OF assms] obtain r h i t where r: "packet_rules r"
    and d: "d = policy_decision_of r h i t" by blast
  have "\<bar>pd_risk_level d\<bar> < 10 ^ 21" using r by (simp add: d policy_decision_of_def packet_rules_def)
  then show ?thesis
    by (auto simp: policy_decision_object_def obj_def capability_decision_object_def list_all_iff split: option.splits)
qed

section \<open>Sample decision and request\<close>

definition sample_request_options :: jsval where
  "sample_request_options = obj [(''requested_at'', jtext ''2026-01-02T03:04:07Z'')]"

lemma sample_request_options_ok: "request_options sample_request_options (js ''2026-01-02T03:04:07Z'')"
  by (simp add: request_options_def sample_request_options_def hasExactKeys_def literal_eval)

lemma sample_requested: "parseCanonicalUtcTimestamp (js ''2026-01-02T03:04:07Z'') = Some 1767323047000"
  by (simp add: js_eval)

lemma sample_decided: "parseCanonicalUtcTimestamp (js ''2026-01-02T03:04:08Z'') = Some 1767323048000"
  by (simp add: js_eval)

lemma sample_outcome: "policy_outcome sample_record = ApprovalRequired"
  by (simp add: policy_outcome_def sample_record_def supported_profile_def supportedProfiles_def
      grantable_def allowedCapabilities_def approvalRequiredCapabilities_def)

lemma sample_policy_decision:
  obtains d where "decidePacketEnvelopePolicyV1 sample_runtime sample_packet sample_options = Inr d"
    and "pd_decision d = ApprovalRequired" and "pd_evaluated_at d = js ''2026-01-02T03:04:06Z''"
    and "pd_expires_at d = js ''2026-01-02T04:04:05Z''" and "pd_actor_ref d = js ''identity:agent:a1''"
proof -
  from sample_decision obtain h i where
    "decidePacketEnvelopePolicyV1 sample_runtime sample_packet sample_options
       = Inr (policy_decision_of sample_record h i (js ''2026-01-02T03:04:06Z''))" by blast
  then show ?thesis
  proof (rule that)
    show "pd_decision (policy_decision_of sample_record h i (js ''2026-01-02T03:04:06Z'')) = ApprovalRequired"
      by (simp add: policy_decision_of_def selectDecision_record_reasons sample_outcome)
  qed (simp_all add: policy_decision_of_def sample_record_def)
qed

section \<open>Properties\<close>

text \<open>
  The two components fit together: with SHA-256 available, every decision of the policy that
  requires approval, presented at an instant of its window, becomes an approval request that
  satisfies the request contract and carries the actor, the packet hash and the decision id of
  the decision.
\<close>

theorem policy_decision_reaches_approval:
  assumes "decidePacketEnvelopePolicyV1 rt p options = Inr d" and "js_wf p" and "sha256_available rt"
    and "pd_decision d = ApprovalRequired" and "request_options opts t"
    and "parseCanonicalUtcTimestamp t = Some q"
    and "parseCanonicalUtcTimestamp (pd_evaluated_at d) = Some e" and "e \<le> q"
    and "parseCanonicalUtcTimestamp (pd_expires_at d) = Some x" and "q < x"
  shows "\<exists>r. createApprovalRequestV1 rt (policy_decision_object d) opts = Inr r \<and> isApprovalRequestV1 r
    \<and> fld r ''requester_ref'' = JStr (pd_actor_ref d)
    \<and> fld (fld r ''policy_decision_ref'') ''packet_hash'' = JStr (pd_packet_hash d)
    \<and> fld (fld r ''policy_decision_ref'') ''decision_id'' = JStr (pd_decision_id d)"
proof -
  let ?v = "policy_decision_object d"
  note facts = policy_decision_facts [OF assms(1-3)] and wf = policy_object_wf [OF assms(1,2)]
  have need: "approval_needed ?v"
    using facts(1,3) assms(4) by (simp add: approval_needed_def decision_object_fields jtext_def)
  have window: "decision_window ?v q"
    using assms(7-10) by (simp add: decision_window_def decision_object_fields)
  from facts(2) obtain hex where hex: "sha256_hex rt (policy_schema_id @ newline @ pd_packet_hash d @ newline
      @ pd_evaluated_at d) = Some hex" "pd_decision_id d = js ''pol_'' @ hex" by blast
  obtain i where i: "requestIdPattern i" "create_bound_request rt ?v t = Inr (created_request ?v t i)"
    by (rule create_bound_request_cases [OF assms(3) need wf assms(6)])
      (use hex in \<open>simp add: decision_object_fields\<close>)
  have "createApprovalRequestV1 rt ?v opts = Inr (created_request ?v t i)"
    using create_eq [OF need wf assms(5,6), of rt] window i(2) by simp
  moreover have "isApprovalRequestV1 (created_request ?v t i)"
    by (rule created_request_valid [OF need i(1) assms(6)])
  ultimately show ?thesis
    by (auto simp: created_request_fields decision_object_fields fld_obj)
qed

theorem policy_decision_reaches_approval_witness:
  "\<exists>d r. decidePacketEnvelopePolicyV1 sample_runtime sample_packet sample_options = Inr d
    \<and> createApprovalRequestV1 sample_runtime (policy_decision_object d) sample_request_options = Inr r
    \<and> isApprovalRequestV1 r \<and> fld r ''requester_ref'' = JStr (pd_actor_ref d)
    \<and> fld (fld r ''policy_decision_ref'') ''packet_hash'' = JStr (pd_packet_hash d)
    \<and> fld (fld r ''policy_decision_ref'') ''decision_id'' = JStr (pd_decision_id d)"
proof -
  obtain d where d: "decidePacketEnvelopePolicyV1 sample_runtime sample_packet sample_options = Inr d"
    "pd_decision d = ApprovalRequired" "pd_evaluated_at d = js ''2026-01-02T03:04:06Z''"
    "pd_expires_at d = js ''2026-01-02T04:04:05Z''" by (rule sample_policy_decision)
  from policy_decision_reaches_approval [OF d(1) sample_wf sample_runtime_available d(2)
      sample_request_options_ok sample_requested, where e = 1767323046000 and x = 1767326645000] d(1)
  show ?thesis by (auto simp: d(3,4) sample_evaluated sample_timestamps)
qed

text \<open>
  Approval cannot be requested where the policy did not ask for it: an allow or deny decision
  of the policy is refused with \<open>approval_request.not_required\<close>, whatever the options.
\<close>

theorem approval_only_when_required:
  assumes "decidePacketEnvelopePolicyV1 rt p options = Inr d" and "js_wf p" and "sha256_available rt"
    and "pd_decision d \<noteq> ApprovalRequired"
  shows "\<exists>m. createApprovalRequestV1 rt (policy_decision_object d) opts
    = Inl [createContractErrorV1 AR_not_required (js ''/policy_decision/decision'') m]"
proof -
  note facts = policy_decision_facts [OF assms(1-3)]
  have "JStr (policy_kind_text (pd_decision d)) \<noteq> jtext ''approval_required''"
    using assms(4) by (simp add: kind_text_literals)
  then show ?thesis
    using facts(1) by (auto simp: createApprovalRequestV1_def decision_object_fields ae_failure_def)
qed

theorem approval_only_when_required_witness:
  "\<exists>d m. decidePacketEnvelopePolicyV1 sample_runtime allowed_packet sample_options = Inr d
    \<and> createApprovalRequestV1 sample_runtime (policy_decision_object d) sample_request_options
      = Inl [createContractErrorV1 AR_not_required (js ''/policy_decision/decision'') m]"
proof -
  have "\<exists>h i. decidePacketEnvelopePolicyV1 sample_runtime allowed_packet sample_options
      = Inr (policy_decision_of allowed_record h i (js ''2026-01-02T03:04:06Z''))"
    by (rule decide_total [OF allowed_shape allowed_rules allowed_wf sample_options_time sample_evaluated,
          where c = 1767323045000 and x = 1767326645000])
      (simp_all add: sample_record_def allowed_record_def sample_timestamps sample_runtime_available)
  then obtain h i where d: "decidePacketEnvelopePolicyV1 sample_runtime allowed_packet sample_options
      = Inr (policy_decision_of allowed_record h i (js ''2026-01-02T03:04:06Z''))" by blast
  have "pd_decision (policy_decision_of allowed_record h i (js ''2026-01-02T03:04:06Z'')) \<noteq> ApprovalRequired"
    by (simp add: policy_decision_of_def selectDecision_record_reasons policy_outcome_def allowed_record_def
        sample_record_def supported_profile_def supportedProfiles_def grantable_def allowedCapabilities_def
        approvalRequiredCapabilities_def)
  from approval_only_when_required [OF d allowed_wf sample_runtime_available this] d show ?thesis by blast
qed

text \<open>
  C30. A created request rests on a decision in order: it comes from a value that
  satisfies the decision contract, requires approval, names capabilities and a profile the policy
  can grant, contains the request instant in its window, and whose decision id is the SHA-256
  identity of its own schema, packet hash and evaluation time.
\<close>

theorem created_request_bound:
  assumes "createApprovalRequestV1 rt v opts = Inr r" and "js_wf v"
  shows "isPolicyDecisionV1 v \<and> fld v ''decision'' = jtext ''approval_required''
    \<and> isApprovalPolicySemanticsConsistent v
    \<and> (\<exists>q. parseCanonicalUtcTimestamp (as_str (fld opts ''requested_at'')) = Some q \<and> decision_window v q)
    \<and> (\<exists>hex. sha256_hex rt (as_str (fld v ''schema_id'') @ newline
        @ as_str (fld (fld v ''packet_ref'') ''packet_hash'') @ newline @ as_str (fld v ''evaluated_at'')) = Some hex
       \<and> fld v ''decision_id'' = JStr (js ''pol_'' @ hex))"
proof -
  from create_InrD [OF assms] obtain t q where need: "approval_needed v"
    and t: "request_options opts t" "parseCanonicalUtcTimestamp t = Some q" "decision_window v q"
    and bound: "create_bound_request rt v t = Inr r" by blast
  have "isPolicyDecisionConsistent v" "fld v ''decision'' = jtext ''approval_required''"
    using need by (simp_all add: approval_needed_def isPolicyDecisionV1_def)
  then have "isApprovalPolicySemanticsConsistent v"
    by (simp add: isPolicyDecisionConsistent_def Let_def jtext_def)
  with create_bound_InrD [OF bound] need t show ?thesis
    by (auto simp: approval_needed_def request_options_def)
qed

lemma sample_request:
  obtains d r where "decidePacketEnvelopePolicyV1 sample_runtime sample_packet sample_options = Inr d"
    and "createApprovalRequestV1 sample_runtime (policy_decision_object d) sample_request_options = Inr r"
    and "js_wf (policy_decision_object d)" and "fld (policy_decision_object d) ''actor_ref'' = jtext ''identity:agent:a1''"
    and "as_str (fld (policy_decision_object d) ''expires_at'') = js ''2026-01-02T04:04:05Z''"
proof -
  obtain d where d: "decidePacketEnvelopePolicyV1 sample_runtime sample_packet sample_options = Inr d"
    "pd_decision d = ApprovalRequired" "pd_evaluated_at d = js ''2026-01-02T03:04:06Z''"
    "pd_expires_at d = js ''2026-01-02T04:04:05Z''" "pd_actor_ref d = js ''identity:agent:a1''"
    by (rule sample_policy_decision)
  let ?v = "policy_decision_object d"
  note facts = policy_decision_facts [OF d(1) sample_wf sample_runtime_available]
    and wf = policy_object_wf [OF d(1) sample_wf]
  have need: "approval_needed ?v"
    using facts(1,3) d(2) by (simp add: approval_needed_def decision_object_fields jtext_def)
  from facts(2) obtain hex where hex: "sha256_hex sample_runtime (policy_schema_id @ newline @ pd_packet_hash d
      @ newline @ pd_evaluated_at d) = Some hex" "pd_decision_id d = js ''pol_'' @ hex" by blast
  obtain i where "create_bound_request sample_runtime ?v (js ''2026-01-02T03:04:07Z'')
      = Inr (created_request ?v (js ''2026-01-02T03:04:07Z'') i)"
    by (rule create_bound_request_cases [OF sample_runtime_available need wf sample_requested])
      (use hex in \<open>simp add: decision_object_fields\<close>)
  moreover have "decision_window ?v 1767323047000"
    by (simp add: decision_window_def decision_object_fields d(3,4) sample_evaluated sample_timestamps)
  ultimately have "createApprovalRequestV1 sample_runtime ?v sample_request_options
      = Inr (created_request ?v (js ''2026-01-02T03:04:07Z'') i)"
    using create_eq [OF need wf sample_request_options_ok sample_requested, of sample_runtime] by simp
  from that [OF d(1) this wf] d(4,5) show ?thesis by (simp add: decision_object_fields jtext_def)
qed

theorem created_request_bound_witness:
  "\<exists>v r. createApprovalRequestV1 sample_runtime v sample_request_options = Inr r
    \<and> isPolicyDecisionV1 v \<and> fld v ''decision'' = jtext ''approval_required''
    \<and> isApprovalPolicySemanticsConsistent v
    \<and> (\<exists>q. parseCanonicalUtcTimestamp (as_str (fld sample_request_options ''requested_at'')) = Some q
         \<and> decision_window v q)
    \<and> (\<exists>hex. sha256_hex sample_runtime (as_str (fld v ''schema_id'') @ newline
        @ as_str (fld (fld v ''packet_ref'') ''packet_hash'') @ newline @ as_str (fld v ''evaluated_at'')) = Some hex
       \<and> fld v ''decision_id'' = JStr (js ''pol_'' @ hex))"
proof -
  obtain d r where r: "createApprovalRequestV1 sample_runtime (policy_decision_object d) sample_request_options = Inr r"
    "js_wf (policy_decision_object d)" by (rule sample_request)
  from created_request_bound [OF r] r(1) show ?thesis by blast
qed

lemma decidable_bound:
  assumes "sha256_available rt" and "approval_needed v" and "parseCanonicalUtcTimestamp t = Some q"
    and "create_bound_request rt v t = Inr r" and "js_wf v" and "decision_options_ok human"
    and "parseCanonicalUtcTimestamp (as_str (fld human ''decided_at'')) = Some d" and "request_window r d"
  shows "\<exists>i. decideApprovalRequestV1 rt r human = (if fld human ''approver_ref'' = fld v ''actor_ref''
    then ae_failure AD_self_approval_forbidden ''/approver_ref''
           ''The requester cannot approve or deny the same approval request.''
    else Inr (approval_decision_object r human i))"
proof -
  from create_bound_InrD [OF assms(4)] obtain c h where
    c: "canonicalizeJson (obj (approval_request_body v t)) = Some c" "sha256_hex rt c = Some h"
    and r: "r = created_request v t (js ''apr_'' @ h)" by blast
  have "isApprovalRequestV1 r" unfolding r
    using hex64 [OF assms(1) c(2)] by (intro created_request_valid [OF assms(2) _ assms(3)]) (simp add: requestIdPattern_def)
  moreover have "js_wf r" unfolding r by (rule created_request_wf [OF assms(5)])
  ultimately have decide: "decideApprovalRequestV1 rt r human = decide_bound_request rt r human"
    using decide_request_eq [OF _ _ assms(6,7), of r rt] assms(8) by simp
  obtain k where "sha256_hex rt (approval_decision_id_input r human) = Some k"
    using sha256_availableD [OF assms(1)] by blast
  then show ?thesis unfolding decide decide_bound_request_def
    by (auto simp: r created_request_body c created_request_fields)
qed

lemma decided_request_identity:
  assumes "decideApprovalRequestV1 rt v human = Inr a" and "js_wf v"
  shows "\<exists>c h. canonicalizeJson (approvalRequestBody v) = Some c \<and> sha256_hex rt c = Some h
    \<and> fld v ''approval_request_id'' = JStr (js ''apr_'' @ h)
    \<and> js_data (approvalRequestBody v) \<and> js_wf (approvalRequestBody v)"
proof -
  from decide_request_InrD [OF assms] have v: "isApprovalRequestV1 v"
    and bound: "decide_bound_request rt v human = Inr a" by blast+
  have "js_isPlainObject v" using v by (simp add: isApprovalRequestV1_def)
  from request_body_data [OF this] approval_request_data [OF v assms(2)] assms(2) bound show ?thesis
    by (auto simp: decide_bound_request_def decision_hash_failure_def ae_failure_def
        split: option.splits if_splits)
qed

text \<open>
  A created request is decidable by another human: inside the window of the request,
  \<open>decideApprovalRequestV1\<close> recognises the identity of every request \<open>createApprovalRequestV1\<close>
  made, and answers with a decision, or with \<open>self_approval_forbidden\<close> exactly when the approver
  is the actor of the packet.
\<close>

theorem created_request_decidable:
  assumes "createApprovalRequestV1 rt v opts = Inr r" and "js_wf v" and "sha256_available rt"
    and "decision_options_ok human"
    and "parseCanonicalUtcTimestamp (as_str (fld human ''decided_at'')) = Some d" and "request_window r d"
  shows "if fld human ''approver_ref'' = fld v ''actor_ref''
    then \<exists>m. decideApprovalRequestV1 rt r human
      = Inl [createContractErrorV1 AD_self_approval_forbidden (js ''/approver_ref'') m]
    else \<exists>i. decideApprovalRequestV1 rt r human = Inr (approval_decision_object r human i)"
proof -
  from create_InrD [OF assms(1,2)] obtain t q where need: "approval_needed v"
    and t: "parseCanonicalUtcTimestamp t = Some q" and bound: "create_bound_request rt v t = Inr r" by blast
  from decidable_bound [OF assms(3) need t bound assms(2,4-6)] show ?thesis
    by (auto simp: ae_failure_def)
qed

definition sample_human_options :: jsval where
  "sample_human_options = obj [(''approver_ref'', jtext ''identity:human:h1''),
     (''approver_session_ref'', jtext ''session:s2''), (''decision'', jtext ''approved''),
     (''reason_code'', jtext ''approval.operator_approved''), (''decided_at'', jtext ''2026-01-02T03:04:08Z'')]"

lemma sample_human_options_ok: "decision_options_ok sample_human_options"
proof -
  have "hasExactKeys sample_human_options decisionOptionKeys"
    unfolding sample_human_options_def decisionOptionKeys_def by (rule obj_exact_keys) simp
  moreover have "humanIdentityRefPattern (js ''identity:human:h1'')"
    by (simp add: js_eval humanIdentityRefPattern_def rx_prefixed_def rx_ref_tail_def)
  moreover have "sessionRefPattern (js ''session:s2'')"
    by (simp add: js_eval sessionRefPattern_def rx_prefixed_def rx_ref_tail_def)
  ultimately show ?thesis
    by (simp add: decision_options_ok_def text_ok_def sample_human_options_def fld_obj jtext_def
        approvalReasonCodes_def deniedReasonCodes_def real_instant_text_def sample_decided)
qed

lemma sample_human_time:
  "parseCanonicalUtcTimestamp (as_str (fld sample_human_options ''decided_at'')) = Some 1767323048000"
  by (simp add: sample_human_options_def fld_obj jtext_def sample_decided)

lemma sample_created:
  obtains d r where "decidePacketEnvelopePolicyV1 sample_runtime sample_packet sample_options = Inr d" and
    "createApprovalRequestV1 sample_runtime (policy_decision_object d) sample_request_options = Inr r"
    and "js_wf (policy_decision_object d)" and "js_wf r" and "request_window r 1767323048000"
    and "fld (policy_decision_object d) ''actor_ref'' = jtext ''identity:agent:a1''"
proof -
  obtain d r where d: "decidePacketEnvelopePolicyV1 sample_runtime sample_packet sample_options = Inr d"
    and r: "createApprovalRequestV1 sample_runtime (policy_decision_object d) sample_request_options = Inr r"
    "js_wf (policy_decision_object d)" "fld (policy_decision_object d) ''actor_ref'' = jtext ''identity:agent:a1''"
    "as_str (fld (policy_decision_object d) ''expires_at'') = js ''2026-01-02T04:04:05Z''"
    by (rule sample_request)
  from create_InrD [OF r(1,2)] obtain t where t: "request_options sample_request_options t"
    and bound: "create_bound_request sample_runtime (policy_decision_object d) t = Inr r" by blast
  have "t = js ''2026-01-02T03:04:07Z''" using t sample_request_options_ok by (simp add: request_options_def)
  with create_bound_InrD [OF bound] obtain i where
    i: "r = created_request (policy_decision_object d) (js ''2026-01-02T03:04:07Z'') i" by blast
  have "request_window r 1767323048000"
    by (simp add: request_window_def i created_request_fields r(4) sample_requested sample_timestamps)
  from that [OF d r(1,2) _ this r(3)] created_request_wf [OF r(2)] i show ?thesis by blast
qed

theorem created_request_decidable_witness:
  "\<exists>v r i. createApprovalRequestV1 sample_runtime v sample_request_options = Inr r
    \<and> decideApprovalRequestV1 sample_runtime r sample_human_options
      = Inr (approval_decision_object r sample_human_options i)"
proof -
  obtain d r where r:
    "createApprovalRequestV1 sample_runtime (policy_decision_object d) sample_request_options = Inr r"
    "js_wf (policy_decision_object d)" "request_window r 1767323048000"
    "fld (policy_decision_object d) ''actor_ref'' = jtext ''identity:agent:a1''" by (rule sample_created)
  from created_request_decidable [OF r(1,2) sample_runtime_available sample_human_options_ok
      sample_human_time r(3)] r(1,4) show ?thesis
    by (auto simp: sample_human_options_def fld_obj jtext_def)
qed

lemma sample_approval:
  obtains d r a where "decideApprovalRequestV1 sample_runtime r sample_human_options = Inr a" and "js_wf r"
    and "decidePacketEnvelopePolicyV1 sample_runtime sample_packet sample_options = Inr d"
    and "createApprovalRequestV1 sample_runtime (policy_decision_object d) sample_request_options = Inr r"
proof -
  obtain d r where d: "decidePacketEnvelopePolicyV1 sample_runtime sample_packet sample_options = Inr d" and r:
    "createApprovalRequestV1 sample_runtime (policy_decision_object d) sample_request_options = Inr r"
    "js_wf (policy_decision_object d)" "js_wf r" "request_window r 1767323048000"
    "fld (policy_decision_object d) ''actor_ref'' = jtext ''identity:agent:a1''" by (rule sample_created)
  from create_InrD [OF r(1,2)] obtain t q where need: "approval_needed (policy_decision_object d)"
    and t: "parseCanonicalUtcTimestamp t = Some q"
    and bound: "create_bound_request sample_runtime (policy_decision_object d) t = Inr r" by blast
  have "fld sample_human_options ''approver_ref'' \<noteq> fld (policy_decision_object d) ''actor_ref''"
    by (simp add: r(5) sample_human_options_def fld_obj jtext_def)
  with decidable_bound [OF sample_runtime_available need t bound r(2) sample_human_options_ok
      sample_human_time r(4)] that [OF _ r(3) d r(1)] show ?thesis by auto
qed

text \<open>
  C6. What an approval decision guarantees: it answers a request that satisfies the contract and
  whose id is the SHA-256 identity of its own body, inside the window of the request; the
  approver is a human reference different from the requester; the gate is satisfied exactly by
  an approval, which carries the reason \<open>approval.operator_approved\<close>; and execution is never
  authorized by it.
\<close>

theorem approval_decision_guarantees:
  assumes "decideApprovalRequestV1 rt v human = Inr a" and "js_wf v"
  shows "isApprovalRequestV1 v
    \<and> (\<exists>c h. canonicalizeJson (approvalRequestBody v) = Some c \<and> sha256_hex rt c = Some h
         \<and> fld v ''approval_request_id'' = JStr (js ''apr_'' @ h))
    \<and> (\<exists>d. parseCanonicalUtcTimestamp (as_str (fld a ''decided_at'')) = Some d \<and> request_window v d)
    \<and> text_ok humanIdentityRefPattern (fld a ''approver_ref'')
    \<and> fld a ''approver_ref'' \<noteq> fld v ''requester_ref''
    \<and> fld a ''approval_gate_satisfied'' = JBool (fld a ''decision'' = jtext ''approved'')
    \<and> (fld a ''decision'' = jtext ''approved'') = (fld a ''reason_code'' = jtext ''approval.operator_approved'')
    \<and> fld a ''execution_authorized'' = JBool False"
proof -
  from decide_request_InrD [OF assms] obtain d where v: "isApprovalRequestV1 v"
    and o: "decision_options_ok human"
    and d: "parseCanonicalUtcTimestamp (as_str (fld human ''decided_at'')) = Some d" "request_window v d"
    and bound: "decide_bound_request rt v human = Inr a" by blast
  from bound obtain c h i where c: "canonicalizeJson (approvalRequestBody v) = Some c" "sha256_hex rt c = Some h"
    "fld v ''approval_request_id'' = JStr (js ''apr_'' @ h)"
    and neq: "fld human ''approver_ref'' \<noteq> fld v ''requester_ref''"
    and a: "a = approval_decision_object v human i"
    by (auto simp: decide_bound_request_def decision_hash_failure_def ae_failure_def
        split: option.splits if_splits)
  have fields: "fld a ''decided_at'' = fld human ''decided_at''" "fld a ''approver_ref'' = fld human ''approver_ref''"
    "fld a ''decision'' = fld human ''decision''" "fld a ''reason_code'' = fld human ''reason_code''"
    "fld a ''execution_authorized'' = JBool False"
    "fld a ''approval_gate_satisfied'' = JBool (fld human ''decision'' = jtext ''approved'')"
    by (simp_all add: a approval_decision_object_def fld_obj)
  have "(fld human ''decision'' = jtext ''approved'')
      = (fld human ''reason_code'' = jtext ''approval.operator_approved'')"
    using o by (auto simp: decision_options_ok_def text_ok_iff deniedReasonCodes_def jtext_def)
  then show ?thesis using v o c neq d by (simp add: fields decision_options_ok_def)
qed

theorem approval_decision_guarantees_witness:
  "\<exists>v a. decideApprovalRequestV1 sample_runtime v sample_human_options = Inr a \<and> isApprovalRequestV1 v
    \<and> (\<exists>c h. canonicalizeJson (approvalRequestBody v) = Some c \<and> sha256_hex sample_runtime c = Some h
         \<and> fld v ''approval_request_id'' = JStr (js ''apr_'' @ h))
    \<and> (\<exists>d. parseCanonicalUtcTimestamp (as_str (fld a ''decided_at'')) = Some d \<and> request_window v d)
    \<and> text_ok humanIdentityRefPattern (fld a ''approver_ref'')
    \<and> fld a ''approver_ref'' \<noteq> fld v ''requester_ref''
    \<and> fld a ''approval_gate_satisfied'' = JBool (fld a ''decision'' = jtext ''approved'')
    \<and> (fld a ''decision'' = jtext ''approved'') = (fld a ''reason_code'' = jtext ''approval.operator_approved'')
    \<and> fld a ''execution_authorized'' = JBool False"
proof -
  obtain r a where "decideApprovalRequestV1 sample_runtime r sample_human_options = Inr a" "js_wf r"
    by (rule sample_approval)
  from approval_decision_guarantees [OF this] this(1) show ?thesis by blast
qed

text \<open>
  The identity of a request binds its body: when two requests with one
  \<open>approval_request_id\<close> are both decided, their bodies have the same content, or SHA-256 maps two
  different canonical bodies to one digest.
\<close>

theorem request_id_binds_body:
  assumes "decideApprovalRequestV1 rt v human = Inr a" and "decideApprovalRequestV1 rt w human' = Inr b"
    and "js_wf v" and "js_wf w" and "fld v ''approval_request_id'' = fld w ''approval_request_id''"
  shows "same_content (approvalRequestBody v) (approvalRequestBody w)
    \<or> (\<exists>s t. canonicalizeJson (approvalRequestBody v) = Some s \<and> canonicalizeJson (approvalRequestBody w) = Some t
        \<and> digest_collision rt (utf8_encode s) (utf8_encode t))"
proof -
  note id = decided_request_identity
  from id [OF assms(1,3)] obtain s h where s: "canonicalizeJson (approvalRequestBody v) = Some s"
    "sha256_hex rt s = Some h" "fld v ''approval_request_id'' = JStr (js ''apr_'' @ h)"
    "js_data (approvalRequestBody v)" "js_wf (approvalRequestBody v)" by blast
  from id [OF assms(2,4)] obtain t k where t: "canonicalizeJson (approvalRequestBody w) = Some t"
    "sha256_hex rt t = Some k" "fld w ''approval_request_id'' = JStr (js ''apr_'' @ k)"
    "js_data (approvalRequestBody w)" "js_wf (approvalRequestBody w)" by blast
  have "k = h" using assms(5) s(3) t(3) by simp
  with approval_text.canon_digest_binds [OF s(1) t(1) s(2) _ s(4,5) t(4,5)] s t show ?thesis by blast
qed

theorem request_id_binds_body_witness:
  "\<exists>v a. decideApprovalRequestV1 sample_runtime v sample_human_options = Inr a
    \<and> (same_content (approvalRequestBody v) (approvalRequestBody v)
    \<or> (\<exists>s t. canonicalizeJson (approvalRequestBody v) = Some s \<and> canonicalizeJson (approvalRequestBody v) = Some t
        \<and> digest_collision sample_runtime (utf8_encode s) (utf8_encode t)))"
proof -
  obtain r a where "decideApprovalRequestV1 sample_runtime r sample_human_options = Inr a" "js_wf r"
    by (rule sample_approval)
  from request_id_binds_body [OF this(1) this(1) this(2) this(2) refl] this(1) show ?thesis by blast
qed

text \<open>
  The approval component writes canonical text with code of its own, and it agrees with the
  packets package: on values made of plain objects the two functions give the same text or both
  fail, and the approval one refuses every other value.
\<close>

theorem canonicalizers_agree:
  "canonicalizeJson v = (if js_plain v then canonical_text v else None)"
proof (cases "js_plain v \<and> js_json_domain v")
  case True
  then obtain j where "jsonable v j" using jsonable_domain [of v] by blast
  then show ?thesis using approval_text.canon_plain [of v j] packet_text.canon_plain [of v j] True by simp
next
  case False
  then have "canonicalizeJson v = None" using canonicalizeJson_SomeD [of v] by (cases "canonicalizeJson v") auto
  moreover have "canonical_text v = None" if "js_plain v"
  proof (cases "canonical_text v")
    case (Some t)
    then show ?thesis using packet_text.canon_text [OF Some] jsonable_domain [of v] False that by blast
  qed simp
  ultimately show ?thesis by simp
qed

end
