(* ===== verification/Execution_Properties.thy ===== *)
theory Execution_Properties
  imports Execution_Laws Approval_Properties
begin

text \<open>
  The properties of the execution requests: what a derivation guarantees, what its digests bind,
  that it depends only on the canonical text of the packet, and that a packet approved through
  the policy and approval components becomes a request.
\<close>

section \<open>Derivations\<close>

lemma window_valid_iff:
  "window_valid a b \<longleftrightarrow>
     (\<exists>s e. parseCanonicalUtcTimestamp a = Some s \<and> parseCanonicalUtcTimestamp b = Some e \<and> s < e)"
  by (auto simp: window_valid_def utc_parsers_agree split: option.splits)

text \<open>A derivation on a well-formed packet: the record of the packet, the proposal, and that all is JSON.\<close>

lemma derive_parts:
  assumes "deriveExecutionRequestV1 rt input = Inr d" and "js_wf (xi_packet input)"
  obtains r p where "packet_shape (xi_packet input) r" and "packet_rules r"
    and "parseExecutionProposalV1 rt (xi_packet input) = Inr p" and "xd_request d = execution_request input p"
    and "canonical_copy rt (xp_arguments p)" and "canonical_copy rt (xp_identity p)"
proof -
  obtain p where p: "hashPacketEnvelopeV1 rt (xi_packet input) = Inr (xi_packet_sha256 input)"
    "parseExecutionProposalV1 rt (xi_packet input) = Inr p" "xd_request d = execution_request input p"
    using derive_facts [OF assms(1)] by metis
  obtain r where "packet_shape (xi_packet input) r" "packet_rules r" by (rule hashed_packet_shape [OF p(1)])
  then show ?thesis using that p parse_proposal_facts(3) [OF p(2) assms(2)] by blast
qed

lemma packet_id_texts:
  "packet_shape v r \<Longrightarrow> fld v ''packet_id'' = JStr (pe_packet_id r)"
  "packet_shape v r \<Longrightarrow> fld v ''project_ref'' = JStr (pe_project_ref r)"
  by (simp_all add: packet_shape_def)

lemma json_text: "json_value v \<Longrightarrow> \<exists>t. canonicalizeJsonValue v = Inr t"
  by (auto simp: json_value_def canonicalizeJsonValue_def jsonable_def)

lemma sha256Bytes_total: "sha256_available rt \<Longrightarrow> \<exists>h. sha256Bytes rt bs = Some h"
  by (fastforce simp: sha256_available_def sha256Bytes_def)

lemma domainDigest_total:
  "sha256_available rt \<Longrightarrow> json_value v \<Longrightarrow> \<exists>h. domainDigest rt domain v = Some h"
  using json_text [of v] sha256Bytes_total [of rt] by (auto simp: domainDigest_def sha256_available_def)

lemma derive_total:
  assumes "hashPacketEnvelopeV1 rt (xi_packet input) = Inr (xi_packet_sha256 input)"
    and "chain_ok (xi_packet_sha256 input) input"
    and "window_valid (xi_prepared_at input) (xi_expires_at input)"
    and "parseExecutionProposalV1 rt (xi_packet input) = Inr p"
    and "js_wf (xi_packet input)" and "sha256_available rt"
  shows "\<exists>d. deriveExecutionRequestV1 rt input = Inr d \<and> xd_request d = execution_request input p"
proof -
  obtain r where r: "packet_shape (xi_packet input) r" by (rule hashed_packet_shape [OF assms(1)])
  have copies: "canonical_copy rt (xp_arguments p)" "canonical_copy rt (xp_identity p)"
    using parse_proposal_facts(3) [OF assms(4,5)] by blast+
  obtain t where "canonicalizeJsonValue (execution_request input p) = Inr t"
    using json_text [OF json_value_request [OF copies packet_id_texts [OF r]]] by blast
  moreover obtain a where "domainDigest rt ACTION_DIGEST_DOMAIN_V1 (execution_action p) = Some a"
    using domainDigest_total [OF assms(6) json_value_action [OF copies(1)]] by blast
  moreover obtain b where "domainDigest rt TARGET_DIGEST_DOMAIN_V1 (execution_target p) = Some b"
    using domainDigest_total [OF assms(6) json_value_target [OF copies(2)]] by blast
  moreover obtain h where "sha256Text rt t = Some h"
    using sha256Bytes_total [OF assms(6)] assms(6) by (auto simp: sha256Text_def sha256_available_def)
  ultimately show ?thesis using assms(1-4) by (simp add: deriveExecutionRequestV1_def derive_digests_def)
qed

section \<open>Digests\<close>

lemma canonical_well_formed: "canonicalizeJsonValue v = Inr t \<Longrightarrow> well_formed_utf16 t"
  using packet_text.canon_well_formed canonical_text_iff by blast

text \<open>Equal digests in one domain come from one content, or from a collision of the framed bytes.\<close>

lemma domainDigest_SomeD:
  "domainDigest rt domain v = Some h \<Longrightarrow>
     \<exists>t. canonicalizeJsonValue v = Inr t \<and> sha256Bytes rt (framed_bytes domain (utf8_encode t)) = Some h"
  by (auto simp: domainDigest_def split: if_splits sum.splits)

lemma domainDigest_inject:
  assumes "domainDigest rt domain v = Some h" and "domainDigest rt domain w = Some h"
    and "json_value v" and "json_value w"
  shows "same_content v w \<or> (\<exists>s t. canonicalizeJsonValue v = Inr s \<and> canonicalizeJsonValue w = Inr t
    \<and> digest_collision rt (framed_bytes domain (utf8_encode s)) (framed_bytes domain (utf8_encode t)))"
proof -
  from domainDigest_SomeD [OF assms(1)] domainDigest_SomeD [OF assms(2)] obtain s t where
    s: "canonicalizeJsonValue v = Inr s" "sha256Bytes rt (framed_bytes domain (utf8_encode s)) = Some h" and
    t: "canonicalizeJsonValue w = Inr t" "sha256Bytes rt (framed_bytes domain (utf8_encode t)) = Some h" by blast
  from sha256Bytes_inject [OF s(2) t(2)] show ?thesis
  proof
    assume "framed_bytes domain (utf8_encode s) = framed_bytes domain (utf8_encode t)"
    then have "s = t"
      using framed_bytes_inject utf8_encode_inject [OF canonical_well_formed [OF s(1)] canonical_well_formed [OF t(1)]]
      by blast
    then show ?thesis using same_text_content [OF assms(3,4) s(1)] t(1) by simp
  qed (use s t in blast)
qed

section \<open>The sample\<close>

lemma er_well_formed_iff: "er_isWellFormedUnicode s \<longleftrightarrow> well_formed_utf16 s"
  by (induction s rule: er_isWellFormedUnicode.induct) auto

lemma index_of_unit_js:
  "index_of_unit u (js []) = None"
  "index_of_unit u (js (c # cs)) = (if of_char c = u then Some 0 else map_option Suc (index_of_unit u (js cs)))"
  by (simp_all add: js_def)

lemmas execution_eval = isValidReferenceV1_def er_well_formed_iff index_of_unit_js some_in_class_def js_eval

lemma sample_execution_references:
  "isValidReferenceV1 (js ''service:api'')" "isValidReferenceV1 (js ''adapter:d1'')"
  "isValidReferenceV1 (js ''identity:agent:a1'')" "isValidReferenceV1 (js ''session:s1'')"
  "isValidReferenceV1 (js ''identity:human:h1'')" "isValidReferenceV1 (js ''session:s2'')"
  by (simp_all add: execution_eval)

lemma sample_digest_ok: "isLowercaseSha256 (jtext sample_digest)"
  by (simp add: sample_digest_def jtext_def js_eval rx_hex64_def numeral_nat)

lemma sample_proposal_ok:
  "proposal_header_ok sample_proposal" "proposal_fields_ok sample_packet sample_proposal"
proof -
  have parts: "fld sample_proposal ''action'' = obj [(''kind'', jtext ''deploy''), (''arguments'', obj [(''replicas'', jint 2)])]"
    "fld sample_proposal ''target'' = obj [(''resource_ref'', jtext ''service:api''),
       (''identity'', obj [(''region'', jtext ''eu'')])]"
    "fld sample_proposal ''adapter'' = obj [(''ref'', jtext ''adapter:d1''), (''version'', jtext ''1.0'')]"
    "fld sample_proposal ''configuration_digest'' = jtext sample_digest"
    "fld sample_proposal ''executable_digest'' = jtext sample_digest"
    "fld sample_proposal ''audience'' = jtext ''service:api''"
    by (simp_all add: sample_proposal_def fld_obj)
  show "proposal_header_ok sample_proposal"
    by (simp add: proposal_header_ok_def asObject_None er_hasExactKeys_def proposalKeys_def sample_proposal_def fld_obj
        proposal_schema_id_def derivation_profile_def) (simp add: obj_def js_has_def)
  have "action_ok (fld sample_proposal ''action'')"
    by (simp add: parts action_ok_def asObject_None er_hasExactKeys_def fld_obj execution_eval js_has_def)
  moreover have "target_ok sample_packet (fld sample_proposal ''target'')"
    using sample_execution_references
    by (simp add: parts target_ok_def asObject_None er_hasExactKeys_def fld_obj sample_packet_def literal_eval js_has_def)
  moreover have "isAdapterVersion (jtext ''1.0'')" and "64 \<notin> set (js ''adapter:d1'')"
    by (simp add: js_eval, simp add: js_def)
  then have "adapter_ok (fld sample_proposal ''adapter'')"
    using sample_execution_references
    by (simp add: parts adapter_ok_def asObject_None er_hasExactKeys_def fld_obj literal_eval js_has_def)
  ultimately show "proposal_fields_ok sample_packet sample_proposal"
    using sample_digest_ok sample_execution_references by (simp add: proposal_fields_ok_def parts jtext_def)
qed

lemma sample_clones:
  obtains c e where "cloneCanonicalObject sample_runtime (obj [(''replicas'', jint 2)]) = Some c"
    and "cloneCanonicalObject sample_runtime (obj [(''region'', jtext ''eu'')]) = Some e"
proof -
  have "js_data (obj [(''replicas'', jint 2)])" "js_wf (obj [(''replicas'', jint 2)])"
    "js_data (obj [(''region'', jtext ''eu'')])" "js_wf (obj [(''region'', jtext ''eu'')])"
    by (simp_all add: literal_eval max_safe_integer_def)
  then show ?thesis using clone_object [of "obj [(''replicas'', jint 2)]" sample_runtime]
      clone_object [of "obj [(''region'', jtext ''eu'')]" sample_runtime] that by blast
qed

lemma sample_parses:
  obtains p where "parseExecutionProposalV1 sample_runtime sample_packet = Inr p"
proof -
  obtain c e where clones: "cloneCanonicalObject sample_runtime (obj [(''replicas'', jint 2)]) = Some c"
    "cloneCanonicalObject sample_runtime (obj [(''region'', jtext ''eu'')]) = Some e" by (rule sample_clones)
  have place: "fld (fld sample_packet ''constraints'') ''execution_proposal'' = sample_proposal"
    "js_has (fld sample_packet ''constraints'') (js ''execution_proposal'')"
    by (simp_all add: sample_packet_def sample_constraints_def fld_obj) (simp add: js_has_def literal_eval)
  have parts: "fld (fld sample_proposal ''action'') ''arguments'' = obj [(''replicas'', jint 2)]"
    "fld (fld sample_proposal ''target'') ''identity'' = obj [(''region'', jtext ''eu'')]"
    by (simp_all add: sample_proposal_def fld_obj)
  have canonical: "isCanonicalJsonObject (obj [(''replicas'', jint 2)])"
    "isCanonicalJsonObject (obj [(''region'', jtext ''eu'')])"
    by (simp_all add: literal_eval er_well_formed_iff max_safe_integer_def)
  show ?thesis
    by (rule that) (simp add: parseExecutionProposalV1_def place parts canonical clones sample_proposal_ok
        asObject_None Let_def)
qed

text \<open>The input of a derivation on a packet with the evidence of its approval chain, at a time of the caller.\<close>

definition chain_input :: "jsval \<Rightarrow> jsval \<Rightarrow> jsval \<Rightarrow> jstr \<Rightarrow> execution_request_input" where
  "chain_input packet request approval prepared_at =
     \<lparr>xi_packet = packet,
      xi_packet_sha256 = as_str (fld (fld request ''policy_decision_ref'') ''packet_hash''),
      xi_policy_decision_id = as_str (fld (fld request ''policy_decision_ref'') ''decision_id''),
      xi_approval_request_id = as_str (fld request ''approval_request_id''),
      xi_approval_decision_id = as_str (fld approval ''approval_decision_id''),
      xi_requester_ref = as_str (fld request ''requester_ref''),
      xi_requester_session_ref = as_str (fld request ''session_ref''),
      xi_approver_ref = as_str (fld approval ''approver_ref''),
      xi_approver_session_ref = as_str (fld approval ''approver_session_ref''),
      xi_prepared_at = prepared_at,
      xi_expires_at = as_str (fld request ''expires_at'')\<rparr>"

definition chain_references_ok :: "jsval \<Rightarrow> jsval \<Rightarrow> bool" where
  "chain_references_ok request approval \<longleftrightarrow> list_all isValidReferenceV1
     [as_str (fld request ''requester_ref''), as_str (fld request ''session_ref''),
      as_str (fld approval ''approver_ref''), as_str (fld approval ''approver_session_ref'')]"

text \<open>The ids and instants of a decided request pass the checks of the derivation.\<close>

lemma decided_request_facts:
  assumes "decideApprovalRequestV1 rt r human = Inr a" and "js_wf r" and "sha256_available rt"
  shows "rx_hex64 ''apr_'' (as_str (fld r ''approval_request_id''))"
    and "rx_hex64 ''pol_'' (as_str (fld (fld r ''policy_decision_ref'') ''decision_id''))"
    and "rx_hex64 ''apd_'' (as_str (fld a ''approval_decision_id''))"
    and "window_valid (as_str (fld a ''decided_at'')) (as_str (fld r ''expires_at''))"
proof -
  from decide_request_InrD [OF assms(1,2)] obtain d where r: "isApprovalRequestV1 r"
    and d: "parseCanonicalUtcTimestamp (as_str (fld human ''decided_at'')) = Some d" "request_window r d"
    and bound: "decide_bound_request rt r human = Inr a" by blast
  show "rx_hex64 ''apr_'' (as_str (fld r ''approval_request_id''))"
    "rx_hex64 ''pol_'' (as_str (fld (fld r ''policy_decision_ref'') ''decision_id''))"
    using r by (auto simp: isApprovalRequestV1_def isApprovalPolicyDecisionRef_def text_ok_iff requestIdPattern_def
        decisionIdPattern_def)
  from bound obtain hex where hex: "sha256_hex rt (approval_decision_id_input r human) = Some hex"
    and a: "a = approval_decision_object r human (js ''apd_'' @ hex)"
    by (auto simp: decide_bound_request_def decision_hash_failure_def ae_failure_def
        split: option.splits if_splits)
  show "rx_hex64 ''apd_'' (as_str (fld a ''approval_decision_id''))"
    using hex64 [OF assms(3) hex] by (simp add: a approval_decision_object_def fld_obj)
  show "window_valid (as_str (fld a ''decided_at'')) (as_str (fld r ''expires_at''))"
    using d by (auto simp: a approval_decision_object_def fld_obj window_valid_iff request_window_def)
qed

text \<open>A request created from a decision names the hash of the packet that was decided.\<close>

lemma created_request_hash:
  assumes "decidePacketEnvelopePolicyV1 rt p options = Inr d" and "js_wf p"
    and "createApprovalRequestV1 rt (policy_decision_object d) opts = Inr r"
  shows "hashPacketEnvelopeV1 rt p = Inr (as_str (fld (fld r ''policy_decision_ref'') ''packet_hash''))"
    and "js_wf r"
proof -
  note wf = policy_object_wf [OF assms(1,2)]
  from decide_InrD [OF assms(1,2)] obtain rec h i t where h: "hashPacketEnvelopeV1 rt p = Inr h"
    and d: "d = policy_decision_of rec h i t" by blast
  from create_InrD [OF assms(3) wf] obtain u where "create_bound_request rt (policy_decision_object d) u = Inr r" by blast
  from create_bound_InrD [OF this] obtain j where r: "r = created_request (policy_decision_object d) u j" by blast
  show "hashPacketEnvelopeV1 rt p = Inr (as_str (fld (fld r ''policy_decision_ref'') ''packet_hash''))"
    using h by (simp add: r created_request_fields fld_obj decision_object_fields d policy_decision_of_def)
  show "js_wf r" unfolding r by (rule created_request_wf [OF wf])
qed

lemma chain_derives:
  assumes "decidePacketEnvelopePolicyV1 rt p options = Inr d" and "js_wf p" and "sha256_available rt"
    and "createApprovalRequestV1 rt (policy_decision_object d) opts = Inr r"
    and "decideApprovalRequestV1 rt r human = Inr a" and "chain_references_ok r a"
    and "parseExecutionProposalV1 rt p = Inr x" and "window_valid t (as_str (fld r ''expires_at''))"
  shows "\<exists>e. deriveExecutionRequestV1 rt (chain_input p r a t) = Inr e
    \<and> xd_request e = execution_request (chain_input p r a t) x"
proof (rule derive_total)
  note hash = created_request_hash [OF assms(1,2,4)]
  note facts = decided_request_facts [OF assms(5) hash(2) assms(3)]
  show "hashPacketEnvelopeV1 rt (xi_packet (chain_input p r a t)) = Inr (xi_packet_sha256 (chain_input p r a t))"
    using hash(1) by (simp add: chain_input_def)
  obtain s k where "sha256_hex rt s = Some k"
    "as_str (fld (fld r ''policy_decision_ref'') ''packet_hash'') = js ''sha256:'' @ k"
    using packet_hash_text [OF hash(1) assms(2)] by blast
  then have "rx_hex64 ''sha256:'' (as_str (fld (fld r ''policy_decision_ref'') ''packet_hash''))"
    using hex64 [OF assms(3)] by simp
  then show "chain_ok (xi_packet_sha256 (chain_input p r a t)) (chain_input p r a t)"
    using facts assms(6) by (simp add: chain_ok_def chain_input_def chain_references_ok_def)
  show "window_valid (xi_prepared_at (chain_input p r a t)) (xi_expires_at (chain_input p r a t))"
    using assms(8) by (simp add: chain_input_def)
qed (use assms in \<open>simp_all add: chain_input_def\<close>)

text \<open>The parties of the chain are the actor of the packet and another human.\<close>

lemma chain_parties:
  assumes "decidePacketEnvelopePolicyV1 rt p options = Inr d" and "js_wf p"
    and "createApprovalRequestV1 rt (policy_decision_object d) opts = Inr r"
    and "decideApprovalRequestV1 rt r human = Inr a"
  shows "xi_packet_sha256 (chain_input p r a t) = pd_packet_hash d"
    and "xi_policy_decision_id (chain_input p r a t) = pd_decision_id d"
    and "xi_requester_ref (chain_input p r a t) = pd_actor_ref d"
    and "xi_approver_ref (chain_input p r a t) \<noteq> pd_actor_ref d"
proof -
  note wf = policy_object_wf [OF assms(1,2)]
  from create_InrD [OF assms(3) wf] obtain u where "create_bound_request rt (policy_decision_object d) u = Inr r" by blast
  from create_bound_InrD [OF this] obtain j where r: "r = created_request (policy_decision_object d) u j" by blast
  from decide_request_InrD [OF assms(4)] created_request_wf [OF wf] have o: "decision_options_ok human"
    and bound: "decide_bound_request rt r human = Inr a" unfolding r by blast+
  obtain i where neq: "fld human ''approver_ref'' \<noteq> fld r ''requester_ref''"
    and a: "a = approval_decision_object r human i"
    using bound by (auto simp: decide_bound_request_def decision_hash_failure_def ae_failure_def
        split: option.splits if_splits)
  obtain s where "fld human ''approver_ref'' = JStr s" using o by (auto simp: decision_options_ok_def text_ok_iff)
  then show "xi_packet_sha256 (chain_input p r a t) = pd_packet_hash d"
    "xi_policy_decision_id (chain_input p r a t) = pd_decision_id d"
    "xi_requester_ref (chain_input p r a t) = pd_actor_ref d" "xi_approver_ref (chain_input p r a t) \<noteq> pd_actor_ref d"
    using neq by (simp_all add: chain_input_def a r created_request_fields fld_obj decision_object_fields
        approval_decision_object_def)
qed

lemma sample_chain:
  obtains d r a where "decidePacketEnvelopePolicyV1 sample_runtime sample_packet sample_options = Inr d"
    and "createApprovalRequestV1 sample_runtime (policy_decision_object d) sample_request_options = Inr r"
    and "decideApprovalRequestV1 sample_runtime r sample_human_options = Inr a"
    and "chain_references_ok r a"
proof -
  obtain d r a where a: "decideApprovalRequestV1 sample_runtime r sample_human_options = Inr a" "js_wf r"
    and d: "decidePacketEnvelopePolicyV1 sample_runtime sample_packet sample_options = Inr d"
    and r: "createApprovalRequestV1 sample_runtime (policy_decision_object d) sample_request_options = Inr r"
    by (rule sample_approval)
  from decide_request_InrD [OF a] obtain i where "a = approval_decision_object r sample_human_options i"
    by (auto simp: decide_bound_request_def decision_hash_failure_def ae_failure_def
        split: option.splits if_splits)
  moreover from decide_InrD [OF d sample_wf] obtain rec h j t where
    "packet_shape sample_packet rec" and dd: "d = policy_decision_of rec h j t" by blast
  then have "rec = sample_record" using packet_shape_unique sample_shape by blast
  moreover from create_InrD [OF r policy_object_wf [OF d sample_wf]] obtain u where
    "create_bound_request sample_runtime (policy_decision_object d) u = Inr r" by blast
  then obtain k where "r = created_request (policy_decision_object d) u k" using create_bound_InrD by blast
  ultimately have "chain_references_ok r a"
    by (simp add: chain_references_ok_def created_request_fields approval_decision_object_def fld_obj
        sample_human_options_def jtext_def sample_execution_references policy_decision_object_def dd
        policy_decision_of_def sample_record_def)
  with that d r a show ?thesis by blast
qed

lemma sample_approved:
  assumes "decideApprovalRequestV1 sample_runtime r sample_human_options = Inr a" and "js_wf r"
  shows "fld a ''decision'' = jtext ''approved''"
proof -
  from decide_request_InrD [OF assms] obtain i where "a = approval_decision_object r sample_human_options i"
    by (auto simp: decide_bound_request_def decision_hash_failure_def ae_failure_def split: option.splits if_splits)
  then show ?thesis by (simp add: approval_decision_object_def sample_human_options_def fld_obj)
qed

lemma sample_derivation:
  obtains input d where "deriveExecutionRequestV1 sample_runtime input = Inr d" and "xi_packet input = sample_packet"
proof -
  obtain d r a where chain: "decidePacketEnvelopePolicyV1 sample_runtime sample_packet sample_options = Inr d"
    "createApprovalRequestV1 sample_runtime (policy_decision_object d) sample_request_options = Inr r"
    "decideApprovalRequestV1 sample_runtime r sample_human_options = Inr a" "chain_references_ok r a"
    by (rule sample_chain)
  obtain p where p: "parseExecutionProposalV1 sample_runtime sample_packet = Inr p" by (rule sample_parses)
  note window = decided_request_facts(4) [OF chain(3) created_request_hash(2) [OF chain(1) sample_wf chain(2)] sample_runtime_available]
  have "xi_packet (chain_input sample_packet r a t) = sample_packet" for t by (simp add: chain_input_def)
  with that chain_derives [OF chain(1) sample_wf sample_runtime_available chain(2-4) p window] show ?thesis by blast
qed

section \<open>Properties\<close>

text \<open>
  C7. What a derived request guarantees: the packet satisfies the envelope contract and its hash is
  the one the approval chain names; the ids have the form of the three identities; the validity
  window consists of two real instants in order; the target is one of the resources the packet
  declares, so an approval never reaches a resource outside it; the digests of the proposal are
  SHA-256 texts; and the request is the one of the proposal, its digest the SHA-256 of its canonical
  text.
\<close>

theorem derivation_guarantees:
  assumes "deriveExecutionRequestV1 rt input = Inr d"
  shows "\<exists>r p s e. packet_shape (xi_packet input) r \<and> packet_rules r
    \<and> hashPacketEnvelopeV1 rt (xi_packet input) = Inr (xi_packet_sha256 input)
    \<and> rx_hex64 ''pol_'' (xi_policy_decision_id input) \<and> rx_hex64 ''apr_'' (xi_approval_request_id input)
    \<and> rx_hex64 ''apd_'' (xi_approval_decision_id input)
    \<and> parseCanonicalUtcTimestamp (xi_prepared_at input) = Some s
    \<and> parseCanonicalUtcTimestamp (xi_expires_at input) = Some e \<and> s < e
    \<and> parseExecutionProposalV1 rt (xi_packet input) = Inr p
    \<and> xp_resource_ref p \<in> set (pe_resource_refs r)
    \<and> rx_hex64 ''sha256:'' (xd_configuration_digest d) \<and> rx_hex64 ''sha256:'' (xd_executable_digest d)
    \<and> xd_request d = execution_request input p
    \<and> canonicalizeJsonValue (xd_request d) = Inr (xd_canonical_request d)
    \<and> sha256Text rt (xd_canonical_request d) = Some (xd_request_digest d)"
proof -
  obtain p where p: "hashPacketEnvelopeV1 rt (xi_packet input) = Inr (xi_packet_sha256 input)"
    "chain_ok (xi_packet_sha256 input) input" "window_valid (xi_prepared_at input) (xi_expires_at input)"
    "parseExecutionProposalV1 rt (xi_packet input) = Inr p" "xd_request d = execution_request input p"
    "canonicalizeJsonValue (xd_request d) = Inr (xd_canonical_request d)"
    "sha256Text rt (xd_canonical_request d) = Some (xd_request_digest d)"
    "xd_configuration_digest d = xp_configuration_digest p" "xd_executable_digest d = xp_executable_digest p"
    using derive_facts [OF assms] by metis
  obtain r where r: "packet_shape (xi_packet input) r" "packet_rules r" by (rule hashed_packet_shape [OF p(1)])
  let ?x = "fld (fld (xi_packet input) ''constraints'') ''execution_proposal''"
  have texts: "xp_resource_ref p = as_str (fld (fld ?x ''target'') ''resource_ref'')"
    "xp_configuration_digest p = as_str (fld ?x ''configuration_digest'')"
    "xp_executable_digest p = as_str (fld ?x ''executable_digest'')"
    using p(4) by (auto simp: parseExecutionProposalV1_def Let_def split: if_splits option.splits)
  have fields: "proposal_fields_ok (xi_packet input) ?x" by (rule parse_proposal_facts(2) [OF p(4)])
  have digest: "rx_hex64 ''sha256:'' (as_str v)" if "isLowercaseSha256 v" for v
    using that by (cases v) simp_all
  have "xp_resource_ref p \<in> set (pe_resource_refs r)"
    using fields r(1) by (auto simp: proposal_fields_ok_def target_ok_def texts packet_shape_def)
  moreover have "rx_hex64 ''sha256:'' (xp_configuration_digest p)" "rx_hex64 ''sha256:'' (xp_executable_digest p)"
    using fields digest by (simp_all add: proposal_fields_ok_def texts)
  moreover obtain s e where "parseCanonicalUtcTimestamp (xi_prepared_at input) = Some s"
    "parseCanonicalUtcTimestamp (xi_expires_at input) = Some e" "s < e" using p(3) by (auto simp: window_valid_iff)
  ultimately show ?thesis using p r unfolding p(8,9) chain_ok_def by blast
qed

theorem derivation_guarantees_witness:
  "\<exists>input d r p s e. deriveExecutionRequestV1 sample_runtime input = Inr d \<and> packet_shape (xi_packet input) r
    \<and> parseCanonicalUtcTimestamp (xi_prepared_at input) = Some s
    \<and> parseCanonicalUtcTimestamp (xi_expires_at input) = Some e \<and> s < e
    \<and> parseExecutionProposalV1 sample_runtime (xi_packet input) = Inr p
    \<and> xp_resource_ref p \<in> set (pe_resource_refs r) \<and> xd_request d = execution_request input p"
proof -
  obtain input d where d: "deriveExecutionRequestV1 sample_runtime input = Inr d" by (rule sample_derivation)
  from derivation_guarantees [OF d] d show ?thesis by blast
qed

text \<open>
  C16. The request digest binds the whole request: two derivations with one request digest produced
  the same request (packet, decision, approval and parties, action, target, adapter, digests,
  audience and window), or two different canonical texts have one SHA-256 digest.
\<close>

theorem request_digest_binds_request:
  assumes "deriveExecutionRequestV1 rt input = Inr d" and "deriveExecutionRequestV1 rt input' = Inr d'"
    and "js_wf (xi_packet input)" and "js_wf (xi_packet input')"
    and "xd_request_digest d = xd_request_digest d'"
  shows "xd_request d = xd_request d'
    \<or> digest_collision rt (utf8_encode (xd_canonical_request d)) (utf8_encode (xd_canonical_request d'))"
proof -
  obtain r p where r: "packet_shape (xi_packet input) r" "xd_request d = execution_request input p"
    and p: "canonical_copy rt (xp_arguments p)" "canonical_copy rt (xp_identity p)"
    using derive_parts [OF assms(1,3)] by metis
  obtain s q where s: "packet_shape (xi_packet input') s" "xd_request d' = execution_request input' q"
    and q: "canonical_copy rt (xp_arguments q)" "canonical_copy rt (xp_identity q)"
    using derive_parts [OF assms(2,4)] by metis
  have canon: "canonicalizeJsonValue (xd_request d) = Inr (xd_canonical_request d)"
    "sha256Text rt (xd_canonical_request d) = Some (xd_request_digest d)" using derive_facts [OF assms(1)] by metis+
  have canon': "canonicalizeJsonValue (xd_request d') = Inr (xd_canonical_request d')"
    "sha256Text rt (xd_canonical_request d') = Some (xd_request_digest d')" using derive_facts [OF assms(2)] by metis+
  have "sha256Bytes rt (utf8_encode (xd_canonical_request d)) = Some (xd_request_digest d)"
    "sha256Bytes rt (utf8_encode (xd_canonical_request d')) = Some (xd_request_digest d)"
    using canon(2) canon'(2) assms(5) by (simp_all add: sha256Text_def split: if_splits)
  from sha256Bytes_inject [OF this] show ?thesis
  proof
    assume "utf8_encode (xd_canonical_request d) = utf8_encode (xd_canonical_request d')"
    then have same: "xd_canonical_request d = xd_canonical_request d'"
      using utf8_encode_inject [OF canonical_well_formed [OF canon(1)] canonical_well_formed [OF canon'(1)]] by simp
    have "same_content (xd_request d) (xd_request d')"
      using same_text_content [OF json_value_request [OF p packet_id_texts [OF r(1)]]
          json_value_request [OF q packet_id_texts [OF s(1)]]] canon(1) canon'(1) r(2) s(2) same by simp
    then show ?thesis
      using same_request [OF _ p q packet_id_texts [OF r(1)] packet_id_texts [OF s(1)]] r(2) s(2) by simp
  qed blast
qed

theorem request_digest_binds_request_witness:
  "\<exists>input d. deriveExecutionRequestV1 sample_runtime input = Inr d \<and> (xd_request d = xd_request d
    \<or> digest_collision sample_runtime (utf8_encode (xd_canonical_request d)) (utf8_encode (xd_canonical_request d)))"
proof -
  obtain input d where d: "deriveExecutionRequestV1 sample_runtime input = Inr d" "xi_packet input = sample_packet"
    by (rule sample_derivation)
  from request_digest_binds_request [OF d(1) d(1) _ _ refl] d sample_wf show ?thesis by auto
qed

text \<open>
  C17. Actions and targets are digested in separate domains: two derivations with one action digest
  have the same action, and the action digest of one derivation is never the target digest of
  another; each time, unless SHA-256 maps the two framed canonical texts, which differ, to one
  digest.
\<close>

theorem action_digest_binds_action:
  assumes "deriveExecutionRequestV1 rt input = Inr d" and "deriveExecutionRequestV1 rt input' = Inr d'"
    and "js_wf (xi_packet input)" and "js_wf (xi_packet input')"
    and "xd_action_digest d = (if same_domain then xd_action_digest d' else xd_target_digest d')"
  shows "same_domain \<and> fld (xd_request d) ''action'' = fld (xd_request d') ''action''
    \<or> (\<exists>s t. canonicalizeJsonValue (fld (xd_request d) ''action'') = Inr s
        \<and> canonicalizeJsonValue (fld (xd_request d') (if same_domain then ''action'' else ''target'')) = Inr t
        \<and> digest_collision rt (framed_bytes ACTION_DIGEST_DOMAIN_V1 (utf8_encode s))
            (framed_bytes (if same_domain then ACTION_DIGEST_DOMAIN_V1 else TARGET_DIGEST_DOMAIN_V1) (utf8_encode t)))"
proof -
  obtain p where p: "parseExecutionProposalV1 rt (xi_packet input) = Inr p" "xd_request d = execution_request input p"
    "domainDigest rt ACTION_DIGEST_DOMAIN_V1 (execution_action p) = Some (xd_action_digest d)"
    using derive_facts [OF assms(1)] by metis
  obtain q where q: "parseExecutionProposalV1 rt (xi_packet input') = Inr q" "xd_request d' = execution_request input' q"
    "domainDigest rt ACTION_DIGEST_DOMAIN_V1 (execution_action q) = Some (xd_action_digest d')"
    "domainDigest rt TARGET_DIGEST_DOMAIN_V1 (execution_target q) = Some (xd_target_digest d')"
    using derive_facts [OF assms(2)] by metis
  have parts: "fld (execution_request i x) ''action'' = execution_action x"
    "fld (execution_request i x) ''target'' = execution_target x" for i x
    by (simp_all add: execution_request_def fld_obj)
  have copies: "canonical_copy rt (xp_arguments p)" "canonical_copy rt (xp_arguments q)"
    using parse_proposal_facts(3) [OF p(1) assms(3)] parse_proposal_facts(3) [OF q(1) assms(4)] by blast+
  show ?thesis
  proof (cases same_domain)
    case True
    then have "domainDigest rt ACTION_DIGEST_DOMAIN_V1 (execution_action q) = Some (xd_action_digest d)"
      using q(3) assms(5) by simp
    note same = domainDigest_inject [OF p(3) this json_value_action [OF copies(1)] json_value_action [OF copies(2)]]
    moreover have "execution_action p = execution_action q"
      if "same_content (execution_action p) (execution_action q)"
      using same_action [OF that copies] by (simp add: execution_action_def)
    ultimately show ?thesis unfolding p(2) q(2) parts using True by (simp only: parts if_True) blast
  next
    case False
    from domainDigest_SomeD [OF p(3)] domainDigest_SomeD [OF q(4)] obtain s t where
      s: "canonicalizeJsonValue (execution_action p) = Inr s"
      "sha256Bytes rt (framed_bytes ACTION_DIGEST_DOMAIN_V1 (utf8_encode s)) = Some (xd_action_digest d)" and
      t: "canonicalizeJsonValue (execution_target q) = Inr t"
      "sha256Bytes rt (framed_bytes TARGET_DIGEST_DOMAIN_V1 (utf8_encode t)) = Some (xd_action_digest d)"
      using assms(5) False by auto
    from sha256Bytes_inject [OF s(2) t(2)] framed_domains_differ [of "utf8_encode s" "utf8_encode t"] s(1) t(1) False
    show ?thesis unfolding p(2) q(2) parts by (simp only: parts if_False) blast
  qed
qed

theorem action_digest_binds_action_witness:
  "\<exists>input d s. deriveExecutionRequestV1 sample_runtime input = Inr d
    \<and> canonicalizeJsonValue (fld (xd_request d) ''action'') = Inr s
    \<and> (fld (xd_request d) ''action'' = fld (xd_request d) ''action''
      \<or> digest_collision sample_runtime (framed_bytes ACTION_DIGEST_DOMAIN_V1 (utf8_encode s))
          (framed_bytes ACTION_DIGEST_DOMAIN_V1 (utf8_encode s)))"
proof -
  obtain input d where d: "deriveExecutionRequestV1 sample_runtime input = Inr d" "xi_packet input = sample_packet"
    by (rule sample_derivation)
  have wf: "js_wf (xi_packet input)" using d(2) sample_wf by simp
  obtain p where p: "xd_request d = execution_request input p"
    "domainDigest sample_runtime ACTION_DIGEST_DOMAIN_V1 (execution_action p) = Some (xd_action_digest d)"
    using derive_facts [OF d(1)] by metis
  obtain s where "canonicalizeJsonValue (execution_action p) = Inr s" using domainDigest_SomeD [OF p(2)] by blast
  then have "canonicalizeJsonValue (fld (xd_request d) ''action'') = Inr s"
    by (simp add: p(1) execution_request_def fld_obj)
  with action_digest_binds_action [OF d(1) d(1) wf wf, of True] d(1) show ?thesis by auto
qed

text \<open>
  The derivation depends only on the canonical text of the packet: a packet that was stored as
  its canonical text and parsed again derives the same request with the same digests, or fails
  with the same error.
\<close>

theorem derivation_from_stored_packet:
  assumes "canonicalizePacketEnvelopeV1 v = Inr text" and "js_wf v" and "parsePacketEnvelopeV1Json rt text = Inr w"
  shows "deriveExecutionRequestV1 rt (input\<lparr>xi_packet := w\<rparr>) = deriveExecutionRequestV1 rt (input\<lparr>xi_packet := v\<rparr>)"
proof -
  from canonicalize_packet_valid [OF assms(1)] obtain r where r: "packet_shape v r" "packet_rules r"
    by (auto simp: validate_iff)
  from valid_packet_reread [OF r assms(2), of rt] assms(1,3) have
    w: "js_snapshot v w" "packet_shape w (r\<lparr>pe_constraints := fld w ''constraints''\<rparr>)"
    "canonicalizePacketEnvelopeV1 w = canonicalizePacketEnvelopeV1 v"
    by (auto simp: parsePacketEnvelopeV1Json_def)
  have "fld w ''packet_id'' = fld v ''packet_id''" "fld w ''project_ref'' = fld v ''project_ref''"
    using packet_id_texts [OF w(2)] packet_id_texts [OF r(1)] by simp_all
  then have req: "execution_request (input\<lparr>xi_packet := w\<rparr>) p = execution_request (input\<lparr>xi_packet := v\<rparr>) p" for p
    by (simp add: execution_request_def)
  have chain: "chain_ok h (input\<lparr>xi_packet := x\<rparr>) = chain_ok h input" for h x by (simp add: chain_ok_def)
  show ?thesis
    by (simp add: deriveExecutionRequestV1_def hash_of_same_text [OF w(3)] parse_proposal_reread [OF r w(1)] req chain
        split: sum.split)
qed

theorem derivation_from_stored_packet_witness:
  "\<exists>text w input d. canonicalizePacketEnvelopeV1 sample_packet = Inr text
    \<and> parsePacketEnvelopeV1Json sample_runtime text = Inr w
    \<and> deriveExecutionRequestV1 sample_runtime (input\<lparr>xi_packet := w\<rparr>) = Inr d
    \<and> deriveExecutionRequestV1 sample_runtime (input\<lparr>xi_packet := sample_packet\<rparr>) = Inr d"
proof -
  obtain input d where d: "deriveExecutionRequestV1 sample_runtime input = Inr d" "xi_packet input = sample_packet"
    by (rule sample_derivation)
  have same: "input\<lparr>xi_packet := sample_packet\<rparr> = input" using d(2) by simp
  from valid_packet_reread [OF sample_shape sample_rules sample_wf, of sample_runtime] obtain t w where
    t: "canonicalizePacketEnvelopeV1 sample_packet = Inr t" "parsePacketEnvelopeV1Json sample_runtime t = Inr w"
    by (auto simp: parsePacketEnvelopeV1Json_def)
  have "deriveExecutionRequestV1 sample_runtime (input\<lparr>xi_packet := w\<rparr>) = Inr d"
    using derivation_from_stored_packet [OF t(1) sample_wf t(2), of input] d(1) by (simp only: same)
  with t d(1) show ?thesis by (metis same)
qed

text \<open>
  The grammar of references differs between the envelope and the derivation: the envelope excludes
  what \<open>\s\<close> matches, the derivation what \<open>\p{White_Space}\<close> matches. A reference with U+0085 passes the
  envelope only, one with U+FEFF the derivation only.
\<close>

lemma reference_grammars_differ:
  "referencePattern (js ''identity:a'' @ [0x85])" "\<not> isValidReferenceV1 (js ''identity:a'' @ [0x85])"
  "\<not> referencePattern (js ''identity:a'' @ [0xFEFF])" "isValidReferenceV1 (js ''identity:a'' @ [0xFEFF])"
proof -
  have index: "index_of_unit 58 (js ''identity:a'' @ w) = Some 8" for w
    by (simp add: js_def)
  have tail: "drop 9 (js ''identity:a'' @ w) = js ''a'' @ w" "take 8 (js ''identity:a'' @ w) = js ''identity''" for w
    by (simp_all add: js_def)
  have wf: "well_formed_utf16 (js ''identity:a'' @ [0x85])" "well_formed_utf16 (js ''identity:a'' @ [0xFEFF])"
    by (simp_all add: js_def is_high_surrogate_def is_low_surrogate_def)
  show "referencePattern (js ''identity:a'' @ [0x85])" "\<not> referencePattern (js ''identity:a'' @ [0xFEFF])"
    by (simp_all add: js_eval)
  show "\<not> isValidReferenceV1 (js ''identity:a'' @ [0x85])" "isValidReferenceV1 (js ''identity:a'' @ [0xFEFF])"
    by (simp_all add: isValidReferenceV1_def er_well_formed_iff index tail wf some_in_class_def js_eval)
qed

end
