(* ===== verification/Js_Iso.thy ===== *)
theory Js_Iso
  imports Utc_Time
begin

text \<open>
  \<open>Date.parse\<close> on the texts \<open>toISOString\<close> writes, years outside 0..9999 included. The main fact is
  \<open>Date_parse_toISOString\<close>: a time value survives the round trip through its text. Texts of any
  other form are parsed as the engine does it, which is the parameter of \<open>Date_parse\<close>.
\<close>

section \<open>Reading\<close>

definition iso_rest :: "int \<Rightarrow> jstr \<Rightarrow> iso_tuple option" where
  "iso_rest y s =
     (let mo = take 2 (drop 1 s); d = take 2 (drop 4 s); h = take 2 (drop 7 s);
          mi = take 2 (drop 10 s); sec = take 2 (drop 13 s); ms = take 3 (drop 16 s)
      in if list_all (list_all is_digit_unit) [mo, d, h, mi, sec, ms]
            \<and> s = js ''-'' @ mo @ js ''-'' @ d @ js ''T'' @ h @ js '':'' @ mi @ js '':'' @ sec
                 @ js ''.'' @ ms @ js ''Z''
         then Some (y, js_Number mo, js_Number d, js_Number h, js_Number mi, js_Number sec, js_Number ms)
         else None)"

definition iso_read :: "jstr \<Rightarrow> iso_tuple option" where
  "iso_read s =
     (let sign = take 1 s; long = take 6 (drop 1 s); short = take 4 s
      in if length s = 24 \<and> list_all is_digit_unit short then iso_rest (js_Number short) (drop 4 s)
         else if length s = 27 \<and> list_all is_digit_unit long \<and> sign = js ''+''
         then iso_rest (js_Number long) (drop 7 s)
         else if length s = 27 \<and> list_all is_digit_unit long \<and> sign = js ''-'' \<and> js_Number long \<noteq> 0
         then iso_rest (- js_Number long) (drop 7 s)
         else None)"

definition Date_parse :: "(jstr \<Rightarrow> int option) \<Rightarrow> jstr \<Rightarrow> int option" where
  "Date_parse other s = (case iso_read s of Some f \<Rightarrow> date_parse_fields f | None \<Rightarrow> other s)"

definition time_clipped :: "int \<Rightarrow> bool" where
  "time_clipped t \<longleftrightarrow> \<bar>t\<bar> \<le> 8640000000000000"

section \<open>Fields of a time value\<close>

lemma time_value_iso_fields: "time_value (iso_fields t) = t"
proof -
  define r where "r = t mod 86400000"
  have hms: "((r div 3600000 * 60 + r div 60000 mod 60) * 60 + r div 1000 mod 60) * 1000 + r mod 1000 = r"
  proof -
    have a: "r div 60000 = r div 1000 div 60" "r div 3600000 = r div 1000 div 60 div 60"
      by (simp_all add: zdiv_zmult2_eq [symmetric])
    have "r div 1000 div 60 div 60 * 60 + r div 1000 div 60 mod 60 = r div 1000 div 60"
      "r div 1000 div 60 * 60 + r div 1000 mod 60 = r div 1000" "r div 1000 * 1000 + r mod 1000 = r"
      by (rule div_mult_mod_eq)+
    then show ?thesis unfolding a by simp
  qed
  have "time_value (iso_fields t) = t div 86400000 * 86400000
      + (((r div 3600000 * 60 + r div 60000 mod 60) * 60 + r div 1000 mod 60) * 1000 + r mod 1000)"
    by (simp add: iso_fields_def Let_def r_def)
  also have "\<dots> = t" unfolding hms unfolding r_def by (rule div_mult_mod_eq)
  finally show ?thesis .
qed

lemma month_of_day:
  assumes "0 \<le> k" and "k < (if leap then 366 else 365)"
  defines "m \<equiv> month_from_day leap k"
  shows "1 \<le> m \<and> m \<le> 12 \<and> days_before_month leap m \<le> k \<and> k < days_before_month leap m + 31"
  using assms(1,2) unfolding m_def
  by (cases leap) (auto simp: month_from_day.simps days_before_month.simps Let_def)

definition iso_tuple_ok :: "iso_tuple \<Rightarrow> bool" where
  "iso_tuple_ok f \<longleftrightarrow> (case f of (y, mo, d, h, mi, s, ms) \<Rightarrow>
     1 \<le> mo \<and> mo \<le> 12 \<and> 1 \<le> d \<and> d \<le> 31 \<and> 0 \<le> h \<and> h \<le> 23 \<and> 0 \<le> mi \<and> mi \<le> 59
     \<and> 0 \<le> s \<and> s \<le> 59 \<and> 0 \<le> ms \<and> ms \<le> 999 \<and> \<bar>y\<bar> < 1000000)"

lemma year_bound:
  assumes "time_clipped t"
  shows "\<bar>year_from_day (t div 86400000)\<bar> < 1000000"
proof -
  let ?d = "t div 86400000"
  have "t \<le> 8640000000000000" "- 8640000000000000 \<le> t" using assms by (auto simp: time_clipped_def)
  then have d: "?d \<le> 100000000" "- 100000000 \<le> ?d"
    using zdiv_mono1 [of t 8640000000000000 86400000] zdiv_mono1 [of "- 8640000000000000" t 86400000]
    by simp_all
  then have "(400 * ?d) div 146097 \<le> 400 * 100000000 div 146097"
    "400 * (- 100000000) div 146097 \<le> (400 * ?d) div 146097"
    by (intro zdiv_mono1; simp)+
  then have n: "(400 * ?d) div 146097 \<le> 273790" "- 273791 \<le> (400 * ?d) div 146097" by simp_all
  have "year_from_day ?d \<in> {1970 + (400 * ?d) div 146097 - 1 .. 1970 + (400 * ?d) div 146097 + 1}"
    by (simp add: year_from_day_def Let_def)
  with n have "year_from_day ?d \<le> 275761" "- 271822 \<le> year_from_day ?d" by simp_all
  then show ?thesis by (simp add: abs_less_iff)
qed

lemma iso_fields_ok:
  assumes "time_clipped t"
  shows "iso_tuple_ok (iso_fields t)"
proof -
  let ?day = "t div 86400000" and ?r = "t mod 86400000"
  let ?y = "year_from_day ?day"
  let ?k = "?day - day_from_year ?y"
  have "0 \<le> ?k" "?k < (if leap_year ?y then 366 else 365)"
    using year_from_day_bracket [of ?day] day_from_year_Suc [of ?y] by (simp_all add: days_in_year_def)
  note m = month_of_day [OF this]
  have r: "0 \<le> ?r" "?r < 86400000" by simp_all
  then have "0 \<le> ?r div 3600000" "?r div 3600000 \<le> 23"
    using zdiv_mono1 [of ?r 86399999 3600000] by (simp_all add: pos_imp_zdiv_nonneg_iff)
  moreover have "a mod 60 \<le> 59" "a mod 1000 \<le> 999" for a :: int
    using pos_mod_bound [of 60 a] pos_mod_bound [of 1000 a] by simp_all
  ultimately show ?thesis using m year_bound [OF assms]
    by (simp add: iso_tuple_ok_def iso_fields_def Let_def)
qed

lemma date_parse_iso_fields: "time_clipped t \<Longrightarrow> date_parse_fields (iso_fields t) = Some t"
  using iso_fields_ok [of t] time_value_iso_fields [of t]
  by (cases "iso_fields t") (auto simp: iso_tuple_ok_def time_clipped_def Let_def simp del: time_value.simps)

section \<open>The text of the fields\<close>

lemma pad_facts:
  assumes "0 \<le> n" and "n < 10 ^ w" and "0 < w"
  shows "length (pad_digits w (nat n)) = w" "list_all is_digit_unit (pad_digits w (nat n))"
    "js_Number (pad_digits w (nat n)) = n"
proof -
  have "nat n < 10 ^ w" using assms by (simp add: nat_less_iff)
  note p = pad_digits_facts [OF this assms(3)]
  show "length (pad_digits w (nat n)) = w" "list_all is_digit_unit (pad_digits w (nat n))"
    "js_Number (pad_digits w (nat n)) = n"
    using p assms(1) by (simp_all add: js_Number_def)
qed

lemma iso_rest_read:
  assumes "length mo = 2" "length d = 2" "length h = 2" "length mi = 2" "length sec = 2" "length ms = 3"
    and "list_all (list_all is_digit_unit) [mo, d, h, mi, sec, ms]"
  shows "iso_rest y (js ''-'' @ mo @ js ''-'' @ d @ js ''T'' @ h @ js '':'' @ mi @ js '':'' @ sec
      @ js ''.'' @ ms @ js ''Z'')
    = Some (y, js_Number mo, js_Number d, js_Number h, js_Number mi, js_Number sec, js_Number ms)"
  using assms by (simp add: iso_rest_def Let_def)

lemma iso_read_short:
  "length g = 4 \<Longrightarrow> list_all is_digit_unit g \<Longrightarrow> length r = 20 \<Longrightarrow>
     iso_read (g @ r) = iso_rest (js_Number g) r"
  by (simp add: iso_read_def)

lemma iso_read_long:
  assumes "length g = 6" and "list_all is_digit_unit g" and "length r = 20"
  shows "iso_read (js ''+'' @ g @ r) = iso_rest (js_Number g) r"
    and "js_Number g \<noteq> 0 \<Longrightarrow> iso_read (js ''-'' @ g @ r) = iso_rest (- js_Number g) r"
  using assms by (simp_all add: iso_read_def js_def)

lemma iso_read_iso_text:
  assumes "iso_tuple_ok f"
  shows "iso_read (iso_text f) = Some f"
proof -
  obtain y mo d h mi s ms where f: "f = (y, mo, d, h, mi, s, ms)" by (metis prod_cases7)
  have rng: "1 \<le> mo" "mo \<le> 12" "1 \<le> d" "d \<le> 31" "0 \<le> h" "h \<le> 23" "0 \<le> mi" "mi \<le> 59"
    "0 \<le> s" "s \<le> 59" "0 \<le> ms" "ms \<le> 999" "\<bar>y\<bar> < 1000000"
    using assms by (auto simp: f iso_tuple_ok_def)
  let ?p = "\<lambda>n. pad_digits 2 (nat n)"
  let ?rest = "js ''-'' @ ?p mo @ js ''-'' @ ?p d @ js ''T'' @ ?p h @ js '':'' @ ?p mi @ js '':'' @ ?p s
      @ js ''.'' @ pad_digits 3 (nat ms) @ js ''Z''"
  have two: "length (?p n) = 2" "list_all is_digit_unit (?p n)" "js_Number (?p n) = n" if "0 \<le> n" "n \<le> 59" for n
    using pad_facts [of n 2] that by simp_all
  note three = pad_facts [of ms 3, simplified]
  have rest: "iso_rest z ?rest = Some (z, mo, d, h, mi, s, ms)" for z
    by (subst iso_rest_read) (use two three rng in simp_all)
  have len: "length ?rest = 20" using two three rng by simp
  show ?thesis
  proof (cases "0 \<le> y \<and> y \<le> 9999")
    case True
    then have four: "length (pad_digits 4 (nat y)) = 4" "list_all is_digit_unit (pad_digits 4 (nat y))"
      "js_Number (pad_digits 4 (nat y)) = y" by (auto intro!: pad_facts)
    have "iso_text f = pad_digits 4 (nat y) @ ?rest" using True by (simp add: f)
    then show ?thesis by (simp only: iso_read_short [OF four(1,2) len] four(3) rest f)
  next
    case False
    have six: "length (pad_digits 6 (nat \<bar>y\<bar>)) = 6" "list_all is_digit_unit (pad_digits 6 (nat \<bar>y\<bar>))"
      "js_Number (pad_digits 6 (nat \<bar>y\<bar>)) = \<bar>y\<bar>" using rng by (auto intro!: pad_facts)
    note long = iso_read_long [OF six(1,2) len, unfolded six(3)]
    show ?thesis
    proof (cases "y < 0")
      case True
      then have "iso_text f = js ''-'' @ pad_digits 6 (nat \<bar>y\<bar>) @ ?rest" by (simp add: f)
      then show ?thesis using long(2) True by (simp only: rest f) simp
    next
      case nonneg: False
      then have "iso_text f = js ''+'' @ pad_digits 6 (nat \<bar>y\<bar>) @ ?rest" using False by (simp add: f)
      then show ?thesis using long(1) nonneg by (simp only: rest f) simp
    qed
  qed
qed

lemma Date_parse_toISOString: "time_clipped t \<Longrightarrow> Date_parse other (toISOString t) = Some t"
  by (simp add: Date_parse_def toISOString_def iso_read_iso_text iso_fields_ok date_parse_iso_fields)

lemma toISOString_inject: "time_clipped s \<Longrightarrow> time_clipped t \<Longrightarrow> toISOString s = toISOString t \<longleftrightarrow> s = t"
  by (metis Date_parse_toISOString option.inject)

end
