(* ===== verification/Operation_Record.thy ===== *)
theory Operation_Record
  imports Packet_Envelope Js_Iso
begin

text \<open>
  The gateway's operations, \<open>packages/gateway/src/operation-recovery.ts\<close>: the durable record of one
  dispatched operation, its fourteen states, and the record changes of the coordinator.

  A record is a typed value of the source, so it is a HOL record with the source's fields; a
  nullable field is an \<open>option\<close>. A \<open>Date\<close> argument is its time value, \<open>None\<close> for an invalid date,
  and timestamps inside the record are texts, read with \<open>Date.parse\<close>. The functions that read
  texts take \<open>engine\<close>, the engine's reading of texts outside the \<open>toISOString\<close> format.
\<close>

section \<open>Data\<close>

datatype op_state =
    Prepared | Authorized | Dispatching | Accepted | Working | InputRequired | Completed | Failed
  | TransportUnavailable | OutcomeUnknown | Reconciling | CancelRequested | Expired | Orphaned

primrec op_state_text :: "op_state \<Rightarrow> string" where
  "op_state_text Prepared = ''prepared''"
| "op_state_text Authorized = ''authorized''"
| "op_state_text Dispatching = ''dispatching''"
| "op_state_text Accepted = ''accepted''"
| "op_state_text Working = ''working''"
| "op_state_text InputRequired = ''input_required''"
| "op_state_text Completed = ''completed''"
| "op_state_text Failed = ''failed''"
| "op_state_text TransportUnavailable = ''transport_unavailable''"
| "op_state_text OutcomeUnknown = ''outcome_unknown''"
| "op_state_text Reconciling = ''reconciling''"
| "op_state_text CancelRequested = ''cancel_requested''"
| "op_state_text Expired = ''expired''"
| "op_state_text Orphaned = ''orphaned''"

record operation_scope =
  op_tenant_id :: jstr
  op_project_id :: jstr

record operation_identity = operation_scope +
  op_operation_id :: jstr
  op_canonical_packet_digest :: jstr
  op_tool_argument_digest :: jstr
  op_authorization_id :: jstr
  op_authorization_expires_at :: jstr
  op_idempotency_key :: jstr
  op_requester_identity :: jstr
  op_workload_identity :: "jstr option"
  op_adapter_identity :: jstr
  op_remote_identity :: jstr
  op_protocol :: jstr
  op_protocol_version :: jstr
  op_requested_at :: jstr
  op_mcp_task_id :: "jstr option"
  op_a2a_task_id :: "jstr option"
  op_a2a_context_id :: "jstr option"
  op_a2a_message_id :: "jstr option"
  op_trace_id :: "jstr option"

record operation_attempt =
  at_attempt :: int
  at_dispatched_at :: jstr
  at_observation_at :: "jstr option"
  at_completion_at :: "jstr option"

record operation_transition =
  tr_sequence :: int
  tr_from :: "op_state option"
  tr_to :: op_state
  tr_at :: jstr
  tr_reason :: jstr

datatype receipt_status = ReceiptCompleted | ReceiptApplicationError | ReceiptNotExecuted

record operation_receipt =
  rc_receipt_id :: jstr
  rc_operation_id :: jstr
  rc_authorization_id :: jstr
  rc_canonical_packet_digest :: jstr
  rc_tool_argument_digest :: jstr
  rc_status :: receipt_status
  rc_result_digest :: jstr
  rc_received_at :: jstr

record operation_record = operation_identity +
  op_state :: op_state
  op_version :: int
  op_attempt_count :: int
  op_attempts :: "operation_attempt list"
  op_transitions :: "operation_transition list"
  op_dispatch_at :: "jstr option"
  op_observation_at :: "jstr option"
  op_completion_at :: "jstr option"
  op_receipt :: "operation_receipt option"
  op_gateway_result_digest :: "jstr option"
  op_application_error :: bool

type_synonym js_date = "int option"

record prepare_input = operation_scope +
  pi_operation_id :: jstr
  pi_canonical_packet_digest :: jstr
  pi_tool_argument_digest :: jstr
  pi_authorization_id :: jstr
  pi_authorization_expires_at :: js_date
  pi_idempotency_key :: jstr
  pi_requester_identity :: jstr
  pi_workload_identity :: "jstr option"
  pi_adapter_identity :: jstr
  pi_remote_identity :: jstr
  pi_protocol :: jstr
  pi_protocol_version :: jstr
  pi_requested_at :: js_date
  pi_mcp_task_id :: "jstr option"
  pi_a2a_task_id :: "jstr option"
  pi_a2a_context_id :: "jstr option"
  pi_a2a_message_id :: "jstr option"
  pi_trace_id :: "jstr option"

datatype op_error_code =
    OP_invalid_input | OP_idempotency_collision | OP_not_found | OP_invalid_transition
  | OP_authorization_expired | OP_clock_skew | OP_concurrent_update | OP_reconciliation_required
  | OP_retry_mismatch | OP_invalid_receipt | OP_digest_mismatch | OP_store_corrupted
  | OP_store_unavailable

text \<open>\<open>Inl\<close> is \<open>ok: false\<close> with code and message, \<open>Inr\<close> is \<open>ok: true\<close> with record and replay flag.\<close>

type_synonym op_result = "(op_error_code \<times> string) + (operation_record \<times> bool)"

primrec failure_message :: "op_error_code \<Rightarrow> string" where
  "failure_message OP_invalid_input = ''Operation input is invalid.''"
| "failure_message OP_idempotency_collision = ''Idempotency key or operation identity collided.''"
| "failure_message OP_not_found = ''Operation was not found in requested scope.''"
| "failure_message OP_invalid_transition = ''Operation state transition is invalid.''"
| "failure_message OP_authorization_expired = ''Operation authorization expired.''"
| "failure_message OP_clock_skew = ''Operation transition time moved backwards.''"
| "failure_message OP_concurrent_update = ''Operation changed concurrently.''"
| "failure_message OP_reconciliation_required = ''Outcome must be reconciled before retry.''"
| "failure_message OP_retry_mismatch = ''Retry identity does not exactly match operation.''"
| "failure_message OP_invalid_receipt = ''Execution receipt is invalid.''"
| "failure_message OP_digest_mismatch = ''Requested, approved, authorized, and executed digests differ.''"
| "failure_message OP_store_corrupted = ''Operation store failed integrity validation.''"
| "failure_message OP_store_unavailable = ''Operation store is unavailable.''"

definition failure :: "op_error_code \<Rightarrow> op_result" where
  "failure code = Inl (code, failure_message code)"

definition success :: "operation_record \<Rightarrow> bool \<Rightarrow> op_result" where
  "success record replay = Inr (record, replay)"

section \<open>Scalar checks\<close>

text \<open>Comparison of JavaScript numbers, \<open>None\<close> being NaN.\<close>

fun num_lt :: "int option \<Rightarrow> int option \<Rightarrow> bool" where
  "num_lt (Some a) (Some b) = (a < b)"
| "num_lt _ _ = False"

fun num_le :: "int option \<Rightarrow> int option \<Rightarrow> bool" where
  "num_le (Some a) (Some b) = (a \<le> b)"
| "num_le _ _ = False"

definition operationIdPattern :: rx where
  "operationIdPattern = rx_identifier ''op_'' 127"

definition operationIdempotencyPattern :: rx where
  "operationIdempotencyPattern = rx_identifier ''idem_'' 127"

definition safeId :: "jstr \<Rightarrow> rx \<Rightarrow> bool" where
  "safeId value pattern \<longleftrightarrow> rx_test pattern value"

definition isDigest :: "jstr \<Rightarrow> bool" where
  "isDigest value \<longleftrightarrow>
     rx_test (RSeq (rx_lit ''sha256:'') (RRep (RCls False ([(97, 102)] @ cc_digit)) 64 (Some 64))) value"

definition safeLabel :: "jstr \<Rightarrow> nat \<Rightarrow> bool" where
  "safeLabel value maxLength \<longleftrightarrow>
     length value > 0 \<and> length value \<le> maxLength \<and> \<not> some_in_class cc_control (code_units value)"

definition validIso :: "(jstr \<Rightarrow> int option) \<Rightarrow> jstr \<Rightarrow> bool" where
  "validIso engine value \<longleftrightarrow>
     (case Date_parse engine value of None \<Rightarrow> False | Some t \<Rightarrow> toISOString t = value)"

definition isValidScope :: "('a operation_scope_scheme) \<Rightarrow> bool" where
  "isValidScope scope \<longleftrightarrow> safeLabel (op_tenant_id scope) 128 \<and> safeLabel (op_project_id scope) 128"

definition null_or :: "('a \<Rightarrow> bool) \<Rightarrow> 'a option \<Rightarrow> bool" where
  "null_or P v \<longleftrightarrow> (case v of None \<Rightarrow> True | Some x \<Rightarrow> P x)"

section \<open>Keys\<close>

definition recordKey :: "('a operation_scope_scheme) \<Rightarrow> jstr \<Rightarrow> jstr" where
  "recordKey scope operationId = op_tenant_id scope @ [0] @ op_project_id scope @ [0] @ operationId"

definition operationIdempotencyKey :: "operation_record \<Rightarrow> jstr" where
  "operationIdempotencyKey record =
     op_tenant_id record @ [0] @ op_project_id record @ [0] @ op_idempotency_key record"

definition operationIdentityEqual :: "operation_record \<Rightarrow> operation_record \<Rightarrow> bool" where
  "operationIdentityEqual left right \<longleftrightarrow>
     op_tenant_id left = op_tenant_id right
     \<and> op_project_id left = op_project_id right
     \<and> op_operation_id left = op_operation_id right
     \<and> op_canonical_packet_digest left = op_canonical_packet_digest right
     \<and> op_tool_argument_digest left = op_tool_argument_digest right
     \<and> op_authorization_id left = op_authorization_id right
     \<and> op_authorization_expires_at left = op_authorization_expires_at right
     \<and> op_idempotency_key left = op_idempotency_key right
     \<and> op_requester_identity left = op_requester_identity right
     \<and> op_workload_identity left = op_workload_identity right
     \<and> op_adapter_identity left = op_adapter_identity right
     \<and> op_remote_identity left = op_remote_identity right
     \<and> op_protocol left = op_protocol right
     \<and> op_protocol_version left = op_protocol_version right
     \<and> op_requested_at left = op_requested_at right
     \<and> op_mcp_task_id left = op_mcp_task_id right
     \<and> op_a2a_task_id left = op_a2a_task_id right
     \<and> op_a2a_context_id left = op_a2a_context_id right
     \<and> op_a2a_message_id left = op_a2a_message_id right
     \<and> op_trace_id left = op_trace_id right"

section \<open>Record validity\<close>

fun allowed_targets :: "op_state \<Rightarrow> op_state list" where
  "allowed_targets Prepared = [Authorized, Orphaned]"
| "allowed_targets Authorized = [Dispatching, TransportUnavailable, Expired, Orphaned]"
| "allowed_targets Dispatching = [Accepted, Working, InputRequired, OutcomeUnknown, CancelRequested,
     Completed, Failed, Authorized, Expired, Orphaned]"
| "allowed_targets Accepted = [Accepted, Working, InputRequired, OutcomeUnknown, CancelRequested,
     Completed, Failed, Authorized, Expired, Orphaned]"
| "allowed_targets Working = [Accepted, Working, InputRequired, OutcomeUnknown, CancelRequested,
     Completed, Failed, Authorized, Expired, Orphaned]"
| "allowed_targets InputRequired = [Accepted, Working, InputRequired, OutcomeUnknown, CancelRequested,
     Completed, Failed, Authorized, Expired, Orphaned]"
| "allowed_targets Completed = []"
| "allowed_targets Failed = []"
| "allowed_targets TransportUnavailable = [Authorized, Expired, Orphaned]"
| "allowed_targets OutcomeUnknown = [Reconciling, CancelRequested, Completed, Failed, Authorized,
     Expired, Orphaned]"
| "allowed_targets Reconciling = [Accepted, Working, InputRequired, OutcomeUnknown, CancelRequested,
     Completed, Failed, Authorized, Expired, Orphaned]"
| "allowed_targets CancelRequested = [Accepted, Working, InputRequired, OutcomeUnknown, Reconciling,
     Completed, Failed, Authorized, Expired, Orphaned]"
| "allowed_targets Expired = []"
| "allowed_targets Orphaned = [Reconciling]"

definition isAllowedTransition :: "op_state \<Rightarrow> op_state \<Rightarrow> bool" where
  "isAllowedTransition from_state to_state \<longleftrightarrow> to_state \<in> set (allowed_targets from_state)"

definition isValidReceipt :: "(jstr \<Rightarrow> int option) \<Rightarrow> operation_receipt \<Rightarrow> bool" where
  "isValidReceipt engine receipt \<longleftrightarrow>
     safeLabel (rc_receipt_id receipt) 256
     \<and> safeId (rc_operation_id receipt) operationIdPattern
     \<and> safeLabel (rc_authorization_id receipt) 256
     \<and> isDigest (rc_canonical_packet_digest receipt)
     \<and> isDigest (rc_tool_argument_digest receipt)
     \<and> isDigest (rc_result_digest receipt)
     \<and> validIso engine (rc_received_at receipt)"

text \<open>
  The loop over the transitions: \<open>index\<close> counts from 0, \<open>prev\<close> is the previous transition and
  \<open>lastAt\<close> the running bound, \<open>None\<close> being \<open>-Infinity\<close>.
\<close>

fun transitions_ok ::
  "(jstr \<Rightarrow> int option) \<Rightarrow> op_state \<Rightarrow> nat \<Rightarrow> operation_transition option \<Rightarrow> int option \<Rightarrow>
    operation_transition list \<Rightarrow> bool" where
  "transitions_ok engine state index prev lastAt [] \<longleftrightarrow> True"
| "transitions_ok engine state index prev lastAt (transition # rest) \<longleftrightarrow>
     tr_sequence transition = int index + 1
     \<and> tr_to transition = (if rest = [] then state else tr_to transition)
     \<and> (case prev of
          None \<Rightarrow> tr_from transition = None \<and> tr_to transition = Prepared
        | Some p \<Rightarrow> tr_from transition = Some (tr_to p) \<and> isAllowedTransition (tr_to p) (tr_to transition))
     \<and> (case Date_parse engine (tr_at transition) of
          None \<Rightarrow> False
        | Some t \<Rightarrow> \<not> num_lt (Some t) lastAt \<and> safeLabel (tr_reason transition) 128
            \<and> transitions_ok engine state (Suc index) (Some transition) (Some t) rest)"

definition attempt_ok :: "(jstr \<Rightarrow> int option) \<Rightarrow> jstr \<Rightarrow> nat \<Rightarrow> operation_attempt \<Rightarrow> bool" where
  "attempt_ok engine requested_at index attempt \<longleftrightarrow>
     at_attempt attempt = int index + 1
     \<and> validIso engine (at_dispatched_at attempt)
     \<and> null_or (validIso engine) (at_observation_at attempt)
     \<and> null_or (validIso engine) (at_completion_at attempt)
     \<and> (let dispatchedAt = Date_parse engine (at_dispatched_at attempt)
        in num_le (Date_parse engine requested_at) dispatchedAt
           \<and> null_or (\<lambda>t. num_le dispatchedAt (Date_parse engine t)) (at_observation_at attempt)
           \<and> null_or (\<lambda>t. num_le dispatchedAt (Date_parse engine t)) (at_completion_at attempt))"

fun every_attempt :: "(nat \<Rightarrow> operation_attempt \<Rightarrow> bool) \<Rightarrow> nat \<Rightarrow> operation_attempt list \<Rightarrow> bool" where
  "every_attempt P index [] \<longleftrightarrow> True"
| "every_attempt P index (a # as) \<longleftrightarrow> P index a \<and> every_attempt P (Suc index) as"

definition outcome_ok :: "operation_record \<Rightarrow> bool" where
  "outcome_ok record \<longleftrightarrow>
     (if op_state record = Completed then
        (case op_receipt record of None \<Rightarrow> False
         | Some receipt \<Rightarrow> rc_status receipt = ReceiptCompleted
             \<and> op_gateway_result_digest record = Some (rc_result_digest receipt))
        \<and> op_completion_at record \<noteq> None \<and> \<not> op_application_error record
      else if op_state record = Failed then
        (case op_receipt record of None \<Rightarrow> False
         | Some receipt \<Rightarrow> rc_status receipt = ReceiptApplicationError
             \<and> op_gateway_result_digest record = Some (rc_result_digest receipt))
        \<and> op_completion_at record \<noteq> None \<and> op_application_error record
      else \<not> op_application_error record)"

definition record_fields_ok :: "(jstr \<Rightarrow> int option) \<Rightarrow> operation_record \<Rightarrow> bool" where
  "record_fields_ok engine record \<longleftrightarrow>
     isValidScope record
     \<and> safeId (op_operation_id record) operationIdPattern
     \<and> isDigest (op_canonical_packet_digest record)
     \<and> isDigest (op_tool_argument_digest record)
     \<and> safeLabel (op_authorization_id record) 256
     \<and> safeLabel (op_requester_identity record) 512
     \<and> null_or (\<lambda>v. safeLabel v 512) (op_workload_identity record)
     \<and> safeLabel (op_adapter_identity record) 256
     \<and> safeLabel (op_remote_identity record) 512
     \<and> safeLabel (op_protocol record) 64
     \<and> safeLabel (op_protocol_version record) 64
     \<and> safeId (op_idempotency_key record) operationIdempotencyPattern
     \<and> (op_version record \<le> max_safe_integer \<and> 1 \<le> op_version record)
     \<and> (op_attempt_count record \<le> max_safe_integer \<and> 0 \<le> op_attempt_count record)
     \<and> int (length (op_transitions record)) = op_version record
     \<and> int (length (op_attempts record)) = op_attempt_count record
     \<and> validIso engine (op_requested_at record)
     \<and> validIso engine (op_authorization_expires_at record)
     \<and> \<not> num_le (Date_parse engine (op_authorization_expires_at record))
           (Date_parse engine (op_requested_at record))
     \<and> list_all (null_or (validIso engine))
          [op_dispatch_at record, op_observation_at record, op_completion_at record]
     \<and> null_or (isValidReceipt engine) (op_receipt record)
     \<and> null_or isDigest (op_gateway_result_digest record)
     \<and> list_all (null_or (\<lambda>v. safeLabel v 256))
          [op_mcp_task_id record, op_a2a_task_id record, op_a2a_context_id record,
           op_a2a_message_id record, op_trace_id record]"

definition isValidOperationRecord :: "(jstr \<Rightarrow> int option) \<Rightarrow> operation_record \<Rightarrow> bool" where
  "isValidOperationRecord engine record \<longleftrightarrow>
     record_fields_ok engine record
     \<and> transitions_ok engine (op_state record) 0 None None (op_transitions record)
     \<and> op_transitions record \<noteq> [] \<and> tr_to (last (op_transitions record)) = op_state record
     \<and> tr_at (hd (op_transitions record)) = op_requested_at record
     \<and> every_attempt (attempt_ok engine (op_requested_at record)) 0 (op_attempts record)
     \<and> outcome_ok record"

definition receiptMatches :: "operation_receipt \<Rightarrow> operation_record \<Rightarrow> bool" where
  "receiptMatches receipt record \<longleftrightarrow>
     rc_operation_id receipt = op_operation_id record
     \<and> rc_authorization_id receipt = op_authorization_id record
     \<and> rc_canonical_packet_digest receipt = op_canonical_packet_digest record
     \<and> rc_tool_argument_digest receipt = op_tool_argument_digest record"

definition isValidPrepareInput :: "prepare_input \<Rightarrow> bool" where
  "isValidPrepareInput input \<longleftrightarrow>
     isValidScope input
     \<and> safeId (pi_operation_id input) operationIdPattern
     \<and> isDigest (pi_canonical_packet_digest input)
     \<and> isDigest (pi_tool_argument_digest input)
     \<and> safeLabel (pi_authorization_id input) 256
     \<and> pi_authorization_expires_at input \<noteq> None
     \<and> safeId (pi_idempotency_key input) operationIdempotencyPattern
     \<and> safeLabel (pi_requester_identity input) 512
     \<and> null_or (\<lambda>v. safeLabel v 512) (pi_workload_identity input)
     \<and> safeLabel (pi_adapter_identity input) 256
     \<and> safeLabel (pi_remote_identity input) 512
     \<and> safeLabel (pi_protocol input) 64
     \<and> safeLabel (pi_protocol_version input) 64
     \<and> pi_requested_at input \<noteq> None
     \<and> num_lt (pi_requested_at input) (pi_authorization_expires_at input)
     \<and> list_all (null_or (\<lambda>v. safeLabel v 256))
          [pi_mcp_task_id input, pi_a2a_task_id input, pi_a2a_context_id input,
           pi_a2a_message_id input, pi_trace_id input]"

section \<open>Building records\<close>

text \<open>\<open>date.toISOString()\<close>; it throws on an invalid date, which its callers exclude.\<close>

definition date_text :: "js_date \<Rightarrow> jstr" where
  "date_text d = (case d of None \<Rightarrow> [] | Some t \<Rightarrow> toISOString t)"

definition initialRecord :: "prepare_input \<Rightarrow> operation_record" where
  "initialRecord input =
     (let requestedAt = date_text (pi_requested_at input) in
      \<lparr>op_tenant_id = op_tenant_id input, op_project_id = op_project_id input,
       op_operation_id = pi_operation_id input,
       op_canonical_packet_digest = pi_canonical_packet_digest input,
       op_tool_argument_digest = pi_tool_argument_digest input,
       op_authorization_id = pi_authorization_id input,
       op_authorization_expires_at = date_text (pi_authorization_expires_at input),
       op_idempotency_key = pi_idempotency_key input,
       op_requester_identity = pi_requester_identity input,
       op_workload_identity = pi_workload_identity input,
       op_adapter_identity = pi_adapter_identity input, op_remote_identity = pi_remote_identity input,
       op_protocol = pi_protocol input, op_protocol_version = pi_protocol_version input,
       op_requested_at = requestedAt, op_mcp_task_id = pi_mcp_task_id input,
       op_a2a_task_id = pi_a2a_task_id input, op_a2a_context_id = pi_a2a_context_id input,
       op_a2a_message_id = pi_a2a_message_id input, op_trace_id = pi_trace_id input,
       op_state = Prepared, op_version = 1, op_attempt_count = 0, op_attempts = [],
       op_transitions = [\<lparr>tr_sequence = 1, tr_from = None, tr_to = Prepared, tr_at = requestedAt,
          tr_reason = js ''operation_prepared''\<rparr>],
       op_dispatch_at = None, op_observation_at = None, op_completion_at = None, op_receipt = None,
       op_gateway_result_digest = None, op_application_error = False\<rparr>)"

text \<open>The partial record \<open>changes\<close> is the update it makes.\<close>

definition nextRecord ::
  "operation_record \<Rightarrow> op_state \<Rightarrow> jstr \<Rightarrow> string \<Rightarrow> (operation_record \<Rightarrow> operation_record) \<Rightarrow> operation_record" where
  "nextRecord record state at reason changes =
     (changes record)\<lparr>op_state := state, op_version := op_version record + 1,
       op_transitions := op_transitions record @
         [\<lparr>tr_sequence = int (length (op_transitions record)) + 1, tr_from = Some (op_state record),
           tr_to = state, tr_at = at, tr_reason = js reason\<rparr>]\<rparr>"

fun updateLatestAttempt ::
  "operation_attempt list \<Rightarrow> (operation_attempt \<Rightarrow> operation_attempt) \<Rightarrow> operation_attempt list" where
  "updateLatestAttempt [] changes = []"
| "updateLatestAttempt [attempt] changes = [changes attempt]"
| "updateLatestAttempt (attempt # next # rest) changes = attempt # updateLatestAttempt (next # rest) changes"

record remote_identities =
  ri_mcp_task_id :: "jstr option option"
  ri_a2a_task_id :: "jstr option option"
  ri_a2a_context_id :: "jstr option option"
  ri_a2a_message_id :: "jstr option option"

definition remoteIdentitiesMatch :: "operation_record \<Rightarrow> remote_identities \<Rightarrow> bool" where
  "remoteIdentitiesMatch record identities \<longleftrightarrow>
     null_or (\<lambda>v. v = op_mcp_task_id record) (ri_mcp_task_id identities)
     \<and> null_or (\<lambda>v. v = op_a2a_task_id record) (ri_a2a_task_id identities)
     \<and> null_or (\<lambda>v. v = op_a2a_context_id record) (ri_a2a_context_id identities)
     \<and> null_or (\<lambda>v. v = op_a2a_message_id record) (ri_a2a_message_id identities)"

section \<open>Changes\<close>

text \<open>
  The functions the coordinator passes to \<open>#mutate\<close>: from the current record and the text of \<open>at\<close>
  they give a result to return (\<open>Inl\<close>) or the changed record (\<open>Inr\<close>).
\<close>

type_synonym mutation = "operation_record \<Rightarrow> jstr \<Rightarrow> op_result + operation_record"

definition transition_change :: "op_state \<Rightarrow> string \<Rightarrow> op_state list \<Rightarrow> mutation" where
  "transition_change target reason allowed record isoAt =
     (if op_state record \<in> set allowed then Inr (nextRecord record target isoAt reason id)
      else Inl (failure OP_invalid_transition))"

definition beginDispatch_change :: "(jstr \<Rightarrow> int option) \<Rightarrow> js_date \<Rightarrow> mutation" where
  "beginDispatch_change engine at record isoAt =
     (if op_state record \<noteq> Authorized then Inl (failure OP_invalid_transition)
      else if num_le (Date_parse engine (op_authorization_expires_at record)) at
      then Inl (failure OP_authorization_expired)
      else (let attempt = op_attempt_count record + 1 in
        Inr (nextRecord record Dispatching isoAt ''dispatch_started'' (\<lambda>r. r\<lparr>op_attempt_count := attempt,
          op_dispatch_at := Some isoAt,
          op_attempts := op_attempts record @ [\<lparr>at_attempt = attempt, at_dispatched_at = isoAt,
            at_observation_at = None, at_completion_at = None\<rparr>]\<rparr>))))"

datatype remote_state = RemoteAccepted | RemoteWorking | RemoteInputRequired | RemoteCompleted | RemoteFailed

primrec remote_target :: "remote_state \<Rightarrow> op_state" where
  "remote_target RemoteAccepted = Accepted"
| "remote_target RemoteWorking = Working"
| "remote_target RemoteInputRequired = InputRequired"
| "remote_target RemoteCompleted = OutcomeUnknown"
| "remote_target RemoteFailed = OutcomeUnknown"

definition remote_reason :: "remote_state \<Rightarrow> op_state \<Rightarrow> string" where
  "remote_reason remoteState current =
     (if remoteState = RemoteCompleted \<or> remoteState = RemoteFailed
      then ''remote_terminal_without_gateway_receipt''
      else if current = CancelRequested then ''cancellation_not_confirmed''
      else ''remote_'' @ op_state_text (remote_target remoteState))"

definition observeRemoteState_change :: "remote_state \<Rightarrow> remote_identities \<Rightarrow> mutation" where
  "observeRemoteState_change remoteState identities record isoAt =
     (if \<not> remoteIdentitiesMatch record identities then Inl (failure OP_retry_mismatch)
      else if op_state record \<notin> set [Dispatching, Accepted, Working, InputRequired, CancelRequested, Reconciling]
      then Inl (failure OP_invalid_transition)
      else Inr (nextRecord record (remote_target remoteState) isoAt
        (remote_reason remoteState (op_state record))
        (\<lambda>r. r\<lparr>op_observation_at := Some isoAt,
          op_attempts := updateLatestAttempt (op_attempts record) (\<lambda>a. a\<lparr>at_observation_at := Some isoAt\<rparr>)\<rparr>)))"

definition markTransportFailure_change :: mutation where
  "markTransportFailure_change record isoAt =
     (if op_state record = Authorized
      then Inr (nextRecord record TransportUnavailable isoAt ''transport_unavailable'' id)
      else if op_state record \<in> set [Dispatching, Accepted, Working, InputRequired, CancelRequested]
      then Inr (nextRecord record OutcomeUnknown isoAt ''transport_lost_after_dispatch'' id)
      else Inl (failure OP_invalid_transition))"

text \<open>\<open>seen_version\<close> is the version of the record the checks before the mutation read.\<close>

definition complete_change ::
  "(jstr \<Rightarrow> int option) \<Rightarrow> js_date \<Rightarrow> operation_receipt \<Rightarrow> jstr \<Rightarrow> int \<Rightarrow> mutation" where
  "complete_change engine at receipt gateway_result_digest seen_version fresh isoAt =
     (if op_version fresh \<noteq> seen_version then Inl (failure OP_concurrent_update)
      else if op_state fresh \<notin> set [Dispatching, Accepted, Working, InputRequired, OutcomeUnknown,
                Reconciling, CancelRequested]
      then Inl (failure OP_invalid_transition)
      else if rc_status receipt = ReceiptNotExecuted then
        Inr (nextRecord fresh
          (if num_lt at (Date_parse engine (op_authorization_expires_at fresh)) then Authorized else Expired)
          isoAt ''verified_non_execution''
          (\<lambda>r. r\<lparr>op_receipt := Some receipt, op_observation_at := Some isoAt,
            op_attempts := updateLatestAttempt (op_attempts fresh)
              (\<lambda>a. a\<lparr>at_observation_at := Some isoAt, at_completion_at := Some isoAt\<rparr>)\<rparr>))
      else
        Inr (nextRecord fresh (if rc_status receipt = ReceiptCompleted then Completed else Failed)
          isoAt ''gateway_receipt_verified''
          (\<lambda>r. r\<lparr>op_receipt := Some receipt, op_gateway_result_digest := Some gateway_result_digest,
            op_application_error := (rc_status receipt = ReceiptApplicationError),
            op_observation_at := Some isoAt, op_completion_at := Some isoAt,
            op_attempts := updateLatestAttempt (op_attempts fresh)
              (\<lambda>a. a\<lparr>at_observation_at := Some isoAt, at_completion_at := Some isoAt\<rparr>)\<rparr>)))"

record retry_input =
  ry_idempotency_key :: jstr
  ry_canonical_packet_digest :: jstr
  ry_tool_argument_digest :: jstr

definition retryExact_change :: "(jstr \<Rightarrow> int option) \<Rightarrow> js_date \<Rightarrow> retry_input \<Rightarrow> mutation" where
  "retryExact_change engine at input record isoAt =
     (if op_state record = OutcomeUnknown \<or> op_state record = Reconciling
      then Inl (failure OP_reconciliation_required)
      else if op_state record \<noteq> TransportUnavailable then Inl (failure OP_invalid_transition)
      else if op_idempotency_key record \<noteq> ry_idempotency_key input
              \<or> op_canonical_packet_digest record \<noteq> ry_canonical_packet_digest input
              \<or> op_tool_argument_digest record \<noteq> ry_tool_argument_digest input
      then Inl (failure OP_retry_mismatch)
      else if num_le (Date_parse engine (op_authorization_expires_at record)) at
      then Inr (nextRecord record Expired isoAt ''authorization_expired_before_retry'' id)
      else Inr (nextRecord record Authorized isoAt ''exact_retry_authorized'' id))"

definition recoverAfterRestart_change :: mutation where
  "recoverAfterRestart_change record isoAt =
     (if op_state record \<in> set [Dispatching, Accepted, Working, InputRequired, CancelRequested]
      then Inr (nextRecord record OutcomeUnknown isoAt ''restart_after_possible_dispatch'' id)
      else Inl (success record True))"

text \<open>
  \<open>staleAfterMs\<close> is a JavaScript number; the comparison with a difference of finite times is only
  reached for a positive safe integer.
\<close>

definition markOrphaned_change :: "(jstr \<Rightarrow> int option) \<Rightarrow> js_date \<Rightarrow> jsnum \<Rightarrow> mutation" where
  "markOrphaned_change engine at staleAfterMs record isoAt =
     (if \<not> num_isSafeInteger staleAfterMs \<or> num_less_int staleAfterMs 1 then Inl (failure OP_invalid_input)
      else if op_state record \<in> set [Completed, Failed, Expired] then Inl (failure OP_invalid_transition)
      else (case (at, Date_parse engine (tr_at (last (op_transitions record)))) of
              (Some t, Some lastAt) \<Rightarrow>
                if t - lastAt < as_int (JNum staleAfterMs) then Inl (failure OP_invalid_transition)
                else Inr (nextRecord record Orphaned isoAt ''operation_stale'' id)
            | _ \<Rightarrow> Inr (nextRecord record Orphaned isoAt ''operation_stale'' id)))"

end
