(* ===== verification/Operation_History.thy ===== *)
theory Operation_History
  imports Operation_Record
begin

text \<open>
  The life of one operation. \<open>op_change\<close> is the transition system of the coordinator's record changes
  (\<open>command_change_iff\<close>: exactly the changes the code makes), \<open>op_step\<close> adds the checks of \<open>#mutate\<close>,
  and \<open>op_reachable\<close> collects the records that preparing and stepping can produce. By rule
  induction every reachable record satisfies \<open>op_invariant\<close> (valid, dispatch counter exact, at most
  one open dispatch) and \<open>evidence_ok\<close> (ends only with verified receipts), and conversely
  \<open>reachable_change_valid\<close> shows that the validation of \<open>#mutate\<close> never rejects a change that is due.
\<close>

section \<open>Instants\<close>

lemma validIso_iff: "validIso engine s \<longleftrightarrow> (\<exists>t. Date_parse engine s = Some t \<and> s = toISOString t)"
  by (auto simp: validIso_def split: option.splits)

lemma validIso_toISOString: "time_clipped t \<Longrightarrow> validIso engine (toISOString t)"
  by (simp add: validIso_def Date_parse_toISOString)

lemma validIso_parse: "validIso engine s \<Longrightarrow> \<exists>t. Date_parse engine s = Some t"
  by (auto simp: validIso_iff)

section \<open>Extending the history\<close>

lemma transitions_ok_append:
  assumes "transitions_ok engine st i prev l ts" and "ts \<noteq> []"
    and "tr_sequence t = int i + int (length ts) + 1" and "tr_to t = st'"
    and "tr_from t = Some (tr_to (last ts))" and "isAllowedTransition (tr_to (last ts)) st'"
    and "Date_parse engine (tr_at t) = Some a"
    and "\<And>b. Date_parse engine (tr_at (last ts)) = Some b \<Longrightarrow> b \<le> a"
    and "safeLabel (tr_reason t) 128"
  shows "transitions_ok engine st' i prev l (ts @ [t])"
  using assms
proof (induction ts arbitrary: i prev l)
  case (Cons x xs)
  obtain c where c: "Date_parse engine (tr_at x) = Some c" "\<not> num_lt (Some c) l"
    "transitions_ok engine st (Suc i) (Some x) (Some c) xs"
    using Cons.prems(1) by (auto split: option.splits)
  show ?case
  proof (cases "xs = []")
    case True
    then show ?thesis using Cons.prems c by (auto split: option.splits)
  next
    case False
    have "transitions_ok engine st' (Suc i) (Some x) (Some c) (xs @ [t])"
      by (rule Cons.IH [OF c(3) False]) (use Cons.prems False in simp_all)
    then show ?thesis using Cons.prems(1) c False by (auto split: option.splits)
  qed
qed simp

lemma transitions_ok_last_time:
  "transitions_ok engine st i prev l ts \<Longrightarrow> ts \<noteq> [] \<Longrightarrow> \<exists>b. Date_parse engine (tr_at (last ts)) = Some b"
proof (induction ts arbitrary: i prev l)
  case (Cons x xs)
  then show ?case by (cases "xs = []") (auto split: option.splits)
qed simp

lemma every_attempt_append:
  "every_attempt P i (as @ [a]) \<longleftrightarrow> every_attempt P i as \<and> P (i + length as) a"
  by (induction as arbitrary: i) auto

lemma updateLatestAttempt_snoc: "updateLatestAttempt (as @ [a]) f = as @ [f a]"
proof (induction as)
  case (Cons x xs)
  then show ?case by (cases xs) auto
qed simp

lemma length_updateLatestAttempt [simp]: "length (updateLatestAttempt as f) = length as"
  by (cases as rule: rev_cases) (simp_all add: updateLatestAttempt_snoc)

lemma every_attempt_update:
  assumes "every_attempt P i as" and "\<And>j a. a \<in> set as \<Longrightarrow> P j a \<Longrightarrow> P j (f a)"
  shows "every_attempt P i (updateLatestAttempt as f)"
  using assms by (cases as rule: rev_cases) (auto simp: updateLatestAttempt_snoc every_attempt_append)

lemma every_attempt_set: "every_attempt P i as \<Longrightarrow> a \<in> set as \<Longrightarrow> \<exists>j. P j a"
  by (induction as arbitrary: i) auto

lemma set_updateLatestAttempt: "a \<in> set (updateLatestAttempt as f) \<Longrightarrow> a \<in> set as \<or> (\<exists>b \<in> set as. a = f b)"
  by (cases as rule: rev_cases) (auto simp: updateLatestAttempt_snoc)

section \<open>Commands\<close>

text \<open>The record changes the coordinator can make, as one type.\<close>

datatype op_command =
    CmdAuthorize
  | CmdDispatch
  | CmdObserve remote_state remote_identities
  | CmdTransportFailure
  | CmdCancel
  | CmdReconcile
  | CmdComplete operation_receipt jstr int
  | CmdRetry retry_input
  | CmdRecover
  | CmdOrphan jsnum

definition authorize_change :: mutation where
  "authorize_change = transition_change Authorized ''authorization_valid'' [Prepared]"

definition requestCancellation_change :: mutation where
  "requestCancellation_change = transition_change CancelRequested ''cancellation_requested''
     [Dispatching, Accepted, Working, InputRequired, OutcomeUnknown, Reconciling]"

definition beginReconciliation_change :: mutation where
  "beginReconciliation_change = transition_change Reconciling ''reconciliation_started''
     [OutcomeUnknown, CancelRequested, Orphaned]"

fun command_change :: "(jstr \<Rightarrow> int option) \<Rightarrow> js_date \<Rightarrow> op_command \<Rightarrow> mutation" where
  "command_change engine at CmdAuthorize = authorize_change"
| "command_change engine at CmdDispatch = beginDispatch_change engine at"
| "command_change engine at (CmdObserve remote identities) = observeRemoteState_change remote identities"
| "command_change engine at CmdTransportFailure = markTransportFailure_change"
| "command_change engine at CmdCancel = requestCancellation_change"
| "command_change engine at CmdReconcile = beginReconciliation_change"
| "command_change engine at (CmdComplete receipt digest version) =
     complete_change engine at receipt digest version"
| "command_change engine at (CmdRetry input) = retryExact_change engine at input"
| "command_change engine at CmdRecover = recoverAfterRestart_change"
| "command_change engine at (CmdOrphan stale) = markOrphaned_change engine at stale"

lemmas change_defs = authorize_change_def beginDispatch_change_def observeRemoteState_change_def
  markTransportFailure_change_def requestCancellation_change_def beginReconciliation_change_def
  complete_change_def retryExact_change_def recoverAfterRestart_change_def markOrphaned_change_def
  transition_change_def

text \<open>The checks \<open>completeWithGatewayReceipt\<close> makes on the receipt before the change.\<close>

definition receipt_accepted ::
  "(jstr \<Rightarrow> int option) \<Rightarrow> (operation_receipt \<Rightarrow> operation_record \<Rightarrow> bool option) \<Rightarrow> op_command \<Rightarrow>
    operation_record \<Rightarrow> bool" where
  "receipt_accepted engine verify cmd r \<longleftrightarrow> (case cmd of
     CmdComplete receipt digest version \<Rightarrow> isValidReceipt engine receipt \<and> isDigest digest
       \<and> rc_result_digest receipt = digest \<and> verify receipt r = Some True \<and> receiptMatches receipt r
   | _ \<Rightarrow> True)"

section \<open>The transition system\<close>

abbreviation (input) auth_expiry :: "(jstr \<Rightarrow> int option) \<Rightarrow> operation_record \<Rightarrow> int option" where
  "auth_expiry engine r \<equiv> Date_parse engine (op_authorization_expires_at r)"

definition in_flight :: "op_state list" where
  "in_flight = [Dispatching, Accepted, Working, InputRequired, CancelRequested]"

definition observed :: "jstr \<Rightarrow> operation_record \<Rightarrow> operation_record" where
  "observed isoAt r = r\<lparr>op_observation_at := Some isoAt,
     op_attempts := updateLatestAttempt (op_attempts r) (\<lambda>a. a\<lparr>at_observation_at := Some isoAt\<rparr>)\<rparr>"

definition closed_attempt :: "jstr \<Rightarrow> operation_receipt \<Rightarrow> operation_record \<Rightarrow> operation_record" where
  "closed_attempt isoAt receipt r = r\<lparr>op_receipt := Some receipt, op_observation_at := Some isoAt,
     op_attempts := updateLatestAttempt (op_attempts r)
       (\<lambda>a. a\<lparr>at_observation_at := Some isoAt, at_completion_at := Some isoAt\<rparr>)\<rparr>"

definition finished :: "jstr \<Rightarrow> operation_receipt \<Rightarrow> jstr \<Rightarrow> operation_record \<Rightarrow> operation_record" where
  "finished isoAt receipt digest r = (closed_attempt isoAt receipt r)\<lparr>op_gateway_result_digest := Some digest,
     op_application_error := (rc_status receipt = ReceiptApplicationError), op_completion_at := Some isoAt\<rparr>"

definition dispatched :: "jstr \<Rightarrow> operation_record \<Rightarrow> operation_record" where
  "dispatched isoAt r = r\<lparr>op_attempt_count := op_attempt_count r + 1, op_dispatch_at := Some isoAt,
     op_attempts := op_attempts r @ [\<lparr>at_attempt = op_attempt_count r + 1, at_dispatched_at = isoAt,
       at_observation_at = None, at_completion_at = None\<rparr>]\<rparr>"

definition stale :: "(jstr \<Rightarrow> int option) \<Rightarrow> js_date \<Rightarrow> jsnum \<Rightarrow> operation_record \<Rightarrow> bool" where
  "stale engine at ms r \<longleftrightarrow> (case (at, Date_parse engine (tr_at (last (op_transitions r)))) of
     (Some t, Some l) \<Rightarrow> as_int (JNum ms) \<le> t - l | _ \<Rightarrow> True)"

inductive op_change ::
  "(jstr \<Rightarrow> int option) \<Rightarrow> js_date \<Rightarrow> jstr \<Rightarrow> op_command \<Rightarrow> operation_record \<Rightarrow> operation_record \<Rightarrow> bool"
  for engine at isoAt where
  ch_authorize: "op_state r = Prepared \<Longrightarrow>
    op_change engine at isoAt CmdAuthorize r (nextRecord r Authorized isoAt ''authorization_valid'' id)"
| ch_dispatch: "op_state r = Authorized \<Longrightarrow> \<not> num_le (auth_expiry engine r) at \<Longrightarrow>
    op_change engine at isoAt CmdDispatch r (nextRecord r Dispatching isoAt ''dispatch_started'' (dispatched isoAt))"
| ch_observe: "remoteIdentitiesMatch r ids \<Longrightarrow> op_state r \<in> set (Reconciling # in_flight) \<Longrightarrow>
    op_change engine at isoAt (CmdObserve remote ids) r
      (nextRecord r (remote_target remote) isoAt (remote_reason remote (op_state r)) (observed isoAt))"
| ch_unavailable: "op_state r = Authorized \<Longrightarrow>
    op_change engine at isoAt CmdTransportFailure r
      (nextRecord r TransportUnavailable isoAt ''transport_unavailable'' id)"
| ch_lost: "op_state r \<in> set in_flight \<Longrightarrow>
    op_change engine at isoAt CmdTransportFailure r
      (nextRecord r OutcomeUnknown isoAt ''transport_lost_after_dispatch'' id)"
| ch_cancel: "op_state r \<in> {Dispatching, Accepted, Working, InputRequired, OutcomeUnknown, Reconciling} \<Longrightarrow>
    op_change engine at isoAt CmdCancel r (nextRecord r CancelRequested isoAt ''cancellation_requested'' id)"
| ch_reconcile: "op_state r \<in> {OutcomeUnknown, CancelRequested, Orphaned} \<Longrightarrow>
    op_change engine at isoAt CmdReconcile r (nextRecord r Reconciling isoAt ''reconciliation_started'' id)"
| ch_not_executed: "op_version r = version \<Longrightarrow> op_state r \<in> set (OutcomeUnknown # Reconciling # in_flight) \<Longrightarrow>
    rc_status receipt = ReceiptNotExecuted \<Longrightarrow>
    op_change engine at isoAt (CmdComplete receipt digest version) r
      (nextRecord r (if num_lt at (auth_expiry engine r) then Authorized else Expired) isoAt
        ''verified_non_execution'' (closed_attempt isoAt receipt))"
| ch_executed: "op_version r = version \<Longrightarrow> op_state r \<in> set (OutcomeUnknown # Reconciling # in_flight) \<Longrightarrow>
    rc_status receipt \<noteq> ReceiptNotExecuted \<Longrightarrow>
    op_change engine at isoAt (CmdComplete receipt digest version) r
      (nextRecord r (if rc_status receipt = ReceiptCompleted then Completed else Failed) isoAt
        ''gateway_receipt_verified'' (finished isoAt receipt digest))"
| ch_retry: "op_state r = TransportUnavailable \<Longrightarrow> op_idempotency_key r = ry_idempotency_key input \<Longrightarrow>
    op_canonical_packet_digest r = ry_canonical_packet_digest input \<Longrightarrow>
    op_tool_argument_digest r = ry_tool_argument_digest input \<Longrightarrow>
    op_change engine at isoAt (CmdRetry input) r
      (if num_le (auth_expiry engine r) at
       then nextRecord r Expired isoAt ''authorization_expired_before_retry'' id
       else nextRecord r Authorized isoAt ''exact_retry_authorized'' id)"
| ch_recover: "op_state r \<in> set in_flight \<Longrightarrow>
    op_change engine at isoAt CmdRecover r
      (nextRecord r OutcomeUnknown isoAt ''restart_after_possible_dispatch'' id)"
| ch_orphan: "num_isSafeInteger ms \<Longrightarrow> \<not> num_less_int ms 1 \<Longrightarrow> op_state r \<notin> {Completed, Failed, Expired} \<Longrightarrow>
    stale engine at ms r \<Longrightarrow>
    op_change engine at isoAt (CmdOrphan ms) r (nextRecord r Orphaned isoAt ''operation_stale'' id)"

inductive_simps op_change_simps:
  "op_change engine at isoAt CmdAuthorize r r'" "op_change engine at isoAt CmdDispatch r r'"
  "op_change engine at isoAt (CmdObserve remote ids) r r'" "op_change engine at isoAt CmdTransportFailure r r'"
  "op_change engine at isoAt CmdCancel r r'" "op_change engine at isoAt CmdReconcile r r'"
  "op_change engine at isoAt (CmdComplete receipt digest version) r r'"
  "op_change engine at isoAt (CmdRetry input) r r'" "op_change engine at isoAt CmdRecover r r'"
  "op_change engine at isoAt (CmdOrphan ms) r r'"

lemma next_dispatched:
  "nextRecord r Dispatching isoAt reason (\<lambda>x. x\<lparr>op_attempt_count := op_attempt_count r + 1,
      op_dispatch_at := Some isoAt,
      op_attempts := op_attempts r @ [\<lparr>at_attempt = op_attempt_count r + 1, at_dispatched_at = isoAt,
        at_observation_at = None, at_completion_at = None\<rparr>]\<rparr>)
   = nextRecord r Dispatching isoAt reason (dispatched isoAt)"
  by (simp add: nextRecord_def dispatched_def)

lemma next_observed:
  "nextRecord r st isoAt reason (\<lambda>x. x\<lparr>op_observation_at := Some isoAt,
      op_attempts := updateLatestAttempt (op_attempts r) (\<lambda>a. a\<lparr>at_observation_at := Some isoAt\<rparr>)\<rparr>)
   = nextRecord r st isoAt reason (observed isoAt)"
  by (simp add: nextRecord_def observed_def)

lemma next_closed:
  "nextRecord r st isoAt reason (\<lambda>x. x\<lparr>op_receipt := Some receipt, op_observation_at := Some isoAt,
      op_attempts := updateLatestAttempt (op_attempts r)
        (\<lambda>a. a\<lparr>at_observation_at := Some isoAt, at_completion_at := Some isoAt\<rparr>)\<rparr>)
   = nextRecord r st isoAt reason (closed_attempt isoAt receipt)"
  by (simp add: nextRecord_def closed_attempt_def)

lemma next_finished:
  "nextRecord r st isoAt reason (\<lambda>x. x\<lparr>op_receipt := Some receipt, op_gateway_result_digest := Some digest,
      op_application_error := (rc_status receipt = ReceiptApplicationError),
      op_observation_at := Some isoAt, op_completion_at := Some isoAt,
      op_attempts := updateLatestAttempt (op_attempts r)
        (\<lambda>a. a\<lparr>at_observation_at := Some isoAt, at_completion_at := Some isoAt\<rparr>)\<rparr>)
   = nextRecord r st isoAt reason (finished isoAt receipt digest)"
  by (simp add: nextRecord_def finished_def closed_attempt_def)

lemmas next_forms = next_dispatched next_observed next_closed next_finished

text \<open>The changes of the coordinator are exactly the steps of the transition system.\<close>

lemma command_change_iff:
  "command_change engine at cmd r isoAt = Inr r' \<longleftrightarrow> op_change engine at isoAt cmd r r'"
proof (cases cmd)
  case CmdAuthorize
  then show ?thesis by (auto simp: op_change_simps authorize_change_def transition_change_def)
next
  case CmdDispatch
  show ?thesis unfolding CmdDispatch command_change.simps beginDispatch_change_def Let_def next_forms
    by (auto simp: op_change_simps)
next
  case (CmdObserve remote ids)
  show ?thesis unfolding CmdObserve command_change.simps observeRemoteState_change_def next_forms
    by (auto simp: op_change_simps in_flight_def)
next
  case CmdTransportFailure
  then show ?thesis by (auto simp: op_change_simps markTransportFailure_change_def in_flight_def)
next
  case CmdCancel
  then show ?thesis by (auto simp: op_change_simps requestCancellation_change_def transition_change_def)
next
  case CmdReconcile
  then show ?thesis by (auto simp: op_change_simps beginReconciliation_change_def transition_change_def)
next
  case (CmdComplete receipt digest version)
  show ?thesis unfolding CmdComplete command_change.simps complete_change_def next_forms
    by (auto simp: op_change_simps in_flight_def)
next
  case (CmdRetry input)
  then show ?thesis by (auto simp: op_change_simps retryExact_change_def)
next
  case CmdRecover
  then show ?thesis by (auto simp: op_change_simps recoverAfterRestart_change_def in_flight_def)
next
  case (CmdOrphan ms)
  then show ?thesis
    by (auto simp: op_change_simps markOrphaned_change_def stale_def not_less split: option.splits)
qed

lemma null_or_simps [simp]: "null_or P None" "null_or P (Some x) \<longleftrightarrow> P x"
  by (simp_all add: null_or_def)

section \<open>Steps\<close>

text \<open>The checks of \<open>#mutate\<close> around a change: valid date, no clock skew, valid result.\<close>

definition plan_change :: "(jstr \<Rightarrow> int option) \<Rightarrow> js_date \<Rightarrow> mutation \<Rightarrow> operation_record \<Rightarrow> op_result + operation_record" where
  "plan_change engine at mutate record =
     (case at of
        None \<Rightarrow> Inl (failure OP_invalid_input)
      | Some t \<Rightarrow>
          if num_lt at (Date_parse engine (tr_at (last (op_transitions record))))
          then Inl (failure OP_clock_skew)
          else (case mutate record (toISOString t) of
                  Inl result \<Rightarrow> Inl result
                | Inr changed \<Rightarrow>
                    if \<not> isValidOperationRecord engine changed then Inl (failure OP_store_corrupted)
                    else Inr changed))"

definition date_ok :: "js_date \<Rightarrow> bool" where
  "date_ok d \<longleftrightarrow> null_or time_clipped d"

definition last_time :: "(jstr \<Rightarrow> int option) \<Rightarrow> operation_record \<Rightarrow> int option" where
  "last_time engine r = Date_parse engine (tr_at (last (op_transitions r)))"

inductive op_step ::
  "(jstr \<Rightarrow> int option) \<Rightarrow> (operation_receipt \<Rightarrow> operation_record \<Rightarrow> bool option) \<Rightarrow>
    operation_record \<Rightarrow> operation_record \<Rightarrow> bool"
  for engine verify where
  op_stepI: "date_ok at \<Longrightarrow> receipt_accepted engine verify cmd r \<Longrightarrow>
    plan_change engine at (command_change engine at cmd) r = Inr r' \<Longrightarrow> op_step engine verify r r'"

lemma plan_change_InrD:
  assumes "plan_change engine at (command_change engine at cmd) r = Inr r'"
  shows "\<exists>t. at = Some t \<and> \<not> num_lt at (last_time engine r)
    \<and> op_change engine at (toISOString t) cmd r r' \<and> isValidOperationRecord engine r'"
  using assms
  by (auto simp: plan_change_def last_time_def command_change_iff split: option.splits if_splits sum.splits)

inductive op_reachable ::
  "(jstr \<Rightarrow> int option) \<Rightarrow> (operation_receipt \<Rightarrow> operation_record \<Rightarrow> bool option) \<Rightarrow> operation_record \<Rightarrow> bool"
  for engine verify where
  reach_prepare: "isValidPrepareInput input \<Longrightarrow> date_ok (pi_requested_at input) \<Longrightarrow>
    date_ok (pi_authorization_expires_at input) \<Longrightarrow> op_reachable engine verify (initialRecord input)"
| reach_step: "op_reachable engine verify r \<Longrightarrow> op_step engine verify r r' \<Longrightarrow> op_reachable engine verify r'"

section \<open>The first record\<close>

lemma literal_label: "list_all (\<lambda>c. of_char c \<ge> (32::nat) \<and> of_char c \<noteq> (127::nat)) s \<Longrightarrow> s \<noteq> [] \<Longrightarrow>
    length s \<le> n \<Longrightarrow> safeLabel (js s) n"
  by (fastforce simp: safeLabel_def some_in_class_def cc_control_def in_class_def list_all_iff list_ex_iff)

lemma initial_valid:
  assumes "isValidPrepareInput input" and "date_ok (pi_requested_at input)"
    and "date_ok (pi_authorization_expires_at input)"
  shows "isValidOperationRecord engine (initialRecord input)"
proof -
  from assms obtain q x where q: "pi_requested_at input = Some q" "time_clipped q"
    and x: "pi_authorization_expires_at input = Some x" "time_clipped x" and less: "q < x"
    by (auto simp: isValidPrepareInput_def date_ok_def)
  have label: "safeLabel (js ''operation_prepared'') 128" by (rule literal_label) simp_all
  show ?thesis
    unfolding isValidOperationRecord_def
  proof (intro conjI)
    show "record_fields_ok engine (initialRecord input)"
      using assms(1) less
      unfolding isValidPrepareInput_def record_fields_ok_def isValidScope_def
      by (simp add: initialRecord_def Let_def date_text_def validIso_toISOString Date_parse_toISOString q x
          max_safe_integer_def)
    show "transitions_ok engine (op_state (initialRecord input)) 0 None None (op_transitions (initialRecord input))"
      by (simp add: initialRecord_def Let_def date_text_def Date_parse_toISOString q label)
  qed (simp_all add: initialRecord_def Let_def outcome_ok_def)
qed

section \<open>Successors of valid records are valid\<close>

lemma next_simps [simp]:
  "op_state (nextRecord r st isoAt reason f) = st"
  "op_version (nextRecord r st isoAt reason f) = op_version r + 1"
  "op_transitions (nextRecord r st isoAt reason f) = op_transitions r @
     [\<lparr>tr_sequence = int (length (op_transitions r)) + 1, tr_from = Some (op_state r), tr_to = st,
       tr_at = isoAt, tr_reason = js reason\<rparr>]"
  "op_attempts (nextRecord r st isoAt reason f) = op_attempts (f r)"
  "op_attempt_count (nextRecord r st isoAt reason f) = op_attempt_count (f r)"
  "op_requested_at (nextRecord r st isoAt reason f) = op_requested_at (f r)"
  "op_receipt (nextRecord r st isoAt reason f) = op_receipt (f r)"
  "op_gateway_result_digest (nextRecord r st isoAt reason f) = op_gateway_result_digest (f r)"
  "op_completion_at (nextRecord r st isoAt reason f) = op_completion_at (f r)"
  "op_application_error (nextRecord r st isoAt reason f) = op_application_error (f r)"
  by (simp_all add: nextRecord_def)

lemma nextRecord_valid:
  assumes valid: "isValidOperationRecord engine r" and "isAllowedTransition (op_state r) st"
    and "Date_parse engine isoAt = Some t" and "\<not> num_lt (Some t) (last_time engine r)"
    and "safeLabel (js reason) 128" and "record_fields_ok engine (nextRecord r st isoAt reason f)"
    and "op_requested_at (f r) = op_requested_at r"
    and "every_attempt (attempt_ok engine (op_requested_at r)) 0 (op_attempts (f r))"
    and "outcome_ok (nextRecord r st isoAt reason f)"
  shows "isValidOperationRecord engine (nextRecord r st isoAt reason f)"
proof -
  let ?t = "\<lparr>tr_sequence = int (length (op_transitions r)) + 1, tr_from = Some (op_state r), tr_to = st,
       tr_at = isoAt, tr_reason = js reason\<rparr>"
  have ts: "transitions_ok engine (op_state r) 0 None None (op_transitions r)" "op_transitions r \<noteq> []"
    "tr_to (last (op_transitions r)) = op_state r" "tr_at (hd (op_transitions r)) = op_requested_at r"
    using valid by (simp_all add: isValidOperationRecord_def)
  have "transitions_ok engine st 0 None None (op_transitions r @ [?t])"
    by (rule transitions_ok_append [OF ts(1,2)]) (use assms(2-5) ts(3) in \<open>auto simp: last_time_def\<close>)
  then show ?thesis using assms ts by (simp add: isValidOperationRecord_def)
qed

text \<open>Updates that touch only observations, attempts, the receipt and the result.\<close>

lemma fields_next_id:
  "isValidOperationRecord engine r \<Longrightarrow> op_version r < max_safe_integer \<Longrightarrow>
    record_fields_ok engine (nextRecord r st isoAt reason id)"
  by (auto simp: isValidOperationRecord_def record_fields_ok_def nextRecord_def isValidScope_def)

lemma fields_next_dispatched:
  "isValidOperationRecord engine r \<Longrightarrow> op_version r < max_safe_integer \<Longrightarrow>
    op_attempt_count r < max_safe_integer \<Longrightarrow> validIso engine isoAt \<Longrightarrow>
    record_fields_ok engine (nextRecord r st isoAt reason (dispatched isoAt))"
  by (auto simp: isValidOperationRecord_def record_fields_ok_def nextRecord_def isValidScope_def dispatched_def)

lemma fields_next_observed:
  "isValidOperationRecord engine r \<Longrightarrow> op_version r < max_safe_integer \<Longrightarrow> validIso engine isoAt \<Longrightarrow>
    record_fields_ok engine (nextRecord r st isoAt reason (observed isoAt))"
  by (auto simp: isValidOperationRecord_def record_fields_ok_def nextRecord_def isValidScope_def observed_def)

lemma fields_next_closed:
  "isValidOperationRecord engine r \<Longrightarrow> op_version r < max_safe_integer \<Longrightarrow> validIso engine isoAt \<Longrightarrow>
    isValidReceipt engine receipt \<Longrightarrow>
    record_fields_ok engine (nextRecord r st isoAt reason (closed_attempt isoAt receipt))"
  by (auto simp: isValidOperationRecord_def record_fields_ok_def nextRecord_def isValidScope_def closed_attempt_def)

lemma fields_next_finished:
  "isValidOperationRecord engine r \<Longrightarrow> op_version r < max_safe_integer \<Longrightarrow> validIso engine isoAt \<Longrightarrow>
    isValidReceipt engine receipt \<Longrightarrow> isDigest digest \<Longrightarrow>
    record_fields_ok engine (nextRecord r st isoAt reason (finished isoAt receipt digest))"
  by (auto simp: isValidOperationRecord_def record_fields_ok_def nextRecord_def isValidScope_def finished_def
      closed_attempt_def)

section \<open>Invariant of reachable records\<close>

text \<open>A dispatch is open until a verified receipt says that nothing was executed.\<close>

definition non_execution :: jstr where
  "non_execution = js ''verified_non_execution''"

definition open_dispatch :: "operation_transition list \<Rightarrow> bool" where
  "open_dispatch ts = foldl (\<lambda>opened t. if tr_to t = Dispatching then True
     else if tr_reason t = non_execution then False else opened) False ts"

definition single_flight :: "operation_transition list \<Rightarrow> bool" where
  "single_flight ts \<longleftrightarrow> (\<forall>i < length ts. tr_to (ts ! i) = Dispatching \<longrightarrow> \<not> open_dispatch (take i ts))"

definition dispatch_count :: "operation_transition list \<Rightarrow> nat" where
  "dispatch_count ts = length (filter (\<lambda>t. tr_to t = Dispatching) ts)"

definition before_dispatch :: "op_state list" where
  "before_dispatch = [Prepared, Authorized, TransportUnavailable]"

definition op_invariant :: "(jstr \<Rightarrow> int option) \<Rightarrow> operation_record \<Rightarrow> bool" where
  "op_invariant engine r \<longleftrightarrow>
     isValidOperationRecord engine r
     \<and> (\<forall>a \<in> set (op_attempts r). num_le (Date_parse engine (at_dispatched_at a)) (last_time engine r))
     \<and> op_attempt_count r = int (dispatch_count (op_transitions r))
     \<and> (op_state r \<in> set before_dispatch \<longrightarrow> \<not> open_dispatch (op_transitions r))
     \<and> single_flight (op_transitions r)"

lemma open_dispatch_snoc:
  "open_dispatch (ts @ [t]) = (if tr_to t = Dispatching then True
     else if tr_reason t = non_execution then False else open_dispatch ts)"
  by (simp add: open_dispatch_def)

lemma single_flight_snoc:
  assumes "single_flight ts" and "tr_to t = Dispatching \<Longrightarrow> \<not> open_dispatch ts"
  shows "single_flight (ts @ [t])"
  using assms unfolding single_flight_def
  by (auto simp: nth_append less_Suc_eq)

lemma dispatch_count_snoc:
  "dispatch_count (ts @ [t]) = dispatch_count ts + (if tr_to t = Dispatching then 1 else 0)"
  by (simp add: dispatch_count_def)

lemma open_dispatch_append:
  "open_dispatch ts \<Longrightarrow> \<not> open_dispatch (ts @ us) \<Longrightarrow> \<exists>u \<in> set us. tr_reason u = non_execution"
proof (induction us rule: rev_induct)
  case (snoc u us)
  then show ?case
    by (cases "open_dispatch (ts @ us)") (auto simp: append_assoc [symmetric] open_dispatch_snoc simp del: append_assoc
        split: if_splits)
qed simp

text \<open>Between two dispatches lies a verified receipt of non-execution.\<close>

lemma single_flight_between:
  assumes "single_flight ts" and "i < j" and "j < length ts" and "tr_to (ts ! i) = Dispatching"
    and "tr_to (ts ! j) = Dispatching"
  shows "\<exists>k. i < k \<and> k < j \<and> tr_reason (ts ! k) = non_execution"
proof -
  let ?us = "drop (Suc i) (take j ts)"
  have "take (Suc i) ts = take i ts @ [ts ! i]" using assms(2,3) by (simp add: take_Suc_conv_app_nth)
  then have "open_dispatch (take (Suc i) ts)" using assms(4) by (simp add: open_dispatch_snoc)
  moreover have "take j ts = take (Suc i) ts @ ?us"
    using assms(2) by (metis Suc_leI append_take_drop_id min_def take_take)
  moreover have "\<not> open_dispatch (take j ts)" using assms(1,3,5) by (simp add: single_flight_def)
  ultimately have "\<exists>u \<in> set ?us. tr_reason u = non_execution" using open_dispatch_append by metis
  then obtain n where "n < length ?us" "tr_reason (?us ! n) = non_execution" by (metis in_set_conv_nth)
  then show ?thesis using assms(2,3) by (intro exI [of _ "Suc i + n"]) (auto simp: nth_take)
qed

lemma initial_invariant:
  assumes "isValidPrepareInput input" and "date_ok (pi_requested_at input)"
    and "date_ok (pi_authorization_expires_at input)"
  shows "op_invariant engine (initialRecord input)"
  using initial_valid [OF assms]
  by (simp add: op_invariant_def initialRecord_def Let_def open_dispatch_def single_flight_def dispatch_count_def
      non_execution_def)

section \<open>Every change keeps the invariant\<close>

lemma attempts_kept [simp]:
  "op_attempts (observed isoAt r) = updateLatestAttempt (op_attempts r) (\<lambda>a. a\<lparr>at_observation_at := Some isoAt\<rparr>)"
  "op_attempts (closed_attempt isoAt receipt r) = updateLatestAttempt (op_attempts r)
     (\<lambda>a. a\<lparr>at_observation_at := Some isoAt, at_completion_at := Some isoAt\<rparr>)"
  "op_attempts (finished isoAt receipt digest r) = op_attempts (closed_attempt isoAt receipt r)"
  "op_attempts (dispatched isoAt r) = op_attempts r @ [\<lparr>at_attempt = op_attempt_count r + 1, at_dispatched_at = isoAt,
       at_observation_at = None, at_completion_at = None\<rparr>]"
  "op_attempt_count (observed isoAt r) = op_attempt_count r"
  "op_attempt_count (closed_attempt isoAt receipt r) = op_attempt_count r"
  "op_attempt_count (finished isoAt receipt digest r) = op_attempt_count r"
  "op_attempt_count (dispatched isoAt r) = op_attempt_count r + 1"
  by (simp_all add: observed_def closed_attempt_def finished_def dispatched_def)

lemma remote_target_not_dispatch [simp]: "remote_target remote \<noteq> Dispatching"
  "remote_target remote \<noteq> Prepared" "remote_target remote \<noteq> Authorized"
  "remote_target remote \<noteq> TransportUnavailable" "remote_target remote \<noteq> Completed"
  "remote_target remote \<noteq> Failed"
  by (cases remote; simp)+

text \<open>The attempts of the successor were dispatched before it, and its counter counts dispatches.\<close>

lemma change_attempts:
  assumes "op_change engine at isoAt cmd r r'" and "Date_parse engine isoAt = Some t"
    and "\<forall>a \<in> set (op_attempts r). num_le (Date_parse engine (at_dispatched_at a)) (Some l)" and "l \<le> t"
    and "op_attempt_count r = int (dispatch_count (op_transitions r))"
  shows "(\<forall>a \<in> set (op_attempts r'). num_le (Date_parse engine (at_dispatched_at a)) (Some t))
    \<and> op_attempt_count r' = int (dispatch_count (op_transitions r'))"
proof -
  have past: "num_le (Date_parse engine (at_dispatched_at a)) (Some t)" if "a \<in> set (op_attempts r)" for a
    using assms(3,4) that by (cases "Date_parse engine (at_dispatched_at a)") force+
  show ?thesis using assms(1,2,5) past
    by cases (auto simp: dispatch_count_snoc dest!: set_updateLatestAttempt)
qed

lemma change_flight:
  assumes "op_change engine at isoAt cmd r r'" and "single_flight (op_transitions r)"
    and "op_state r \<in> set before_dispatch \<Longrightarrow> \<not> open_dispatch (op_transitions r)"
  shows "single_flight (op_transitions r')
    \<and> (op_state r' \<in> set before_dispatch \<longrightarrow> \<not> open_dispatch (op_transitions r'))"
  using assms
  by cases (auto simp: before_dispatch_def open_dispatch_snoc non_execution_def intro!: single_flight_snoc)

lemma valid_last_time: "isValidOperationRecord engine r \<Longrightarrow> \<exists>l. last_time engine r = Some l"
  unfolding isValidOperationRecord_def last_time_def by (elim conjE) (rule transitions_ok_last_time)

lemma op_invariant_step:
  assumes "op_invariant engine r" and "op_step engine verify r r'"
  shows "op_invariant engine r'"
  using assms(2)
proof cases
  case (op_stepI at cmd)
  from plan_change_InrD [OF op_stepI(3)] obtain t where at: "at = Some t"
    and skew: "\<not> num_lt at (last_time engine r)"
    and change: "op_change engine at (toISOString t) cmd r r'" and valid: "isValidOperationRecord engine r'" by blast
  have parse: "Date_parse engine (toISOString t) = Some t"
    using op_stepI(1) at by (simp add: date_ok_def Date_parse_toISOString)
  have inv: "isValidOperationRecord engine r"
    "\<forall>a \<in> set (op_attempts r). num_le (Date_parse engine (at_dispatched_at a)) (last_time engine r)"
    "op_attempt_count r = int (dispatch_count (op_transitions r))"
    "op_state r \<in> set before_dispatch \<Longrightarrow> \<not> open_dispatch (op_transitions r)" "single_flight (op_transitions r)"
    using assms(1) by (auto simp: op_invariant_def)
  obtain l where l: "last_time engine r = Some l" using valid_last_time [OF inv(1)] by blast
  have "l \<le> t" using skew at l by simp
  moreover have "last_time engine r' = Some t"
    using change parse by cases (simp_all add: last_time_def)
  ultimately show ?thesis
    using change_attempts [OF change parse _ _ inv(3)] change_flight [OF change inv(5,4)] inv(2) valid l
    by (simp add: op_invariant_def)
qed

theorem reachable_invariant: "op_reachable engine verify r \<Longrightarrow> op_invariant engine r"
  by (induction rule: op_reachable.induct) (auto intro: initial_invariant op_invariant_step)

section \<open>Receipts\<close>

lemma next_identity: "operation_identity.truncate (nextRecord r st isoAt reason f) = operation_identity.truncate (f r)"
  by (simp add: nextRecord_def operation_identity.truncate_def)

lemma update_identity:
  "operation_identity.truncate (observed isoAt r) = operation_identity.truncate r"
  "operation_identity.truncate (closed_attempt isoAt receipt r) = operation_identity.truncate r"
  "operation_identity.truncate (finished isoAt receipt digest r) = operation_identity.truncate r"
  "operation_identity.truncate (dispatched isoAt r) = operation_identity.truncate r"
  by (simp_all add: operation_identity.truncate_def observed_def closed_attempt_def finished_def dispatched_def)

lemma change_identity:
  assumes "op_change engine at isoAt cmd r r'"
  shows "operation_identity.truncate r' = operation_identity.truncate r"
  using assms by cases (simp_all only: next_identity update_identity id_apply simp_thms split: if_split)

text \<open>Which changes end an operation, and what they need.\<close>

definition receipt_evidence ::
  "(operation_receipt \<Rightarrow> operation_record \<Rightarrow> bool option) \<Rightarrow> operation_receipt \<Rightarrow> operation_record \<Rightarrow> bool" where
  "receipt_evidence verify receipt r \<longleftrightarrow> receiptMatches receipt r
     \<and> (\<exists>seen. verify receipt seen = Some True
        \<and> operation_identity.truncate seen = operation_identity.truncate r)"

lemma receipt_evidence_identity:
  assumes "operation_identity.truncate r = operation_identity.truncate r'"
  shows "receipt_evidence verify receipt r \<longleftrightarrow> receipt_evidence verify receipt r'"
  using assms by (simp add: receipt_evidence_def receiptMatches_def operation_identity.defs)

definition evidence_ok ::
  "(operation_receipt \<Rightarrow> operation_record \<Rightarrow> bool option) \<Rightarrow> operation_record \<Rightarrow> bool" where
  "evidence_ok verify r \<longleftrightarrow>
     (op_state r \<in> {Completed, Failed} \<longrightarrow> (\<exists>receipt. op_receipt r = Some receipt \<and> receipt_evidence verify receipt r
        \<and> op_gateway_result_digest r = Some (rc_result_digest receipt)
        \<and> rc_status receipt = (if op_state r = Completed then ReceiptCompleted else ReceiptApplicationError)))
     \<and> (\<forall>t \<in> set (op_transitions r). tr_reason t = non_execution \<longrightarrow>
        (\<exists>receipt. rc_status receipt = ReceiptNotExecuted \<and> receipt_evidence verify receipt r))"

lemma finished_receipt [simp]:
  "op_receipt (finished isoAt receipt digest r) = Some receipt"
  "op_gateway_result_digest (finished isoAt receipt digest r) = Some digest"
  by (simp_all add: finished_def closed_attempt_def)

lemma remote_reason_not_receipt [simp]: "remote_reason remote st \<noteq> ''verified_non_execution''"
  by (cases remote) (simp_all add: remote_reason_def)

lemma change_reason:
  assumes "op_change engine at isoAt cmd r r'" and "tr_reason (last (op_transitions r')) = non_execution"
  shows "\<exists>receipt digest version. cmd = CmdComplete receipt digest version \<and> rc_status receipt = ReceiptNotExecuted"
  using assms by cases (auto simp: non_execution_def split: if_splits)

lemma change_ends:
  assumes "op_change engine at isoAt cmd r r'" and "op_state r' \<in> {Completed, Failed}"
  shows "\<exists>receipt digest. cmd = CmdComplete receipt digest (op_version r) \<and> op_receipt r' = Some receipt
    \<and> op_gateway_result_digest r' = Some digest
    \<and> rc_status receipt = (if op_state r' = Completed then ReceiptCompleted else ReceiptApplicationError)"
  using assms by cases (auto split: if_splits, (case_tac "rc_status receipt"; simp)+)

lemma evidence_step:
  assumes "evidence_ok verify r" and "op_step engine verify r r'"
  shows "evidence_ok verify r'"
  using assms(2)
proof cases
  case (op_stepI at cmd)
  from plan_change_InrD [OF op_stepI(3)] obtain t where
    change: "op_change engine at (toISOString t) cmd r r'" by blast
  note same = change_identity [OF change]
  have accepted: "receipt_evidence verify receipt r' \<and> rc_result_digest receipt = digest"
    if "cmd = CmdComplete receipt digest version" for receipt digest version
    using op_stepI(2) that receipt_evidence_identity [OF same, of verify receipt]
    by (auto simp: receipt_accepted_def receipt_evidence_def)
  have ts: "set (op_transitions r') = insert (last (op_transitions r')) (set (op_transitions r))"
    using change by cases auto
  have old: "\<exists>receipt. rc_status receipt = ReceiptNotExecuted \<and> receipt_evidence verify receipt r'"
    if "t \<in> set (op_transitions r)" "tr_reason t = non_execution" for t
    using assms(1) that receipt_evidence_identity [OF same] by (auto simp: evidence_ok_def)
  show ?thesis unfolding evidence_ok_def ts
    using change_ends [OF change] change_reason [OF change] accepted old by fastforce
qed

lemma reachable_evidence: "op_reachable engine verify r \<Longrightarrow> evidence_ok verify r"
proof (induction rule: op_reachable.induct)
  case (reach_prepare input)
  then show ?case by (simp add: evidence_ok_def initialRecord_def Let_def non_execution_def)
qed (auto intro: evidence_step)

lemma terminal_no_change:
  "op_change engine at isoAt cmd r r' \<Longrightarrow> op_state r \<notin> {Completed, Failed, Expired}"
  by (cases rule: op_change.cases) (auto simp: in_flight_def)

section \<open>Changes of reachable records are valid\<close>

lemma transitions_ok_monotone:
  "transitions_ok engine st i prev (Some l) ts \<Longrightarrow> ts \<noteq> [] \<Longrightarrow> num_le (Some l) (Date_parse engine (tr_at (last ts)))"
proof (induction ts arbitrary: i prev l)
  case (Cons x xs)
  obtain c where c: "Date_parse engine (tr_at x) = Some c" "l \<le> c"
    "transitions_ok engine st (Suc i) (Some x) (Some c) xs"
    using Cons.prems(1) by (auto split: option.splits)
  show ?case
  proof (cases "xs = []")
    case False
    from Cons.IH [OF c(3) False] c(2) False show ?thesis
      by (cases "Date_parse engine (tr_at (last xs))") auto
  qed (use c in simp)
qed simp

lemma requested_before_last:
  assumes "isValidOperationRecord engine r"
  shows "num_le (Date_parse engine (op_requested_at r)) (last_time engine r)"
proof -
  obtain x xs where ts: "op_transitions r = x # xs" "tr_at x = op_requested_at r"
    using assms by (cases "op_transitions r") (auto simp: isValidOperationRecord_def)
  obtain c where c: "Date_parse engine (tr_at x) = Some c"
    "transitions_ok engine (op_state r) 1 (Some x) (Some c) xs"
    using assms ts(1) by (auto simp: isValidOperationRecord_def split: option.splits)
  show ?thesis
    using transitions_ok_monotone [OF c(2)] c(1) ts by (cases "xs = []") (auto simp: last_time_def)
qed

lemma remote_reason_label: "safeLabel (js (remote_reason remote st)) 128"
  by (rule literal_label) (cases remote; simp add: remote_reason_def)+

lemma change_allowed:
  assumes "op_change engine at isoAt cmd r r'" and "op_state r \<noteq> Orphaned \<or> op_state r' \<noteq> Orphaned"
  shows "isAllowedTransition (op_state r) (op_state r')"
  using assms
proof cases
  case (ch_observe ids remote)
  then show ?thesis by (cases remote) (auto simp: in_flight_def isAllowedTransition_def)
next
  case (ch_orphan ms)
  then show ?thesis using assms(2) by (cases "op_state r") (auto simp: isAllowedTransition_def)
qed (auto simp: in_flight_def isAllowedTransition_def)

lemma attempt_ok_observed:
  assumes "attempt_ok engine q j a" and "num_le (Date_parse engine (at_dispatched_at a)) (Some l)" and "l \<le> t"
    and "Date_parse engine isoAt = Some t" and "validIso engine isoAt"
  shows "attempt_ok engine q j (a\<lparr>at_observation_at := Some isoAt\<rparr>)"
    and "attempt_ok engine q j (a\<lparr>at_observation_at := Some isoAt, at_completion_at := Some isoAt\<rparr>)"
  using assms by (cases "Date_parse engine (at_dispatched_at a)"; auto simp: attempt_ok_def Let_def)+

lemma attempt_ok_new:
  assumes "validIso engine isoAt" and "num_le (Date_parse engine q) (Date_parse engine isoAt)"
  shows "attempt_ok engine q j \<lparr>at_attempt = int j + 1, at_dispatched_at = isoAt,
    at_observation_at = None, at_completion_at = None\<rparr>"
  using assms by (simp add: attempt_ok_def Let_def)

lemma change_attempts_ok:
  assumes "op_invariant engine r" and "op_change engine at isoAt cmd r r'"
    and "Date_parse engine isoAt = Some t" and "validIso engine isoAt" and "\<not> num_lt (Some t) (last_time engine r)"
  shows "every_attempt (attempt_ok engine (op_requested_at r)) 0 (op_attempts r')"
proof -
  have valid: "isValidOperationRecord engine r"
    and past: "\<forall>a \<in> set (op_attempts r). num_le (Date_parse engine (at_dispatched_at a)) (last_time engine r)"
    using assms(1) by (simp_all add: op_invariant_def)
  obtain l where l: "last_time engine r = Some l" using valid_last_time [OF valid] by blast
  have old: "every_attempt (attempt_ok engine (op_requested_at r)) 0 (op_attempts r)"
    and count: "op_attempt_count r = int (length (op_attempts r))"
    using valid by (simp_all add: isValidOperationRecord_def record_fields_ok_def)
  have "l \<le> t" using assms(5) l by simp
  note upd = attempt_ok_observed [OF _ _ this assms(3,4)]
  have obs: "every_attempt (attempt_ok engine (op_requested_at r)) 0
      (updateLatestAttempt (op_attempts r) (\<lambda>a. a\<lparr>at_observation_at := Some isoAt\<rparr>))"
    "every_attempt (attempt_ok engine (op_requested_at r)) 0 (updateLatestAttempt (op_attempts r)
      (\<lambda>a. a\<lparr>at_observation_at := Some isoAt, at_completion_at := Some isoAt\<rparr>))"
    by (rule every_attempt_update [OF old]; use upd past l in auto)+
  have req: "num_le (Date_parse engine (op_requested_at r)) (Some t)"
    using requested_before_last [OF valid] l \<open>l \<le> t\<close>
    by (cases "Date_parse engine (op_requested_at r)") auto
  have new: "every_attempt (attempt_ok engine (op_requested_at r)) 0 (op_attempts r @ [\<lparr>at_attempt = op_attempt_count r + 1,
      at_dispatched_at = isoAt, at_observation_at = None, at_completion_at = None\<rparr>])"
    using old attempt_ok_new [OF assms(4)] req assms(3) by (simp add: every_attempt_append count)
  from assms(2) show ?thesis by cases (use old obs new in simp_all)
qed

lemma dispatch_count_le: "dispatch_count ts \<le> length ts"
  by (simp add: dispatch_count_def)

lemma change_fields_ok:
  assumes "op_change engine at isoAt cmd r r'" and "isValidOperationRecord engine r"
    and "op_version r < max_safe_integer" and "op_attempt_count r < max_safe_integer"
    and "validIso engine isoAt" and "receipt_accepted engine verify cmd r"
  shows "record_fields_ok engine r'"
  using assms
  by cases (auto simp: receipt_accepted_def intro: fields_next_id fields_next_dispatched fields_next_observed
      fields_next_closed fields_next_finished)

lemma kept_fields [simp]:
  "op_requested_at (observed isoAt r) = op_requested_at r"
  "op_requested_at (closed_attempt isoAt receipt r) = op_requested_at r"
  "op_requested_at (finished isoAt receipt digest r) = op_requested_at r"
  "op_requested_at (dispatched isoAt r) = op_requested_at r"
  "op_application_error (observed isoAt r) = op_application_error r"
  "op_application_error (closed_attempt isoAt receipt r) = op_application_error r"
  "op_application_error (finished isoAt receipt digest r) = (rc_status receipt = ReceiptApplicationError)"
  "op_application_error (dispatched isoAt r) = op_application_error r"
  "op_completion_at (finished isoAt receipt digest r) = Some isoAt"
  by (simp_all add: observed_def closed_attempt_def finished_def dispatched_def)

lemma change_outcome_ok:
  assumes "op_change engine at isoAt cmd r r'" and "outcome_ok r" and "receipt_accepted engine verify cmd r"
  shows "outcome_ok r'"
proof -
  have no_error: "\<not> op_application_error r"
    using terminal_no_change [OF assms(1)] assms(2) by (auto simp: outcome_ok_def split: if_splits)
  show ?thesis using assms(1)
  proof cases
    case (ch_executed version receipt digest)
    then show ?thesis using assms(3)
      by (cases "rc_status receipt") (simp_all add: outcome_ok_def receipt_accepted_def)
  qed (simp_all add: outcome_ok_def no_error)
qed

definition next_form :: "operation_record \<Rightarrow> jstr \<Rightarrow> operation_record \<Rightarrow> bool" where
  "next_form r isoAt r' \<longleftrightarrow> (\<exists>reason f. r' = nextRecord r (op_state r') isoAt reason f
     \<and> safeLabel (js reason) 128 \<and> op_requested_at (f r) = op_requested_at r)"

lemma next_formI:
  "safeLabel (js reason) 128 \<Longrightarrow> op_requested_at (f r) = op_requested_at r \<Longrightarrow>
    next_form r isoAt (nextRecord r st isoAt reason f)"
  by (auto simp: next_form_def)

lemma change_is_next:
  assumes "op_change engine at isoAt cmd r r'"
  shows "next_form r isoAt r'"
  using assms by cases (auto intro!: next_formI literal_label remote_reason_label)

text \<open>
  On a record the coordinator can reach, a change that is due is also accepted by the validation
  that follows it, except for marking an orphaned record as orphaned again.
\<close>

lemma reachable_change_valid:
  assumes "op_invariant engine r" and "op_change engine (Some t) (toISOString t) cmd r r'"
    and "time_clipped t" and "\<not> num_lt (Some t) (last_time engine r)" and "op_version r < max_safe_integer"
    and "receipt_accepted engine verify cmd r" and "op_state r \<noteq> Orphaned \<or> op_state r' \<noteq> Orphaned"
  shows "isValidOperationRecord engine r'"
proof -
  have valid: "isValidOperationRecord engine r" and count: "op_attempt_count r = int (dispatch_count (op_transitions r))"
    using assms(1) by (simp_all add: op_invariant_def)
  have iso: "Date_parse engine (toISOString t) = Some t" "validIso engine (toISOString t)"
    using assms(3) by (simp_all add: Date_parse_toISOString validIso_toISOString)
  have "op_attempt_count r < max_safe_integer"
  proof -
    have "int (length (op_transitions r)) = op_version r"
      using valid by (simp add: isValidOperationRecord_def record_fields_ok_def)
    then show ?thesis using dispatch_count_le [of "op_transitions r"] assms(5) count by linarith
  qed
  from change_fields_ok [OF assms(2) valid assms(5) this iso(2) assms(6)]
  have fields: "record_fields_ok engine r'" .
  obtain reason f where f: "r' = nextRecord r (op_state r') (toISOString t) reason f" "safeLabel (js reason) 128"
    "op_requested_at (f r) = op_requested_at r" using change_is_next [OF assms(2)] by (auto simp: next_form_def)
  have attempts: "every_attempt (attempt_ok engine (op_requested_at r)) 0 (op_attempts (f r))"
    using change_attempts_ok [OF assms(1,2) iso assms(4)] by (subst (asm) f(1)) simp
  have outcome: "outcome_ok r'"
    using valid by (intro change_outcome_ok [OF assms(2) _ assms(6)]) (simp add: isValidOperationRecord_def)
  have "isValidOperationRecord engine (nextRecord r (op_state r') (toISOString t) reason f)"
    using valid change_allowed [OF assms(2,7)] iso(1) assms(4) f(2)
    by (rule nextRecord_valid) (use f(3) fields outcome attempts in \<open>simp_all add: f(1) [symmetric]\<close>)
  then show ?thesis using f(1) by simp
qed

end
