(* ===== verification/Operation_Store.thy ===== *)
theory Operation_Store
  imports Operation_History Packet_Sample "HOL-Library.Monad_Syntax"
begin

text \<open>
  The stores of \<open>operation-recovery.ts\<close>: the interface \<open>GatewayOperationStore\<close> as a record of
  operations on a store state, the in-memory store, and the JSON file store on the text of its
  file. A store call returns its result, or the error it throws, with the next state.

  The file store serialises its calls (\<open>#exclusive\<close>), so each call is one step on the file. The
  operating system may fail a call: \<open>jf_faults\<close> scripts, call by call, a failing read, a failure
  before the atomic rename (the file keeps its content) or after it (the new content is in place
  but the call throws). A file is read back as typed records. Reading accepts a value exactly where
  \<open>isValidOperationRecord\<close> does, and tells a record that fails validation from one on which validation
  throws a TypeError, which is no corruption error. The time of a transition after the first may be any value there, since
  only \<open>Date.parse\<close> looks at it; the typed record has its text. Fields the record type does not have are
  not represented.
\<close>

section \<open>Interface\<close>

datatype store_error = StoreCorruption | StoreIO

datatype prepare_outcome = Created operation_record | Replay operation_record | Collision

datatype cas_outcome = Updated | Conflict | Missing

record 's gateway_operation_store =
  st_prepare :: "operation_record \<Rightarrow> 's \<Rightarrow> (store_error + prepare_outcome) \<times> 's"
  st_read :: "operation_scope \<Rightarrow> jstr \<Rightarrow> 's \<Rightarrow> (store_error + operation_record option) \<times> 's"
  st_compareAndSwap ::
    "operation_scope \<Rightarrow> jstr \<Rightarrow> int \<Rightarrow> operation_record \<Rightarrow> 's \<Rightarrow> (store_error + cas_outcome) \<times> 's"
  st_list :: "operation_scope \<Rightarrow> 's \<Rightarrow> (store_error + operation_record list) \<times> 's"

definition own_key :: "operation_record \<Rightarrow> jstr" where
  "own_key record = recordKey record (op_operation_id record)"

definition in_scope :: "operation_scope \<Rightarrow> operation_record \<Rightarrow> bool" where
  "in_scope scope record \<longleftrightarrow>
     op_tenant_id record = op_tenant_id scope \<and> op_project_id record = op_project_id scope"

section \<open>The in-memory store\<close>

text \<open>A \<open>Map\<close> as its entries in insertion order.\<close>

type_synonym memory_state = "(jstr \<times> operation_record) list"

fun map_set :: "jstr \<Rightarrow> operation_record \<Rightarrow> memory_state \<Rightarrow> memory_state" where
  "map_set k r [] = [(k, r)]"
| "map_set k r ((a, b) # m) = (if a = k then (a, r) # m else (a, b) # map_set k r m)"

definition inMemory_prepare ::
  "operation_record \<Rightarrow> memory_state \<Rightarrow> (store_error + prepare_outcome) \<times> memory_state" where
  "inMemory_prepare record m =
     (let idKey = own_key record;
          idempotencyKey = operationIdempotencyKey record;
          existingById = map_of m idKey;
          existingByIdempotency = List.find (\<lambda>c. operationIdempotencyKey c = idempotencyKey) (map snd m);
          existing = (case existingById of Some e \<Rightarrow> Some e | None \<Rightarrow> existingByIdempotency)
      in case existing of
           Some e \<Rightarrow> (Inr (if operationIdentityEqual e record then Replay e else Collision), m)
         | None \<Rightarrow> (Inr (Created record), map_set idKey record m))"

definition inMemory_read ::
  "operation_scope \<Rightarrow> jstr \<Rightarrow> memory_state \<Rightarrow> (store_error + operation_record option) \<times> memory_state" where
  "inMemory_read scope operationId m = (Inr (map_of m (recordKey scope operationId)), m)"

definition inMemory_compareAndSwap ::
  "operation_scope \<Rightarrow> jstr \<Rightarrow> int \<Rightarrow> operation_record \<Rightarrow> memory_state \<Rightarrow> (store_error + cas_outcome) \<times> memory_state" where
  "inMemory_compareAndSwap scope operationId expectedVersion record m =
     (case map_of m (recordKey scope operationId) of
        None \<Rightarrow> (Inr Missing, m)
      | Some existing \<Rightarrow>
          if op_version existing \<noteq> expectedVersion then (Inr Conflict, m)
          else (Inr Updated, map_set (recordKey scope operationId) record m))"

definition inMemory_list ::
  "operation_scope \<Rightarrow> memory_state \<Rightarrow> (store_error + operation_record list) \<times> memory_state" where
  "inMemory_list scope m = (Inr (filter (in_scope scope) (map snd m)), m)"

definition InMemoryGatewayOperationStore :: "memory_state gateway_operation_store" where
  "InMemoryGatewayOperationStore =
     \<lparr>st_prepare = inMemory_prepare, st_read = inMemory_read,
      st_compareAndSwap = inMemory_compareAndSwap, st_list = inMemory_list\<rparr>"

section \<open>Records as JSON values\<close>

definition null_text :: "jstr option \<Rightarrow> jsval" where
  "null_text v = (case v of None \<Rightarrow> JNull | Some s \<Rightarrow> JStr s)"

primrec receipt_status_text :: "receipt_status \<Rightarrow> string" where
  "receipt_status_text ReceiptCompleted = ''completed''"
| "receipt_status_text ReceiptApplicationError = ''application_error''"
| "receipt_status_text ReceiptNotExecuted = ''not_executed''"

definition attempt_object :: "operation_attempt \<Rightarrow> jsval" where
  "attempt_object a = obj
     [(''attempt'', jint (at_attempt a)), (''dispatched_at'', JStr (at_dispatched_at a)),
      (''observation_at'', null_text (at_observation_at a)),
      (''completion_at'', null_text (at_completion_at a))]"

definition transition_object :: "operation_transition \<Rightarrow> jsval" where
  "transition_object t = obj
     [(''sequence'', jint (tr_sequence t)),
      (''from'', (case tr_from t of None \<Rightarrow> JNull | Some s \<Rightarrow> jtext (op_state_text s))),
      (''to'', jtext (op_state_text (tr_to t))), (''at'', JStr (tr_at t)), (''reason'', JStr (tr_reason t))]"

definition receipt_object :: "operation_receipt \<Rightarrow> jsval" where
  "receipt_object r = obj
     [(''receipt_id'', JStr (rc_receipt_id r)), (''operation_id'', JStr (rc_operation_id r)),
      (''authorization_id'', JStr (rc_authorization_id r)),
      (''canonical_packet_digest'', JStr (rc_canonical_packet_digest r)),
      (''tool_argument_digest'', JStr (rc_tool_argument_digest r)),
      (''status'', jtext (receipt_status_text (rc_status r))),
      (''result_digest'', JStr (rc_result_digest r)), (''received_at'', JStr (rc_received_at r))]"

definition operation_object :: "operation_record \<Rightarrow> jsval" where
  "operation_object r = obj
     [(''tenant_id'', JStr (op_tenant_id r)), (''project_id'', JStr (op_project_id r)),
      (''operation_id'', JStr (op_operation_id r)),
      (''canonical_packet_digest'', JStr (op_canonical_packet_digest r)),
      (''tool_argument_digest'', JStr (op_tool_argument_digest r)),
      (''authorization_id'', JStr (op_authorization_id r)),
      (''authorization_expires_at'', JStr (op_authorization_expires_at r)),
      (''idempotency_key'', JStr (op_idempotency_key r)),
      (''requester_identity'', JStr (op_requester_identity r)),
      (''workload_identity'', null_text (op_workload_identity r)),
      (''adapter_identity'', JStr (op_adapter_identity r)),
      (''remote_identity'', JStr (op_remote_identity r)),
      (''protocol'', JStr (op_protocol r)), (''protocol_version'', JStr (op_protocol_version r)),
      (''requested_at'', JStr (op_requested_at r)),
      (''mcp_task_id'', null_text (op_mcp_task_id r)), (''a2a_task_id'', null_text (op_a2a_task_id r)),
      (''a2a_context_id'', null_text (op_a2a_context_id r)),
      (''a2a_message_id'', null_text (op_a2a_message_id r)), (''trace_id'', null_text (op_trace_id r)),
      (''state'', jtext (op_state_text (op_state r))), (''version'', jint (op_version r)),
      (''attempt_count'', jint (op_attempt_count r)),
      (''attempts'', JArr (map attempt_object (op_attempts r))),
      (''transitions'', JArr (map transition_object (op_transitions r))),
      (''dispatch_at'', null_text (op_dispatch_at r)), (''observation_at'', null_text (op_observation_at r)),
      (''completion_at'', null_text (op_completion_at r)),
      (''receipt'', (case op_receipt r of None \<Rightarrow> JNull | Some rc \<Rightarrow> receipt_object rc)),
      (''gateway_result_digest'', null_text (op_gateway_result_digest r)),
      (''application_error'', JBool (op_application_error r))]"

subsection \<open>Reading typed records\<close>

fun read_text :: "jsval \<Rightarrow> jstr option" where
  "read_text (JStr s) = Some s"
| "read_text _ = None"

fun read_null_text :: "jsval \<Rightarrow> jstr option option" where
  "read_null_text JNull = Some None"
| "read_null_text (JStr s) = Some (Some s)"
| "read_null_text _ = None"

fun read_int :: "jsval \<Rightarrow> int option" where
  "read_int (JNum n) = (if num_isSafeInteger n then Some (as_int (JNum n)) else None)"
| "read_int _ = None"

fun read_bool :: "jsval \<Rightarrow> bool option" where
  "read_bool (JBool b) = Some b"
| "read_bool _ = None"

definition gatewayOperationStates :: "op_state list" where
  "gatewayOperationStates = [Prepared, Authorized, Dispatching, Accepted, Working, InputRequired, Completed,
     Failed, TransportUnavailable, OutcomeUnknown, Reconciling, CancelRequested, Expired, Orphaned]"

definition read_state :: "jsval \<Rightarrow> op_state option" where
  "read_state v = List.find (\<lambda>s. v = jtext (op_state_text s)) gatewayOperationStates"

definition read_null_state :: "jsval \<Rightarrow> op_state option option" where
  "read_null_state v = (if v = JNull then Some None else map_option Some (read_state v))"

definition read_status :: "jsval \<Rightarrow> receipt_status option" where
  "read_status v = List.find (\<lambda>s. v = jtext (receipt_status_text s))
     [ReceiptCompleted, ReceiptApplicationError, ReceiptNotExecuted]"

fun read_all :: "(jsval \<Rightarrow> 'a option) \<Rightarrow> jsval list \<Rightarrow> 'a list option" where
  "read_all f [] = Some []"
| "read_all f (v # vs) = do { x \<leftarrow> f v; xs \<leftarrow> read_all f vs; Some (x # xs) }"

fun read_array :: "(jsval \<Rightarrow> 'a option) \<Rightarrow> jsval \<Rightarrow> 'a list option" where
  "read_array f (JArr vs) = read_all f vs"
| "read_array f _ = None"

definition read_attempt :: "jsval \<Rightarrow> operation_attempt option" where
  "read_attempt v = do {
     n \<leftarrow> read_int (fld v ''attempt''); d \<leftarrow> read_text (fld v ''dispatched_at'');
     ob \<leftarrow> read_null_text (fld v ''observation_at''); c \<leftarrow> read_null_text (fld v ''completion_at'');
     Some \<lparr>at_attempt = n, at_dispatched_at = d, at_observation_at = ob, at_completion_at = c\<rparr> }"

text \<open>
  The argument of \<open>Date.parse\<close> as text, for values that come from a JSON text; \<open>None\<close> where the conversion
  throws: an object with a property \<open>toString\<close>, which can be no function, has no primitive value.
\<close>

fun num_toString :: "jsnum \<Rightarrow> jstr" where
  "num_toString NNaN = js ''NaN''"
| "num_toString (NInf neg) = js (if neg then ''-Infinity'' else ''Infinity'')"
| "num_toString n = print_num n"

fun js_toString :: "jsval \<Rightarrow> jstr option" where
  "js_toString JUndef = Some (js ''undefined'')"
| "js_toString JNull = Some (js ''null'')"
| "js_toString (JBool b) = Some (js (if b then ''true'' else ''false''))"
| "js_toString (JNum n) = Some (num_toString n)"
| "js_toString (JStr s) = Some s"
| "js_toString (JArr vs) = map_option json_join (option_list (map (\<lambda>v. if v = JNull then Some [] else js_toString v) vs))"
| "js_toString (JObj p fs) = (if js ''toString'' \<in> set (map fst fs) then None else Some (js ''[object Object]''))"
| "js_toString JOther = None"

definition read_transition :: "jsval \<Rightarrow> operation_transition option" where
  "read_transition v = do {
     n \<leftarrow> read_int (fld v ''sequence''); f \<leftarrow> read_null_state (fld v ''from'');
     t \<leftarrow> read_state (fld v ''to''); a \<leftarrow> js_toString (fld v ''at''); re \<leftarrow> read_text (fld v ''reason'');
     Some \<lparr>tr_sequence = n, tr_from = f, tr_to = t, tr_at = a, tr_reason = re\<rparr> }"

text \<open>The time of the first transition is compared with that of the record, which is a string.\<close>

fun read_transitions :: "jsval \<Rightarrow> operation_transition list option" where
  "read_transitions (JArr vs) =
     (if (case vs of [] \<Rightarrow> True | v # _ \<Rightarrow> js_isString (fld v ''at'')) then read_all read_transition vs else None)"
| "read_transitions _ = None"

definition read_receipt :: "jsval \<Rightarrow> operation_receipt option" where
  "read_receipt v = do {
     i \<leftarrow> read_text (fld v ''receipt_id''); p \<leftarrow> read_text (fld v ''operation_id'');
     a \<leftarrow> read_text (fld v ''authorization_id''); c \<leftarrow> read_text (fld v ''canonical_packet_digest'');
     t \<leftarrow> read_text (fld v ''tool_argument_digest''); s \<leftarrow> read_status (fld v ''status'');
     d \<leftarrow> read_text (fld v ''result_digest''); at \<leftarrow> read_text (fld v ''received_at'');
     Some \<lparr>rc_receipt_id = i, rc_operation_id = p, rc_authorization_id = a, rc_canonical_packet_digest = c,
       rc_tool_argument_digest = t, rc_status = s, rc_result_digest = d, rc_received_at = at\<rparr> }"

definition read_null_receipt :: "jsval \<Rightarrow> operation_receipt option option" where
  "read_null_receipt v = (if v = JNull then Some None else map_option Some (read_receipt v))"

definition read_identity :: "jsval \<Rightarrow> operation_identity option" where
  "read_identity v = do {
     tenant \<leftarrow> read_text (fld v ''tenant_id''); project \<leftarrow> read_text (fld v ''project_id'');
     opid \<leftarrow> read_text (fld v ''operation_id'');
     packet \<leftarrow> read_text (fld v ''canonical_packet_digest'');
     tool \<leftarrow> read_text (fld v ''tool_argument_digest'');
     auth \<leftarrow> read_text (fld v ''authorization_id'');
     expires \<leftarrow> read_text (fld v ''authorization_expires_at'');
     idem \<leftarrow> read_text (fld v ''idempotency_key'');
     requester \<leftarrow> read_text (fld v ''requester_identity'');
     workload \<leftarrow> read_null_text (fld v ''workload_identity'');
     adapter \<leftarrow> read_text (fld v ''adapter_identity''); remote \<leftarrow> read_text (fld v ''remote_identity'');
     protocol \<leftarrow> read_text (fld v ''protocol''); pversion \<leftarrow> read_text (fld v ''protocol_version'');
     requested \<leftarrow> read_text (fld v ''requested_at''); mcp \<leftarrow> read_null_text (fld v ''mcp_task_id'');
     task \<leftarrow> read_null_text (fld v ''a2a_task_id''); ctxt \<leftarrow> read_null_text (fld v ''a2a_context_id'');
     msg \<leftarrow> read_null_text (fld v ''a2a_message_id''); trace \<leftarrow> read_null_text (fld v ''trace_id'');
     Some \<lparr>op_tenant_id = tenant, op_project_id = project, op_operation_id = opid,
       op_canonical_packet_digest = packet, op_tool_argument_digest = tool, op_authorization_id = auth,
       op_authorization_expires_at = expires, op_idempotency_key = idem, op_requester_identity = requester,
       op_workload_identity = workload, op_adapter_identity = adapter, op_remote_identity = remote,
       op_protocol = protocol, op_protocol_version = pversion, op_requested_at = requested,
       op_mcp_task_id = mcp, op_a2a_task_id = task, op_a2a_context_id = ctxt, op_a2a_message_id = msg,
       op_trace_id = trace\<rparr> }"

definition read_operation :: "jsval \<Rightarrow> operation_record option" where
  "read_operation v = do {
     identity \<leftarrow> read_identity v;
     state \<leftarrow> read_state (fld v ''state''); version \<leftarrow> read_int (fld v ''version'');
     count \<leftarrow> read_int (fld v ''attempt_count'');
     attempts \<leftarrow> read_array read_attempt (fld v ''attempts'');
     transitions \<leftarrow> read_transitions (fld v ''transitions'');
     dispatch \<leftarrow> read_null_text (fld v ''dispatch_at'');
     observation \<leftarrow> read_null_text (fld v ''observation_at'');
     completion \<leftarrow> read_null_text (fld v ''completion_at'');
     receipt \<leftarrow> read_null_receipt (fld v ''receipt'');
     digest \<leftarrow> read_null_text (fld v ''gateway_result_digest'');
     app \<leftarrow> read_bool (fld v ''application_error'');
     Some (operation_identity.extend identity (operation_record.fields state version count attempts transitions
       dispatch observation completion receipt digest app)) }"

section \<open>The JSON file store\<close>

datatype io_fault = NoFault | ReadFault | SaveFaultBeforeRename | SaveFaultAfterRename

record json_file_state =
  jf_text :: "jstr option"
  jf_faults :: "io_fault list"

text \<open>The fault of the current call.\<close>

definition next_fault :: "json_file_state \<Rightarrow> io_fault \<times> json_file_state" where
  "next_fault s = (case jf_faults s of [] \<Rightarrow> (NoFault, s) | f # fs \<Rightarrow> (f, s\<lparr>jf_faults := fs\<rparr>))"

fun keys_unique :: "jstr list \<Rightarrow> jstr list \<Rightarrow> operation_record list \<Rightarrow> bool" where
  "keys_unique operationKeys idempotencyKeys [] \<longleftrightarrow> True"
| "keys_unique operationKeys idempotencyKeys (record # records) \<longleftrightarrow>
     own_key record \<notin> set operationKeys \<and> operationIdempotencyKey record \<notin> set idempotencyKeys
     \<and> keys_unique (own_key record # operationKeys) (operationIdempotencyKey record # idempotencyKeys) records"

subsection \<open>Validation that throws\<close>

text \<open>
  Where \<open>isValidOperationRecord\<close> throws on a value: it reads a field of a missing receipt or of an entry
  \<open>null\<close> of the two lists, or converts the time of a transition that has no text, and every check it
  made before has passed. \<open>untyped_front\<close> and \<open>untyped_back\<close> are the checks before and after that of the
  receipt.
\<close>

definition null_text_ok :: "(jstr \<Rightarrow> bool) \<Rightarrow> jsval \<Rightarrow> bool" where
  "null_text_ok P v \<longleftrightarrow> v = JNull \<or> text_ok P v"

definition untyped_front :: "(jstr \<Rightarrow> int option) \<Rightarrow> jsval \<Rightarrow> bool" where
  "untyped_front engine v \<longleftrightarrow>
     text_ok (\<lambda>s. safeLabel s 128) (fld v ''tenant_id'') \<and> text_ok (\<lambda>s. safeLabel s 128) (fld v ''project_id'')
     \<and> text_ok (\<lambda>s. safeId s operationIdPattern) (fld v ''operation_id'')
     \<and> text_ok isDigest (fld v ''canonical_packet_digest'') \<and> text_ok isDigest (fld v ''tool_argument_digest'')
     \<and> text_ok (\<lambda>s. safeLabel s 256) (fld v ''authorization_id'') \<and> text_ok (\<lambda>s. safeLabel s 512) (fld v ''requester_identity'')
     \<and> null_text_ok (\<lambda>s. safeLabel s 512) (fld v ''workload_identity'')
     \<and> text_ok (\<lambda>s. safeLabel s 256) (fld v ''adapter_identity'') \<and> text_ok (\<lambda>s. safeLabel s 512) (fld v ''remote_identity'')
     \<and> text_ok (\<lambda>s. safeLabel s 64) (fld v ''protocol'') \<and> text_ok (\<lambda>s. safeLabel s 64) (fld v ''protocol_version'')
     \<and> text_ok (\<lambda>s. safeId s operationIdempotencyPattern) (fld v ''idempotency_key'')
     \<and> read_state (fld v ''state'') \<noteq> None
     \<and> (case (fld v ''transitions'', fld v ''attempts'') of
          (JArr ts, JArr as) \<Rightarrow> read_int (fld v ''version'') = Some (int (length ts)) \<and> ts \<noteq> []
            \<and> read_int (fld v ''attempt_count'') = Some (int (length as))
        | _ \<Rightarrow> False)
     \<and> text_ok (validIso engine) (fld v ''requested_at'') \<and> text_ok (validIso engine) (fld v ''authorization_expires_at'')
     \<and> \<not> num_le (Date_parse engine (as_str (fld v ''authorization_expires_at'')))
           (Date_parse engine (as_str (fld v ''requested_at'')))
     \<and> list_all (\<lambda>k. null_text_ok (validIso engine) (fld v k)) [''dispatch_at'', ''observation_at'', ''completion_at'']"

definition untyped_back :: "jsval \<Rightarrow> bool" where
  "untyped_back v \<longleftrightarrow>
     null_text_ok isDigest (fld v ''gateway_result_digest'') \<and> js_isBoolean (fld v ''application_error'')
     \<and> list_all (\<lambda>k. null_text_ok (\<lambda>s. safeLabel s 256) (fld v k))
          [''mcp_task_id'', ''a2a_task_id'', ''a2a_context_id'', ''a2a_message_id'', ''trace_id'']"

text \<open>
  The loop over the transitions throws at an entry only when every entry before it has passed; none of
  those is the last of the list, so no target is compared with the state.
\<close>

definition transitions_throw :: "(jstr \<Rightarrow> int option) \<Rightarrow> jsval list \<Rightarrow> bool" where
  "transitions_throw engine ts \<longleftrightarrow>
     list_ex (\<lambda>i. (ts ! i = JNull \<or> js_toString (fld (ts ! i) ''at'') = None)
       \<and> (case read_all read_transition (take i ts) of
            None \<Rightarrow> False
          | Some before \<Rightarrow> before = [] \<or> transitions_ok engine (tr_to (last before)) 0 None None before)) [0..<length ts]"

definition attempts_throw :: "(jstr \<Rightarrow> int option) \<Rightarrow> jstr \<Rightarrow> jsval list \<Rightarrow> bool" where
  "attempts_throw engine requested_at as \<longleftrightarrow>
     list_ex (\<lambda>i. as ! i = JNull
       \<and> (case read_all read_attempt (take i as) of
            None \<Rightarrow> False | Some before \<Rightarrow> every_attempt (attempt_ok engine requested_at) 0 before)) [0..<length as]"

definition untyped_transitions_ok :: "(jstr \<Rightarrow> int option) \<Rightarrow> jsval \<Rightarrow> bool" where
  "untyped_transitions_ok engine v \<longleftrightarrow>
     (case (read_state (fld v ''state''), read_transitions (fld v ''transitions'')) of
        (Some state, Some ts) \<Rightarrow> transitions_ok engine state 0 None None ts \<and> tr_to (last ts) = state
          \<and> JStr (tr_at (hd ts)) = fld v ''requested_at''
      | _ \<Rightarrow> False)"

definition validation_throws :: "(jstr \<Rightarrow> int option) \<Rightarrow> jsval \<Rightarrow> bool" where
  "validation_throws engine v \<longleftrightarrow>
     js_isObject v \<and> untyped_front engine v
     \<and> (fld v ''receipt'' = JUndef
        \<or> (case read_null_receipt (fld v ''receipt'') of None \<Rightarrow> False | Some r \<Rightarrow> null_or (isValidReceipt engine) r)
          \<and> untyped_back v
          \<and> (transitions_throw engine (as_list (fld v ''transitions''))
             \<or> untyped_transitions_ok engine v
               \<and> attempts_throw engine (as_str (fld v ''requested_at'')) (as_list (fld v ''attempts''))))"

text \<open>
  \<open>value.every(isValidOperationRecord)\<close> stops at the first record that fails or throws. A typed record holds
  nothing that validation throws on.
\<close>

fun read_records :: "(jstr \<Rightarrow> int option) \<Rightarrow> jsval list \<Rightarrow> store_error + operation_record list" where
  "read_records engine [] = Inr []"
| "read_records engine (v # vs) =
     (case read_operation v of
        None \<Rightarrow> Inl (if validation_throws engine v then StoreIO else StoreCorruption)
      | Some r \<Rightarrow>
          if isValidOperationRecord engine r then map_sum id ((#) r) (read_records engine vs) else Inl StoreCorruption)"

definition parse_records ::
  "('a js_runtime_scheme) \<Rightarrow> (jstr \<Rightarrow> int option) \<Rightarrow> jstr \<Rightarrow> store_error + operation_record list" where
  "parse_records rt engine content =
     (case js_JSON_parse rt content of
        Some (JArr vs) \<Rightarrow>
          (case read_records engine vs of
             Inl e \<Rightarrow> Inl e
           | Inr records \<Rightarrow> if keys_unique [] [] records then Inr records else Inl StoreCorruption)
      | _ \<Rightarrow> Inl StoreCorruption)"

definition jsonFile_load ::
  "('a js_runtime_scheme) \<Rightarrow> (jstr \<Rightarrow> int option) \<Rightarrow> io_fault \<Rightarrow> json_file_state \<Rightarrow> store_error + operation_record list" where
  "jsonFile_load rt engine fault s =
     (if fault = ReadFault then Inl StoreIO
      else (case jf_text s of None \<Rightarrow> Inr [] | Some content \<Rightarrow> parse_records rt engine content))"

definition file_content :: "operation_record list \<Rightarrow> jstr" where
  "file_content records = (case js_stringify (JArr (map operation_object records)) of
     None \<Rightarrow> js ''undefined'' | Some t \<Rightarrow> t) @ [10]"

definition jsonFile_save ::
  "io_fault \<Rightarrow> operation_record list \<Rightarrow> json_file_state \<Rightarrow> (store_error + unit) \<times> json_file_state" where
  "jsonFile_save fault records s =
     (if fault = SaveFaultBeforeRename then (Inl StoreIO, s)
      else (if fault = SaveFaultAfterRename then Inl StoreIO else Inr (),
            s\<lparr>jf_text := Some (file_content records)\<rparr>))"

definition jsonFile_prepare ::
  "('a js_runtime_scheme) \<Rightarrow> (jstr \<Rightarrow> int option) \<Rightarrow> operation_record \<Rightarrow> json_file_state \<Rightarrow>
    (store_error + prepare_outcome) \<times> json_file_state" where
  "jsonFile_prepare rt engine record s =
     (case next_fault s of (fault, s1) \<Rightarrow>
        (case jsonFile_load rt engine fault s1 of
           Inl e \<Rightarrow> (Inl e, s1)
         | Inr records \<Rightarrow>
             (case List.find (\<lambda>c. own_key c = own_key record
                       \<or> operationIdempotencyKey c = operationIdempotencyKey record) records of
                Some existing \<Rightarrow>
                  (Inr (if operationIdentityEqual existing record then Replay existing else Collision), s1)
              | None \<Rightarrow>
                  (case jsonFile_save fault (records @ [record]) s1 of
                     (Inl e, s2) \<Rightarrow> (Inl e, s2) | (Inr _, s2) \<Rightarrow> (Inr (Created record), s2)))))"

definition jsonFile_read ::
  "('a js_runtime_scheme) \<Rightarrow> (jstr \<Rightarrow> int option) \<Rightarrow> operation_scope \<Rightarrow> jstr \<Rightarrow> json_file_state \<Rightarrow>
    (store_error + operation_record option) \<times> json_file_state" where
  "jsonFile_read rt engine scope operationId s =
     (case next_fault s of (fault, s1) \<Rightarrow>
        (case jsonFile_load rt engine fault s1 of
           Inl e \<Rightarrow> (Inl e, s1)
         | Inr records \<Rightarrow> (Inr (List.find (\<lambda>c. own_key c = recordKey scope operationId) records), s1)))"

fun find_index :: "('a \<Rightarrow> bool) \<Rightarrow> 'a list \<Rightarrow> nat option" where
  "find_index P [] = None"
| "find_index P (x # xs) = (if P x then Some 0 else map_option Suc (find_index P xs))"

definition jsonFile_compareAndSwap ::
  "('a js_runtime_scheme) \<Rightarrow> (jstr \<Rightarrow> int option) \<Rightarrow> operation_scope \<Rightarrow> jstr \<Rightarrow> int \<Rightarrow> operation_record \<Rightarrow>
    json_file_state \<Rightarrow> (store_error + cas_outcome) \<times> json_file_state" where
  "jsonFile_compareAndSwap rt engine scope operationId expectedVersion record s =
     (case next_fault s of (fault, s1) \<Rightarrow>
        (case jsonFile_load rt engine fault s1 of
           Inl e \<Rightarrow> (Inl e, s1)
         | Inr records \<Rightarrow>
             (case find_index (\<lambda>c. own_key c = recordKey scope operationId) records of
                None \<Rightarrow> (Inr Missing, s1)
              | Some index \<Rightarrow>
                  if op_version (records ! index) \<noteq> expectedVersion then (Inr Conflict, s1)
                  else (case jsonFile_save fault (records[index := record]) s1 of
                          (Inl e, s2) \<Rightarrow> (Inl e, s2) | (Inr _, s2) \<Rightarrow> (Inr Updated, s2)))))"

definition jsonFile_list ::
  "('a js_runtime_scheme) \<Rightarrow> (jstr \<Rightarrow> int option) \<Rightarrow> operation_scope \<Rightarrow> json_file_state \<Rightarrow>
    (store_error + operation_record list) \<times> json_file_state" where
  "jsonFile_list rt engine scope s =
     (case next_fault s of (fault, s1) \<Rightarrow>
        (case jsonFile_load rt engine fault s1 of
           Inl e \<Rightarrow> (Inl e, s1) | Inr records \<Rightarrow> (Inr (filter (in_scope scope) records), s1)))"

definition JsonFileGatewayOperationStore ::
  "('a js_runtime_scheme) \<Rightarrow> (jstr \<Rightarrow> int option) \<Rightarrow> json_file_state gateway_operation_store" where
  "JsonFileGatewayOperationStore rt engine =
     \<lparr>st_prepare = jsonFile_prepare rt engine, st_read = jsonFile_read rt engine,
      st_compareAndSwap = jsonFile_compareAndSwap rt engine, st_list = jsonFile_list rt engine\<rparr>"

text \<open>The constructor's check of its path.\<close>

definition store_path_ok :: "jstr \<Rightarrow> bool" where
  "store_path_ok path \<longleftrightarrow> js_startsWith path (js ''/'') \<and> length path \<le> 4096
     \<and> \<not> some_in_class [(0, 0), (13, 13), (10, 10)] (code_units path)"

section \<open>The contract of a store\<close>

definition lookup :: "jstr \<Rightarrow> operation_record list \<Rightarrow> operation_record option" where
  "lookup key rs = List.find (\<lambda>c. own_key c = key) rs"

definition spec_prepare :: "operation_record \<Rightarrow> operation_record list \<Rightarrow> prepare_outcome \<times> operation_record list" where
  "spec_prepare r rs =
     (case List.find (\<lambda>c. own_key c = own_key r \<or> operationIdempotencyKey c = operationIdempotencyKey r) rs of
        Some e \<Rightarrow> (if operationIdentityEqual e r then Replay e else Collision, rs)
      | None \<Rightarrow> (Created r, rs @ [r]))"

definition replace :: "operation_record \<Rightarrow> operation_record list \<Rightarrow> operation_record list" where
  "replace r rs = map (\<lambda>c. if own_key c = own_key r then r else c) rs"

definition spec_cas :: "int \<Rightarrow> operation_record \<Rightarrow> operation_record list \<Rightarrow> cas_outcome \<times> operation_record list" where
  "spec_cas version r rs =
     (case lookup (own_key r) rs of
        None \<Rightarrow> (Missing, rs)
      | Some e \<Rightarrow> if op_version e \<noteq> version then (Conflict, rs) else (Updated, replace r rs))"

definition records_ok :: "(jstr \<Rightarrow> int option) \<Rightarrow> operation_record list \<Rightarrow> bool" where
  "records_ok engine rs \<longleftrightarrow> list_all (isValidOperationRecord engine) rs \<and> distinct (map own_key rs)
     \<and> distinct (map operationIdempotencyKey rs)"

text \<open>An update the contract speaks about: a valid record under its own key that keeps its identity.\<close>

definition update_ok :: "(jstr \<Rightarrow> int option) \<Rightarrow> operation_record \<Rightarrow> operation_record list \<Rightarrow> bool" where
  "update_ok engine r rs \<longleftrightarrow> isValidOperationRecord engine r
     \<and> null_or (\<lambda>e. operationIdempotencyKey e = operationIdempotencyKey r) (lookup (own_key r) rs)"

text \<open>
  What the coordinator relies on: a store behaves like a list of valid records with unique keys, in
  which every call takes effect at once; a call that throws has taken effect or not, and a store
  in a good state only throws input/output errors.
\<close>

locale operation_store =
  fixes store :: "'s gateway_operation_store" and engine :: "jstr \<Rightarrow> int option"
    and view :: "'s \<Rightarrow> operation_record list" and ok :: "'s \<Rightarrow> bool"
  assumes view_ok: "ok s \<Longrightarrow> records_ok engine (view s)"
    and read_law: "ok s \<Longrightarrow> st_read store scope operationId s = (rr, s') \<Longrightarrow> ok s' \<and> view s' = view s
      \<and> (case rr of Inl e \<Rightarrow> e = StoreIO | Inr x \<Rightarrow> x = lookup (recordKey scope operationId) (view s))"
    and prepare_law: "ok s \<Longrightarrow> isValidOperationRecord engine r \<Longrightarrow> st_prepare store r s = (pr, s') \<Longrightarrow>
      ok s' \<and> (case pr of Inl e \<Rightarrow> e = StoreIO \<and> (view s' = view s \<or> view s' = snd (spec_prepare r (view s)))
        | Inr out \<Rightarrow> spec_prepare r (view s) = (out, view s'))"
    and cas_law: "ok s \<Longrightarrow> own_key r = recordKey scope operationId \<Longrightarrow> update_ok engine r (view s) \<Longrightarrow>
      st_compareAndSwap store scope operationId version r s = (cr, s') \<Longrightarrow>
      ok s' \<and> (case cr of Inl e \<Rightarrow> e = StoreIO \<and> (view s' = view s \<or> view s' = snd (spec_cas version r (view s)))
        | Inr out \<Rightarrow> spec_cas version r (view s) = (out, view s'))"
    and list_law: "ok s \<Longrightarrow> st_list store scope s = (lr, s') \<Longrightarrow> ok s' \<and> view s' = view s
      \<and> (case lr of Inl e \<Rightarrow> e = StoreIO | Inr x \<Rightarrow> x = filter (in_scope scope) (view s))"

section \<open>The abstract operations keep the contract\<close>

lemma find_None: "List.find P xs = None \<longleftrightarrow> (\<forall>x \<in> set xs. \<not> P x)"
  by (auto simp: find_None_iff)

lemma spec_prepare_ok:
  assumes "records_ok engine rs" and "isValidOperationRecord engine r"
  shows "records_ok engine (snd (spec_prepare r rs))"
  using assms
  by (auto simp: spec_prepare_def records_ok_def find_None split: option.splits)

lemma lookup_SomeD: "lookup k rs = Some e \<Longrightarrow> e \<in> set rs \<and> own_key e = k"
  by (auto simp: lookup_def find_Some_iff)

lemma lookup_unique:
  "distinct (map own_key rs) \<Longrightarrow> e \<in> set rs \<Longrightarrow> own_key e = k \<Longrightarrow> lookup k rs = Some e"
  by (induction rs) (auto simp: lookup_def)

lemma map_replace_own_key: "map own_key (replace r rs) = map own_key rs"
  by (simp add: replace_def)

lemma replace_idempotency:
  assumes "distinct (map own_key rs)"
    and "null_or (\<lambda>e. operationIdempotencyKey e = operationIdempotencyKey r) (lookup (own_key r) rs)"
  shows "map operationIdempotencyKey (replace r rs) = map operationIdempotencyKey rs"
  unfolding replace_def map_map
proof (rule map_cong [OF refl])
  fix c assume "c \<in> set rs"
  then show "(operationIdempotencyKey \<circ> (\<lambda>c. if own_key c = own_key r then r else c)) c = operationIdempotencyKey c"
    using assms(2) lookup_unique [OF assms(1), of c "own_key r"] by auto
qed

lemma replace_valid:
  "list_all (isValidOperationRecord engine) rs \<Longrightarrow> isValidOperationRecord engine r \<Longrightarrow>
    list_all (isValidOperationRecord engine) (replace r rs)"
  by (auto simp: replace_def list_all_iff)

lemma spec_cas_ok:
  assumes "records_ok engine rs" and "update_ok engine r rs"
  shows "records_ok engine (snd (spec_cas version r rs))"
  using assms replace_idempotency [of rs r] replace_valid [of engine rs r]
  by (auto simp: spec_cas_def records_ok_def update_ok_def map_replace_own_key split: option.splits)

lemma lookup_replace_other: "k \<noteq> own_key r \<Longrightarrow> lookup k (replace r rs) = lookup k rs"
  by (induction rs) (auto simp: lookup_def replace_def)

lemma lookup_replace_same: "lookup (own_key r) rs \<noteq> None \<Longrightarrow> lookup (own_key r) (replace r rs) = Some r"
  by (induction rs) (auto simp: lookup_def replace_def)

lemma lookup_append: "lookup k (rs @ [r]) = (case lookup k rs of Some e \<Rightarrow> Some e
    | None \<Rightarrow> if own_key r = k then Some r else None)"
  by (induction rs) (auto simp: lookup_def)

end
