(* ===== verification/Operation_Store_Laws.thy ===== *)
theory Operation_Store_Laws
  imports Operation_Store
begin

text \<open>
  The two stores keep the contract \<open>operation_store\<close>: a saved file reads back as the records it was
  written from, and the in-memory store and the file store are interpretations of the contract.
\<close>

section \<open>What is saved is read back\<close>

lemma snapshot_obj_field:
  assumes "js_snapshot (obj fs) w" and "map_of fs k = Some v"
  shows "js_snapshot v (fld w k)"
proof -
  have fs: "map_of (map (\<lambda>(k, v). (js k, v)) fs) (js k) = Some v"
    using assms(2) by (induction fs) auto
  then have "js_has (obj fs) (js k)" "js_get (obj fs) (js k) = v"
    by (simp_all add: obj_def js_has_iff_map_of)
  then show ?thesis using js_snapshot_get assms(1) unfolding obj_def by metis
qed

lemma snapshot_scalar:
  "js_snapshot (JStr s) w \<longleftrightarrow> w = JStr s" "js_snapshot JNull w \<longleftrightarrow> w = JNull"
  "js_snapshot (JBool b) w \<longleftrightarrow> w = JBool b" "js_snapshot (jint i) w \<longleftrightarrow> w = jint i"
  "js_snapshot (null_text t) w \<longleftrightarrow> w = null_text t" "js_snapshot (jtext x) w \<longleftrightarrow> w = jtext x"
  by (auto simp: jint_def null_text_def jtext_def split: option.splits)

lemma read_simps [simp]:
  "read_null_text (null_text t) = Some t" "\<bar>i\<bar> \<le> max_safe_integer \<Longrightarrow> read_int (jint i) = Some i"
  by (simp_all add: null_text_def jint_def split: option.splits)

lemma read_state_text [simp]: "read_state (jtext (op_state_text s)) = Some s"
  by (cases s) (simp_all add: read_state_def gatewayOperationStates_def jtext_def)

lemma read_status_text [simp]: "read_status (jtext (receipt_status_text s)) = Some s"
  by (cases s) (simp_all add: read_status_def jtext_def)

lemma read_all_iff: "read_all f vs = Some xs \<longleftrightarrow> list_all2 (\<lambda>v x. f v = Some x) vs xs"
  by (induction vs arbitrary: xs) (auto simp: list_all2_Cons1 bind_eq_Some_conv)

lemma obj_field_reads:
  assumes "js_snapshot (obj fs) w"
  shows "map_of fs k = Some (JStr s) \<Longrightarrow> read_text (fld w k) = Some s"
    and "map_of fs k = Some (null_text t) \<Longrightarrow> read_null_text (fld w k) = Some t"
    and "map_of fs k = Some (jint i) \<Longrightarrow> \<bar>i\<bar> \<le> max_safe_integer \<Longrightarrow> read_int (fld w k) = Some i"
    and "map_of fs k = Some (JBool b) \<Longrightarrow> read_bool (fld w k) = Some b"
    and "map_of fs k = Some (jtext (op_state_text st)) \<Longrightarrow> read_state (fld w k) = Some st"
    and "map_of fs k = Some (jtext (receipt_status_text rs)) \<Longrightarrow> read_status (fld w k) = Some rs"
  using snapshot_obj_field [OF assms, of k] by (auto simp: snapshot_scalar)

lemma read_mapped:
  assumes "js_snapshot (JArr (map g xs)) w" and "\<And>x v. x \<in> set xs \<Longrightarrow> js_snapshot (g x) v \<Longrightarrow> f v = Some x"
  shows "read_array f w = Some xs"
proof -
  from assms(1) obtain ws where w: "w = JArr ws" and all: "list_all2 js_snapshot (map g xs) ws" by auto
  then have "list_all2 (\<lambda>v x. f v = Some x) ws xs"
    using assms(2) by (auto simp: list_all2_conv_all_nth)
  then show ?thesis by (simp add: w read_all_iff)
qed

lemma read_attempt_object:
  assumes "js_snapshot (attempt_object a) w" and "\<bar>at_attempt a\<bar> \<le> max_safe_integer"
  shows "read_attempt w = Some a"
proof -
  note f = obj_field_reads [OF assms(1) [unfolded attempt_object_def]]
  have "read_int (fld w ''attempt'') = Some (at_attempt a)" by (rule f(3)) (simp_all add: assms(2))
  moreover have "read_text (fld w ''dispatched_at'') = Some (at_dispatched_at a)" by (rule f(1)) simp
  moreover have "read_null_text (fld w ''observation_at'') = Some (at_observation_at a)"
    "read_null_text (fld w ''completion_at'') = Some (at_completion_at a)" by (rule f(2); simp)+
  ultimately show ?thesis by (simp add: read_attempt_def)
qed

lemma read_transition_object:
  assumes "js_snapshot (transition_object t) w" and "\<bar>tr_sequence t\<bar> \<le> max_safe_integer"
  shows "read_transition w = Some t" and "js_isString (fld w ''at'')"
proof -
  note f = obj_field_reads [OF assms(1) [unfolded transition_object_def]]
  have "js_snapshot (case tr_from t of None \<Rightarrow> JNull | Some s \<Rightarrow> jtext (op_state_text s)) (fld w ''from'')"
    by (rule snapshot_obj_field [OF assms(1) [unfolded transition_object_def]]) simp
  then have "read_null_state (fld w ''from'') = Some (tr_from t)"
    by (cases "tr_from t") (auto simp: snapshot_scalar read_null_state_def, simp add: jtext_def)
  moreover have "read_int (fld w ''sequence'') = Some (tr_sequence t)" by (rule f(3)) (simp_all add: assms(2))
  moreover have "read_state (fld w ''to'') = Some (tr_to t)" by (rule f(5)) simp
  moreover have "read_text (fld w ''at'') = Some (tr_at t)" "read_text (fld w ''reason'') = Some (tr_reason t)"
    by (rule f(1); simp)+
  moreover from this(1) have "fld w ''at'' = JStr (tr_at t)" by (cases "fld w ''at''") simp_all
  ultimately show "read_transition w = Some t" "js_isString (fld w ''at'')" by (simp_all add: read_transition_def)
qed

lemma read_transitions_array:
  "read_array read_transition w = Some ts \<Longrightarrow> (\<And>v vs. w = JArr (v # vs) \<Longrightarrow> js_isString (fld v ''at'')) \<Longrightarrow> read_transitions w = Some ts"
  by (cases w) (auto split: list.splits)

lemma read_receipt_object:
  assumes "js_snapshot (receipt_object r) w"
  shows "read_receipt w = Some r" and "w \<noteq> JNull"
proof -
  note f = obj_field_reads [OF assms(1) [unfolded receipt_object_def]]
  have texts: "read_text (fld w ''receipt_id'') = Some (rc_receipt_id r)"
    "read_text (fld w ''operation_id'') = Some (rc_operation_id r)"
    "read_text (fld w ''authorization_id'') = Some (rc_authorization_id r)"
    "read_text (fld w ''canonical_packet_digest'') = Some (rc_canonical_packet_digest r)"
    "read_text (fld w ''tool_argument_digest'') = Some (rc_tool_argument_digest r)"
    "read_text (fld w ''result_digest'') = Some (rc_result_digest r)"
    "read_text (fld w ''received_at'') = Some (rc_received_at r)"
    by (rule f(1); simp)+
  have status: "read_status (fld w ''status'') = Some (rc_status r)" by (rule f(6)) simp
  show "read_receipt w = Some r" unfolding read_receipt_def texts status by simp
  show "w \<noteq> JNull" using assms by (auto simp: receipt_object_def obj_def elim: js_snapshot_objE)
qed

lemma identity_fields:
  assumes "js_snapshot (operation_object r) w"
  shows "read_identity w = Some (operation_identity.truncate r)"
proof -
  note f = obj_field_reads [OF assms [unfolded operation_object_def]]
  have texts: "read_text (fld w ''tenant_id'') = Some (op_tenant_id r)"
    "read_text (fld w ''project_id'') = Some (op_project_id r)"
    "read_text (fld w ''operation_id'') = Some (op_operation_id r)"
    "read_text (fld w ''canonical_packet_digest'') = Some (op_canonical_packet_digest r)"
    "read_text (fld w ''tool_argument_digest'') = Some (op_tool_argument_digest r)"
    "read_text (fld w ''authorization_id'') = Some (op_authorization_id r)"
    "read_text (fld w ''authorization_expires_at'') = Some (op_authorization_expires_at r)"
    "read_text (fld w ''idempotency_key'') = Some (op_idempotency_key r)"
    "read_text (fld w ''requester_identity'') = Some (op_requester_identity r)"
    "read_text (fld w ''adapter_identity'') = Some (op_adapter_identity r)"
    "read_text (fld w ''remote_identity'') = Some (op_remote_identity r)"
    "read_text (fld w ''protocol'') = Some (op_protocol r)"
    "read_text (fld w ''protocol_version'') = Some (op_protocol_version r)"
    "read_text (fld w ''requested_at'') = Some (op_requested_at r)"
    by (rule f(1); simp)+
  have nulls: "read_null_text (fld w ''workload_identity'') = Some (op_workload_identity r)"
    "read_null_text (fld w ''mcp_task_id'') = Some (op_mcp_task_id r)"
    "read_null_text (fld w ''a2a_task_id'') = Some (op_a2a_task_id r)"
    "read_null_text (fld w ''a2a_context_id'') = Some (op_a2a_context_id r)"
    "read_null_text (fld w ''a2a_message_id'') = Some (op_a2a_message_id r)"
    "read_null_text (fld w ''trace_id'') = Some (op_trace_id r)"
    by (rule f(2); simp)+
  show ?thesis unfolding read_identity_def texts nulls by (simp add: operation_identity.truncate_def)
qed

definition safe_numbers :: "operation_record \<Rightarrow> bool" where
  "safe_numbers r \<longleftrightarrow> \<bar>op_version r\<bar> \<le> max_safe_integer \<and> \<bar>op_attempt_count r\<bar> \<le> max_safe_integer
     \<and> list_all (\<lambda>a. \<bar>at_attempt a\<bar> \<le> max_safe_integer) (op_attempts r)
     \<and> list_all (\<lambda>t. \<bar>tr_sequence t\<bar> \<le> max_safe_integer) (op_transitions r)"

lemma read_operation_object:
  assumes "js_snapshot (operation_object r) w" and "safe_numbers r"
  shows "read_operation w = Some r"
proof -
  note f = obj_field_reads [OF assms(1) [unfolded operation_object_def]]
    and g = snapshot_obj_field [OF assms(1) [unfolded operation_object_def]]
  have numbers: "\<bar>op_version r\<bar> \<le> max_safe_integer" "\<bar>op_attempt_count r\<bar> \<le> max_safe_integer"
    using assms(2) by (simp_all add: safe_numbers_def)
  have lists: "read_array read_attempt (fld w ''attempts'') = Some (op_attempts r)"
    "read_transitions (fld w ''transitions'') = Some (op_transitions r)"
  proof -
    have "js_snapshot (JArr (map attempt_object (op_attempts r))) (fld w ''attempts'')"
      "js_snapshot (JArr (map transition_object (op_transitions r))) (fld w ''transitions'')"
      by (rule g; simp)+
    note arrays = this
    then show "read_array read_attempt (fld w ''attempts'') = Some (op_attempts r)"
      using assms(2) read_attempt_object
      by (auto intro!: read_mapped simp: safe_numbers_def list_all_iff simp del: js_snapshot_simps(6))
    have safe: "\<forall>t \<in> set (op_transitions r). \<bar>tr_sequence t\<bar> \<le> max_safe_integer"
      using assms(2) by (auto simp: safe_numbers_def list_all_iff)
    show "read_transitions (fld w ''transitions'') = Some (op_transitions r)"
    proof (rule read_transitions_array)
      show "read_array read_transition (fld w ''transitions'') = Some (op_transitions r)"
        using arrays(2) safe read_transition_object(1) by (intro read_mapped) auto
      show "js_isString (fld v ''at'')" if "fld w ''transitions'' = JArr (v # vs)" for v vs
        using arrays(2) that safe read_transition_object(2) by (auto simp: list_all2_Cons2)
    qed
  qed
  have "js_snapshot (case op_receipt r of None \<Rightarrow> JNull | Some rc \<Rightarrow> receipt_object rc) (fld w ''receipt'')"
    by (rule g) simp
  then have receipt: "read_null_receipt (fld w ''receipt'') = Some (op_receipt r)"
    using read_receipt_object by (cases "op_receipt r") (auto simp: read_null_receipt_def)
  have nulls: "read_null_text (fld w ''dispatch_at'') = Some (op_dispatch_at r)"
    "read_null_text (fld w ''observation_at'') = Some (op_observation_at r)"
    "read_null_text (fld w ''completion_at'') = Some (op_completion_at r)"
    "read_null_text (fld w ''gateway_result_digest'') = Some (op_gateway_result_digest r)"
    by (rule f(2); simp)+
  have ints: "read_int (fld w ''version'') = Some (op_version r)"
    "read_int (fld w ''attempt_count'') = Some (op_attempt_count r)"
    by (rule f(3); simp add: numbers)+
  have rest: "read_state (fld w ''state'') = Some (op_state r)"
    "read_bool (fld w ''application_error'') = Some (op_application_error r)"
    by (rule f(5); simp) (rule f(4); simp)
  show ?thesis
    unfolding read_operation_def identity_fields [OF assms(1)] lists receipt nulls ints rest
    by (simp add: operation_identity.defs operation_record.defs)
qed

lemma every_attempt_numbers:
  "every_attempt (attempt_ok engine q) i as \<Longrightarrow> a \<in> set as \<Longrightarrow> 1 \<le> at_attempt a \<and> at_attempt a \<le> int (i + length as)"
  by (induction as arbitrary: i) (fastforce simp: attempt_ok_def)+

lemma transitions_ok_numbers:
  "transitions_ok engine st i prev l ts \<Longrightarrow> t \<in> set ts \<Longrightarrow> 1 \<le> tr_sequence t \<and> tr_sequence t \<le> int (i + length ts)"
  by (induction ts arbitrary: i prev l) (fastforce split: option.splits)+

lemma valid_safe_numbers:
  assumes "isValidOperationRecord engine r"
  shows "safe_numbers r"
proof -
  have v: "1 \<le> op_version r" "op_version r \<le> max_safe_integer" "0 \<le> op_attempt_count r"
    "op_attempt_count r \<le> max_safe_integer" "int (length (op_transitions r)) = op_version r"
    "int (length (op_attempts r)) = op_attempt_count r"
    "every_attempt (attempt_ok engine (op_requested_at r)) 0 (op_attempts r)"
    "transitions_ok engine (op_state r) 0 None None (op_transitions r)"
    using assms by (simp_all add: isValidOperationRecord_def record_fields_ok_def)
  show ?thesis
    using v(1-6) every_attempt_numbers [OF v(7)] transitions_ok_numbers [OF v(8)]
    by (fastforce simp: safe_numbers_def list_all_iff)
qed

lemma obj_data: "js_data (obj fs) \<longleftrightarrow> list_all (\<lambda>(k, v). js_data v) fs"
  "js_wf (obj fs) \<longleftrightarrow> distinct (map fst fs) \<and> list_all (\<lambda>(k, v). js_wf v) fs"
  by (auto simp: obj_def list_all_iff distinct_map inj_on_def case_prod_unfold comp_def)

lemma scalar_data [simp]:
  "js_data (null_text t)" "js_wf (null_text t)" "js_data (jtext s)" "js_wf (jtext s)"
  "js_data (jint i) \<longleftrightarrow> \<bar>i\<bar> \<le> max_safe_integer"
  "\<bar>i\<bar> \<le> max_safe_integer \<Longrightarrow> js_wf (jint i)"
  by (simp_all add: null_text_def jtext_def jint_def max_safe_integer_def split: option.splits)

lemma operation_object_data:
  assumes "safe_numbers r"
  shows "js_data (operation_object r)" and "js_wf (operation_object r)"
proof -
  have a: "js_data (attempt_object a) \<and> js_wf (attempt_object a)" if "a \<in> set (op_attempts r)" for a
    using assms that by (auto simp: attempt_object_def obj_data safe_numbers_def list_all_iff)
  have t: "js_data (transition_object t) \<and> js_wf (transition_object t)" if "t \<in> set (op_transitions r)" for t
    using assms that
    by (auto simp: transition_object_def obj_data safe_numbers_def list_all_iff split: option.splits)
  have rc: "js_data (receipt_object x)" "js_wf (receipt_object x)" for x
    by (simp_all add: receipt_object_def obj_data)
  show "js_data (operation_object r)" "js_wf (operation_object r)"
    using assms a t rc unfolding operation_object_def obj_data
    by (auto simp: safe_numbers_def list_all_iff split: option.splits)
qed

lemma file_content_read:
  assumes "list_all safe_numbers records"
  shows "\<exists>w. js_JSON_parse rt (file_content records) = Some w \<and> (\<exists>vs. w = JArr vs \<and> read_all read_operation vs = Some records)"
proof -
  let ?v = "JArr (map operation_object records)"
  have "js_data ?v" "js_wf ?v" using assms operation_object_data by (auto simp: list_all_iff)
  then obtain j where j: "jsonable ?v j" "json_ok j" by (rule js_data_json)
  let ?w = "of_json (json_read j)"
  have "js_JSON_parse rt (file_content records) = Some ?w"
    by (simp add: file_content_def js_stringify_jsonable [OF j(1)] js_JSON_parse_def json_parse_print_line [OF j(2)]
        del: js_stringify.simps)
  moreover have "js_snapshot ?v ?w" by (rule snapshot_of_text [OF j j(2) refl])
  then have "read_array read_operation ?w = Some records"
    using assms read_operation_object by (intro read_mapped) (auto simp: list_all_iff)
  then have "\<exists>vs. ?w = JArr vs \<and> read_all read_operation vs = Some records" by (cases ?w) simp_all
  ultimately show ?thesis by blast
qed

section \<open>The in-memory store keeps the contract\<close>

definition memory_ok :: "(jstr \<Rightarrow> int option) \<Rightarrow> memory_state \<Rightarrow> bool" where
  "memory_ok engine m \<longleftrightarrow> (\<forall>(k, r) \<in> set m. k = own_key r) \<and> records_ok engine (map snd m)"

lemma memory_lookup:
  "\<forall>(k, r) \<in> set m. k = own_key r \<Longrightarrow> map_of m k = lookup k (map snd m)"
  by (induction m) (auto simp: lookup_def)

lemma map_set_new:
  "map_of m k = None \<Longrightarrow> map_set k r m = m @ [(k, r)]"
  by (induction m) (auto split: if_splits)

lemma map_set_old:
  assumes "map_of m (own_key r) \<noteq> None" and "\<forall>(k, r) \<in> set m. k = own_key r" and "distinct (map own_key (map snd m))"
  shows "map snd (map_set (own_key r) r m) = replace r (map snd m)"
  using assms
proof (induction m)
  case (Cons e m)
  obtain k c where e: "e = (k, c)" "k = own_key c" using Cons.prems(2) by (cases e) auto
  show ?case
  proof (cases "own_key c = own_key r")
    case True
    have "own_key x \<noteq> own_key r" if "x \<in> set (map snd m)" for x
      using Cons.prems(3) that True e by (auto simp: comp_def image_iff)
    then have "replace r (map snd m) = map snd m" by (auto simp: replace_def intro!: map_idI)
    then show ?thesis using True e by (simp add: replace_def)
  next
    case False
    then show ?thesis using Cons e by (simp add: replace_def)
  qed
qed simp

lemma map_set_entries:
  "\<forall>(k, r) \<in> set m. k = own_key r \<Longrightarrow> \<forall>(k, r) \<in> set (map_set (own_key r) r m). k = own_key r"
  by (induction m) (auto split: if_splits)

text \<open>With unique keys it does not matter which of the conflicting records is found.\<close>

lemma conflict_outcome:
  assumes "distinct (map own_key rs)" and "distinct (map operationIdempotencyKey rs)"
    and "e \<in> set rs" "own_key e = own_key r \<or> operationIdempotencyKey e = operationIdempotencyKey r"
    and "f \<in> set rs" "own_key f = own_key r \<or> operationIdempotencyKey f = operationIdempotencyKey r"
  shows "(if operationIdentityEqual e r then Replay e else Collision)
    = (if operationIdentityEqual f r then Replay f else Collision)"
proof -
  have same: "x = y" if "operationIdentityEqual x r" "x \<in> set rs" "y \<in> set rs"
    "own_key y = own_key r \<or> operationIdempotencyKey y = operationIdempotencyKey r" for x y
  proof -
    have "own_key x = own_key r" "operationIdempotencyKey x = operationIdempotencyKey r"
      using that(1) by (simp_all add: operationIdentityEqual_def own_key_def recordKey_def operationIdempotencyKey_def)
    with that(4) have "own_key x = own_key y \<or> operationIdempotencyKey x = operationIdempotencyKey y" by auto
    then show ?thesis
    proof
      assume "own_key x = own_key y"
      then show ?thesis using inj_onD [OF _ _ that(2,3), of own_key] assms(1) by (simp add: distinct_map)
    next
      assume "operationIdempotencyKey x = operationIdempotencyKey y"
      then show ?thesis
        using inj_onD [OF _ _ that(2,3), of operationIdempotencyKey] assms(2) by (simp add: distinct_map)
    qed
  qed
  have "e = f" if "operationIdentityEqual e r \<or> operationIdentityEqual f r"
    using that same [OF _ assms(3,5,6)] same [OF _ assms(5,3,4), symmetric] by (elim disjE)
  then show ?thesis by (cases "e = f") auto
qed

lemma memory_prepare:
  assumes "memory_ok engine m"
  shows "case inMemory_prepare r m of (res, m') \<Rightarrow>
    (\<exists>out. res = Inr out \<and> spec_prepare r (map snd m) = (out, map snd m')) \<and> (\<forall>(k, c) \<in> set m'. k = own_key c)"
proof -
  let ?rs = "map snd m"
  let ?hit = "\<lambda>c. own_key c = own_key r \<or> operationIdempotencyKey c = operationIdempotencyKey r"
  have keys: "\<forall>(k, c) \<in> set m. k = own_key c" and dist: "distinct (map own_key ?rs)"
    "distinct (map operationIdempotencyKey ?rs)"
    using assms by (simp_all add: memory_ok_def records_ok_def)
  define existing where "existing = (case lookup (own_key r) ?rs of Some e \<Rightarrow> Some e
    | None \<Rightarrow> List.find (\<lambda>c. operationIdempotencyKey c = operationIdempotencyKey r) ?rs)"
  have prepare: "inMemory_prepare r m = (case existing of
      Some e \<Rightarrow> (Inr (if operationIdentityEqual e r then Replay e else Collision), m)
    | None \<Rightarrow> (Inr (Created r), map_set (own_key r) r m))"
    by (simp add: inMemory_prepare_def Let_def memory_lookup [OF keys] existing_def)
  show ?thesis
  proof (cases existing)
    case None
    then have none: "\<forall>c \<in> set ?rs. \<not> ?hit c" and new: "lookup (own_key r) ?rs = None"
      by (auto simp: existing_def lookup_def find_None split: option.splits)
    then have "List.find ?hit ?rs = None" by (simp only: find_None)
    moreover have "map_set (own_key r) r m = m @ [(own_key r, r)]"
      using new memory_lookup [OF keys] by (intro map_set_new) simp
    ultimately show ?thesis using keys by (simp add: prepare None spec_prepare_def)
  next
    case (Some e)
    then have e: "e \<in> set ?rs" "?hit e"
      by (auto simp: existing_def lookup_def find_Some_iff split: option.splits intro: nth_mem)
    then have "List.find ?hit ?rs \<noteq> None" by (auto simp only: find_None)
    then obtain f where f: "List.find ?hit ?rs = Some f" by blast
    then have "f \<in> set ?rs" "?hit f" by (auto simp: find_Some_iff intro: nth_mem)
    from conflict_outcome [OF dist e this] f keys show ?thesis by (simp add: prepare Some spec_prepare_def)
  qed
qed

interpretation memory_store: operation_store InMemoryGatewayOperationStore engine "map snd" "memory_ok engine"
  for engine
proof
  fix s :: memory_state and scope operationId r version
  assume ok: "memory_ok engine s"
  then show rs: "records_ok engine (map snd s)" by (simp add: memory_ok_def)
  have keys: "\<forall>(k, c) \<in> set s. k = own_key c" using ok by (simp add: memory_ok_def)
  show "memory_ok engine s' \<and> map snd s' = map snd s
      \<and> (case res of Inl e \<Rightarrow> e = StoreIO | Inr x \<Rightarrow> x = lookup (recordKey scope operationId) (map snd s))"
    if "st_read InMemoryGatewayOperationStore scope operationId s = (res, s')" for res s'
    using that ok memory_lookup [OF keys] by (auto simp: InMemoryGatewayOperationStore_def inMemory_read_def)
  show "memory_ok engine s' \<and> (case res of Inl e \<Rightarrow> e = StoreIO \<and> (map snd s' = map snd s
        \<or> map snd s' = snd (spec_prepare r (map snd s))) | Inr out \<Rightarrow> spec_prepare r (map snd s) = (out, map snd s'))"
    if "isValidOperationRecord engine r" "st_prepare InMemoryGatewayOperationStore r s = (res, s')" for res s'
    using memory_prepare [OF ok, of r] spec_prepare_ok [OF rs that(1)] that(2)
    by (auto simp: InMemoryGatewayOperationStore_def memory_ok_def)
  show "memory_ok engine s' \<and> (case res of Inl e \<Rightarrow> e = StoreIO \<and> (map snd s' = map snd s
        \<or> map snd s' = snd (spec_cas version r (map snd s))) | Inr out \<Rightarrow> spec_cas version r (map snd s) = (out, map snd s'))"
    if "own_key r = recordKey scope operationId" "update_ok engine r (map snd s)"
      "st_compareAndSwap InMemoryGatewayOperationStore scope operationId version r s = (res, s')" for res s'
  proof -
    have dist: "distinct (map own_key (map snd s))" using rs by (simp add: records_ok_def)
    show ?thesis
      using that ok spec_cas_ok [OF rs that(2), of version] map_set_old [OF _ keys dist, of r]
        map_set_entries [OF keys, of r] memory_lookup [OF keys]
      by (auto simp: InMemoryGatewayOperationStore_def inMemory_compareAndSwap_def spec_cas_def memory_ok_def
          split: option.splits if_splits)
  qed
  show "memory_ok engine s' \<and> map snd s' = map snd s
      \<and> (case res of Inl e \<Rightarrow> e = StoreIO | Inr x \<Rightarrow> x = filter (in_scope scope) (map snd s))"
    if "st_list InMemoryGatewayOperationStore scope s = (res, s')" for res s'
    using that ok by (auto simp: InMemoryGatewayOperationStore_def inMemory_list_def)
qed

section \<open>The file store keeps the contract\<close>

definition json_view :: "('a js_runtime_scheme) \<Rightarrow> (jstr \<Rightarrow> int option) \<Rightarrow> json_file_state \<Rightarrow> operation_record list" where
  "json_view rt engine s = (case jf_text s of None \<Rightarrow> [] | Some t \<Rightarrow>
     (case parse_records rt engine t of Inl _ \<Rightarrow> [] | Inr rs \<Rightarrow> rs))"

definition json_store_ok :: "('a js_runtime_scheme) \<Rightarrow> (jstr \<Rightarrow> int option) \<Rightarrow> json_file_state \<Rightarrow> bool" where
  "json_store_ok rt engine s \<longleftrightarrow> null_or (\<lambda>t. \<exists>rs. parse_records rt engine t = Inr rs) (jf_text s)"

lemma keys_unique_iff:
  "keys_unique ks is rs \<longleftrightarrow> distinct (map own_key rs) \<and> distinct (map operationIdempotencyKey rs)
     \<and> set (map own_key rs) \<inter> set ks = {} \<and> set (map operationIdempotencyKey rs) \<inter> set is = {}"
  by (induction rs arbitrary: ks "is") auto

text \<open>Reading succeeds exactly on valid typed records.\<close>

lemma read_records_iff:
  "read_records engine vs = Inr rs \<longleftrightarrow> read_all read_operation vs = Some rs \<and> list_all (isValidOperationRecord engine) rs"
proof (induction vs arbitrary: rs)
  case (Cons v vs)
  have "map_sum id ((#) r) x = Inr rs \<longleftrightarrow> (\<exists>xs. x = Inr xs \<and> rs = r # xs)" for r and x :: "store_error + operation_record list"
    by (cases x) auto
  then show ?case using Cons by (cases "read_operation v") (auto simp: bind_eq_Some_conv)
qed auto

lemma parse_records_ok: "parse_records rt engine t = Inr rs \<Longrightarrow> records_ok engine rs"
  by (auto simp: parse_records_def records_ok_def keys_unique_iff read_records_iff
      split: option.splits jsval.splits sum.splits if_splits)

text \<open>The file the store writes reads back as the records it was written from.\<close>

lemma parse_file_content: "records_ok engine rs \<Longrightarrow> parse_records rt engine (file_content rs) = Inr rs"
proof -
  assume ok: "records_ok engine rs"
  then have "list_all safe_numbers rs"
    using valid_safe_numbers by (auto simp: records_ok_def list_all_iff)
  from file_content_read [OF this, of rt] ok obtain vs where vs: "js_JSON_parse rt (file_content rs) = Some (JArr vs)"
    "read_all read_operation vs = Some rs" by blast
  have "read_records engine vs = Inr rs" using vs(2) ok by (simp add: read_records_iff records_ok_def)
  then show ?thesis using vs(1) ok by (simp add: parse_records_def records_ok_def keys_unique_iff)
qed

lemma next_fault_text: "next_fault s = (fault, s1) \<Longrightarrow> jf_text s1 = jf_text s"
  by (auto simp: next_fault_def split: list.splits)

lemma json_text_cong: "jf_text s1 = jf_text s \<Longrightarrow> json_view rt engine s1 = json_view rt engine s"
  "jf_text s1 = jf_text s \<Longrightarrow> json_store_ok rt engine s1 = json_store_ok rt engine s"
  by (simp_all add: json_view_def json_store_ok_def)

lemma json_view_ok: "json_store_ok rt engine s \<Longrightarrow> records_ok engine (json_view rt engine s)"
  using parse_records_ok by (auto simp: json_store_ok_def json_view_def records_ok_def [of _ "[]"] split: option.splits)

lemma jsonFile_load_ok:
  "json_store_ok rt engine s \<Longrightarrow> jsonFile_load rt engine fault s =
     (if fault = ReadFault then Inl StoreIO else Inr (json_view rt engine s))"
  by (auto simp: jsonFile_load_def json_store_ok_def json_view_def split: option.splits)

lemma saved_state:
  assumes "records_ok engine rs"
  shows "json_store_ok rt engine (s\<lparr>jf_text := Some (file_content rs)\<rparr>)"
    and "json_view rt engine (s\<lparr>jf_text := Some (file_content rs)\<rparr>) = rs"
  using parse_file_content [OF assms, of rt] by (simp_all add: json_store_ok_def json_view_def)

lemma find_index_replace:
  assumes "distinct (map own_key rs)" and "find_index (\<lambda>c. own_key c = own_key r) rs = Some i"
  shows "lookup (own_key r) rs = Some (rs ! i)" and "rs[i := r] = replace r rs"
  using assms
proof (induction rs arbitrary: i)
  case (Cons c rs)
  {
    case 1
    then show ?case using Cons.IH(1) by (auto simp: lookup_def split: if_splits)
  next
    case 2
    have "replace r rs = rs" if "own_key c = own_key r"
      using 2(1) that by (auto simp: replace_def image_iff intro!: map_idI)
    then show ?case using 2 Cons.IH(2) by (auto simp: replace_def split: if_splits)
  }
qed auto

lemma find_index_None: "find_index P rs = None \<longleftrightarrow> List.find P rs = None"
  by (induction rs) auto

interpretation json_store: operation_store "JsonFileGatewayOperationStore rt engine" engine
  "json_view rt engine" "json_store_ok rt engine" for rt engine
proof
  fix s scope operationId r version
  assume ok: "json_store_ok rt engine s"
  then show rs: "records_ok engine (json_view rt engine s)" by (rule json_view_ok)
  obtain fault s1 where s1: "next_fault s = (fault, s1)" by (cases "next_fault s")
  note cong = json_text_cong [OF next_fault_text [OF s1], of rt engine]
  have load: "jsonFile_load rt engine f s1 = (if f = ReadFault then Inl StoreIO else Inr (json_view rt engine s))" for f
    using jsonFile_load_ok [of rt engine s1 f] ok by (simp add: cong)
  show "json_store_ok rt engine s' \<and> json_view rt engine s' = json_view rt engine s
      \<and> (case res of Inl e \<Rightarrow> e = StoreIO | Inr x \<Rightarrow> x = lookup (recordKey scope operationId) (json_view rt engine s))"
    if "st_read (JsonFileGatewayOperationStore rt engine) scope operationId s = (res, s')" for res s'
    using that ok cong by (auto simp: JsonFileGatewayOperationStore_def jsonFile_read_def s1 load lookup_def
        split: if_splits)
  show "json_store_ok rt engine s' \<and> (case res of Inl e \<Rightarrow> e = StoreIO \<and> (json_view rt engine s' = json_view rt engine s
        \<or> json_view rt engine s' = snd (spec_prepare r (json_view rt engine s)))
      | Inr out \<Rightarrow> spec_prepare r (json_view rt engine s) = (out, json_view rt engine s'))"
    if "isValidOperationRecord engine r" "st_prepare (JsonFileGatewayOperationStore rt engine) r s = (res, s')" for res s'
  proof (cases "List.find (\<lambda>c. own_key c = own_key r \<or> operationIdempotencyKey c = operationIdempotencyKey r)
      (json_view rt engine s)")
    case None
    then have "records_ok engine (json_view rt engine s @ [r])"
      using spec_prepare_ok [OF rs that(1)] by (simp add: spec_prepare_def)
    note new = saved_state [OF this, of rt]
    show ?thesis using that(2) ok cong new
      by (cases fault) (auto simp: JsonFileGatewayOperationStore_def jsonFile_prepare_def s1 load None
          spec_prepare_def jsonFile_save_def)
  next
    case (Some e)
    then show ?thesis using that(2) ok cong
      by (auto simp: JsonFileGatewayOperationStore_def jsonFile_prepare_def s1 load spec_prepare_def
          split: if_splits)
  qed
  show "json_store_ok rt engine s' \<and> (case res of Inl e \<Rightarrow> e = StoreIO \<and> (json_view rt engine s' = json_view rt engine s
        \<or> json_view rt engine s' = snd (spec_cas version r (json_view rt engine s)))
      | Inr out \<Rightarrow> spec_cas version r (json_view rt engine s) = (out, json_view rt engine s'))"
    if key: "own_key r = recordKey scope operationId" and "update_ok engine r (json_view rt engine s)"
      "st_compareAndSwap (JsonFileGatewayOperationStore rt engine) scope operationId version r s = (res, s')" for res s'
  proof (cases "find_index (\<lambda>c. own_key c = own_key r) (json_view rt engine s)")
    case None
    then have "lookup (own_key r) (json_view rt engine s) = None" by (simp add: lookup_def find_index_None)
    then show ?thesis using that(3) ok cong None
      by (auto simp: JsonFileGatewayOperationStore_def jsonFile_compareAndSwap_def s1 load spec_cas_def
          key [symmetric] split: if_splits)
  next
    case (Some i)
    have dist: "distinct (map own_key (json_view rt engine s))" using rs by (simp add: records_ok_def)
    note at = find_index_replace [OF dist Some]
    show ?thesis
    proof (cases "op_version (json_view rt engine s ! i) = version")
      case False
      then show ?thesis using that(3) ok cong Some at
        by (auto simp: JsonFileGatewayOperationStore_def jsonFile_compareAndSwap_def s1 load spec_cas_def
            key [symmetric] split: if_splits)
    next
      case True
      then have "records_ok engine (replace r (json_view rt engine s))"
        using spec_cas_ok [OF rs that(2), of version] at by (simp add: spec_cas_def)
      note new = saved_state [OF this, of rt]
      show ?thesis using that(3) ok cong Some at True new
        by (cases fault) (auto simp: JsonFileGatewayOperationStore_def jsonFile_compareAndSwap_def s1 load
            spec_cas_def key [symmetric] jsonFile_save_def)
    qed
  qed
  show "json_store_ok rt engine s' \<and> json_view rt engine s' = json_view rt engine s
      \<and> (case res of Inl e \<Rightarrow> e = StoreIO | Inr x \<Rightarrow> x = filter (in_scope scope) (json_view rt engine s))"
    if "st_list (JsonFileGatewayOperationStore rt engine) scope s = (res, s')" for res s'
    using that ok cong by (auto simp: JsonFileGatewayOperationStore_def jsonFile_list_def s1 load split: if_splits)
qed

end
