(* ===== verification/Operation_Coordinator.thy ===== *)
theory Operation_Coordinator
  imports Operation_Store_Laws
begin

text \<open>
  The coordinator of \<open>operation-recovery.ts\<close> on a store: the class
  \<open>GatewayOperationCoordinator\<close>, one definition per method. A method returns its result and the next
  state of the store. The receipt verifier is a parameter; \<open>None\<close> is a verifier that throws.

  The contract \<open>operation_store\<close> gives each method a meaning on the list of records, and the
  interleaving of many calls, each split at its store calls, is a step relation that refines a
  registry in which every change is one atomic step.
\<close>

section \<open>Methods\<close>

definition storeFailure :: "store_error \<Rightarrow> op_result" where
  "storeFailure error = failure (if error = StoreCorruption then OP_store_corrupted else OP_store_unavailable)"

definition coordinator_read ::
  "'s gateway_operation_store \<Rightarrow> (jstr \<Rightarrow> int option) \<Rightarrow> operation_scope \<Rightarrow> jstr \<Rightarrow> 's \<Rightarrow>
    (op_result + operation_record) \<times> 's" where
  "coordinator_read store engine scope operationId s =
     (if \<not> isValidScope scope \<or> \<not> safeId operationId operationIdPattern
      then (Inl (failure OP_invalid_input), s)
      else (case st_read store scope operationId s of
              (Inl e, s1) \<Rightarrow> (Inl (storeFailure e), s1)
            | (Inr None, s1) \<Rightarrow> (Inl (failure OP_not_found), s1)
            | (Inr (Some record), s1) \<Rightarrow>
                if \<not> isValidOperationRecord engine record then (Inl (failure OP_store_corrupted), s1)
                else (Inr record, s1)))"

text \<open>The end of \<open>#mutate\<close>: the compare-and-swap of the changed record.\<close>

definition coordinator_commit ::
  "'s gateway_operation_store \<Rightarrow> operation_scope \<Rightarrow> jstr \<Rightarrow> int \<Rightarrow> operation_record \<Rightarrow> 's \<Rightarrow> op_result \<times> 's" where
  "coordinator_commit store scope operationId version changed s =
     (case st_compareAndSwap store scope operationId version changed s of
        (Inl e, s1) \<Rightarrow> (storeFailure e, s1)
      | (Inr Missing, s1) \<Rightarrow> (failure OP_not_found, s1)
      | (Inr Conflict, s1) \<Rightarrow> (failure OP_concurrent_update, s1)
      | (Inr Updated, s1) \<Rightarrow> (success changed False, s1))"

definition coordinator_mutate ::
  "'s gateway_operation_store \<Rightarrow> (jstr \<Rightarrow> int option) \<Rightarrow> operation_scope \<Rightarrow> jstr \<Rightarrow> js_date \<Rightarrow> mutation \<Rightarrow> 's \<Rightarrow>
    op_result \<times> 's" where
  "coordinator_mutate store engine scope operationId at mutate s =
     (case coordinator_read store engine scope operationId s of
        (Inl result, s1) \<Rightarrow> (result, s1)
      | (Inr record, s1) \<Rightarrow>
          (case plan_change engine at mutate record of
             Inl result \<Rightarrow> (result, s1)
           | Inr changed \<Rightarrow> coordinator_commit store scope operationId (op_version record) changed s1))"

definition prepare :: "'s gateway_operation_store \<Rightarrow> prepare_input \<Rightarrow> 's \<Rightarrow> op_result \<times> 's" where
  "prepare store input s =
     (if \<not> isValidPrepareInput input then (failure OP_invalid_input, s)
      else (case st_prepare store (initialRecord input) s of
              (Inl e, s1) \<Rightarrow> (storeFailure e, s1)
            | (Inr Collision, s1) \<Rightarrow> (failure OP_idempotency_collision, s1)
            | (Inr (Created record), s1) \<Rightarrow> (success record False, s1)
            | (Inr (Replay record), s1) \<Rightarrow> (success record True, s1)))"

definition authorize where
  "authorize store engine scope operationId at =
     coordinator_mutate store engine scope operationId at authorize_change"

definition beginDispatch where
  "beginDispatch store engine scope operationId at =
     coordinator_mutate store engine scope operationId at (beginDispatch_change engine at)"

definition observeRemoteState where
  "observeRemoteState store engine scope operationId remoteState at identities =
     coordinator_mutate store engine scope operationId at (observeRemoteState_change remoteState identities)"

definition markTransportFailure where
  "markTransportFailure store engine scope operationId at =
     coordinator_mutate store engine scope operationId at markTransportFailure_change"

definition requestCancellation where
  "requestCancellation store engine scope operationId at =
     coordinator_mutate store engine scope operationId at requestCancellation_change"

definition beginReconciliation where
  "beginReconciliation store engine scope operationId at =
     coordinator_mutate store engine scope operationId at beginReconciliation_change"

definition retryExact where
  "retryExact store engine scope operationId at input =
     coordinator_mutate store engine scope operationId at (retryExact_change engine at input)"

definition recoverAfterRestart where
  "recoverAfterRestart store engine scope operationId at =
     coordinator_mutate store engine scope operationId at recoverAfterRestart_change"

definition markOrphaned where
  "markOrphaned store engine scope operationId at staleAfterMs =
     coordinator_mutate store engine scope operationId at (markOrphaned_change engine at staleAfterMs)"

definition list_operations ::
  "'s gateway_operation_store \<Rightarrow> operation_scope \<Rightarrow> 's \<Rightarrow> (store_error + operation_record list) \<times> 's" where
  "list_operations store scope = st_list store scope"

record completion_input =
  ci_scope :: operation_scope
  ci_operation_id :: jstr
  ci_at :: js_date
  ci_requested_digest :: jstr
  ci_approved_digest :: jstr
  ci_authorized_digest :: jstr
  ci_executed_digest :: jstr
  ci_tool_argument_digest :: jstr
  ci_gateway_result_digest :: jstr
  ci_receipt :: operation_receipt

text \<open>
  The checks of \<open>completeWithGatewayReceipt\<close> on the record read first: \<open>Some\<close> is the result returned
  at once, \<open>None\<close> goes on. Receipts have their fields in the order of the type, in which
  \<open>JSON.stringify\<close> writes them.
\<close>

definition receipt_check ::
  "(jstr \<Rightarrow> int option) \<Rightarrow> (operation_receipt \<Rightarrow> operation_record \<Rightarrow> bool option) \<Rightarrow> completion_input \<Rightarrow>
    operation_record \<Rightarrow> op_result option" where
  "receipt_check engine verify input record =
     (let receipt = ci_receipt input in
      if \<not> isValidReceipt engine receipt
         \<or> \<not> isDigest (ci_gateway_result_digest input)
         \<or> rc_result_digest receipt \<noteq> ci_gateway_result_digest input
         \<or> num_lt (Date_parse engine (rc_received_at receipt)) (Date_parse engine (op_requested_at record))
         \<or> num_lt (ci_at input) (Date_parse engine (rc_received_at receipt))
      then Some (failure OP_invalid_receipt)
      else if list_ex (\<lambda>digest. digest \<noteq> op_canonical_packet_digest record)
                [ci_requested_digest input, ci_approved_digest input, ci_authorized_digest input,
                 ci_executed_digest input]
              \<or> ci_tool_argument_digest input \<noteq> op_tool_argument_digest record
      then Some (failure OP_digest_mismatch)
      else if verify receipt record \<noteq> Some True \<or> \<not> receiptMatches receipt record
      then Some (failure OP_invalid_receipt)
      else if op_state record \<in> set [Completed, Failed]
              \<and> op_gateway_result_digest record = Some (ci_gateway_result_digest input)
              \<and> (case op_receipt record of None \<Rightarrow> False
                 | Some own \<Rightarrow> js_stringify (receipt_object own) = js_stringify (receipt_object receipt))
      then Some (success record True)
      else None)"

definition completeWithGatewayReceipt ::
  "'s gateway_operation_store \<Rightarrow> (jstr \<Rightarrow> int option) \<Rightarrow> (operation_receipt \<Rightarrow> operation_record \<Rightarrow> bool option) \<Rightarrow>
    completion_input \<Rightarrow> 's \<Rightarrow> op_result \<times> 's" where
  "completeWithGatewayReceipt store engine verify input s =
     (case coordinator_read store engine (ci_scope input) (ci_operation_id input) s of
        (Inl result, s1) \<Rightarrow> (result, s1)
      | (Inr record, s1) \<Rightarrow>
          (case receipt_check engine verify input record of
             Some result \<Rightarrow> (result, s1)
           | None \<Rightarrow> coordinator_mutate store engine (ci_scope input) (ci_operation_id input) (ci_at input)
               (complete_change engine (ci_at input) (ci_receipt input) (ci_gateway_result_digest input)
                 (op_version record)) s1))"

section \<open>Identity of changed records\<close>

definition keeps_identity :: "mutation \<Rightarrow> bool" where
  "keeps_identity mutate \<longleftrightarrow> (\<forall>r isoAt r'. mutate r isoAt = Inr r' \<longrightarrow>
     operation_identity.truncate r' = operation_identity.truncate r)"

lemma command_keeps_identity: "keeps_identity (command_change engine at cmd)"
  unfolding keeps_identity_def using command_change_iff change_identity by metis

lemma same_identity:
  assumes "operation_identity.truncate r' = operation_identity.truncate r"
  shows "own_key r' = own_key r" and "operationIdempotencyKey r' = operationIdempotencyKey r"
    and "in_scope scope r' = in_scope scope r"
  using assms by (simp_all add: operation_identity.truncate_def own_key_def recordKey_def
      operationIdempotencyKey_def in_scope_def)

lemma plan_change_facts:
  assumes "plan_change engine at mutate r = Inr r'" and "keeps_identity mutate"
  shows "isValidOperationRecord engine r'" and "own_key r' = own_key r"
    and "operationIdempotencyKey r' = operationIdempotencyKey r"
    and "in_scope scope r' = in_scope scope r"
proof -
  obtain t where "mutate r (toISOString t) = Inr r'" and v: "isValidOperationRecord engine r'"
    using assms(1) by (auto simp: plan_change_def split: option.splits if_splits sum.splits)
  then have "operation_identity.truncate r' = operation_identity.truncate r"
    using assms(2) by (auto simp: keeps_identity_def)
  from same_identity [OF this] v show "isValidOperationRecord engine r'" "own_key r' = own_key r"
    "operationIdempotencyKey r' = operationIdempotencyKey r" "in_scope scope r' = in_scope scope r" by auto
qed

section \<open>Methods on a list of records\<close>

definition spec_mutate ::
  "(jstr \<Rightarrow> int option) \<Rightarrow> operation_scope \<Rightarrow> jstr \<Rightarrow> js_date \<Rightarrow> mutation \<Rightarrow> operation_record list \<Rightarrow>
    op_result \<times> operation_record list" where
  "spec_mutate engine scope operationId at mutate rs =
     (if \<not> isValidScope scope \<or> \<not> safeId operationId operationIdPattern then (failure OP_invalid_input, rs)
      else (case lookup (recordKey scope operationId) rs of
              None \<Rightarrow> (failure OP_not_found, rs)
            | Some r \<Rightarrow> (case plan_change engine at mutate r of
                Inl result \<Rightarrow> (result, rs) | Inr r' \<Rightarrow> (success r' False, replace r' rs))))"

context operation_store
begin

lemma read_cases:
  assumes "ok s" and "coordinator_read store engine scope operationId s = (res, s1)"
  shows "ok s1" and "view s1 = view s"
    and "res = Inl (failure OP_store_unavailable)
      \<or> (if \<not> isValidScope scope \<or> \<not> safeId operationId operationIdPattern then res = Inl (failure OP_invalid_input)
         else res = (case lookup (recordKey scope operationId) (view s) of
           None \<Rightarrow> Inl (failure OP_not_found) | Some r \<Rightarrow> Inr r))"
proof -
  obtain rr s2 where rr: "st_read store scope operationId s = (rr, s2)"
    by (cases "st_read store scope operationId s")
  note law = read_law [OF assms(1) rr]
  have valid: "isValidOperationRecord engine r" if "lookup (recordKey scope operationId) (view s) = Some r" for r
    using view_ok [OF assms(1)] lookup_SomeD [OF that] by (auto simp: records_ok_def list_all_iff)
  show "ok s1" "view s1 = view s" using assms law rr
    by (auto simp: coordinator_read_def split: if_splits sum.splits option.splits prod.splits)
  show "res = Inl (failure OP_store_unavailable)
      \<or> (if \<not> isValidScope scope \<or> \<not> safeId operationId operationIdPattern then res = Inl (failure OP_invalid_input)
         else res = (case lookup (recordKey scope operationId) (view s) of
           None \<Rightarrow> Inl (failure OP_not_found) | Some r \<Rightarrow> Inr r))"
    using assms law rr valid
    by (auto simp: coordinator_read_def storeFailure_def split: if_splits sum.splits option.splits prod.splits)
qed

lemma read_SomeD:
  assumes "ok s" and "coordinator_read store engine scope operationId s = (Inr r, s1)"
  shows "lookup (recordKey scope operationId) (view s) = Some r"
  using read_cases(3) [OF assms] by (auto split: if_splits option.splits)

lemma commit_law:
  assumes "ok s" and "isValidOperationRecord engine r'" and "own_key r' = recordKey scope operationId"
    and "null_or (\<lambda>e. operationIdempotencyKey e = operationIdempotencyKey r') (lookup (own_key r') (view s))"
    and "coordinator_commit store scope operationId version r' s = (res, s')"
  shows "ok s'" and "(res = failure OP_store_unavailable \<and> (view s' = view s \<or> view s' = snd (spec_cas version r' (view s))))
    \<or> (case spec_cas version r' (view s) of (out, rs) \<Rightarrow> view s' = rs
      \<and> res = (case out of Missing \<Rightarrow> failure OP_not_found | Conflict \<Rightarrow> failure OP_concurrent_update
          | Updated \<Rightarrow> success r' False))"
proof -
  obtain cr s2 where cr: "st_compareAndSwap store scope operationId version r' s = (cr, s2)"
    by (cases "st_compareAndSwap store scope operationId version r' s")
  have "update_ok engine r' (view s)" using assms(2,4) by (simp add: update_ok_def)
  note law = cas_law [OF assms(1,3) this cr]
  have s2: "s2 = s'" using assms(5) cr
    by (auto simp: coordinator_commit_def split: sum.splits cas_outcome.splits)
  then show "ok s'" using law by simp
  show "(res = failure OP_store_unavailable \<and> (view s' = view s \<or> view s' = snd (spec_cas version r' (view s))))
    \<or> (case spec_cas version r' (view s) of (out, rs) \<Rightarrow> view s' = rs
      \<and> res = (case out of Missing \<Rightarrow> failure OP_not_found | Conflict \<Rightarrow> failure OP_concurrent_update
          | Updated \<Rightarrow> success r' False))"
    using law assms(5) cr s2
    by (auto simp: coordinator_commit_def storeFailure_def split: sum.splits cas_outcome.splits)
qed

text \<open>
  A method that nothing interleaves with does what its mutation does on the records; when the store
  fails, the caller learns it, and the change has happened or not.
\<close>

lemma mutate_refines:
  assumes "ok s" and "keeps_identity mutate"
    and "coordinator_mutate store engine scope operationId at mutate s = (res, s')"
  shows "ok s' \<and> ((res, view s') = spec_mutate engine scope operationId at mutate (view s)
    \<or> res = failure OP_store_unavailable
      \<and> (view s' = view s \<or> view s' = snd (spec_mutate engine scope operationId at mutate (view s))))"
proof -
  obtain rr s1 where rr: "coordinator_read store engine scope operationId s = (rr, s1)"
    by (cases "coordinator_read store engine scope operationId s")
  note read = read_cases [OF assms(1) rr]
  show ?thesis
  proof (cases rr)
    case (Inl result)
    then show ?thesis using assms(3) read rr
      by (auto simp: coordinator_mutate_def spec_mutate_def split: if_splits option.splits)
  next
    case (Inr r)
    have look: "lookup (recordKey scope operationId) (view s) = Some r"
      using read_SomeD [OF assms(1)] rr Inr by simp
    have valid: "isValidScope scope" "safeId operationId operationIdPattern"
      using read(3) Inr by (auto simp: failure_def split: if_splits)
    show ?thesis
    proof (cases "plan_change engine at mutate r")
      case (Inl result)
      then show ?thesis using assms(3) read rr Inr look valid
        by (auto simp: coordinator_mutate_def spec_mutate_def)
    next
      case plan: (Inr r')
      note facts = plan_change_facts [OF plan assms(2)]
      have key: "own_key r' = recordKey scope operationId"
        using facts(2) lookup_SomeD [OF look] by simp
      have commit: "coordinator_commit store scope operationId (op_version r) r' s1 = (res, s')"
        using assms(3) rr Inr plan by (simp add: coordinator_mutate_def)
      have "null_or (\<lambda>e. operationIdempotencyKey e = operationIdempotencyKey r') (lookup (own_key r') (view s1))"
        using look key facts(3) read(2) by simp
      note law = commit_law [OF read(1) facts(1) key this commit]
      have "spec_cas (op_version r) r' (view s1) = (Updated, replace r' (view s))"
        using look key read(2) by (simp add: spec_cas_def)
      moreover have "spec_mutate engine scope operationId at mutate (view s) = (success r' False, replace r' (view s))"
        using look valid plan by (simp add: spec_mutate_def)
      ultimately show ?thesis using law read(2) by auto
    qed
  qed
qed

lemma prepare_refines:
  assumes "ok s" and "isValidPrepareInput input" and "date_ok (pi_requested_at input)"
    and "date_ok (pi_authorization_expires_at input)" and "prepare store input s = (res, s')"
  shows "ok s' \<and> (case spec_prepare (initialRecord input) (view s) of (out, rs) \<Rightarrow>
    (view s' = rs \<and> res = (case out of Created r \<Rightarrow> success r False | Replay r \<Rightarrow> success r True
        | Collision \<Rightarrow> failure OP_idempotency_collision))
    \<or> (res = failure OP_store_unavailable \<and> (view s' = view s \<or> view s' = rs)))"
proof -
  obtain pr s2 where pr: "st_prepare store (initialRecord input) s = (pr, s2)"
    by (cases "st_prepare store (initialRecord input) s")
  note law = prepare_law [OF assms(1) initial_valid [OF assms(2-4)] pr]
  have "s2 = s'" using assms(5,2) pr by (auto simp: prepare_def split: sum.splits prepare_outcome.splits)
  then show ?thesis using law assms(2,5) pr
    by (auto simp: prepare_def storeFailure_def split: sum.splits prepare_outcome.splits)
qed

end

section \<open>Calls\<close>

text \<open>Any call of the coordinator, and its effect on a list of records.\<close>

datatype op_call =
    CallPrepare prepare_input
  | CallCommand operation_scope jstr js_date op_command
  | CallComplete completion_input
  | CallList operation_scope

datatype call_result = Answer op_result | Listing "store_error + operation_record list"

fun is_complete :: "op_command \<Rightarrow> bool" where
  "is_complete (CmdComplete _ _ _) = True"
| "is_complete _ = False"

text \<open>A call as the type checker admits it: dates are dates, and receipts go through their own method.\<close>

fun call_ok :: "op_call \<Rightarrow> bool" where
  "call_ok (CallPrepare input) \<longleftrightarrow> date_ok (pi_requested_at input) \<and> date_ok (pi_authorization_expires_at input)"
| "call_ok (CallCommand scope operationId at cmd) \<longleftrightarrow> date_ok at \<and> \<not> is_complete cmd"
| "call_ok (CallComplete input) \<longleftrightarrow> date_ok (ci_at input)"
| "call_ok (CallList scope) \<longleftrightarrow> True"

fun command_call ::
  "'s gateway_operation_store \<Rightarrow> (jstr \<Rightarrow> int option) \<Rightarrow> operation_scope \<Rightarrow> jstr \<Rightarrow> js_date \<Rightarrow> op_command \<Rightarrow> 's \<Rightarrow>
    op_result \<times> 's" where
  "command_call store engine scope operationId at CmdAuthorize = authorize store engine scope operationId at"
| "command_call store engine scope operationId at CmdDispatch = beginDispatch store engine scope operationId at"
| "command_call store engine scope operationId at (CmdObserve remote identities) =
     observeRemoteState store engine scope operationId remote at identities"
| "command_call store engine scope operationId at CmdTransportFailure =
     markTransportFailure store engine scope operationId at"
| "command_call store engine scope operationId at CmdCancel = requestCancellation store engine scope operationId at"
| "command_call store engine scope operationId at CmdReconcile = beginReconciliation store engine scope operationId at"
| "command_call store engine scope operationId at (CmdComplete receipt digest version) =
     coordinator_mutate store engine scope operationId at (complete_change engine at receipt digest version)"
| "command_call store engine scope operationId at (CmdRetry input) =
     retryExact store engine scope operationId at input"
| "command_call store engine scope operationId at CmdRecover = recoverAfterRestart store engine scope operationId at"
| "command_call store engine scope operationId at (CmdOrphan ms) =
     markOrphaned store engine scope operationId at ms"

fun perform ::
  "'s gateway_operation_store \<Rightarrow> (jstr \<Rightarrow> int option) \<Rightarrow> (operation_receipt \<Rightarrow> operation_record \<Rightarrow> bool option) \<Rightarrow>
    op_call \<Rightarrow> 's \<Rightarrow> call_result \<times> 's" where
  "perform store engine verify (CallPrepare input) s = apfst Answer (prepare store input s)"
| "perform store engine verify (CallCommand scope operationId at cmd) s =
     apfst Answer (command_call store engine scope operationId at cmd s)"
| "perform store engine verify (CallComplete input) s =
     apfst Answer (completeWithGatewayReceipt store engine verify input s)"
| "perform store engine verify (CallList scope) s = apfst Listing (list_operations store scope s)"

fun run_calls where
  "run_calls store engine verify [] s = ([], s)"
| "run_calls store engine verify (c # cs) s =
     (case perform store engine verify c s of (a, s1) \<Rightarrow> apfst ((#) a) (run_calls store engine verify cs s1))"

lemma command_call_mutate:
  "command_call store engine scope operationId at cmd s =
    coordinator_mutate store engine scope operationId at (command_change engine at cmd) s"
  by (cases cmd) (simp_all add: authorize_def beginDispatch_def observeRemoteState_def markTransportFailure_def
      requestCancellation_def beginReconciliation_def retryExact_def recoverAfterRestart_def markOrphaned_def)

lemma complete_keeps_identity: "keeps_identity (complete_change engine at receipt digest version)"
  using command_keeps_identity [of engine at "CmdComplete receipt digest version"] by simp

definition spec_complete where
  "spec_complete engine verify input rs =
     (if \<not> isValidScope (ci_scope input) \<or> \<not> safeId (ci_operation_id input) operationIdPattern
      then (failure OP_invalid_input, rs)
      else (case lookup (recordKey (ci_scope input) (ci_operation_id input)) rs of
              None \<Rightarrow> (failure OP_not_found, rs)
            | Some r \<Rightarrow> (case receipt_check engine verify input r of
                Some result \<Rightarrow> (result, rs)
              | None \<Rightarrow> spec_mutate engine (ci_scope input) (ci_operation_id input) (ci_at input)
                  (complete_change engine (ci_at input) (ci_receipt input) (ci_gateway_result_digest input)
                    (op_version r)) rs)))"

definition prepare_answer :: "prepare_outcome \<Rightarrow> op_result" where
  "prepare_answer out = (case out of Created r \<Rightarrow> success r False | Replay r \<Rightarrow> success r True
     | Collision \<Rightarrow> failure OP_idempotency_collision)"

fun spec_perform ::
  "(jstr \<Rightarrow> int option) \<Rightarrow> (operation_receipt \<Rightarrow> operation_record \<Rightarrow> bool option) \<Rightarrow> op_call \<Rightarrow>
    operation_record list \<Rightarrow> call_result \<times> operation_record list" where
  "spec_perform engine verify (CallPrepare input) rs =
     (if \<not> isValidPrepareInput input then (Answer (failure OP_invalid_input), rs)
      else apfst (Answer \<circ> prepare_answer) (spec_prepare (initialRecord input) rs))"
| "spec_perform engine verify (CallCommand scope operationId at cmd) rs =
     apfst Answer (spec_mutate engine scope operationId at (command_change engine at cmd) rs)"
| "spec_perform engine verify (CallComplete input) rs = apfst Answer (spec_complete engine verify input rs)"
| "spec_perform engine verify (CallList scope) rs = (Listing (Inr (filter (in_scope scope) rs)), rs)"

fun spec_run where
  "spec_run engine verify [] rs = ([], rs)"
| "spec_run engine verify (c # cs) rs =
     (case spec_perform engine verify c rs of (a, rs1) \<Rightarrow> apfst ((#) a) (spec_run engine verify cs rs1))"

fun unavailable :: "call_result \<Rightarrow> bool" where
  "unavailable (Answer result) \<longleftrightarrow> result = failure OP_store_unavailable"
| "unavailable (Listing result) \<longleftrightarrow> result = Inl StoreIO"

context operation_store
begin

lemma complete_refines:
  assumes "ok s" and "completeWithGatewayReceipt store engine verify input s = (res, s')"
  shows "ok s' \<and> ((res, view s') = spec_complete engine verify input (view s)
    \<or> res = failure OP_store_unavailable
      \<and> (view s' = view s \<or> view s' = snd (spec_complete engine verify input (view s))))"
proof -
  obtain rr s1 where rr: "coordinator_read store engine (ci_scope input) (ci_operation_id input) s = (rr, s1)"
    by (cases "coordinator_read store engine (ci_scope input) (ci_operation_id input) s")
  note read = read_cases [OF assms(1) rr]
  show ?thesis
  proof (cases rr)
    case (Inl result)
    then show ?thesis using assms(2) read rr
      by (auto simp: completeWithGatewayReceipt_def spec_complete_def split: if_splits option.splits)
  next
    case (Inr r)
    have look: "lookup (recordKey (ci_scope input) (ci_operation_id input)) (view s) = Some r"
      using read_SomeD [OF assms(1)] rr Inr by simp
    have valid: "isValidScope (ci_scope input)" "safeId (ci_operation_id input) operationIdPattern"
      using read(3) Inr by (auto split: if_splits)
    show ?thesis
    proof (cases "receipt_check engine verify input r")
      case None
      then have "coordinator_mutate store engine (ci_scope input) (ci_operation_id input) (ci_at input)
          (complete_change engine (ci_at input) (ci_receipt input) (ci_gateway_result_digest input) (op_version r)) s1
          = (res, s')"
        using assms(2) rr Inr by (simp add: completeWithGatewayReceipt_def)
      from mutate_refines [OF read(1) complete_keeps_identity this] show ?thesis
        using look valid None read(2) by (simp add: spec_complete_def)
    next
      case (Some result)
      then show ?thesis using assms(2) rr Inr look valid read
        by (simp add: completeWithGatewayReceipt_def spec_complete_def)
    qed
  qed
qed

theorem perform_refines:
  assumes "ok s" and "call_ok call" and "perform store engine verify call s = (res, s')"
  shows "ok s' \<and> ((res, view s') = spec_perform engine verify call (view s)
    \<or> unavailable res \<and> (view s' = view s \<or> view s' = snd (spec_perform engine verify call (view s))))"
proof (cases call)
  case (CallPrepare input)
  obtain r where r: "prepare store input s = (r, s')" "res = Answer r"
    using assms(3) by (cases "prepare store input s") (auto simp: CallPrepare)
  show ?thesis
  proof (cases "isValidPrepareInput input")
    case True
    obtain out rs where spec: "spec_prepare (initialRecord input) (view s) = (out, rs)"
      by (cases "spec_prepare (initialRecord input) (view s)")
    from prepare_refines [OF assms(1) True _ _ r(1)] assms(2) show ?thesis
      using True r by (auto simp: CallPrepare spec prepare_answer_def)
  next
    case False
    then show ?thesis using r assms(1) by (simp add: CallPrepare prepare_def)
  qed
next
  case (CallCommand scope operationId at cmd)
  obtain r where r: "coordinator_mutate store engine scope operationId at (command_change engine at cmd) s = (r, s')"
    "res = Answer r"
    using assms(3) by (cases "command_call store engine scope operationId at cmd s")
      (auto simp: CallCommand command_call_mutate)
  from mutate_refines [OF assms(1) command_keeps_identity r(1)] show ?thesis
    by (cases "spec_mutate engine scope operationId at (command_change engine at cmd) (view s)")
      (auto simp: CallCommand r(2))
next
  case (CallComplete input)
  obtain r where r: "completeWithGatewayReceipt store engine verify input s = (r, s')" "res = Answer r"
    using assms(3) by (cases "completeWithGatewayReceipt store engine verify input s") (auto simp: CallComplete)
  from complete_refines [OF assms(1) r(1)] show ?thesis
    by (cases "spec_complete engine verify input (view s)") (auto simp: CallComplete r(2))
next
  case (CallList scope)
  obtain r where r: "st_list store scope s = (r, s')" "res = Listing r"
    using assms(3) by (cases "st_list store scope s") (auto simp: CallList list_operations_def)
  from list_law [OF assms(1) r(1)] show ?thesis by (cases r) (auto simp: CallList r(2))
qed

end

section \<open>Stores that do not fail\<close>

text \<open>A store in a calm state answers every call, and stays calm.\<close>

locale reliable_operation_store = operation_store store engine view ok
  for store :: "'s gateway_operation_store" and engine view ok +
  fixes calm :: "'s \<Rightarrow> bool"
  assumes calm_read: "ok s \<Longrightarrow> calm s \<Longrightarrow> st_read store scope operationId s = (rr, s') \<Longrightarrow>
      calm s' \<and> rr \<noteq> Inl StoreIO"
    and calm_prepare: "ok s \<Longrightarrow> calm s \<Longrightarrow> st_prepare store r s = (pr, s') \<Longrightarrow> calm s' \<and> pr \<noteq> Inl StoreIO"
    and calm_cas: "ok s \<Longrightarrow> calm s \<Longrightarrow> st_compareAndSwap store scope operationId version r s = (cr, s') \<Longrightarrow>
      calm s' \<and> cr \<noteq> Inl StoreIO"
    and calm_list: "ok s \<Longrightarrow> calm s \<Longrightarrow> st_list store scope s = (lr, s') \<Longrightarrow> calm s' \<and> lr \<noteq> Inl StoreIO"

lemma failure_eq [simp]: "failure a = failure b \<longleftrightarrow> a = b"
  by (auto simp: failure_def)

lemma success_not_failure [simp]: "success r b \<noteq> failure c" "failure c \<noteq> success r b"
  by (simp_all add: success_def failure_def)

lemma storeFailure_unavailable [simp]: "storeFailure e = failure OP_store_unavailable \<longleftrightarrow> e = StoreIO"
  by (cases e) (simp_all add: storeFailure_def)

text \<open>No change and no receipt check answers that the store is unavailable.\<close>

lemma change_not_unavailable:
  "command_change engine at cmd r isoAt = Inl res \<Longrightarrow> res \<noteq> failure OP_store_unavailable"
  by (cases cmd) (auto simp: change_defs Let_def split: if_splits option.splits)

lemma plan_not_unavailable:
  "plan_change engine at (command_change engine at cmd) r = Inl res \<Longrightarrow> res \<noteq> failure OP_store_unavailable"
  using change_not_unavailable by (auto simp: plan_change_def split: option.splits if_splits sum.splits)

lemma check_not_unavailable:
  "receipt_check engine verify input r = Some res \<Longrightarrow> res \<noteq> failure OP_store_unavailable"
  by (auto simp: receipt_check_def Let_def split: if_splits)

context reliable_operation_store
begin

lemma read_calm:
  assumes "ok s" and "calm s" and "coordinator_read store engine scope operationId s = (res, s1)"
  shows "calm s1" and "res \<noteq> Inl (failure OP_store_unavailable)"
  using assms(2,3) calm_read [OF assms(1,2), of scope operationId]
  by (auto simp: coordinator_read_def split: if_splits prod.splits sum.splits option.splits)

lemma commit_calm:
  assumes "ok s" and "calm s" and "coordinator_commit store scope operationId version r s = (res, s1)"
  shows "calm s1" and "res \<noteq> failure OP_store_unavailable"
  using assms(2,3) calm_cas [OF assms(1,2), of scope operationId version r]
  by (auto simp: coordinator_commit_def split: prod.splits sum.splits cas_outcome.splits)

lemma mutate_calm:
  assumes "ok s" and "calm s"
    and "coordinator_mutate store engine scope operationId at (command_change engine at cmd) s = (res, s')"
  shows "calm s' \<and> res \<noteq> failure OP_store_unavailable"
proof -
  obtain rr s1 where rr: "coordinator_read store engine scope operationId s = (rr, s1)"
    by (cases "coordinator_read store engine scope operationId s")
  note read = read_calm [OF assms(1,2) rr] read_cases(1) [OF assms(1) rr]
  show ?thesis using assms(3) rr read plan_not_unavailable commit_calm [OF read(3,1)]
    by (auto simp: coordinator_mutate_def split: sum.splits)
qed

lemma complete_calm:
  assumes "ok s" and "calm s" and "completeWithGatewayReceipt store engine verify input s = (res, s')"
  shows "calm s' \<and> res \<noteq> failure OP_store_unavailable"
proof -
  obtain rr s1 where rr: "coordinator_read store engine (ci_scope input) (ci_operation_id input) s = (rr, s1)"
    by (cases "coordinator_read store engine (ci_scope input) (ci_operation_id input) s")
  note read = read_calm [OF assms(1,2) rr] read_cases(1) [OF assms(1) rr]
  note mutate = mutate_calm [OF read(3,1), of _ _ _ "CmdComplete _ _ _", simplified]
  show ?thesis using assms(3) rr read check_not_unavailable mutate
    by (auto simp: completeWithGatewayReceipt_def split: sum.splits option.splits)
qed

theorem perform_exact:
  assumes "ok s" and "calm s" and "call_ok call" and "perform store engine verify call s = (res, s')"
  shows "ok s' \<and> calm s' \<and> (res, view s') = spec_perform engine verify call (view s)"
proof -
  have "calm s' \<and> \<not> unavailable res"
  proof (cases call)
    case (CallPrepare input)
    then show ?thesis using assms(4) calm_prepare [OF assms(1,2), of "initialRecord input"] assms(2)
      by (auto simp: prepare_def split: if_splits prod.splits sum.splits prepare_outcome.splits)
  next
    case (CallCommand scope operationId at cmd)
    then show ?thesis using assms(4) mutate_calm [OF assms(1,2), of scope operationId at cmd]
      by (cases "coordinator_mutate store engine scope operationId at (command_change engine at cmd) s")
        (auto simp: command_call_mutate)
  next
    case (CallComplete input)
    then show ?thesis using assms(4) complete_calm [OF assms(1,2), of verify input]
      by (cases "completeWithGatewayReceipt store engine verify input s") auto
  next
    case (CallList scope)
    then show ?thesis using assms(4) calm_list [OF assms(1,2), of scope]
      by (cases "st_list store scope s") (auto simp: list_operations_def)
  qed
  then show ?thesis using perform_refines [OF assms(1,3,4)] by auto
qed

lemma run_calls_exact:
  assumes "ok s" and "calm s" and "list_all call_ok calls"
  shows "fst (run_calls store engine verify calls s) = fst (spec_run engine verify calls (view s))
    \<and> view (snd (run_calls store engine verify calls s)) = snd (spec_run engine verify calls (view s))"
  using assms
proof (induction calls arbitrary: s)
  case (Cons c cs)
  obtain a s1 where a: "perform store engine verify c s = (a, s1)" by (cases "perform store engine verify c s")
  from perform_exact [OF Cons.prems(1,2) _ a] Cons.prems(3)
  have "ok s1" "calm s1" "spec_perform engine verify c (view s) = (a, view s1)" by simp_all
  then show ?case using Cons.IH [of s1] Cons.prems(3) by (simp add: a)
qed simp

end

section \<open>Both stores are reliable\<close>

text \<open>The in-memory store always answers; the file store does while the operating system does.\<close>

interpretation memory_reliable: reliable_operation_store InMemoryGatewayOperationStore engine "map snd"
  "memory_ok engine" "\<lambda>_. True" for engine
  by unfold_locales (auto simp: InMemoryGatewayOperationStore_def inMemory_read_def inMemory_prepare_def
      inMemory_compareAndSwap_def inMemory_list_def Let_def split: option.splits if_splits)

definition quiet :: "json_file_state \<Rightarrow> bool" where
  "quiet s \<longleftrightarrow> jf_faults s = []"

lemma quiet_fault: "quiet s \<Longrightarrow> next_fault s = (NoFault, s)"
  by (simp add: quiet_def next_fault_def)

lemma quiet_load: "json_store_ok rt engine s \<Longrightarrow> jsonFile_load rt engine NoFault s = Inr (json_view rt engine s)"
  by (simp add: jsonFile_load_ok)

lemma quiet_save: "jsonFile_save NoFault rs s = (Inr (), s\<lparr>jf_text := Some (file_content rs)\<rparr>)"
  by (simp add: jsonFile_save_def)

interpretation json_reliable: reliable_operation_store "JsonFileGatewayOperationStore rt engine" engine
  "json_view rt engine" "json_store_ok rt engine" quiet for rt engine
proof
  fix s scope operationId r version rr s' pr cr lr
  assume ok: "json_store_ok rt engine s" and quiet: "quiet s"
  note simps = JsonFileGatewayOperationStore_def quiet_fault [OF quiet] quiet_load [OF ok] quiet_save
  have saved: "quiet (s\<lparr>jf_text := t\<rparr>)" for t using quiet by (simp add: quiet_def)
  show "quiet s' \<and> rr \<noteq> Inl StoreIO"
    if "st_read (JsonFileGatewayOperationStore rt engine) scope operationId s = (rr, s')"
    using that quiet by (auto simp: simps jsonFile_read_def)
  show "quiet s' \<and> pr \<noteq> Inl StoreIO"
    if "st_prepare (JsonFileGatewayOperationStore rt engine) r s = (pr, s')"
    using that quiet saved by (auto simp: simps jsonFile_prepare_def split: option.splits)
  show "quiet s' \<and> cr \<noteq> Inl StoreIO"
    if "st_compareAndSwap (JsonFileGatewayOperationStore rt engine) scope operationId version r s = (cr, s')"
    using that quiet saved by (auto simp: simps jsonFile_compareAndSwap_def split: option.splits if_splits)
  show "quiet s' \<and> lr \<noteq> Inl StoreIO"
    if "st_list (JsonFileGatewayOperationStore rt engine) scope s = (lr, s')"
    using that quiet by (auto simp: simps jsonFile_list_def)
qed

end
