(* ===== verification/Operation_System.thy ===== *)
theory Operation_System
  imports Operation_Coordinator
begin

text \<open>
  Interleaved calls of the coordinator. A call waits for its store calls, and between them other
  calls may run; so the system is a store with, for each client, what its current call holds on to:
  the record it read and the change it computed. Every step is one store call of the methods of
  \<open>Operation_Coordinator\<close>, made of the same reads, checks and changes.
\<close>

section \<open>Steps\<close>

datatype pending =
    PendingComplete completion_input operation_record
  | PendingCommit operation_scope jstr operation_record operation_record

type_synonym 's op_system = "'s \<times> (nat \<Rightarrow> pending option)"

inductive sys_step ::
  "'s gateway_operation_store \<Rightarrow> (jstr \<Rightarrow> int option) \<Rightarrow> (operation_receipt \<Rightarrow> operation_record \<Rightarrow> bool option) \<Rightarrow>
    's op_system \<Rightarrow> 's op_system \<Rightarrow> bool"
  for store engine verify where
  sys_prepare: "date_ok (pi_requested_at input) \<Longrightarrow> date_ok (pi_authorization_expires_at input) \<Longrightarrow>
    prepare store input s = (res, s') \<Longrightarrow> sys_step store engine verify (s, p) (s', p)"
| sys_list: "list_operations store scope s = (res, s') \<Longrightarrow> sys_step store engine verify (s, p) (s', p)"
| sys_read: "coordinator_read store engine scope operationId s = (res, s') \<Longrightarrow>
    sys_step store engine verify (s, p) (s', p)"
| sys_plan: "coordinator_read store engine scope operationId s = (Inr r, s') \<Longrightarrow> date_ok at \<Longrightarrow>
    \<not> is_complete cmd \<Longrightarrow> plan_change engine at (command_change engine at cmd) r = Inr r' \<Longrightarrow>
    sys_step store engine verify (s, p) (s', p(c := Some (PendingCommit scope operationId r r')))"
| sys_check: "coordinator_read store engine (ci_scope input) (ci_operation_id input) s = (Inr r, s') \<Longrightarrow>
    receipt_check engine verify input r = None \<Longrightarrow>
    sys_step store engine verify (s, p) (s', p(c := Some (PendingComplete input r)))"
| sys_complete: "p c = Some (PendingComplete input r) \<Longrightarrow>
    coordinator_read store engine (ci_scope input) (ci_operation_id input) s = (Inr fresh, s') \<Longrightarrow>
    date_ok (ci_at input) \<Longrightarrow>
    plan_change engine (ci_at input) (complete_change engine (ci_at input) (ci_receipt input)
      (ci_gateway_result_digest input) (op_version r)) fresh = Inr r' \<Longrightarrow>
    sys_step store engine verify (s, p)
      (s', p(c := Some (PendingCommit (ci_scope input) (ci_operation_id input) fresh r')))"
| sys_commit: "p c = Some (PendingCommit scope operationId r r') \<Longrightarrow>
    coordinator_commit store scope operationId (op_version r) r' s = (res, s') \<Longrightarrow>
    sys_step store engine verify (s, p) (s', p(c := None))"
| sys_abandon: "sys_step store engine verify (s, p) (s, p(c := None))"

inductive sys_reachable ::
  "'s gateway_operation_store \<Rightarrow> (jstr \<Rightarrow> int option) \<Rightarrow> (operation_receipt \<Rightarrow> operation_record \<Rightarrow> bool option) \<Rightarrow>
    's \<Rightarrow> 's op_system \<Rightarrow> bool"
  for store engine verify start where
  sys_start: "sys_reachable store engine verify start (start, \<lambda>_. None)"
| sys_next: "sys_reachable store engine verify start \<sigma> \<Longrightarrow> sys_step store engine verify \<sigma> \<sigma>' \<Longrightarrow>
    sys_reachable store engine verify start \<sigma>'"

text \<open>The registry: records are added in their first state and change one step at a time.\<close>

inductive registry_step ::
  "(jstr \<Rightarrow> int option) \<Rightarrow> (operation_receipt \<Rightarrow> operation_record \<Rightarrow> bool option) \<Rightarrow>
    operation_record list \<Rightarrow> operation_record list \<Rightarrow> bool"
  for engine verify where
  reg_idle: "registry_step engine verify rs rs"
| reg_add: "isValidPrepareInput input \<Longrightarrow> date_ok (pi_requested_at input) \<Longrightarrow>
    date_ok (pi_authorization_expires_at input) \<Longrightarrow> spec_prepare (initialRecord input) rs = (out, rs') \<Longrightarrow>
    registry_step engine verify rs rs'"
| reg_change: "r \<in> set rs \<Longrightarrow> op_step engine verify r r' \<Longrightarrow> own_key r' = own_key r \<Longrightarrow>
    registry_step engine verify rs (replace r' rs)"

section \<open>Receipts that pass the checks\<close>

lemma receipt_check_accepted:
  assumes "receipt_check engine verify input r = None"
  shows "receipt_accepted engine verify
    (CmdComplete (ci_receipt input) (ci_gateway_result_digest input) version) r"
  using assms by (auto simp: receipt_check_def receipt_accepted_def Let_def split: if_splits)

lemma accepted_other: "\<not> is_complete cmd \<Longrightarrow> receipt_accepted engine verify cmd r"
  by (cases cmd) (simp_all add: receipt_accepted_def)

lemma op_step_facts:
  assumes "op_step engine verify r r'"
  shows "isValidOperationRecord engine r'" and "own_key r' = own_key r"
    and "operationIdempotencyKey r' = operationIdempotencyKey r" and "op_version r' = op_version r + 1"
    and "in_scope scope r' = in_scope scope r"
proof -
  obtain at cmd where plan: "plan_change engine at (command_change engine at cmd) r = Inr r'"
    using assms by cases
  show "isValidOperationRecord engine r'" "own_key r' = own_key r"
    "operationIdempotencyKey r' = operationIdempotencyKey r" "in_scope scope r' = in_scope scope r"
    by (rule plan_change_facts [OF plan command_keeps_identity])+
  obtain t where "op_change engine at (toISOString t) cmd r r'" using plan_change_InrD [OF plan] by blast
  then show "op_version r' = op_version r + 1" by cases simp_all
qed

section \<open>The invariant of the system\<close>

text \<open>A record that was read is still current, or the current one has a greater version.\<close>

definition seen :: "operation_record list \<Rightarrow> jstr \<Rightarrow> operation_record \<Rightarrow> bool" where
  "seen rs key r \<longleftrightarrow> (case lookup key rs of None \<Rightarrow> False | Some e \<Rightarrow>
     operationIdempotencyKey e = operationIdempotencyKey r \<and> (e = r \<or> op_version r < op_version e))"

fun pending_ok ::
  "(jstr \<Rightarrow> int option) \<Rightarrow> (operation_receipt \<Rightarrow> operation_record \<Rightarrow> bool option) \<Rightarrow> operation_record list \<Rightarrow>
    pending \<Rightarrow> bool" where
  "pending_ok engine verify rs (PendingComplete input r) \<longleftrightarrow>
     seen rs (recordKey (ci_scope input) (ci_operation_id input)) r
     \<and> receipt_check engine verify input r = None"
| "pending_ok engine verify rs (PendingCommit scope operationId r r') \<longleftrightarrow>
     seen rs (recordKey scope operationId) r \<and> own_key r = recordKey scope operationId
     \<and> op_step engine verify r r'"

definition records_reachable where
  "records_reachable engine verify rs \<longleftrightarrow> (\<forall>r \<in> set rs. op_reachable engine verify r)"

lemma seen_read: "lookup key rs = Some r \<Longrightarrow> seen rs key r"
  by (simp add: seen_def)

lemma seen_append: "seen rs key r \<Longrightarrow> seen (rs @ [x]) key r"
  by (auto simp: seen_def lookup_append split: option.splits)

lemma seen_replace:
  assumes "seen rs key r" and "lookup (own_key x) rs = Some e" and "op_version e < op_version x"
    and "operationIdempotencyKey x = operationIdempotencyKey e"
  shows "seen (replace x rs) key r"
proof (cases "key = own_key x")
  case True
  then show ?thesis using assms lookup_replace_same [of x rs] by (auto simp: seen_def)
next
  case False
  then show ?thesis using assms(1) lookup_replace_other [OF False] by (simp add: seen_def)
qed

lemma pending_ok_mono:
  assumes "pending_ok engine verify rs q" and "\<And>key r. seen rs key r \<Longrightarrow> seen rs' key r"
  shows "pending_ok engine verify rs' q"
  using assms by (cases q) simp_all

text \<open>What one step of the registry does to what was seen, and to reachability.\<close>

lemma lookup_member: "distinct (map own_key rs) \<Longrightarrow> r \<in> set rs \<Longrightarrow> lookup (own_key r) rs = Some r"
  by (rule lookup_unique) simp_all

lemma registry_step_seen:
  assumes "registry_step engine verify rs rs'" and "distinct (map own_key rs)" and "seen rs key r"
  shows "seen rs' key r"
  using assms(1)
proof cases
  case (reg_add input out)
  then show ?thesis using assms(3) seen_append by (auto simp: spec_prepare_def split: option.splits)
next
  case (reg_change x x')
  then show ?thesis
    using seen_replace [OF assms(3), of x' x] lookup_member [OF assms(2), of x] op_step_facts(3,4)
    by simp
qed (use assms(3) in simp)

lemma registry_step_reachable:
  assumes "registry_step engine verify rs rs'" and "records_reachable engine verify rs"
  shows "records_reachable engine verify rs'"
  using assms(1)
proof cases
  case (reg_add input out)
  then show ?thesis using assms(2) reach_prepare [of input engine verify]
    by (auto simp: spec_prepare_def records_reachable_def split: option.splits)
next
  case (reg_change x x')
  then show ?thesis using assms(2) reach_step [of engine verify x x']
    by (auto simp: replace_def records_reachable_def)
qed (use assms(2) in simp)

context operation_store
begin

definition sys_inv where
  "sys_inv verify \<sigma> \<longleftrightarrow> ok (fst \<sigma>) \<and> records_reachable engine verify (view (fst \<sigma>))
     \<and> (\<forall>c. null_or (pending_ok engine verify (view (fst \<sigma>))) (snd \<sigma> c))"

lemma commit_step:
  assumes "ok s" and "pending_ok engine verify (view s) (PendingCommit scope operationId r r')"
    and "coordinator_commit store scope operationId (op_version r) r' s = (res, s')"
  shows "ok s' \<and> registry_step engine verify (view s) (view s')"
proof -
  obtain e where e: "lookup (recordKey scope operationId) (view s) = Some e" "e = r \<or> op_version r < op_version e"
    "operationIdempotencyKey e = operationIdempotencyKey r"
    and key: "own_key r = recordKey scope operationId" and step: "op_step engine verify r r'"
    using assms(2) by (auto simp: seen_def split: option.splits)
  note facts = op_step_facts [OF step]
  have new: "own_key r' = recordKey scope operationId" using facts(2) key by simp
  have "null_or (\<lambda>e. operationIdempotencyKey e = operationIdempotencyKey r') (lookup (own_key r') (view s))"
    using e(1,3) new facts(3) by simp
  note law = commit_law [OF assms(1) facts(1) new this assms(3)]
  have "registry_step engine verify (view s) (snd (spec_cas (op_version r) r' (view s)))"
  proof (cases "e = r")
    case True
    then have "r \<in> set (view s)" using lookup_SomeD [OF e(1)] by simp
    then show ?thesis using e(1) new True reg_change [OF _ step facts(2)] by (simp add: spec_cas_def)
  next
    case False
    then show ?thesis using e new reg_idle by (simp add: spec_cas_def)
  qed
  then show ?thesis using law reg_idle by (auto split: prod.splits)
qed

lemma step_refines:
  assumes "sys_inv verify \<sigma>" and "sys_step store engine verify \<sigma> \<sigma>'"
  shows "ok (fst \<sigma>') \<and> registry_step engine verify (view (fst \<sigma>)) (view (fst \<sigma>'))"
  using assms(2)
proof cases
  case (sys_prepare input s res s' p)
  have ok: "ok s" using assms(1) sys_prepare by (simp add: sys_inv_def)
  show ?thesis
  proof (cases "isValidPrepareInput input")
    case True
    note law = prepare_refines [OF ok True sys_prepare(3,4,5)]
    obtain out rs' where spec: "spec_prepare (initialRecord input) (view s) = (out, rs')"
      by (cases "spec_prepare (initialRecord input) (view s)")
    from reg_add [OF True sys_prepare(3,4) spec] law reg_idle show ?thesis
      by (auto simp: sys_prepare spec)
  next
    case False
    then show ?thesis using sys_prepare ok reg_idle by (simp add: prepare_def)
  qed
next
  case (sys_list scope s res s' p)
  have ok: "ok s" using assms(1) sys_list by (simp add: sys_inv_def)
  from list_law [OF ok] sys_list show ?thesis using reg_idle by (simp add: list_operations_def)
next
  case (sys_read scope operationId s res s' p)
  have ok: "ok s" using assms(1) sys_read by (simp add: sys_inv_def)
  show ?thesis using read_cases(1,2) [OF ok sys_read(3)] sys_read reg_idle by simp
next
  case (sys_plan scope operationId s r s' at cmd r' p c)
  have ok: "ok s" using assms(1) sys_plan by (simp add: sys_inv_def)
  show ?thesis using read_cases(1,2) [OF ok sys_plan(3)] sys_plan reg_idle by simp
next
  case (sys_check input s r s' p c)
  have ok: "ok s" using assms(1) sys_check by (simp add: sys_inv_def)
  show ?thesis using read_cases(1,2) [OF ok sys_check(3)] sys_check reg_idle by simp
next
  case (sys_complete p c input r s fresh s' r')
  have ok: "ok s" using assms(1) sys_complete by (simp add: sys_inv_def)
  show ?thesis using read_cases(1,2) [OF ok sys_complete(4)] sys_complete reg_idle by simp
next
  case (sys_commit p c scope operationId r r' s res s')
  have ok: "ok s" and "null_or (pending_ok engine verify (view s)) (p c)"
    using assms(1) by (simp_all add: sys_inv_def sys_commit(1))
  then have "pending_ok engine verify (view s) (PendingCommit scope operationId r r')"
    by (simp only: sys_commit(3) null_or_simps)
  from commit_step [OF ok this sys_commit(4)] show ?thesis by (simp add: sys_commit(1,2))
next
  case (sys_abandon s p c)
  then show ?thesis using assms(1) reg_idle by (simp add: sys_inv_def)
qed

text \<open>The pending work of a client after a step.\<close>

lemma step_pending:
  assumes "sys_inv verify (s, p)" and "sys_step store engine verify (s, p) (s', p')"
  shows "p' = p \<or> (\<exists>c. p' = p(c := None)) \<or> (view s' = view s \<and>
    (\<exists>c q. p' = p(c := Some q) \<and> pending_ok engine verify (view s) q))"
  using assms(2)
proof cases
  case (sys_plan scope operationId r at cmd r' c)
  have ok: "ok s" using assms(1) by (simp add: sys_inv_def)
  note look = read_SomeD [OF ok sys_plan(2)]
  have "op_step engine verify r r'" using op_stepI [OF sys_plan(3) accepted_other [OF sys_plan(4)] sys_plan(5)] .
  then have "pending_ok engine verify (view s) (PendingCommit scope operationId r r')"
    using look seen_read [OF look] lookup_SomeD [OF look] by simp
  then show ?thesis using sys_plan read_cases(2) [OF ok sys_plan(2)] by blast
next
  case (sys_check input r c)
  have ok: "ok s" using assms(1) by (simp add: sys_inv_def)
  note look = read_SomeD [OF ok sys_check(2)]
  have "pending_ok engine verify (view s) (PendingComplete input r)" using seen_read [OF look] sys_check by simp
  then show ?thesis using sys_check read_cases(2) [OF ok sys_check(2)] by blast
next
  case (sys_complete c input r fresh r')
  have ok: "ok s" and "null_or (pending_ok engine verify (view s)) (p c)"
    using assms(1) by (simp_all add: sys_inv_def)
  note look = read_SomeD [OF ok sys_complete(3)]
  let ?cmd = "CmdComplete (ci_receipt input) (ci_gateway_result_digest input) (op_version r)"
  have pend: "seen (view s) (recordKey (ci_scope input) (ci_operation_id input)) r"
    "receipt_check engine verify input r = None"
    using \<open>null_or _ _\<close> sys_complete(2) by simp_all
  have plan: "plan_change engine (ci_at input) (command_change engine (ci_at input) ?cmd) fresh = Inr r'"
    using sys_complete by simp
  obtain t where "op_change engine (ci_at input) (toISOString t) ?cmd fresh r'"
    using plan_change_InrD [OF plan] by blast
  then have "op_version fresh = op_version r" by cases simp_all
  then have "fresh = r" using pend(1) look by (simp add: seen_def)
  then have "op_step engine verify fresh r'"
    using op_stepI [OF sys_complete(4) receipt_check_accepted [OF pend(2)] plan [unfolded \<open>fresh = r\<close>]] by simp
  then have "pending_ok engine verify (view s)
      (PendingCommit (ci_scope input) (ci_operation_id input) fresh r')"
    using look seen_read [OF look] lookup_SomeD [OF look] by simp
  then show ?thesis using sys_complete read_cases(2) [OF ok sys_complete(3)] by blast
qed auto

lemma sys_inv_step:
  assumes "sys_inv verify \<sigma>" and "sys_step store engine verify \<sigma> \<sigma>'"
  shows "sys_inv verify \<sigma>'"
proof -
  obtain s p s' p' where \<sigma>: "\<sigma> = (s, p)" "\<sigma>' = (s', p')" by (cases \<sigma>; cases \<sigma>')
  have inv: "ok s" "records_reachable engine verify (view s)"
    "null_or (pending_ok engine verify (view s)) (p c)" for c
    using assms(1) by (simp_all add: sys_inv_def \<sigma>)
  have step: "ok s'" "registry_step engine verify (view s) (view s')"
    using step_refines [OF assms] by (simp_all add: \<sigma>)
  have dist: "distinct (map own_key (view s))" using view_ok [OF inv(1)] by (simp add: records_ok_def)
  have keep: "pending_ok engine verify (view s') q" if "pending_ok engine verify (view s) q" for q
    using pending_ok_mono [OF that] registry_step_seen [OF step(2) dist] by blast
  have "null_or (pending_ok engine verify (view s')) (p' c)" for c
    using step_pending [OF assms [unfolded \<sigma>]] inv(3) [of c] keep
    by (auto simp: null_or_def split: option.splits if_splits)
  then show ?thesis using step registry_step_reachable [OF step(2) inv(2)] by (simp add: sys_inv_def \<sigma>)
qed

lemma sys_reachable_inv:
  assumes "sys_reachable store engine verify start \<sigma>" and "ok start" and "view start = []"
  shows "sys_inv verify \<sigma>"
  using assms(1)
proof (induction rule: sys_reachable.induct)
  case sys_start
  then show ?case using assms(2,3) by (simp add: sys_inv_def records_reachable_def)
next
  case (sys_next \<sigma> \<sigma>')
  then show ?case using sys_inv_step by blast
qed

text \<open>The interleaved system refines the registry.\<close>

lemma system_refines:
  assumes "sys_reachable store engine verify start \<sigma>" and "ok start" and "view start = []"
    and "sys_step store engine verify \<sigma> \<sigma>'"
  shows "registry_step engine verify (view (fst \<sigma>)) (view (fst \<sigma>'))"
  using step_refines [OF sys_reachable_inv [OF assms(1-3)] assms(4)] by simp

lemma system_records:
  assumes "sys_reachable store engine verify start \<sigma>" and "ok start" and "view start = []"
    and "r \<in> set (view (fst \<sigma>))"
  shows "op_reachable engine verify r"
  using sys_reachable_inv [OF assms(1-3)] assms(4) by (simp add: sys_inv_def records_reachable_def)

end

end
