(* ===== verification/Operation_Sample.thy ===== *)
theory Operation_Sample
  imports Operation_System
begin

text \<open>
  A concrete operation: an input the coordinator accepts, a verifier and a receipt, and its way to
  the completed state.
\<close>

definition sample_digest :: jstr where
  "sample_digest = js ''sha256:0123456789abcdef0123456789abcdef0123456789abcdef0123456789abcdef''"

definition sample_input :: prepare_input where
  "sample_input = \<lparr>op_tenant_id = js ''tenant-a'', op_project_id = js ''project-1'',
     pi_operation_id = js ''op_deploy_0001'', pi_canonical_packet_digest = sample_digest,
     pi_tool_argument_digest = sample_digest, pi_authorization_id = js ''auth-1'',
     pi_authorization_expires_at = Some 1767326645000, pi_idempotency_key = js ''idem_deploy_0001'',
     pi_requester_identity = js ''identity:agent:a1'', pi_workload_identity = None,
     pi_adapter_identity = js ''adapter:k8s'', pi_remote_identity = js ''remote:cluster'',
     pi_protocol = js ''mcp'', pi_protocol_version = js ''1.0'', pi_requested_at = Some 1767323045000,
     pi_mcp_task_id = None, pi_a2a_task_id = None, pi_a2a_context_id = None, pi_a2a_message_id = None,
     pi_trace_id = None\<rparr>"

definition sample_scope :: operation_scope where
  "sample_scope = \<lparr>op_tenant_id = js ''tenant-a'', op_project_id = js ''project-1''\<rparr>"

definition sample_receipt :: operation_receipt where
  "sample_receipt = \<lparr>rc_receipt_id = js ''receipt-1'', rc_operation_id = js ''op_deploy_0001'',
     rc_authorization_id = js ''auth-1'', rc_canonical_packet_digest = sample_digest,
     rc_tool_argument_digest = sample_digest, rc_status = ReceiptCompleted,
     rc_result_digest = sample_digest, rc_received_at = toISOString 1767323045000\<rparr>"

definition sample_verify :: "operation_receipt \<Rightarrow> operation_record \<Rightarrow> bool option" where
  "sample_verify receipt r = Some (rc_receipt_id receipt = js ''receipt-1'')"

lemma sample_patterns:
  "isDigest sample_digest" "safeId (js ''op_deploy_0001'') operationIdPattern"
  "safeId (js ''idem_deploy_0001'') operationIdempotencyPattern"
  by (simp_all add: isDigest_def sample_digest_def safeId_def operationIdPattern_def
      operationIdempotencyPattern_def js_eval)

lemma sample_labels:
  "safeLabel (js ''tenant-a'') 128" "safeLabel (js ''project-1'') 128" "safeLabel (js ''auth-1'') 256"
  "safeLabel (js ''identity:agent:a1'') 512" "safeLabel (js ''adapter:k8s'') 256"
  "safeLabel (js ''remote:cluster'') 512" "safeLabel (js ''mcp'') 64" "safeLabel (js ''1.0'') 64"
  "safeLabel (js ''receipt-1'') 256"
  by (rule literal_label; simp)+

lemma sample_times: "time_clipped 1767323045000" "time_clipped 1767326645000"
  by (simp_all add: time_clipped_def)

lemma sample_input_valid: "isValidPrepareInput sample_input"
  by (simp add: isValidPrepareInput_def sample_input_def isValidScope_def sample_patterns sample_labels)

lemma sample_dates: "date_ok (pi_requested_at sample_input)" "date_ok (pi_authorization_expires_at sample_input)"
  by (simp_all add: date_ok_def sample_input_def sample_times)

lemma sample_scope_valid: "isValidScope sample_scope"
  by (simp add: isValidScope_def sample_scope_def sample_labels)

lemma sample_receipt_valid: "isValidReceipt engine sample_receipt"
  by (simp add: isValidReceipt_def sample_receipt_def sample_patterns sample_labels
      validIso_toISOString sample_times)

abbreviation sample_first :: operation_record where
  "sample_first \<equiv> initialRecord sample_input"

lemma sample_key: "own_key sample_first = recordKey sample_scope (js ''op_deploy_0001'')"
  by (simp add: own_key_def recordKey_def initialRecord_def sample_input_def sample_scope_def Let_def)

lemma sample_first_reachable: "op_reachable engine verify sample_first"
  by (rule reach_prepare [OF sample_input_valid sample_dates])

section \<open>Enabled changes go through\<close>

lemma enabled_step:
  assumes "op_reachable engine verify r" and "op_change engine (Some t) (toISOString t) cmd r r'"
    and "time_clipped t" and "\<not> num_lt (Some t) (last_time engine r)" and "op_version r < max_safe_integer"
    and "receipt_accepted engine verify cmd r" and "op_state r \<noteq> Orphaned \<or> op_state r' \<noteq> Orphaned"
  shows "plan_change engine (Some t) (command_change engine (Some t) cmd) r = Inr r'"
    and "op_step engine verify r r'"
proof -
  have valid: "isValidOperationRecord engine r'"
    by (rule reachable_change_valid [OF reachable_invariant [OF assms(1)] assms(2-7)])
  then show plan: "plan_change engine (Some t) (command_change engine (Some t) cmd) r = Inr r'"
    using assms(2,4) by (simp add: plan_change_def command_change_iff [symmetric] last_time_def)
  show "op_step engine verify r r'"
    using op_stepI [OF _ assms(6) plan] assms(3) by (simp add: date_ok_def)
qed

text \<open>The sample operation authorized, dispatched and completed, all at its time of request.\<close>

abbreviation sample_iso :: jstr where
  "sample_iso \<equiv> toISOString 1767323045000"

definition sample_authorized :: operation_record where
  "sample_authorized = nextRecord sample_first Authorized sample_iso ''authorization_valid'' id"

definition sample_dispatched :: operation_record where
  "sample_dispatched = nextRecord sample_authorized Dispatching sample_iso ''dispatch_started''
     (dispatched sample_iso)"

definition sample_completed :: operation_record where
  "sample_completed = nextRecord sample_dispatched Completed sample_iso ''gateway_receipt_verified''
     (finished sample_iso sample_receipt sample_digest)"

lemmas sample_records = sample_completed_def sample_dispatched_def sample_authorized_def

lemma sample_first_simps:
  "op_state sample_first = Prepared" "op_version sample_first = 1"
  "op_authorization_expires_at sample_first = toISOString 1767326645000"
  "op_transitions sample_first = [\<lparr>tr_sequence = 1, tr_from = None, tr_to = Prepared, tr_at = sample_iso,
     tr_reason = js ''operation_prepared''\<rparr>]"
  by (simp_all add: initialRecord_def Let_def sample_input_def date_text_def)

lemma sample_last_time:
  "last_time engine sample_first = Some 1767323045000" "last_time engine sample_authorized = Some 1767323045000"
  "last_time engine sample_dispatched = Some 1767323045000"
  by (simp_all add: last_time_def sample_first_simps sample_records Date_parse_toISOString sample_times)

lemma sample_version_bound: "op_version sample_first < max_safe_integer" "op_version sample_authorized < max_safe_integer"
  "op_version sample_dispatched < max_safe_integer"
  using sample_first_simps(2) by (simp_all add: sample_records max_safe_integer_def)

lemma sample_states: "op_state sample_authorized = Authorized" "op_state sample_dispatched = Dispatching"
  "op_state sample_completed = Completed"
  "op_authorization_expires_at sample_authorized = toISOString 1767326645000"
  by (simp_all add: sample_records) (simp add: nextRecord_def sample_first_simps)

abbreviation sample_at :: js_date where
  "sample_at \<equiv> Some 1767323045000"

abbreviation sample_completion :: op_command where
  "sample_completion \<equiv> CmdComplete sample_receipt sample_digest (op_version sample_dispatched)"

lemma sample_receipt_simps: "rc_status sample_receipt = ReceiptCompleted"
  "rc_result_digest sample_receipt = sample_digest" "rc_receipt_id sample_receipt = js ''receipt-1''"
  by (simp_all add: sample_receipt_def)

lemma sample_changes:
  "op_change engine sample_at sample_iso CmdAuthorize sample_first sample_authorized"
  "op_change engine sample_at sample_iso CmdDispatch sample_authorized sample_dispatched"
  "op_change engine sample_at sample_iso sample_completion sample_dispatched sample_completed"
proof -
  show "op_change engine sample_at sample_iso CmdAuthorize sample_first sample_authorized"
    unfolding sample_authorized_def by (rule ch_authorize [OF sample_first_simps(1)])
  show "op_change engine sample_at sample_iso CmdDispatch sample_authorized sample_dispatched"
    unfolding sample_dispatched_def
    by (rule ch_dispatch) (simp_all add: sample_states Date_parse_toISOString sample_times)
  have "op_change engine sample_at sample_iso sample_completion sample_dispatched
      (nextRecord sample_dispatched (if rc_status sample_receipt = ReceiptCompleted then Completed else Failed)
        sample_iso ''gateway_receipt_verified'' (finished sample_iso sample_receipt sample_digest))"
    by (rule ch_executed) (simp_all add: sample_states in_flight_def sample_receipt_simps)
  then show "op_change engine sample_at sample_iso sample_completion sample_dispatched sample_completed"
    by (simp add: sample_receipt_simps sample_completed_def)
qed

lemma sample_in_time:
  "\<not> num_lt sample_at (last_time engine sample_first)" "\<not> num_lt sample_at (last_time engine sample_authorized)"
  "\<not> num_lt sample_at (last_time engine sample_dispatched)"
  by (simp_all add: sample_last_time)

lemma sample_not_orphaned:
  "op_state sample_first \<noteq> Orphaned \<or> op_state sample_authorized \<noteq> Orphaned"
  "op_state sample_authorized \<noteq> Orphaned \<or> op_state sample_dispatched \<noteq> Orphaned"
  "op_state sample_dispatched \<noteq> Orphaned \<or> op_state sample_completed \<noteq> Orphaned"
  by (simp_all add: sample_states)

lemma sample_receipt_matches: "receiptMatches sample_receipt sample_dispatched"
  by (simp add: receiptMatches_def sample_receipt_def sample_records nextRecord_def dispatched_def
      initialRecord_def Let_def sample_input_def)

lemma sample_accepted:
  "receipt_accepted engine verify CmdAuthorize r" "receipt_accepted engine verify CmdDispatch r"
  "receipt_accepted engine sample_verify sample_completion sample_dispatched"
  by (simp_all add: receipt_accepted_def sample_receipt_valid sample_patterns sample_receipt_simps
      sample_receipt_matches sample_verify_def)

lemmas sample_authorize = enabled_step [OF sample_first_reachable sample_changes(1) sample_times(1)
  sample_in_time(1) sample_version_bound(1) sample_accepted(1) sample_not_orphaned(1)]

lemmas sample_authorized_reachable = reach_step [OF sample_first_reachable sample_authorize(2)]

lemmas sample_dispatch = enabled_step [OF sample_authorized_reachable sample_changes(2) sample_times(1)
  sample_in_time(2) sample_version_bound(2) sample_accepted(2) sample_not_orphaned(2)]

lemmas sample_dispatched_reachable = reach_step [OF sample_authorized_reachable sample_dispatch(2)]

lemmas sample_complete = enabled_step [OF sample_dispatched_reachable sample_changes(3) sample_times(1)
  sample_in_time(3) sample_version_bound(3) sample_accepted(3) sample_not_orphaned(3)]

lemma sample_completed_reachable: "op_reachable engine sample_verify sample_completed"
  by (rule reach_step [OF sample_dispatched_reachable sample_complete(2)])

text \<open>The call that completes the sample operation.\<close>

definition sample_completion_input :: completion_input where
  "sample_completion_input = \<lparr>ci_scope = sample_scope, ci_operation_id = js ''op_deploy_0001'',
     ci_at = sample_at, ci_requested_digest = sample_digest, ci_approved_digest = sample_digest,
     ci_authorized_digest = sample_digest, ci_executed_digest = sample_digest,
     ci_tool_argument_digest = sample_digest, ci_gateway_result_digest = sample_digest,
     ci_receipt = sample_receipt\<rparr>"

lemma sample_dispatched_identity:
  "op_canonical_packet_digest sample_dispatched = sample_digest"
  "op_tool_argument_digest sample_dispatched = sample_digest" "op_requested_at sample_dispatched = sample_iso"
  by (simp_all add: sample_records nextRecord_def dispatched_def initialRecord_def Let_def sample_input_def
      date_text_def)

lemma sample_check: "receipt_check engine sample_verify sample_completion_input sample_dispatched = None"
  by (simp add: receipt_check_def sample_completion_input_def sample_receipt_valid sample_patterns
      sample_receipt_simps sample_dispatched_identity sample_receipt_matches sample_verify_def sample_states)
    (simp add: sample_receipt_def Date_parse_toISOString sample_times)

end
