(* ===== verification/Operation_Properties.thy ===== *)
theory Operation_Properties
  imports Operation_Sample
begin

text \<open>
  The properties of the gateway's operations, on the JSON file store with arbitrary input/output
  faults and arbitrarily interleaved calls.
\<close>

section \<open>Vocabulary\<close>

definition empty_file :: "io_fault list \<Rightarrow> json_file_state" where
  "empty_file faults = \<lparr>jf_text = None, jf_faults = faults\<rparr>"

text \<open>Between two dispatches of one operation lies a transition for a verified non-execution.\<close>

definition receipt_between_dispatches :: "operation_transition list \<Rightarrow> bool" where
  "receipt_between_dispatches ts \<longleftrightarrow> (\<forall>i j. i < j \<and> j < length ts \<and> tr_to (ts ! i) = Dispatching
     \<and> tr_to (ts ! j) = Dispatching \<longrightarrow> (\<exists>k. i < k \<and> k < j \<and> tr_reason (ts ! k) = non_execution))"

lemma empty_file_ok [simp]: "json_store_ok rt engine (empty_file faults)" "json_view rt engine (empty_file faults) = []"
  "jf_text (empty_file faults) = None" "jf_faults (empty_file faults) = faults"
  by (simp_all add: empty_file_def json_store_ok_def json_view_def)

abbreviation file_system where
  "file_system rt engine verify faults \<equiv>
     sys_reachable (JsonFileGatewayOperationStore rt engine) engine verify (empty_file faults)"

lemmas file_system_facts = json_store.sys_reachable_inv [OF _ empty_file_ok(1,2)]
  json_store.system_refines [OF _ empty_file_ok(1,2)] json_store.system_records [OF _ empty_file_ok(1,2)]

section \<open>The sample in the file store\<close>

definition sample_prepared where
  "sample_prepared rt engine faults =
     prepare (JsonFileGatewayOperationStore rt engine) sample_input (empty_file faults)"

lemma records_ok_sample: "records_ok engine [sample_first]"
  using initial_valid [OF sample_input_valid sample_dates] by (simp add: records_ok_def)

lemma sample_prepared_view:
  "json_view rt engine (snd (sample_prepared rt engine [])) = [sample_first]"
  "json_store_ok rt engine (snd (sample_prepared rt engine []))"
  "fst (sample_prepared rt engine []) = success sample_first False"
  using saved_state [OF records_ok_sample, where s = "empty_file []"]
  by (simp_all add: sample_prepared_def prepare_def sample_input_valid JsonFileGatewayOperationStore_def
      jsonFile_prepare_def next_fault_def jsonFile_load_def jsonFile_save_def)

lemma sample_prepared_quiet: "quiet (snd (sample_prepared rt engine []))"
  by (simp add: sample_prepared_def prepare_def sample_input_valid JsonFileGatewayOperationStore_def
      jsonFile_prepare_def next_fault_def jsonFile_load_def jsonFile_save_def quiet_def)

lemma sample_prepared_step:
  "sys_step (JsonFileGatewayOperationStore rt engine) engine verify
     (empty_file [], p) (snd (sample_prepared rt engine []), p)"
  by (rule sys_prepare [OF sample_dates, of _ _ "fst (sample_prepared rt engine [])"])
    (simp add: sample_prepared_def)

text \<open>A state of the system that holds just one record, at rest.\<close>

definition holds :: "'a js_runtime_scheme \<Rightarrow> (jstr \<Rightarrow> int option) \<Rightarrow> (operation_receipt \<Rightarrow> operation_record \<Rightarrow> bool option) \<Rightarrow>
    operation_record \<Rightarrow> json_file_state \<Rightarrow> bool" where
  "holds rt engine verify r s \<longleftrightarrow> file_system rt engine verify [] (s, \<lambda>_. None) \<and> quiet s
     \<and> json_view rt engine s = [r] \<and> own_key r = recordKey sample_scope (js ''op_deploy_0001'')"

lemma holds_first: "holds rt engine verify sample_first (snd (sample_prepared rt engine []))"
  using sys_next [OF sys_start sample_prepared_step]
  by (simp add: holds_def sample_prepared_view sample_prepared_quiet sample_key)

lemma holds_ok: "holds rt engine verify r s \<Longrightarrow> json_store_ok rt engine s"
  using file_system_facts(1) [of rt engine verify "[]" "(s, \<lambda>_. None)"]
  by (simp add: holds_def json_store.sys_inv_def)

lemma holds_read:
  assumes "holds rt engine verify r s"
  obtains s1 where "coordinator_read (JsonFileGatewayOperationStore rt engine) engine sample_scope
      (js ''op_deploy_0001'') s = (Inr r, s1)"
    and "json_store_ok rt engine s1" "quiet s1" "json_view rt engine s1 = [r]"
proof -
  let ?st = "JsonFileGatewayOperationStore rt engine"
  obtain rr s1 where rr: "coordinator_read ?st engine sample_scope (js ''op_deploy_0001'') s = (rr, s1)"
    by (cases "coordinator_read ?st engine sample_scope (js ''op_deploy_0001'') s")
  have quiet: "quiet s" using assms by (simp add: holds_def)
  note calm = json_reliable.read_calm [OF holds_ok [OF assms] quiet rr]
  note read = json_store.read_cases [OF holds_ok [OF assms] rr]
  have "rr = Inr r"
    using calm(2) read(3) assms by (simp add: sample_scope_valid sample_patterns holds_def lookup_def)
  then show ?thesis using that rr calm(1) read(1,2) assms by (simp add: holds_def)
qed

text \<open>A pending change of the one record is committed.\<close>

lemma holds_commit:
  assumes "file_system rt engine verify [] (s, (\<lambda>_. None)(0 := Some (PendingCommit sample_scope (js ''op_deploy_0001'') r r')))"
    and "quiet s" and "json_store_ok rt engine s" and "json_view rt engine s = [r]"
    and "own_key r = recordKey sample_scope (js ''op_deploy_0001'')" and "op_step engine verify r r'"
  shows "\<exists>s'. holds rt engine verify r' s'"
proof -
  let ?st = "JsonFileGatewayOperationStore rt engine"
  obtain res s' where c: "coordinator_commit ?st sample_scope (js ''op_deploy_0001'') (op_version r) r' s = (res, s')"
    by (cases "coordinator_commit ?st sample_scope (js ''op_deploy_0001'') (op_version r) r' s")
  note facts = op_step_facts [OF assms(6)]
  have key: "own_key r' = recordKey sample_scope (js ''op_deploy_0001'')" using facts(2) assms(5) by simp
  have "null_or (\<lambda>e. operationIdempotencyKey e = operationIdempotencyKey r') (lookup (own_key r') (json_view rt engine s))"
    using assms(4) facts(2,3) by (simp add: lookup_def)
  note law = json_store.commit_law [OF assms(3) facts(1) key this c]
  note calm = json_reliable.commit_calm [OF assms(3,2) c]
  have "json_view rt engine s' = [r']"
    using law(2) calm(2) assms(4) facts(2) by (auto simp: spec_cas_def lookup_def replace_def)
  moreover have "file_system rt engine verify [] (s', \<lambda>_. None)"
    using sys_next [OF assms(1) sys_commit [where c = 0, OF _ c]] by (simp add: fun_upd_idem)
  ultimately show ?thesis using calm(1) key by (auto simp: holds_def)
qed

lemma holds_command:
  assumes "holds rt engine verify r s" and "date_ok at" and "\<not> is_complete cmd"
    and "plan_change engine at (command_change engine at cmd) r = Inr r'"
  shows "\<exists>s'. holds rt engine verify r' s'"
proof -
  obtain s1 where s1: "coordinator_read (JsonFileGatewayOperationStore rt engine) engine sample_scope
      (js ''op_deploy_0001'') s = (Inr r, s1)" "json_store_ok rt engine s1" "quiet s1" "json_view rt engine s1 = [r]"
    using holds_read [OF assms(1)] .
  have step: "op_step engine verify r r'"
    by (rule op_stepI [OF assms(2) accepted_other [OF assms(3)] assms(4)])
  show ?thesis
    using holds_commit [OF sys_next [OF _ sys_plan [OF s1(1) assms(2-4)]] s1(3,2,4) _ step] assms(1)
    by (simp add: holds_def)
qed

lemma holds_complete:
  assumes "holds rt engine verify r s" and "ci_scope input = sample_scope"
    and "ci_operation_id input = js ''op_deploy_0001''" and "receipt_check engine verify input r = None"
    and "date_ok (ci_at input)" and "plan_change engine (ci_at input) (complete_change engine (ci_at input)
      (ci_receipt input) (ci_gateway_result_digest input) (op_version r)) r = Inr r'"
  shows "\<exists>s'. holds rt engine verify r' s'"
proof -
  let ?st = "JsonFileGatewayOperationStore rt engine" and ?p = "\<lambda>_. None :: pending option"
  obtain s1 where s1: "coordinator_read ?st engine sample_scope (js ''op_deploy_0001'') s = (Inr r, s1)"
    "json_store_ok rt engine s1" "quiet s1" "json_view rt engine s1 = [r]"
    using holds_read [OF assms(1)] .
  have sys: "file_system rt engine verify [] (s, ?p)" and key: "own_key r = recordKey sample_scope (js ''op_deploy_0001'')"
    using assms(1) by (simp_all add: holds_def)
  have "holds rt engine verify r s1"
    using sys_next [OF sys sys_read [OF s1(1)]] s1 key by (simp add: holds_def)
  then obtain s2 where s2: "coordinator_read ?st engine sample_scope (js ''op_deploy_0001'') s1 = (Inr r, s2)"
    "json_store_ok rt engine s2" "quiet s2" "json_view rt engine s2 = [r]"
    using holds_read by blast
  have checked: "file_system rt engine verify [] (s1, ?p(0 := Some (PendingComplete input r)))"
    using sys_next [OF sys sys_check [OF _ assms(4)]] s1(1) by (simp add: assms(2,3))
  have "file_system rt engine verify [] (s2, ?p(0 := Some (PendingCommit sample_scope (js ''op_deploy_0001'') r r')))"
    using sys_next [OF checked sys_complete [where c = 0, OF _ _ assms(5,6)]] s2(1) by (simp add: assms(2,3))
  moreover have "op_step engine verify r r'"
    by (rule op_stepI [OF assms(5) receipt_check_accepted [OF assms(4)]]) (use assms(6) in simp)
  ultimately show ?thesis using holds_commit s2 key by blast
qed

lemma holds_authorized: "\<exists>s. holds rt engine verify sample_authorized s"
  using holds_command [OF holds_first _ _ sample_authorize(1)] by (simp add: date_ok_def sample_times)

lemma holds_dispatched: "\<exists>s. holds rt engine verify sample_dispatched s"
proof -
  obtain s where "holds rt engine verify sample_authorized s" using holds_authorized by blast
  from holds_command [OF this _ _ sample_dispatch(1)] show ?thesis by (simp add: date_ok_def sample_times)
qed

lemma holds_completed: "\<exists>s. holds rt engine sample_verify sample_completed s"
proof -
  obtain s where "holds rt engine sample_verify sample_dispatched s" using holds_dispatched by blast
  from holds_complete [OF this _ _ sample_check] sample_complete(1) [of engine] show ?thesis
    by (simp add: sample_completion_input_def date_ok_def sample_times)
qed

section \<open>Scopes\<close>

lemma label_no_nul: "safeLabel v n \<Longrightarrow> 0 \<notin> set v"
  by (force simp: safeLabel_def some_in_class_def cc_control_def in_class_def list_ex_iff code_units_def)

lemma append_nul_inject: "0 \<notin> set a \<Longrightarrow> 0 \<notin> set c \<Longrightarrow> a @ 0 # b = c @ 0 # d \<longleftrightarrow> a = c \<and> b = d"
  by (induction a arbitrary: c) (case_tac c; auto)+

lemma recordKey_inject:
  assumes "isValidScope a" and "isValidScope b" and "recordKey a x = recordKey b y"
  shows "op_tenant_id a = op_tenant_id b \<and> op_project_id a = op_project_id b \<and> x = y"
  using assms label_no_nul by (auto simp: recordKey_def isValidScope_def append_nul_inject)

lemma replace_other_scope:
  assumes "list_all (isValidOperationRecord engine) rs" and "isValidScope scope" and "own_key r' = recordKey scope operationId"
    and "other \<noteq> scope" and "in_scope scope r'"
  shows "filter (in_scope other) (replace r' rs) = filter (in_scope other) rs"
  using assms(1)
proof (induction rs)
  case (Cons c rs)
  have "\<not> in_scope other r'" using assms(4,5) by (auto simp: in_scope_def)
  moreover have "\<not> in_scope other c" if "own_key c = own_key r'"
    using recordKey_inject [of c scope] that assms(2-4) Cons.prems
    by (auto simp: own_key_def isValidOperationRecord_def record_fields_ok_def in_scope_def)
  ultimately show ?case using Cons by (simp add: replace_def)
qed (simp add: replace_def)

fun call_scope :: "op_call \<Rightarrow> operation_scope" where
  "call_scope (CallPrepare input) = \<lparr>op_tenant_id = op_tenant_id input, op_project_id = op_project_id input\<rparr>"
| "call_scope (CallCommand scope operationId at cmd) = scope"
| "call_scope (CallComplete input) = ci_scope input"
| "call_scope (CallList scope) = scope"

lemma mutate_other_scope:
  assumes "list_all (isValidOperationRecord engine) rs" and "keeps_identity m" and "other \<noteq> scope"
  shows "filter (in_scope other) (snd (spec_mutate engine scope operationId at m rs)) = filter (in_scope other) rs"
proof (cases "isValidScope scope \<and> (\<exists>r r'. lookup (recordKey scope operationId) rs = Some r
      \<and> plan_change engine at m r = Inr r')")
  case True
  then obtain r r' where r: "isValidScope scope" "lookup (recordKey scope operationId) rs = Some r"
    "plan_change engine at m r = Inr r'" by blast
  note facts = plan_change_facts [OF r(3) assms(2)]
  have mem: "r \<in> set rs" "own_key r = recordKey scope operationId" using lookup_SomeD [OF r(2)] by simp_all
  have "isValidScope r" using mem assms(1)
    by (auto simp: list_all_iff isValidOperationRecord_def record_fields_ok_def)
  then have "in_scope scope r" using recordKey_inject [OF _ r(1)] mem(2) by (auto simp: own_key_def in_scope_def)
  then show ?thesis
    using replace_other_scope [OF assms(1) r(1), of r' operationId other] facts(2,4) mem(2) assms(3) r
    by (simp add: spec_mutate_def)
next
  case False
  then show ?thesis by (auto simp: spec_mutate_def split: option.splits sum.splits)
qed

lemma perform_other_scope:
  assumes "list_all (isValidOperationRecord engine) rs" and "other \<noteq> call_scope call"
  shows "filter (in_scope other) (snd (spec_perform engine verify call rs)) = filter (in_scope other) rs"
proof (cases call)
  case (CallPrepare input)
  then have "\<not> in_scope other (initialRecord input)"
    using assms(2) by (auto simp: in_scope_def initialRecord_def Let_def)
  then show ?thesis by (simp add: CallPrepare spec_prepare_def split: option.splits)
next
  case (CallCommand scope operationId at cmd)
  then show ?thesis using mutate_other_scope [OF assms(1) command_keeps_identity] assms(2) by simp
next
  case (CallComplete input)
  then show ?thesis using mutate_other_scope [OF assms(1) complete_keeps_identity] assms(2)
    by (simp add: spec_complete_def split: option.splits)
qed simp

section \<open>A corrupted file\<close>

text \<open>What a call on a file that cannot be read meets: a failing read, or the error of the content.\<close>

definition load_error :: "store_error \<Rightarrow> json_file_state \<Rightarrow> store_error" where
  "load_error e s = (if fst (next_fault s) = ReadFault then StoreIO else e)"

lemma corrupted_load:
  assumes "jf_text s = Some content" and "parse_records rt engine content = Inl e" and "next_fault s = (fault, s1)"
  shows "jf_text s1 = Some content" and "jsonFile_load rt engine fault s1 = Inl (load_error e s)"
proof -
  show same: "jf_text s1 = Some content" using next_fault_text [OF assms(3)] assms(1) by simp
  show "jsonFile_load rt engine fault s1 = Inl (load_error e s)"
    using same assms(2,3) by (simp add: jsonFile_load_def load_error_def)
qed

lemma corrupted_read:
  assumes "jf_text s = Some content" and "parse_records rt engine content = Inl e"
    and "coordinator_read (JsonFileGatewayOperationStore rt engine) engine scope operationId s = (rr, s2)"
  shows "jf_text s2 = Some content"
    and "rr = Inl (if isValidScope scope \<and> safeId operationId operationIdPattern then storeFailure (load_error e s)
      else failure OP_invalid_input)"
proof -
  obtain fault s1 where s1: "next_fault s = (fault, s1)" by (cases "next_fault s")
  note load = corrupted_load [OF assms(1,2) s1]
  show "jf_text s2 = Some content"
    "rr = Inl (if isValidScope scope \<and> safeId operationId operationIdPattern then storeFailure (load_error e s)
      else failure OP_invalid_input)"
    using assms(1,3) load
    by (auto simp: coordinator_read_def JsonFileGatewayOperationStore_def jsonFile_read_def s1 split: if_splits)
qed

lemma corrupted_stops:
  assumes "jf_text s = Some content" and "parse_records rt engine content = Inl e"
  shows "coordinator_mutate (JsonFileGatewayOperationStore rt engine) engine scope operationId at m s = (res, s') \<Longrightarrow>
      jf_text s' = Some content \<and> res \<in> {storeFailure (load_error e s), failure OP_invalid_input}"
    and "completeWithGatewayReceipt (JsonFileGatewayOperationStore rt engine) engine verify input s = (res, s') \<Longrightarrow>
      jf_text s' = Some content \<and> res \<in> {storeFailure (load_error e s), failure OP_invalid_input}"
proof -
  let ?st = "JsonFileGatewayOperationStore rt engine"
  have stop: "\<exists>x s2. coordinator_read ?st engine scope operationId s = (Inl x, s2) \<and> jf_text s2 = Some content
      \<and> x \<in> {storeFailure (load_error e s), failure OP_invalid_input}"
    for scope operationId
    using corrupted_read [OF assms, of scope operationId]
    by (cases "coordinator_read ?st engine scope operationId s") auto
  show "jf_text s' = Some content \<and> res \<in> {storeFailure (load_error e s), failure OP_invalid_input}"
    if "coordinator_mutate ?st engine scope operationId at m s = (res, s')"
    using stop [of scope operationId] that by (auto simp: coordinator_mutate_def)
  show "jf_text s' = Some content \<and> res \<in> {storeFailure (load_error e s), failure OP_invalid_input}"
    if "completeWithGatewayReceipt ?st engine verify input s = (res, s')"
    using stop [of "ci_scope input" "ci_operation_id input"] that by (auto simp: completeWithGatewayReceipt_def)
qed

lemma transitions_ok_last_allowed:
  "transitions_ok engine st i prev l (ts @ [t]) \<Longrightarrow> ts \<noteq> [] \<Longrightarrow> isAllowedTransition (tr_to (last ts)) (tr_to t)"
proof (induction ts arbitrary: i prev l)
  case (Cons x xs)
  then show ?case by (cases "xs = []") (auto split: option.splits)
qed simp

lemma change_appends:
  assumes "op_change engine at isoAt cmd r r'"
  shows "\<exists>t. op_transitions r' = op_transitions r @ [t] \<and> tr_to t = op_state r'"
  using assms by cases simp_all

section \<open>Properties\<close>

text \<open>
  C1. Interleaved calls of the coordinator on the file store behave as a registry with atomic
  changes: whatever calls are in progress and whatever input/output faults occur, a step leaves the
  stored records as they are, or prepares an operation, or applies one change of the operation
  state machine to the record that is current at that moment. No update is lost.
\<close>

theorem interleaved_calls_refine_registry:
  assumes "file_system rt engine verify faults \<sigma>"
    and "sys_step (JsonFileGatewayOperationStore rt engine) engine verify \<sigma> \<sigma>'"
  shows "registry_step engine verify (json_view rt engine (fst \<sigma>)) (json_view rt engine (fst \<sigma>'))"
  by (rule file_system_facts(2) [OF assms])

theorem interleaved_calls_refine_registry_witness:
  "registry_step (\<lambda>_. None) sample_verify [] [sample_first]"
  using interleaved_calls_refine_registry [OF sys_start sample_prepared_step,
      where rt = sample_runtime and engine = "\<lambda>_. None" and verify = sample_verify]
  by (simp add: sample_prepared_view)

text \<open>
  C2. Every record in the store is valid, counts its dispatches in \<open>attempt_count\<close>, and between two
  dispatches of one operation there is always a transition for a verified receipt of
  non-execution: an operation whose outcome is unknown is never dispatched again.
\<close>

theorem no_blind_redispatch:
  assumes "file_system rt engine verify faults \<sigma>" and "r \<in> set (json_view rt engine (fst \<sigma>))"
  shows "isValidOperationRecord engine r \<and> op_attempt_count r = int (dispatch_count (op_transitions r))
    \<and> receipt_between_dispatches (op_transitions r)"
  using reachable_invariant [OF file_system_facts(3) [OF assms]]
  by (auto simp: op_invariant_def receipt_between_dispatches_def intro: single_flight_between)

theorem no_blind_redispatch_witness:
  "op_attempt_count sample_dispatched = 1 \<and> isValidOperationRecord (\<lambda>_. None) sample_dispatched"
proof -
  obtain s where "holds sample_runtime (\<lambda>_. None) sample_verify sample_dispatched s" using holds_dispatched by blast
  then show ?thesis
    using no_blind_redispatch [of sample_runtime "\<lambda>_. None" sample_verify "[]" "(s, \<lambda>_. None)" sample_dispatched]
    by (simp add: holds_def sample_dispatched_def sample_authorized_def sample_first_simps dispatch_count_def)
qed

text \<open>
  C8. An operation in the store is completed or failed only on a receipt that the verifier accepted
  for this operation, that names its operation, authorization, packet and arguments, whose status
  is the outcome and whose result digest is the recorded one; and every non-execution in its
  history was verified the same way.
\<close>

theorem outcomes_need_verified_receipts:
  assumes "file_system rt engine verify faults \<sigma>" and "r \<in> set (json_view rt engine (fst \<sigma>))"
  shows "evidence_ok verify r"
  by (rule reachable_evidence [OF file_system_facts(3) [OF assms]])

theorem outcomes_need_verified_receipts_witness:
  "\<exists>receipt. op_receipt sample_completed = Some receipt \<and> receipt_evidence sample_verify receipt sample_completed"
proof -
  obtain s where "holds sample_runtime (\<lambda>_. None) sample_verify sample_completed s" using holds_completed by blast
  then show ?thesis
    using outcomes_need_verified_receipts [of sample_runtime "\<lambda>_. None" sample_verify "[]" "(s, \<lambda>_. None)"
        sample_completed]
    by (auto simp: holds_def evidence_ok_def sample_states)
qed

text \<open>
  C18. A completed, failed or expired operation is final: no later step of the system, by whichever
  caller and in whichever order, changes or removes its record.
\<close>

theorem terminal_records_are_final:
  assumes "file_system rt engine verify faults \<sigma>"
    and "(sys_step (JsonFileGatewayOperationStore rt engine) engine verify)\<^sup>*\<^sup>* \<sigma> \<sigma>'"
    and "r \<in> set (json_view rt engine (fst \<sigma>))" and "op_state r \<in> {Completed, Failed, Expired}"
  shows "r \<in> set (json_view rt engine (fst \<sigma>'))"
  using assms(2)
proof (induction rule: rtranclp_induct)
  case (step \<sigma>1 \<sigma>2)
  have reach: "file_system rt engine verify faults \<sigma>1"
    using step.hyps(1) assms(1) by (induction rule: rtranclp_induct) (auto intro: sys_next)
  have ok: "json_store_ok rt engine (fst \<sigma>1)"
    using file_system_facts(1) [OF reach] by (simp add: json_store.sys_inv_def)
  have dist: "distinct (map own_key (json_view rt engine (fst \<sigma>1)))"
    using json_view_ok [OF ok] by (simp add: records_ok_def)
  from file_system_facts(2) [OF reach step.hyps(2)] show ?case
  proof cases
    case (reg_add input out)
    then have "json_view rt engine (fst \<sigma>2) = json_view rt engine (fst \<sigma>1)
        \<or> json_view rt engine (fst \<sigma>2) = json_view rt engine (fst \<sigma>1) @ [initialRecord input]"
      by (auto simp: spec_prepare_def split: option.splits)
    then show ?thesis using step.IH by auto
  next
    case (reg_change x x')
    obtain at cmd where plan: "plan_change engine at (command_change engine at cmd) x = Inr x'"
      using reg_change(3) by cases
    then have "op_state x \<notin> {Completed, Failed, Expired}"
      using plan_change_InrD terminal_no_change by blast
    then have "own_key r \<noteq> own_key x'"
      using assms(4) reg_change(2,4) step.IH lookup_member [OF dist] by (metis option.inject)
    then show ?thesis using step.IH reg_change by (force simp: replace_def)
  qed (use step.IH in simp)
qed (rule assms(3))

theorem terminal_records_are_final_witness:
  "\<exists>s. sample_completed \<in> set (json_view sample_runtime (\<lambda>_. None)
     (snd (prepare (JsonFileGatewayOperationStore sample_runtime (\<lambda>_. None)) sample_input s)))"
proof -
  obtain s where s: "holds sample_runtime (\<lambda>_. None) sample_verify sample_completed s" using holds_completed by blast
  let ?st = "JsonFileGatewayOperationStore sample_runtime (\<lambda>_. None)"
  let ?s' = "snd (prepare ?st sample_input s)"
  have "(sys_step ?st (\<lambda>_. None) sample_verify)\<^sup>*\<^sup>* (s, \<lambda>_. None) (?s', \<lambda>_. None)"
    by (intro r_into_rtranclp sys_prepare [OF sample_dates, of _ _ "fst (prepare ?st sample_input s)"]) simp
  then have "sample_completed \<in> set (json_view sample_runtime (\<lambda>_. None) ?s')"
    using terminal_records_are_final [of sample_runtime "\<lambda>_. None" sample_verify "[]" "(s, \<lambda>_. None)"
        "(?s', \<lambda>_. None)" sample_completed] s
    by (simp add: holds_def sample_states)
  then show ?thesis by blast
qed

text \<open>
  C19. Every call of the coordinator on the file store does to the records what its specification on
  a list of records says and returns its result, or answers that the store is unavailable, in which
  case the whole change has happened or nothing has.
\<close>

theorem calls_refine_specification:
  assumes "json_store_ok rt engine s" and "call_ok call"
    and "perform (JsonFileGatewayOperationStore rt engine) engine verify call s = (res, s')"
  shows "json_store_ok rt engine s' \<and>
    ((res, json_view rt engine s') = spec_perform engine verify call (json_view rt engine s)
     \<or> unavailable res \<and> (json_view rt engine s' = json_view rt engine s
         \<or> json_view rt engine s' = snd (spec_perform engine verify call (json_view rt engine s))))"
  by (rule json_store.perform_refines [OF assms])

theorem calls_refine_specification_witness:
  "json_view sample_runtime (\<lambda>_. None) (snd (perform (JsonFileGatewayOperationStore sample_runtime (\<lambda>_. None))
     (\<lambda>_. None) sample_verify (CallPrepare sample_input) (empty_file []))) \<in> {[], [sample_first]}"
proof -
  let ?st = "JsonFileGatewayOperationStore sample_runtime (\<lambda>_. None)"
  obtain res s' where r: "perform ?st (\<lambda>_. None) sample_verify (CallPrepare sample_input) (empty_file []) = (res, s')"
    by (cases "perform ?st (\<lambda>_. None) sample_verify (CallPrepare sample_input) (empty_file [])")
  from calls_refine_specification [OF empty_file_ok(1) _ r] r show ?thesis
    by (auto simp: sample_dates sample_input_valid spec_prepare_def)
qed

text \<open>
  C31. The two stores are interchangeable: any sequence of calls gives the same results on the
  in-memory store and on the file store, both starting empty, when no input/output fault occurs.
\<close>

theorem stores_agree:
  assumes "list_all call_ok calls"
  shows "fst (run_calls InMemoryGatewayOperationStore engine verify calls [])
    = fst (run_calls (JsonFileGatewayOperationStore rt engine) engine verify calls (empty_file []))"
  using memory_reliable.run_calls_exact [of engine "[]" calls verify]
    json_reliable.run_calls_exact [of rt engine "empty_file []" calls verify] assms
  by (simp add: memory_ok_def records_ok_def quiet_def)

theorem stores_agree_witness:
  "fst (run_calls InMemoryGatewayOperationStore (\<lambda>_. None) sample_verify
      [CallPrepare sample_input, CallCommand sample_scope (js ''op_deploy_0001'') sample_at CmdAuthorize] [])
    = fst (run_calls (JsonFileGatewayOperationStore sample_runtime (\<lambda>_. None)) (\<lambda>_. None) sample_verify
      [CallPrepare sample_input, CallCommand sample_scope (js ''op_deploy_0001'') sample_at CmdAuthorize]
      (empty_file []))"
proof (rule stores_agree)
  have "date_ok sample_at" by (simp add: date_ok_def sample_times)
  then show "list_all call_ok
      [CallPrepare sample_input, CallCommand sample_scope (js ''op_deploy_0001'') sample_at CmdAuthorize]"
    by (simp add: sample_dates)
qed

text \<open>
  C32. Preparing an operation whose id or idempotency key is already in the store never creates a
  second record: a request with the same identity gets the stored record, in whatever state it is
  by now, and any other request gets an idempotency collision; the records stay as they are.
\<close>

theorem prepare_is_idempotent:
  assumes "json_store_ok rt engine s" and "r \<in> set (json_view rt engine s)"
    and "isValidPrepareInput input" and "date_ok (pi_requested_at input)"
    and "date_ok (pi_authorization_expires_at input)"
    and "own_key r = own_key (initialRecord input)
      \<or> operationIdempotencyKey r = operationIdempotencyKey (initialRecord input)"
    and "prepare (JsonFileGatewayOperationStore rt engine) input s = (res, s')"
  shows "json_view rt engine s' = json_view rt engine s
    \<and> (res = failure OP_store_unavailable
       \<or> res = (if operationIdentityEqual r (initialRecord input) then success r True
                else failure OP_idempotency_collision))"
proof -
  let ?rs = "json_view rt engine s" and ?r = "initialRecord input"
  let ?hit = "\<lambda>c. own_key c = own_key ?r \<or> operationIdempotencyKey c = operationIdempotencyKey ?r"
  have dist: "distinct (map own_key ?rs)" "distinct (map operationIdempotencyKey ?rs)"
    using json_view_ok [OF assms(1)] by (simp_all add: records_ok_def)
  have "List.find ?hit ?rs \<noteq> None" using assms(2,6) by (auto simp only: find_None)
  then obtain e where e: "List.find ?hit ?rs = Some e" by blast
  then have "e \<in> set ?rs" "?hit e" by (auto simp: find_Some_iff intro: nth_mem)
  note same = conflict_outcome [OF dist this assms(2,6)]
  have "spec_prepare ?r ?rs = (if operationIdentityEqual r ?r then Replay r else Collision, ?rs)"
    using e same by (simp add: spec_prepare_def)
  then show ?thesis using json_store.prepare_refines [OF assms(1,3-5,7)] by (auto split: if_splits)
qed

theorem prepare_is_idempotent_witness:
  "fst (prepare (JsonFileGatewayOperationStore sample_runtime (\<lambda>_. None)) sample_input
      (snd (sample_prepared sample_runtime (\<lambda>_. None) [])))
    \<in> {failure OP_store_unavailable, success sample_first True}"
proof -
  let ?st = "JsonFileGatewayOperationStore sample_runtime (\<lambda>_. None)"
  let ?s = "snd (sample_prepared sample_runtime (\<lambda>_. None) [])"
  obtain res s' where r: "prepare ?st sample_input ?s = (res, s')" by (cases "prepare ?st sample_input ?s")
  from prepare_is_idempotent [OF sample_prepared_view(2) _ sample_input_valid sample_dates _ r, of sample_first] r
  show ?thesis by (auto simp: sample_prepared_view(1) operationIdentityEqual_def)
qed

text \<open>
  C33. Tenants and projects are isolated: what one scope lists is not affected by any call in
  another scope, whether that call succeeds, is refused or meets an input/output fault.
\<close>

theorem scopes_are_isolated:
  assumes "json_store_ok rt engine s" and "call_ok call" and "other \<noteq> call_scope call"
    and "list_operations (JsonFileGatewayOperationStore rt engine) other s = (Inr before, s1)"
    and "perform (JsonFileGatewayOperationStore rt engine) engine verify call s1 = (res, s2)"
    and "list_operations (JsonFileGatewayOperationStore rt engine) other s2 = (Inr after, s3)"
  shows "after = before"
proof -
  let ?v = "json_view rt engine"
  have l1: "json_store_ok rt engine s1" "?v s1 = ?v s" "before = filter (in_scope other) (?v s)"
    using json_store.list_law [OF assms(1)] assms(4) unfolding list_operations_def by fastforce+
  have call: "json_store_ok rt engine s2" "?v s2 = ?v s \<or> ?v s2 = snd (spec_perform engine verify call (?v s))"
    using json_store.perform_refines [OF l1(1) assms(2,5)] l1(2) by (metis snd_conv)+
  have l3: "after = filter (in_scope other) (?v s2)"
    using json_store.list_law [OF call(1)] assms(6) unfolding list_operations_def by fastforce
  have "list_all (isValidOperationRecord engine) (?v s)"
    using json_view_ok [OF assms(1)] by (simp add: records_ok_def)
  then show ?thesis using call(2) l1 l3 perform_other_scope [OF _ assms(3)] by auto
qed

theorem scopes_are_isolated_witness:
  "fst (list_operations (JsonFileGatewayOperationStore sample_runtime (\<lambda>_. None))
     (sample_scope\<lparr>op_tenant_id := js ''tenant-b''\<rparr>) (snd (sample_prepared sample_runtime (\<lambda>_. None) []))) = Inr []"
proof -
  let ?st = "JsonFileGatewayOperationStore sample_runtime (\<lambda>_. None)"
  let ?other = "sample_scope\<lparr>op_tenant_id := js ''tenant-b''\<rparr>"
  let ?s2 = "snd (sample_prepared sample_runtime (\<lambda>_. None) [])"
  have before: "list_operations ?st ?other (empty_file []) = (Inr [], empty_file [])"
    by (simp add: list_operations_def JsonFileGatewayOperationStore_def jsonFile_list_def next_fault_def
        jsonFile_load_def)
  have call: "perform ?st (\<lambda>_. None) sample_verify (CallPrepare sample_input) (empty_file [])
      = (Answer (success sample_first False), ?s2)"
    using sample_prepared_view(3) [of sample_runtime "\<lambda>_. None"]
    by (cases "sample_prepared sample_runtime (\<lambda>_. None) []") (simp add: sample_prepared_def)
  obtain x s3 where after: "list_operations ?st ?other ?s2 = (x, s3)" by (cases "list_operations ?st ?other ?s2")
  have "x \<noteq> Inl e" for e
    using after by (auto simp: list_operations_def JsonFileGatewayOperationStore_def jsonFile_list_def
        quiet_fault [OF sample_prepared_quiet] quiet_load [OF sample_prepared_view(2)])
  then obtain xs where "x = Inr xs" by (cases x) auto
  moreover have "?other \<noteq> call_scope (CallPrepare sample_input)"
    by (simp add: sample_scope_def sample_input_def js_def)
  ultimately show ?thesis
    using scopes_are_isolated [OF empty_file_ok(1) _ _ before call] after by (simp add: sample_dates)
qed

text \<open>
  C34. The file is a faithful copy of the records: reading the text the store writes gives exactly
  the records it was written from.
\<close>

theorem file_round_trip:
  assumes "records_ok engine rs"
  shows "parse_records rt engine (file_content rs) = Inr rs"
  by (rule parse_file_content [OF assms])

theorem file_round_trip_witness:
  "parse_records sample_runtime (\<lambda>_. None) (file_content [sample_first]) = Inr [sample_first]"
  by (rule file_round_trip [OF records_ok_sample])

text \<open>
  C35. A file the store cannot read fails closed, whatever is wrong with it: text that is no JSON, a
  value that is no array, a record that fails validation or on which validation throws, a repeated
  key. No call changes the file and none succeeds: every call answers with the error of the store
  (\<open>store_corrupted\<close>, or \<open>store_unavailable\<close> where validation throws or the file cannot be opened), or
  refuses its own arguments before it reads.
\<close>

theorem corrupted_file_fails_closed:
  assumes "jf_text s = Some content" and "parse_records rt engine content = Inl e"
    and "perform (JsonFileGatewayOperationStore rt engine) engine verify call s = (res, s')"
  shows "jf_text s' = Some content
    \<and> res \<in> {Answer (storeFailure (if fst (next_fault s) = ReadFault then StoreIO else e)), Answer (failure OP_invalid_input),
        Listing (Inl (if fst (next_fault s) = ReadFault then StoreIO else e))}"
  unfolding load_error_def [symmetric]
proof (cases call)
  case (CallPrepare input)
  obtain fault s1 where s1: "next_fault s = (fault, s1)" by (cases "next_fault s")
  show "jf_text s' = Some content
    \<and> res \<in> {Answer (storeFailure (load_error e s)), Answer (failure OP_invalid_input), Listing (Inl (load_error e s))}"
    using assms(1,3) corrupted_load [OF assms(1,2) s1]
    by (auto simp: CallPrepare prepare_def JsonFileGatewayOperationStore_def jsonFile_prepare_def s1 split: if_splits)
next
  case (CallCommand scope operationId at cmd)
  obtain r where "coordinator_mutate (JsonFileGatewayOperationStore rt engine) engine scope operationId at
      (command_change engine at cmd) s = (r, s')" "res = Answer r"
    using assms(3) by (auto simp: CallCommand command_call_mutate apfst_def map_prod_def split: prod.splits)
  then show "jf_text s' = Some content
    \<and> res \<in> {Answer (storeFailure (load_error e s)), Answer (failure OP_invalid_input), Listing (Inl (load_error e s))}"
    using corrupted_stops(1) [OF assms(1,2)] by blast
next
  case (CallComplete input)
  obtain r where "completeWithGatewayReceipt (JsonFileGatewayOperationStore rt engine) engine verify input s = (r, s')"
    "res = Answer r"
    using assms(3) by (auto simp: CallComplete apfst_def map_prod_def split: prod.splits)
  then show "jf_text s' = Some content
    \<and> res \<in> {Answer (storeFailure (load_error e s)), Answer (failure OP_invalid_input), Listing (Inl (load_error e s))}"
    using corrupted_stops(2) [OF assms(1,2)] by blast
next
  case (CallList scope)
  obtain fault s1 where s1: "next_fault s = (fault, s1)" by (cases "next_fault s")
  show "jf_text s' = Some content
    \<and> res \<in> {Answer (storeFailure (load_error e s)), Answer (failure OP_invalid_input), Listing (Inl (load_error e s))}"
    using assms(3) corrupted_load [OF assms(1,2) s1]
    by (auto simp: CallList list_operations_def JsonFileGatewayOperationStore_def jsonFile_list_def s1)
qed

theorem corrupted_file_fails_closed_witness:
  "parse_records sample_runtime (\<lambda>_. None) (js ''[1]'') = Inl StoreCorruption
    \<and> (\<exists>s'. perform (JsonFileGatewayOperationStore sample_runtime (\<lambda>_. None)) (\<lambda>_. None) sample_verify
          (CallList sample_scope) \<lparr>jf_text = Some (js ''[1]''), jf_faults = []\<rparr> = (Listing (Inl StoreCorruption), s')
        \<and> jf_text s' = Some (js ''[1]''))"
proof -
  let ?st = "JsonFileGatewayOperationStore sample_runtime (\<lambda>_. None)"
  let ?s = "\<lparr>jf_text = Some (js ''[1]''), jf_faults = []\<rparr>"
  obtain res s' where r: "perform ?st (\<lambda>_. None) sample_verify (CallList sample_scope) ?s = (res, s')"
    by (cases "perform ?st (\<lambda>_. None) sample_verify (CallList sample_scope) ?s")
  have "js_JSON_parse sample_runtime (js ''[1]'') = Some (JArr [JNum (NInt 1)])" by code_simp
  then have bad: "parse_records sample_runtime (\<lambda>_. None) (js ''[1]'') = Inl StoreCorruption"
    by (simp add: parse_records_def read_operation_def read_identity_def validation_throws_def)
  have "\<exists>x. res = Listing x" using r by (auto simp: apfst_def map_prod_def split: prod.splits)
  then show ?thesis using corrupted_file_fails_closed [OF _ bad r] r bad by (auto simp: next_fault_def)
qed

text \<open>
  C36. Changes due in the state machine go through: on a reachable record, at a valid time not
  before its last transition, a command enabled in its state is never answered with
  \<open>store_corrupted\<close>, but gives the changed record, with one exception: marking an already orphaned
  operation as orphaned is always refused as \<open>store_corrupted\<close>.
\<close>

theorem enabled_changes_go_through:
  assumes "op_reachable engine verify r" and "op_change engine (Some t) (toISOString t) cmd r r'"
    and "time_clipped t" and "\<not> num_lt (Some t) (last_time engine r)" and "op_version r < max_safe_integer"
    and "receipt_accepted engine verify cmd r"
  shows "plan_change engine (Some t) (command_change engine (Some t) cmd) r
    = (if op_state r = Orphaned \<and> op_state r' = Orphaned then Inl (failure OP_store_corrupted) else Inr r')"
proof (cases "op_state r = Orphaned \<and> op_state r' = Orphaned")
  case True
  have ts: "op_transitions r \<noteq> []" "tr_to (last (op_transitions r)) = op_state r"
    using reachable_invariant [OF assms(1)] by (simp_all add: op_invariant_def isValidOperationRecord_def)
  have "\<not> isValidOperationRecord engine r'"
    using change_appends [OF assms(2)] transitions_ok_last_allowed [OF _ ts(1)] ts(2) True
    by (fastforce simp: isValidOperationRecord_def isAllowedTransition_def)
  then show ?thesis
    using assms(2,4) True by (simp add: plan_change_def command_change_iff [symmetric] last_time_def)
next
  case False
  then show ?thesis using enabled_step(1) [OF assms(1-6)] by auto
qed

theorem enabled_changes_go_through_witness:
  "plan_change (\<lambda>_. None) sample_at (command_change (\<lambda>_. None) sample_at CmdDispatch) sample_authorized
    = Inr sample_dispatched"
  using enabled_changes_go_through [OF sample_authorized_reachable sample_changes(2) sample_times(1)
      sample_in_time(2) sample_version_bound(2) sample_accepted(2)]
  by (simp add: sample_states)

end
