(* ===== verification/Audit_Event.thy ===== *)
theory Audit_Event
  imports Execution_Properties
begin

text \<open>
  Audit events, \<open>packages/audit/src/audit-event-v1.ts\<close>: an event records a policy decision, an
  approval request or an approval decision, after rebuilding the whole chain of evidence from the
  packet with the policy and approval components; and the conformance check of idempotent
  appending (\<open>evaluateAuditEventV1Idempotency\<close>).

  Inputs are unknown JavaScript values, events the objects of the source. The module has its own
  copies of \<open>canonicalizeJson\<close>, \<open>hasExactKeys\<close>, \<open>parseCanonicalUtcTimestamp\<close> and \<open>sha256Hex\<close>, the text
  of those in \<open>approval-evidence-v1.ts\<close>, so the definitions of that component are used.
\<close>

section \<open>Contract\<close>

datatype audit_error_code =
    AV_invalid_input | AV_invalid_observed_at | AV_source_evidence_mismatch | AV_observed_before_event
  | AV_hash_unavailable

type_synonym av_error = "audit_error_code contract_error"

datatype audit_event_type = PolicyDecisionRecorded | ApprovalRequestRecorded | ApprovalDecisionRecorded

primrec audit_event_type_text :: "audit_event_type \<Rightarrow> string" where
  "audit_event_type_text PolicyDecisionRecorded = ''policy.decision_recorded''"
| "audit_event_type_text ApprovalRequestRecorded = ''approval.request_recorded''"
| "audit_event_type_text ApprovalDecisionRecorded = ''approval.decision_recorded''"

primrec eventInputKeys :: "audit_event_type \<Rightarrow> string list" where
  "eventInputKeys PolicyDecisionRecorded = [''event_type'', ''packet'', ''policy_decision'']"
| "eventInputKeys ApprovalRequestRecorded =
     [''event_type'', ''packet'', ''policy_decision'', ''approval_request'']"
| "eventInputKeys ApprovalDecisionRecorded =
     [''event_type'', ''packet'', ''policy_decision'', ''approval_request'', ''approval_decision'']"

text \<open>\<open>Object.hasOwn(eventInputKeys, event_type)\<close>, with the entry found.\<close>

definition event_type_of :: "jsval \<Rightarrow> audit_event_type option" where
  "event_type_of v =
     find (\<lambda>t. v = jtext (audit_event_type_text t))
       [PolicyDecisionRecorded, ApprovalRequestRecorded, ApprovalDecisionRecorded]"

definition av_failure :: "audit_error_code \<Rightarrow> string \<Rightarrow> string \<Rightarrow> av_error list + jsval" where
  "av_failure code path message = Inl [createContractErrorV1 code (js path) (js message)]"

definition audit_input_failure :: "av_error list + jsval" where
  "audit_input_failure = av_failure AV_invalid_input ''/input''
     ''Input must satisfy one exact v1 audit event source shape.''"

definition audit_hash_failure :: "av_error list + jsval" where
  "audit_hash_failure = av_failure AV_hash_unavailable ''/input''
     ''Audit evidence identity could not be produced.''"

section \<open>Rebuilding the chain\<close>

text \<open>
  \<open>v.name\<close> on an unknown value: \<open>None\<close> is the \<open>TypeError\<close> of \<open>null\<close> and \<open>undefined\<close>. A \<open>TypeError\<close> inside
  \<open>verifySourceChain\<close> reaches the \<open>catch\<close> of \<open>createAuditEventV1\<close>.
\<close>

definition js_member :: "jsval \<Rightarrow> string \<Rightarrow> jsval option" where
  "js_member v name = (if v = JNull \<or> v = JUndef then None else Some (fld v name))"

definition canonicalEqual :: "jsval \<Rightarrow> jsval \<Rightarrow> bool option" where
  "canonicalEqual left right =
     (case (canonicalizeJson left, canonicalizeJson right) of
        (Some a, Some b) \<Rightarrow> Some (a = b)
      | _ \<Rightarrow> None)"

datatype chain_result = ChainThrows | ChainMismatch | ChainVerified policy_decision_v1

definition chain_check :: "('e + jsval) \<Rightarrow> jsval \<Rightarrow> (jsval \<Rightarrow> chain_result) \<Rightarrow> chain_result" where
  "chain_check rebuilt supplied continue =
     (case rebuilt of
        Inl e \<Rightarrow> ChainMismatch
      | Inr evidence \<Rightarrow>
          (case canonicalEqual evidence supplied of
             None \<Rightarrow> ChainThrows
           | Some same \<Rightarrow> if \<not> same then ChainMismatch else continue evidence))"

definition decision_options :: "jsval \<Rightarrow> jsval" where
  "decision_options approval_decision = obj
     [(''approver_ref'', fld approval_decision ''approver_ref''),
      (''approver_session_ref'', fld approval_decision ''approver_session_ref''),
      (''decision'', fld approval_decision ''decision''),
      (''reason_code'', fld approval_decision ''reason_code''),
      (''decided_at'', fld approval_decision ''decided_at'')]"

definition verifySourceChain :: "('a js_runtime_scheme) \<Rightarrow> audit_event_type \<Rightarrow> jsval \<Rightarrow> chain_result" where
  "verifySourceChain rt event_type input =
     (case js_member (fld input ''policy_decision'') ''evaluated_at'' of
        None \<Rightarrow> ChainThrows
      | Some evaluated_at \<Rightarrow>
          (case decidePacketEnvelopePolicyV1 rt (fld input ''packet'') (obj [(''evaluated_at'', evaluated_at)]) of
             Inl e \<Rightarrow> ChainMismatch
           | Inr d \<Rightarrow>
               chain_check (Inr (policy_decision_object d) :: av_error + jsval) (fld input ''policy_decision'') (\<lambda>policy_decision.
                 if event_type = PolicyDecisionRecorded then ChainVerified d
                 else (case js_member (fld input ''approval_request'') ''requested_at'' of
                   None \<Rightarrow> ChainThrows
                 | Some requested_at \<Rightarrow>
                     chain_check (createApprovalRequestV1 rt policy_decision (obj [(''requested_at'', requested_at)]))
                       (fld input ''approval_request'') (\<lambda>approval_request.
                         if event_type = ApprovalRequestRecorded then ChainVerified d
                         else if js_member (fld input ''approval_decision'') ''approver_ref'' = None then ChainThrows
                         else chain_check (decideApprovalRequestV1 rt approval_request
                                (decision_options (fld input ''approval_decision'')))
                              (fld input ''approval_decision'') (\<lambda>_. ChainVerified d))))))"

section \<open>The event\<close>

definition eventAt :: "audit_event_type \<Rightarrow> jsval \<Rightarrow> jsval" where
  "eventAt event_type input =
     (case event_type of
        ApprovalDecisionRecorded \<Rightarrow> fld (fld input ''approval_decision'') ''decided_at''
      | ApprovalRequestRecorded \<Rightarrow> fld (fld input ''approval_request'') ''requested_at''
      | PolicyDecisionRecorded \<Rightarrow> fld (fld input ''policy_decision'') ''evaluated_at'')"

text \<open>\<open>a?.name\<close> and \<open>a ?? b\<close>\<close>

definition js_optional :: "jsval \<Rightarrow> string \<Rightarrow> jsval" where
  "js_optional v name = (if v = JNull \<or> v = JUndef then JUndef else fld v name)"

definition js_nullish :: "jsval \<Rightarrow> jsval \<Rightarrow> jsval" where
  "js_nullish a b = (if a = JNull \<or> a = JUndef then b else a)"

definition audit_redaction :: jsval where
  "audit_redaction = obj
     [(''raw_rejected_command'', jtext ''not_present''), (''raw_rejected_value'', jtext ''not_present''),
      (''raw_invalid_payload_content'', jtext ''not_present''), (''secret_like_values'', jtext ''not_present'')]"

definition auditEventBody :: "audit_event_type \<Rightarrow> jsval \<Rightarrow> jsval \<Rightarrow> jstr \<Rightarrow> jstr \<Rightarrow> (string \<times> jsval) list" where
  "auditEventBody event_type input policyDecision sourceEvidenceHash observedAt =
     (let approvalRequest = (if event_type = PolicyDecisionRecorded then JNull else fld input ''approval_request'');
          approvalDecision = (if event_type = ApprovalDecisionRecorded then fld input ''approval_decision'' else JNull);
          terminalId = js_nullish (js_optional approvalDecision ''approval_decision_id'')
            (js_nullish (js_optional approvalRequest ''approval_request_id'') (fld policyDecision ''decision_id''))
      in [(''contract_version'', jtext ''lnsat.contracts.v1_0''),
          (''schema_id'', jtext ''lnsat.audit_event.schema.v1_0''),
          (''event_type'', jtext (audit_event_type_text event_type)),
          (''result_status'', js_nullish (js_optional approvalDecision ''decision'')
             (if approvalRequest = JNull then fld policyDecision ''decision'' else jtext ''requested'')),
          (''actor_ref'', js_nullish (js_optional approvalDecision ''approver_ref'') (fld policyDecision ''actor_ref'')),
          (''session_ref'', js_nullish (js_optional approvalDecision ''approver_session_ref'')
             (fld policyDecision ''session_ref'')),
          (''project_ref'', fld policyDecision ''project_ref''),
          (''resource_refs'', JArr (as_list (fld policyDecision ''resource_refs''))),
          (''packet_ref'', obj
             [(''schema_id'', fld (fld policyDecision ''packet_ref'') ''schema_id''),
              (''packet_id'', fld (fld policyDecision ''packet_ref'') ''packet_id''),
              (''packet_hash'', fld (fld policyDecision ''packet_ref'') ''packet_hash''),
              (''idempotency_key'', fld (fld policyDecision ''packet_ref'') ''idempotency_key'')]),
          (''policy_ref'', obj
             [(''schema_id'', fld policyDecision ''schema_id''),
              (''decision_id'', fld policyDecision ''decision_id''),
              (''decision'', fld policyDecision ''decision'')]),
          (''approval_request_ref'', if approvalRequest = JNull then JNull else obj
             [(''schema_id'', fld approvalRequest ''schema_id''),
              (''approval_request_id'', fld approvalRequest ''approval_request_id''),
              (''status'', fld approvalRequest ''status'')]),
          (''approval_decision_ref'', if approvalDecision = JNull then JNull else obj
             [(''schema_id'', fld approvalDecision ''schema_id''),
              (''approval_decision_id'', fld approvalDecision ''approval_decision_id''),
              (''decision'', fld approvalDecision ''decision''),
              (''approver_ref'', fld approvalDecision ''approver_ref''),
              (''approver_session_ref'', fld approvalDecision ''approver_session_ref'')]),
          (''reason_codes'', if approvalDecision = JNull
             then JArr (as_list (fld policyDecision ''reason_codes''))
             else JArr [fld approvalDecision ''reason_code'']),
          (''source_evidence_hash'', JStr sourceEvidenceHash),
          (''idempotency_key'', JStr (js ''audit:'' @ js (audit_event_type_text event_type) @ js '':'' @ as_str terminalId)),
          (''event_at'', eventAt event_type input),
          (''observed_at'', JStr observedAt),
          (''retention_class'', jtext ''control_plane''),
          (''redaction'', audit_redaction),
          (''authenticated_provenance'', JBool False), (''persistence_requested'', JBool False),
          (''execution_authorized'', JBool False), (''side_effects'', JArr [])])"

text \<open>The hashing part: the evidence hash, the body and its identity.\<close>

definition identify_event ::
  "('a js_runtime_scheme) \<Rightarrow> audit_event_type \<Rightarrow> jsval \<Rightarrow> policy_decision_v1 \<Rightarrow> jstr \<Rightarrow> av_error list + jsval" where
  "identify_event rt event_type snapshot d observedAtInput =
     (case Option.bind (canonicalizeJson snapshot) (sha256_hex rt) of
        None \<Rightarrow> audit_hash_failure
      | Some evidence \<Rightarrow>
          (let body = auditEventBody event_type snapshot (policy_decision_object d)
                 (js ''sha256:'' @ evidence) observedAtInput
           in case Option.bind (canonicalizeJson (obj body)) (sha256_hex rt) of
                None \<Rightarrow> audit_hash_failure
              | Some hex \<Rightarrow> Inr (obj (body @ [(''event_id'', JStr (js ''aud_'' @ hex))]))))"

definition record_event ::
  "('a js_runtime_scheme) \<Rightarrow> audit_event_type \<Rightarrow> jsval \<Rightarrow> jstr \<Rightarrow> int \<Rightarrow> av_error list + jsval" where
  "record_event rt event_type snapshot observedAtInput observedAt =
     (case verifySourceChain rt event_type snapshot of
        ChainThrows \<Rightarrow> audit_hash_failure
      | ChainMismatch \<Rightarrow> av_failure AV_source_evidence_mismatch ''/input''
          ''Audit source evidence does not reproduce the exact v1 chain.''
      | ChainVerified d \<Rightarrow>
          (case parseCanonicalUtcTimestamp (as_str (eventAt event_type snapshot)) of
             Some eventAtInstant \<Rightarrow>
               if observedAt < eventAtInstant
               then av_failure AV_observed_before_event ''/observed_at''
                      ''Audit observation cannot precede its source event.''
               else identify_event rt event_type snapshot d observedAtInput
           | None \<Rightarrow> av_failure AV_observed_before_event ''/observed_at''
                      ''Audit observation cannot precede its source event.''))"

definition createAuditEventV1 :: "('a js_runtime_scheme) \<Rightarrow> jsval \<Rightarrow> jsval \<Rightarrow> av_error list + jsval" where
  "createAuditEventV1 rt rawInput rawOptions =
     (case (if js_isPlainObject rawInput then event_type_of (fld rawInput ''event_type'') else None) of
        None \<Rightarrow> audit_input_failure
      | Some event_type \<Rightarrow>
          if \<not> hasExactKeys rawInput (map js (eventInputKeys event_type)) then audit_input_failure
          else (case (if js_isPlainObject rawOptions \<and> hasExactKeys rawOptions [js ''observed_at'']
                         \<and> js_isString (fld rawOptions ''observed_at'')
                      then parseCanonicalUtcTimestamp (as_str (fld rawOptions ''observed_at'')) else None) of
                  None \<Rightarrow> av_failure AV_invalid_observed_at ''/observed_at''
                            ''observed_at must be a real canonical UTC instant.''
                | Some observedAt \<Rightarrow>
                    (case js_stringify_parse rt rawInput of
                       None \<Rightarrow> audit_input_failure
                     | Some snapshot \<Rightarrow>
                         record_event rt event_type snapshot (as_str (fld rawOptions ''observed_at'')) observedAt)))"

section \<open>Idempotent appending\<close>

datatype idempotency_error_code =
    AI_invalid_request | AI_invalid_prior_state | AI_duplicate_idempotency_key | AI_invalid_candidate
  | AI_collision

type_synonym ai_error = "idempotency_error_code contract_error"

record audit_idempotency_ref =
  ir_idempotency_key :: jstr
  ir_event_id :: jstr

datatype idempotency_outcome = AppendProposed | ExactReplay

record idempotency_result =
  is_outcome :: idempotency_outcome
  is_record_ref :: audit_idempotency_ref
  is_previous_state_count :: nat
  is_next_state_count :: nat
  is_proposed_state :: "audit_idempotency_ref list"

definition maximum_prior_entries :: nat where
  "maximum_prior_entries = 10000"

definition idempotencyFailure :: "idempotency_error_code \<Rightarrow> jstr \<Rightarrow> string \<Rightarrow> ai_error + 'r" where
  "idempotencyFailure code path message = Inl (createContractErrorV1 code path (js message))"

definition idempotencyKeyText :: "jstr \<Rightarrow> bool" where
  "idempotencyKeyText = rx_test_u (RSeq (rx_lit ''audit:'')
     (RSeq (RAlt (rx_lit ''policy.decision_recorded'')
              (RAlt (rx_lit ''approval.request_recorded'') (rx_lit ''approval.decision_recorded'')))
     (RSeq (rx_lit '':'') (RSeq (RAlt (rx_lit ''pol'') (RAlt (rx_lit ''apr'') (rx_lit ''apd'')))
     (RSeq (rx_lit ''_'') (RRep (RCls False ([(97, 102)] @ cc_digit)) 64 (Some 64)))))))"

definition eventIdText :: "jstr \<Rightarrow> bool" where
  "eventIdText = rx_hex64 ''aud_''"

definition isAuditEventV1IdempotencyRef :: "jsval \<Rightarrow> bool" where
  "isAuditEventV1IdempotencyRef value \<longleftrightarrow>
     js_isPlainObject value \<and> hasExactKeys value (map js [''idempotency_key'', ''event_id''])
     \<and> text_ok idempotencyKeyText (fld value ''idempotency_key'')
     \<and> text_ok eventIdText (fld value ''event_id'')"

definition cloneAuditEventV1IdempotencyRef :: "jsval \<Rightarrow> audit_idempotency_ref" where
  "cloneAuditEventV1IdempotencyRef value =
     \<lparr>ir_idempotency_key = as_str (fld value ''idempotency_key''), ir_event_id = as_str (fld value ''event_id'')\<rparr>"

text \<open>The loop over \<open>prior_state\<close>, from an index with the keys seen before it.\<close>

fun read_prior :: "nat \<Rightarrow> jstr set \<Rightarrow> jsval list \<Rightarrow> ai_error + audit_idempotency_ref list" where
  "read_prior index seenKeys [] = Inr []"
| "read_prior index seenKeys (entry # rest) =
     (if \<not> isAuditEventV1IdempotencyRef entry
      then idempotencyFailure AI_invalid_prior_state (js ''/prior_state/'' @ show_nat index)
             ''Prior entry must contain one valid audit idempotency key and event id.''
      else (let ref = cloneAuditEventV1IdempotencyRef entry in
        if ir_idempotency_key ref \<in> seenKeys
        then idempotencyFailure AI_duplicate_idempotency_key
               (js ''/prior_state/'' @ show_nat index @ js ''/idempotency_key'')
               ''Prior state must contain at most one entry per idempotency key.''
        else bind_result (read_prior (index + 1) (insert (ir_idempotency_key ref) seenKeys) rest)
               (\<lambda>refs. Inr (ref # refs))))"

definition append_candidate ::
  "audit_idempotency_ref list \<Rightarrow> audit_idempotency_ref \<Rightarrow> ai_error + idempotency_result" where
  "append_candidate priorState candidate =
     (case find (\<lambda>entry. ir_idempotency_key entry = ir_idempotency_key candidate) priorState of
        None \<Rightarrow> Inr \<lparr>is_outcome = AppendProposed, is_record_ref = candidate,
          is_previous_state_count = length priorState, is_next_state_count = length (priorState @ [candidate]),
          is_proposed_state = priorState @ [candidate]\<rparr>
      | Some existing \<Rightarrow>
          if ir_event_id existing \<noteq> ir_event_id candidate
          then idempotencyFailure AI_collision (js ''/candidate/event_id'')
                 ''Existing idempotency key has a different event identity.''
          else Inr \<lparr>is_outcome = ExactReplay, is_record_ref = existing,
            is_previous_state_count = length priorState, is_next_state_count = length priorState,
            is_proposed_state = priorState\<rparr>)"

definition evaluateAuditEventV1Idempotency :: "jsval \<Rightarrow> ai_error + idempotency_result" where
  "evaluateAuditEventV1Idempotency input =
     (if \<not> js_isPlainObject input \<or> \<not> hasExactKeys input (map js [''prior_state'', ''candidate''])
      then idempotencyFailure AI_invalid_request [] ''Input must contain bounded prior_state and one candidate.''
      else (case fld input ''prior_state'' of
        JArr prior \<Rightarrow>
          if length prior > maximum_prior_entries
          then idempotencyFailure AI_invalid_prior_state (js ''/prior_state'')
                 ''Prior state exceeds the bounded conformance limit.''
          else bind_result (read_prior 0 {} prior) (\<lambda>priorState.
            if \<not> isAuditEventV1IdempotencyRef (fld input ''candidate'')
            then idempotencyFailure AI_invalid_candidate (js ''/candidate'')
                   ''Candidate must contain one valid audit idempotency key and event id.''
            else append_candidate priorState (cloneAuditEventV1IdempotencyRef (fld input ''candidate'')))
      | _ \<Rightarrow> idempotencyFailure AI_invalid_request [] ''Input must contain bounded prior_state and one candidate.''))"

end
