(* ===== verification/Audit_Laws.thy ===== *)
theory Audit_Laws
  imports Audit_Event
begin

text \<open>
  Laws of the audit events: the components of the chain give the same answers on copies of their
  evidence (\<open>decide_again\<close>, \<open>create_again\<close>, \<open>decide_request_again\<close>), so genuine evidence passes
  \<open>verifySourceChain\<close> (\<open>chain_verified\<close>), and the state of idempotent appending as a finite map.
\<close>

section \<open>Evidence again\<close>

lemma snapshot_wf: "js_snapshot v w \<Longrightarrow> js_wf v \<Longrightarrow> js_wf w"
proof (induction v arbitrary: w)
  case (JArr vs)
  then obtain ws where "w = JArr ws" "list_all2 js_snapshot vs ws" by auto
  moreover from this(2) JArr.IH JArr.prems(2) have "list_all js_wf ws"
    by (induction rule: list_all2_induct) auto
  ultimately show ?case by simp
next
  case (JObj p fs)
  then obtain gs where w: "w = JObj True gs" and d: "distinct (map fst gs)"
    and rel: "\<And>k. rel_option js_snapshot (map_of fs k) (map_of gs k)" by (auto elim: js_snapshot_objE)
  have "js_wf y" if "(k, y) \<in> set gs" for k y
  proof -
    have "map_of gs k = Some y" using that d by simp
    with rel [of k] obtain x where x: "map_of fs k = Some x" "js_snapshot x y" by (auto elim: option.rel_cases)
    have "js_wf x" using map_of_SomeD [OF x(1)] JObj.prems(2) by (auto simp: list_all_iff)
    then show ?thesis using JObj.IH [OF map_of_SomeD [OF x(1)] _ x(2)] by simp
  qed
  then show ?case using w d by (auto simp: list_all_iff)
qed auto

lemma snapshot_data: "js_snapshot v w \<Longrightarrow> js_data v \<Longrightarrow> js_data w"
proof (induction v arbitrary: w)
  case (JArr vs)
  then obtain ws where "w = JArr ws" "list_all2 js_snapshot vs ws" by auto
  moreover from this(2) JArr.IH JArr.prems(2) have "list_all js_data ws"
    by (induction rule: list_all2_induct) auto
  ultimately show ?case by simp
next
  case (JObj p fs)
  then obtain gs where w: "w = JObj True gs" and d: "distinct (map fst gs)"
    and rel: "\<And>k. rel_option js_snapshot (map_of fs k) (map_of gs k)" by (auto elim: js_snapshot_objE)
  have "js_data y" if "(k, y) \<in> set gs" for k y
  proof -
    have "map_of gs k = Some y" using that d by simp
    with rel [of k] obtain x where x: "map_of fs k = Some x" "js_snapshot x y" by (auto elim: option.rel_cases)
    have "js_data x" using map_of_SomeD [OF x(1)] JObj.prems(2) by (auto simp: list_all_iff)
    then show ?thesis using JObj.IH [OF map_of_SomeD [OF x(1)] _ x(2)] by simp
  qed
  then show ?case using w by (auto simp: list_all_iff)
qed (auto simp: max_safe_integer_def)

lemma decide_again:
  assumes "decidePacketEnvelopePolicyV1 rt p options = Inr d" and "js_wf p" and "js_snapshot p w"
  shows "decidePacketEnvelopePolicyV1 rt w (obj [(''evaluated_at'', JStr (pd_evaluated_at d))]) = Inr d"
proof -
  from decide_InrD [OF assms(1,2)] obtain r t e c x h hex where
    r: "packet_shape p r" "packet_rules r" and e: "parseCanonicalUtcTimestamp t = Some e"
    and cx: "parseCanonicalUtcTimestamp (pe_created_at r) = Some c"
    "parseCanonicalUtcTimestamp (pe_expires_at r) = Some x" "c \<le> e" "e < x"
    and h: "hashPacketEnvelopeV1 rt p = Inr h" "sha256_hex rt (policy_decision_id_input h t) = Some hex"
    and d: "d = policy_decision_of r h (js ''pol_'' @ hex) t" by blast
  let ?r = "r\<lparr>pe_constraints := fld w ''constraints''\<rparr>"
  note w = packet_shape_snapshot [OF r(1) assms(3)]
  have rules: "packet_rules ?r" using packet_rules_snapshot [OF r(2)] w by blast
  have time: "pd_evaluated_at d = t" by (simp add: d policy_decision_of_def)
  have opts: "options_time (obj [(''evaluated_at'', JStr t)]) t" by (simp add: options_time_def fld_obj)
  obtain u where u: "canonicalizePacketEnvelopeV1 p = Inr u"
    using h(1) by (auto simp: hashPacketEnvelopeV1_def bind_result_eq_Inr_iff)
  have "canonical_text p = Some u"
    using u by (auto simp: canonicalizePacketEnvelopeV1_def canonical_text_iff bind_result_eq_Inr_iff
        validatePacketEnvelopeV1_def Let_def split: if_splits sum.splits)
  then have "canonicalizeJsonValue w = Inr u"
    using packet_text.canon_snapshot [OF assms(3)] by (simp add: canonical_text_iff)
  moreover have "validatePacketEnvelopeV1 w = Inr w" using w rules by (auto simp: validate_iff)
  ultimately have "canonicalizePacketEnvelopeV1 w = Inr u" by (simp add: canonicalizePacketEnvelopeV1_def)
  then have "hashPacketEnvelopeV1 rt w = Inr h" using hash_of_same_text [of p w rt] u h(1) by simp
  with decide_eq [OF conjunct1 [OF w] rules snapshot_wf [OF assms(3,2)] opts e, where rt = rt and c = c and x = x] cx h(2)
  show ?thesis unfolding time by (simp add: d)
qed

lemma create_again:
  assumes "createApprovalRequestV1 rt v options = Inr r" and "js_wf v"
  shows "createApprovalRequestV1 rt v (obj [(''requested_at'', fld r ''requested_at'')]) = Inr r"
    and "\<exists>t q. fld r ''requested_at'' = JStr t \<and> parseCanonicalUtcTimestamp t = Some q"
    and "js_wf r"
proof -
  from create_InrD [OF assms] obtain t q where need: "approval_needed v"
    and t: "parseCanonicalUtcTimestamp t = Some q" and win: "decision_window v q"
    and bound: "create_bound_request rt v t = Inr r" by blast
  from create_bound_InrD [OF bound] obtain i where r: "r = created_request v t i" by blast
  have at: "fld r ''requested_at'' = JStr t" by (simp add: r created_request_fields)
  have "request_options (obj [(''requested_at'', JStr t)]) t"
    using obj_exact_keys [of "[(''requested_at'', JStr t)]" "[''requested_at'']"]
    by (simp add: request_options_def fld_obj)
  from create_eq [OF need assms(2) this t, of rt] win bound at
  show "createApprovalRequestV1 rt v (obj [(''requested_at'', fld r ''requested_at'')]) = Inr r" by simp
  show "\<exists>t q. fld r ''requested_at'' = JStr t \<and> parseCanonicalUtcTimestamp t = Some q" using at t by blast
  show "js_wf r" unfolding r by (rule created_request_wf [OF assms(2)])
qed

lemma decide_request_again:
  assumes "decideApprovalRequestV1 rt r human = Inr a" and "js_wf r"
  shows "decideApprovalRequestV1 rt r (decision_options a) = Inr a"
    and "\<exists>t q. fld a ''decided_at'' = JStr t \<and> parseCanonicalUtcTimestamp t = Some q"
    and "js_data a" and "js_wf a" and "js_isPlainObject a"
    and "\<forall>k \<in> set [''approver_ref'', ''approver_session_ref'', ''decision'', ''reason_code'', ''decided_at''].
      fixed_value (fld a k)"
proof -
  from decide_request_InrD [OF assms] obtain q where r: "isApprovalRequestV1 r" and o: "decision_options_ok human"
    and q: "parseCanonicalUtcTimestamp (as_str (fld human ''decided_at'')) = Some q" "request_window r q"
    and bound: "decide_bound_request rt r human = Inr a" by blast
  from bound obtain i where a: "a = approval_decision_object r human i"
    by (auto simp: decide_bound_request_def decision_hash_failure_def ae_failure_def split: option.splits if_splits)
  have fields: "fld a ''approver_ref'' = fld human ''approver_ref''"
    "fld a ''approver_session_ref'' = fld human ''approver_session_ref''" "fld a ''decision'' = fld human ''decision''"
    "fld a ''reason_code'' = fld human ''reason_code''" "fld a ''decided_at'' = fld human ''decided_at''"
    by (simp_all add: a approval_decision_object_def fld_obj)
  have opts: "fld (decision_options a) k = fld human k"
    if "k \<in> set [''approver_ref'', ''approver_session_ref'', ''decision'', ''reason_code'', ''decided_at'']" for k
    using that by (auto simp: decision_options_def fld_obj fields)
  have keys: "hasExactKeys (decision_options a) decisionOptionKeys"
    unfolding decision_options_def decisionOptionKeys_def by (rule obj_exact_keys) simp
  have plain: "js_isPlainObject (decision_options a)" by (simp add: decision_options_def)
  have ok: "decision_options_ok (decision_options a)"
    using o keys plain by (simp add: decision_options_ok_def opts)
  have same: "approval_decision_id_input r (decision_options a) = approval_decision_id_input r human"
    "approval_decision_object r (decision_options a) i = approval_decision_object r human i" for i
    by (simp_all add: approval_decision_id_input_def approval_decision_object_def opts)
  have "decide_bound_request rt r (decision_options a) = decide_bound_request rt r human"
    unfolding decide_bound_request_def same using opts [of "''approver_ref''"] by simp
  with decide_request_eq [OF r assms(2) ok, of q rt] q bound
  show "decideApprovalRequestV1 rt r (decision_options a) = Inr a" by (simp add: opts)
  have texts: "text_ok humanIdentityRefPattern (fld human ''approver_ref'')"
    "text_ok sessionRefPattern (fld human ''approver_session_ref'')"
    "fixed_value (fld human ''decision'')" "text_ok (\<lambda>s. s \<in> set approvalReasonCodes) (fld human ''reason_code'')"
    "text_ok real_instant_text (fld human ''decided_at'')"
    using o by (auto simp: decision_options_ok_def jtext_def)
  then show "\<exists>t q. fld a ''decided_at'' = JStr t \<and> parseCanonicalUtcTimestamp t = Some q"
    using q(1) by (auto simp: fields text_ok_iff)
  show fixed: "\<forall>k \<in> set [''approver_ref'', ''approver_session_ref'', ''decision'', ''reason_code'', ''decided_at''].
      fixed_value (fld a k)"
    using texts by (auto simp: fields intro: fixed_intros)
  have req: "fixed_value (fld r ''schema_id'')" "fixed_value (fld r ''approval_request_id'')"
    "fixed_value (fld (fld r ''policy_decision_ref'') ''decision_id'')" "fixed_value (fld r ''expires_at'')"
    using r by (auto simp: isApprovalRequestV1_def isApprovalPolicyDecisionRef_def intro: fixed_intros)
  have wf: "js_wf v" if "fixed_value v" for v
    using that by (auto simp: fixed_value_def js_isString_iff js_isBoolean_iff list_all_iff)
  show "js_data a" "js_wf a" "js_isPlainObject a"
    using fixed req [THEN fixed_data] req [THEN wf] fixed_data wf
    by (simp_all add: a approval_decision_object_def obj_def fields [unfolded a approval_decision_object_def obj_def] jtext_def
        fld_obj [unfolded obj_def])
qed

section \<open>Genuine evidence\<close>

text \<open>The source of an event as the chain produced it, and the input that presents it.\<close>

definition genuine ::
  "('a js_runtime_scheme) \<Rightarrow> audit_event_type \<Rightarrow> jsval \<Rightarrow> policy_decision_v1 \<Rightarrow> jsval \<Rightarrow> jsval \<Rightarrow> bool" where
  "genuine rt kind p d r a \<longleftrightarrow>
     (\<exists>options. decidePacketEnvelopePolicyV1 rt p options = Inr d)
     \<and> (kind \<noteq> PolicyDecisionRecorded \<longrightarrow>
          (\<exists>options. createApprovalRequestV1 rt (policy_decision_object d) options = Inr r))
     \<and> (kind = ApprovalDecisionRecorded \<longrightarrow> (\<exists>human. decideApprovalRequestV1 rt r human = Inr a))"

definition source_input :: "audit_event_type \<Rightarrow> jsval \<Rightarrow> jsval \<Rightarrow> jsval \<Rightarrow> jsval \<Rightarrow> jsval" where
  "source_input kind p v r a =
     obj ([(''event_type'', jtext (audit_event_type_text kind)), (''packet'', p), (''policy_decision'', v)]
       @ (if kind = PolicyDecisionRecorded then [] else [(''approval_request'', r)])
       @ (if kind = ApprovalDecisionRecorded then [(''approval_decision'', a)] else []))"

lemma source_fields:
  "fld (source_input kind p v r a) ''event_type'' = jtext (audit_event_type_text kind)"
  "fld (source_input kind p v r a) ''packet'' = p" "fld (source_input kind p v r a) ''policy_decision'' = v"
  "kind \<noteq> PolicyDecisionRecorded \<Longrightarrow> fld (source_input kind p v r a) ''approval_request'' = r"
  "kind = ApprovalDecisionRecorded \<Longrightarrow> fld (source_input kind p v r a) ''approval_decision'' = a"
  by (simp_all add: source_input_def fld_obj)

lemma source_keys: "hasExactKeys (source_input kind p v r a) (map js (eventInputKeys kind))"
  unfolding source_input_def by (rule obj_exact_keys) (cases kind; simp)

lemma source_snapshot:
  assumes "js_snapshot (source_input kind p v r a) s"
  shows "js_snapshot p (fld s ''packet'')" and "js_snapshot v (fld s ''policy_decision'')"
    and "kind \<noteq> PolicyDecisionRecorded \<Longrightarrow> js_snapshot r (fld s ''approval_request'')"
    and "kind = ApprovalDecisionRecorded \<Longrightarrow> js_snapshot a (fld s ''approval_decision'')"
proof -
  have obj: "js_isObject (source_input kind p v r a)" by (simp add: source_input_def obj_def)
  have "set (js_keys (source_input kind p v r a)) = set (map js (eventInputKeys kind))"
    by (rule hasExactKeys_set [OF source_keys])
  then have field: "js_snapshot (fld (source_input kind p v r a) k) (fld s k)" if "k \<in> set (eventInputKeys kind)" for k
    using snapshot_field [OF assms obj, of "js k"] that by (simp del: js_eq_iff)
  show "js_snapshot p (fld s ''packet'')" "js_snapshot v (fld s ''policy_decision'')"
    using field [of "''packet''"] field [of "''policy_decision''"] by (cases kind; simp add: source_fields)+
  show "js_snapshot r (fld s ''approval_request'')" if "kind \<noteq> PolicyDecisionRecorded"
    using field [of "''approval_request''"] that by (cases kind) (simp_all add: source_fields)
  show "js_snapshot a (fld s ''approval_decision'')" if "kind = ApprovalDecisionRecorded"
    using field [of "''approval_decision''"] that by (simp add: source_fields)
qed

lemma source_data:
  assumes "js_data p" "js_wf p" "js_data v" "js_wf v"
    and "kind \<noteq> PolicyDecisionRecorded \<Longrightarrow> js_data r \<and> js_wf r"
    and "kind = ApprovalDecisionRecorded \<Longrightarrow> js_data a \<and> js_wf a"
  shows "js_data (source_input kind p v r a)" and "js_wf (source_input kind p v r a)"
  using assms by (cases kind; simp add: source_input_def literal_eval)+

lemma policy_object_data:
  assumes "decidePacketEnvelopePolicyV1 rt p options = Inr d" and "js_wf p" and "sha256_available rt"
  shows "js_data (policy_decision_object d)"
  using policy_decision_data [OF policy_decision_facts(1) [OF assms] policy_object_wf [OF assms(1,2)]] .

lemma snapshot_same_text:
  assumes "js_snapshot v w" and "canonicalizeJson v = Some t"
  shows "canonicalEqual v w = Some True"
  using approval_text.canon_snapshot [OF assms] assms(2) by (simp add: canonicalEqual_def)

lemma plain_data_text: "js_data v \<Longrightarrow> js_plain v \<Longrightarrow> \<exists>t. canonicalizeJson v = Some t"
  using js_data_jsonable approval_text.canon_plain by blast

lemma snapshot_member:
  assumes "js_snapshot v w" and "js_isPlainObject v"
  shows "js_member w k = Some (fld w k)"
  using snapshot_plain [OF assms] by (auto simp: js_member_def)

text \<open>What the parts of genuine evidence are.\<close>

lemma policy_object_plain: "js_isPlainObject (policy_decision_object d)" "js_plain (policy_decision_object d)"
  by (auto simp: policy_decision_object_def obj_def list_all_iff capability_decision_object_def split: option.splits)

lemma genuine_request:
  assumes "genuine rt kind p d r a" and "js_wf p" and "sha256_available rt" and "kind \<noteq> PolicyDecisionRecorded"
  shows "isApprovalRequestV1 r" and "js_wf r" and "js_data r" and "js_plain r"
    and "createApprovalRequestV1 rt (policy_decision_object d) (obj [(''requested_at'', fld r ''requested_at'')]) = Inr r"
    and "fixed_value (fld r ''requested_at'')"
proof -
  from assms(1,4) obtain options opts where d: "decidePacketEnvelopePolicyV1 rt p options = Inr d"
    and r: "createApprovalRequestV1 rt (policy_decision_object d) opts = Inr r" by (auto simp: genuine_def)
  note wf = policy_object_wf [OF d assms(2)]
  note again = create_again [OF r wf]
  from create_InrD [OF r wf] obtain t q where need: "approval_needed (policy_decision_object d)"
    and t: "parseCanonicalUtcTimestamp t = Some q"
    and bound: "create_bound_request rt (policy_decision_object d) t = Inr r" by blast
  from create_bound_InrD [OF bound] obtain c h where h: "sha256_hex rt c = Some h"
    and eq: "r = created_request (policy_decision_object d) t (js ''apr_'' @ h)" by blast
  show valid: "isApprovalRequestV1 r" unfolding eq
    using hex64 [OF assms(3) h] by (intro created_request_valid [OF need _ t]) (simp add: requestIdPattern_def)
  show "js_wf r" by (rule again(3))
  show "js_data r" "js_plain r" by (fact approval_request_data [OF valid again(3)])+
  show "createApprovalRequestV1 rt (policy_decision_object d) (obj [(''requested_at'', fld r ''requested_at'')]) = Inr r"
    by (rule again(1))
  show "fixed_value (fld r ''requested_at'')" using again(2) by auto
qed

lemma approval_object_plain:
  assumes "decideApprovalRequestV1 rt r human = Inr a" and "js_wf r"
  shows "js_plain a"
proof -
  from decide_request_InrD [OF assms] have r: "isApprovalRequestV1 r" and o: "decision_options_ok human"
    and bound: "decide_bound_request rt r human = Inr a" by blast+
  from bound obtain i where a: "a = approval_decision_object r human i"
    by (auto simp: decide_bound_request_def decision_hash_failure_def ae_failure_def split: option.splits if_splits)
  have "fixed_value (fld human ''approver_ref'')" "fixed_value (fld human ''approver_session_ref'')"
    "fixed_value (fld human ''decision'')" "fixed_value (fld human ''reason_code'')" "fixed_value (fld human ''decided_at'')"
    using o by (auto simp: decision_options_ok_def jtext_def intro: fixed_intros)
  moreover have "fixed_value (fld r ''schema_id'')" "fixed_value (fld r ''approval_request_id'')"
    "fixed_value (fld (fld r ''policy_decision_ref'') ''decision_id'')" "fixed_value (fld r ''expires_at'')"
    using r by (auto simp: isApprovalRequestV1_def isApprovalPolicyDecisionRef_def intro: fixed_intros)
  ultimately show ?thesis
    by (simp add: a approval_decision_object_def obj_def fixed_plain jtext_def)
qed

lemma chain_check_same:
  assumes "rebuilt = Inr v" and "js_snapshot v w" and "js_data v" and "js_plain v"
  shows "chain_check rebuilt w continue = continue v"
proof -
  obtain t where "canonicalizeJson v = Some t" using plain_data_text [OF assms(3,4)] by blast
  with snapshot_same_text [OF assms(2) this] show ?thesis by (simp add: chain_check_def assms(1))
qed

lemma chain_verified:
  assumes "genuine rt kind p d r a" and "js_wf p" and "sha256_available rt"
    and "js_snapshot (source_input kind p (policy_decision_object d) r a) s"
  shows "verifySourceChain rt kind s = ChainVerified d"
proof -
  let ?v = "policy_decision_object d"
  note snap = source_snapshot [OF assms(4)]
  from assms(1) obtain options where d: "decidePacketEnvelopePolicyV1 rt p options = Inr d" by (auto simp: genuine_def)
  have at: "fld (fld s ''policy_decision'') ''evaluated_at'' = JStr (pd_evaluated_at d)"
    by (rule snapshot_keeps [OF snap(2)]) (simp_all add: decision_object_fields)
  note policy = chain_check_same [OF refl snap(2) policy_object_data [OF d assms(2,3)] policy_object_plain(2)]
  have first: "verifySourceChain rt kind s = (if kind = PolicyDecisionRecorded then ChainVerified d
      else (case js_member (fld s ''approval_request'') ''requested_at'' of
         None \<Rightarrow> ChainThrows
       | Some requested_at \<Rightarrow>
           chain_check (createApprovalRequestV1 rt ?v (obj [(''requested_at'', requested_at)])) (fld s ''approval_request'')
             (\<lambda>approval_request. if kind = ApprovalRequestRecorded then ChainVerified d
               else if js_member (fld s ''approval_decision'') ''approver_ref'' = None then ChainThrows
               else chain_check (decideApprovalRequestV1 rt approval_request (decision_options (fld s ''approval_decision'')))
                 (fld s ''approval_decision'') (\<lambda>_. ChainVerified d))))"
    unfolding verifySourceChain_def snapshot_member [OF snap(2) policy_object_plain(1)] at option.case
      decide_again [OF d assms(2) snap(1)] sum.case policy ..
  show ?thesis
  proof (cases "kind = PolicyDecisionRecorded")
    case False
    note r = genuine_request [OF assms(1-3) False]
    have plain: "js_isPlainObject r" using r(1) by (simp add: isApprovalRequestV1_def)
    have req: "fld (fld s ''approval_request'') ''requested_at'' = fld r ''requested_at''"
      by (rule snapshot_keeps [OF snap(3) [OF False] refl r(6)])
    note second = chain_check_same [OF r(5) snap(3) [OF False] r(3,4)]
    show ?thesis
    proof (cases "kind = ApprovalRequestRecorded")
      case True
      then show ?thesis unfolding first snapshot_member [OF snap(3) [OF False] plain] req option.case second by simp
    next
      case third: False
      with False have kind: "kind = ApprovalDecisionRecorded" by (cases kind) auto
      with assms(1) obtain human where a: "decideApprovalRequestV1 rt r human = Inr a" by (auto simp: genuine_def)
      note again = decide_request_again [OF a r(2)]
      have "fld (fld s ''approval_decision'') k = fld a k"
        if "k \<in> set [''approver_ref'', ''approver_session_ref'', ''decision'', ''reason_code'', ''decided_at'']" for k
        using snapshot_keeps [OF snap(4) [OF kind] refl] again(6) that by blast
      then have "decision_options (fld s ''approval_decision'') = decision_options a" by (simp add: decision_options_def)
      then have "chain_check (decideApprovalRequestV1 rt r (decision_options (fld s ''approval_decision'')))
          (fld s ''approval_decision'') (\<lambda>_. ChainVerified d) = ChainVerified d"
        using chain_check_same [OF again(1) snap(4) [OF kind] again(3) approval_object_plain [OF a r(2)]] by simp
      then show ?thesis
        unfolding first snapshot_member [OF snap(3) [OF False] plain] req option.case second
        by (simp add: kind snapshot_member [OF snap(4) [OF kind] again(5)])
    qed
  qed (subst first, simp)
qed

section \<open>Events have an identity\<close>

definition text_fields_of :: "jsval \<Rightarrow> string list \<Rightarrow> bool" where
  "text_fields_of v ks \<longleftrightarrow> js_isPlainObject v \<and> list_all (\<lambda>k. js_isString (fld v k)) ks"

definition request_texts :: "string list" where
  "request_texts = [''schema_id'', ''approval_request_id'', ''status'', ''requested_at'']"

definition decision_texts :: "string list" where
  "decision_texts = [''schema_id'', ''approval_decision_id'', ''decision'', ''approver_ref'', ''approver_session_ref'',
     ''reason_code'', ''decided_at'']"

text \<open>Plain data: what the canonical text determines, and what has one.\<close>

definition plain_data :: "jsval \<Rightarrow> bool" where
  "plain_data v \<longleftrightarrow> js_plain v \<and> js_data v \<and> js_wf v"

lemma string_plain: "js_isString v \<Longrightarrow> plain_data v"
  by (cases v) (simp_all add: plain_data_def)

lemma plain_data_simps [simp]: "plain_data (JStr s)" "plain_data (JBool b)" "plain_data JNull"
  "plain_data (JArr vs) \<longleftrightarrow> list_all plain_data vs" "plain_data (jtext w)"
  by (auto simp: plain_data_def list_all_iff jtext_def)

lemma plain_data_obj: "distinct (map fst fs) \<Longrightarrow> plain_data (obj fs) \<longleftrightarrow> list_all (\<lambda>(k, v). plain_data v) fs"
proof -
  assume "distinct (map fst fs)"
  then have "distinct (map (\<lambda>x. js (fst x)) fs)" by (simp add: distinct_map inj_on_def)
  then show ?thesis by (auto simp: plain_data_def obj_def list_all_iff comp_def case_prod_beta)
qed

lemma nullish_string: "js_isString x \<Longrightarrow> js_nullish x y = x"
  by (auto simp: js_nullish_def)

lemma text_fields_optional: "text_fields_of v ks \<Longrightarrow> js_optional v k = fld v k"
  by (auto simp: text_fields_of_def js_optional_def)

lemma policy_object_texts:
  "js_isString (fld (policy_decision_object d) ''decision_id'')" "js_isString (fld (policy_decision_object d) ''decision'')"
  "js_isString (fld (policy_decision_object d) ''actor_ref'')" "js_isString (fld (policy_decision_object d) ''session_ref'')"
  "js_isString (fld (policy_decision_object d) ''project_ref'')" "js_isString (fld (policy_decision_object d) ''schema_id'')"
  "js_isString (fld (policy_decision_object d) ''evaluated_at'')"
  "js_isString (fld (fld (policy_decision_object d) ''packet_ref'') ''schema_id'')"
  "js_isString (fld (fld (policy_decision_object d) ''packet_ref'') ''packet_id'')"
  "js_isString (fld (fld (policy_decision_object d) ''packet_ref'') ''packet_hash'')"
  "js_isString (fld (fld (policy_decision_object d) ''packet_ref'') ''idempotency_key'')"
  "list_all js_isString (as_list (fld (policy_decision_object d) ''resource_refs''))"
  "list_all js_isString (as_list (fld (policy_decision_object d) ''reason_codes''))"
  by (simp_all add: policy_decision_object_def fld_obj list_all_iff)

lemma event_body_text:
  assumes "kind \<noteq> PolicyDecisionRecorded \<Longrightarrow> text_fields_of (fld s ''approval_request'') request_texts"
    and "kind = ApprovalDecisionRecorded \<Longrightarrow> text_fields_of (fld s ''approval_decision'') decision_texts"
    and "js_isString (eventAt kind s)"
  shows "plain_data (obj (auditEventBody kind s (policy_decision_object d) h obs))"
proof -
  have all: "list_all plain_data vs" if "list_all js_isString vs" for vs
    using that string_plain by (auto simp: list_all_iff)
  note lists = all [OF policy_object_texts(12)] all [OF policy_object_texts(13)]
  note texts = policy_object_texts(1-11) [THEN string_plain] assms(3) [THEN string_plain]
  have request: "js_isString (fld (fld s ''approval_request'') k)"
    if "kind \<noteq> PolicyDecisionRecorded" "k \<in> set request_texts" for k
    using assms(1) that by (auto simp: text_fields_of_def list_all_iff)
  have given: "kind \<noteq> PolicyDecisionRecorded \<longrightarrow> fld s ''approval_request'' \<noteq> JNull"
    using assms(1) by (auto simp: text_fields_of_def)
  have "list_all (\<lambda>(k, v). plain_data v) (auditEventBody kind s (policy_decision_object d) h obs)"
  proof (cases kind)
    case PolicyDecisionRecorded
    then show ?thesis using texts lists
      by (simp add: auditEventBody_def Let_def plain_data_obj audit_redaction_def jtext_def js_nullish_def js_optional_def list_all_iff)
  next
    case ApprovalRequestRecorded
    have "list_all (\<lambda>k. plain_data (fld (fld s ''approval_request'') k))
        request_texts"
      using request string_plain ApprovalRequestRecorded by (simp add: list_all_iff)
    note r' = this [unfolded request_texts_def]
    show ?thesis using texts lists r' given ApprovalRequestRecorded
      by (simp add: auditEventBody_def Let_def plain_data_obj audit_redaction_def jtext_def js_nullish_def js_optional_def list_all_iff)
  next
    case ApprovalDecisionRecorded
    then have b: "text_fields_of (fld s ''approval_decision'') decision_texts" using assms(2) by simp
    have a: "js_isString (fld (fld s ''approval_decision'') k)" if "k \<in> set decision_texts" for k
      using b that by (auto simp: text_fields_of_def list_all_iff)
    have facts: "fld s ''approval_decision'' \<noteq> JNull" using b by (auto simp: text_fields_of_def)
    have terminal: "js_nullish (js_optional (fld s ''approval_decision'') k) y = fld (fld s ''approval_decision'') k"
      if "k \<in> set decision_texts" for k y
      using text_fields_optional [OF b] nullish_string [OF a [OF that]] by simp
    show ?thesis using texts lists request [THEN string_plain] a [THEN string_plain] given facts ApprovalDecisionRecorded
      by (simp add: auditEventBody_def Let_def plain_data_obj audit_redaction_def jtext_def terminal list_all_iff
          request_texts_def decision_texts_def)
  qed
  then show ?thesis by (subst plain_data_obj) (simp_all add: auditEventBody_def Let_def)
qed

lemma genuine_texts:
  assumes "genuine rt kind p d r a" and "js_wf p" and "sha256_available rt"
    and "js_snapshot (source_input kind p (policy_decision_object d) r a) s"
  shows "kind \<noteq> PolicyDecisionRecorded \<Longrightarrow> text_fields_of (fld s ''approval_request'') request_texts
      \<and> (\<forall>k \<in> set request_texts. fld (fld s ''approval_request'') k = fld r k)"
    and "kind = ApprovalDecisionRecorded \<Longrightarrow> text_fields_of (fld s ''approval_decision'') decision_texts
      \<and> (\<forall>k \<in> set decision_texts. fld (fld s ''approval_decision'') k = fld a k)"
    and "\<exists>t q. eventAt kind s = JStr t \<and> eventAt kind (source_input kind p (policy_decision_object d) r a) = JStr t
      \<and> parseCanonicalUtcTimestamp t = Some q"
proof -
  note snap = source_snapshot [OF assms(4)]
  have keep: "text_fields_of w ks \<and> (\<forall>k \<in> set ks. fld w k = fld v k)"
    if "js_snapshot v w" "js_isPlainObject v" "list_all (\<lambda>k. js_isString (fld v k)) ks" for v w ks
  proof -
    have "fld w k = fld v k" if "k \<in> set ks" for k
      using snapshot_keeps [OF \<open>js_snapshot v w\<close> refl] \<open>list_all _ ks\<close> that
      by (auto simp: list_all_iff fixed_value_def)
    then show ?thesis using that snapshot_plain [OF that(1,2)] by (simp add: text_fields_of_def list_all_iff)
  qed
  have request: "list_all (\<lambda>k. js_isString (fld r k)) request_texts \<and> js_isPlainObject r" if "kind \<noteq> PolicyDecisionRecorded"
    using genuine_request(1) [OF assms(1-3) that]
    by (auto simp: isApprovalRequestV1_def request_texts_def text_ok_iff jtext_def)
  show R: "text_fields_of (fld s ''approval_request'') request_texts
      \<and> (\<forall>k \<in> set request_texts. fld (fld s ''approval_request'') k = fld r k)" if "kind \<noteq> PolicyDecisionRecorded"
    using keep [OF snap(3) [OF that]] request [OF that] by blast
  have decision: "list_all (\<lambda>k. js_isString (fld a k)) decision_texts \<and> js_isPlainObject a
      \<and> (\<exists>t q. fld a ''decided_at'' = JStr t \<and> parseCanonicalUtcTimestamp t = Some q)" if kind: "kind = ApprovalDecisionRecorded"
  proof -
    from assms(1) kind obtain human where a: "decideApprovalRequestV1 rt r human = Inr a" by (auto simp: genuine_def)
    have wf: "js_wf r" using genuine_request(2) [OF assms(1-3)] kind by simp
    note again = decide_request_again [OF a wf]
    from decide_request_InrD [OF a wf] have o: "decision_options_ok human" and bound: "decide_bound_request rt r human = Inr a"
      by blast+
    from bound obtain i where "a = approval_decision_object r human (js ''apd_'' @ i)"
      by (auto simp: decide_bound_request_def decision_hash_failure_def ae_failure_def split: option.splits if_splits)
    then show ?thesis using o again(2,5)
      by (auto simp: decision_texts_def approval_decision_object_def fld_obj decision_options_ok_def text_ok_iff jtext_def)
  qed
  show D: "text_fields_of (fld s ''approval_decision'') decision_texts
      \<and> (\<forall>k \<in> set decision_texts. fld (fld s ''approval_decision'') k = fld a k)" if "kind = ApprovalDecisionRecorded"
    using keep [OF snap(4) [OF that]] decision [OF that] by blast
  show "\<exists>t q. eventAt kind s = JStr t \<and> eventAt kind (source_input kind p (policy_decision_object d) r a) = JStr t
      \<and> parseCanonicalUtcTimestamp t = Some q"
  proof (cases kind)
    case PolicyDecisionRecorded
    from assms(1) obtain options where d: "decidePacketEnvelopePolicyV1 rt p options = Inr d" by (auto simp: genuine_def)
    from decide_InrD [OF d assms(2)] obtain rec h i t e where "parseCanonicalUtcTimestamp t = Some e"
      "d = policy_decision_of rec h i t" by blast
    moreover have "fld (fld s ''policy_decision'') ''evaluated_at'' = JStr (pd_evaluated_at d)"
      by (rule snapshot_keeps [OF snap(2)]) (simp_all add: decision_object_fields)
    ultimately show ?thesis
      by (simp add: eventAt_def PolicyDecisionRecorded source_fields decision_object_fields policy_decision_of_def)
  next
    case ApprovalRequestRecorded
    then have r: "isApprovalRequestV1 r" using genuine_request(1) [OF assms(1-3)] by simp
    then obtain t q where "fld r ''requested_at'' = JStr t" "parseCanonicalUtcTimestamp t = Some q"
      by (auto simp: isApprovalRequestV1_def text_ok_iff real_instant_text_def)
    then show ?thesis using R ApprovalRequestRecorded by (simp add: eventAt_def source_fields request_texts_def)
  next
    case ApprovalDecisionRecorded
    then show ?thesis using D decision by (auto simp: eventAt_def source_fields decision_texts_def)
  qed
qed

end
