(* ===== verification/Audit_Properties.thy ===== *)
theory Audit_Properties
  imports Audit_Laws
begin

text \<open>
  Properties of the audit events: what an event rests on, that genuine evidence can be recorded,
  that the identity of an event binds its evidence; and of idempotent appending: it implements a
  finite map (\<open>recorded\<close>) on the states it accepts (\<open>ledger_state\<close>), keeps its invariant, and closes
  when its bound is reached.
\<close>

section \<open>Keys of events\<close>

lemma key_text:
  assumes "rx_hex64 (q @ ''_'') i" and "q \<in> {''pol'', ''apr'', ''apd''}"
  shows "idempotencyKeyText (js ''audit:'' @ js (audit_event_type_text kind) @ js '':'' @ i)"
proof -
  let ?hex = "RRep (RCls False ([(97, 102)] @ cc_digit)) 64 (Some 64)"
  have swap: "in_class False (cc_digit @ [(97, 102)]) = in_class False ([(97, 102)] @ cc_digit)"
    by (auto simp: in_class_def)
  obtain v where v: "code_points i = map of_char (q @ ''_'') @ v" "length v = 64"
    "list_all (in_class False ([(97, 102)] @ cc_digit)) v"
    using assms(1) unfolding rx_hex64_def rx_test_u_def rx_match_prefixed_run swap by auto
  then have hex: "rx_match ?hex v" by (simp add: rx_match_rep_class at_most_def)
  have lit: "rx_match (rx_lit s) (map of_char s)" for s by (simp add: rx_match_iff_lang lang_rx_lit)
  have pref: "rx_match (RAlt (rx_lit ''pol'') (RAlt (rx_lit ''apr'') (rx_lit ''apd''))) (map of_char q)"
    unfolding rx_match_alt using assms(2) lit by blast
  have kinds: "rx_match (RAlt (rx_lit ''policy.decision_recorded'')
      (RAlt (rx_lit ''approval.request_recorded'') (rx_lit ''approval.decision_recorded'')))
      (map of_char (audit_event_type_text kind))"
    unfolding rx_match_alt by (cases kind) (simp_all only: audit_event_type_text.simps lit simp_thms)
  have "rx_match (RSeq (RAlt (rx_lit ''pol'') (RAlt (rx_lit ''apr'') (rx_lit ''apd''))) (RSeq (rx_lit ''_'') ?hex)) (code_points i)"
    unfolding rx_match_seq [of "RAlt _ _"] rx_match_lit_seq
    by (rule exI [of _ "map of_char q"], rule exI [of _ "map of_char ''_'' @ v"]) (use pref hex v(1) in auto)
  then have "rx_match (RSeq (RAlt (rx_lit ''policy.decision_recorded'')
        (RAlt (rx_lit ''approval.request_recorded'') (rx_lit ''approval.decision_recorded'')))
      (RSeq (rx_lit '':'') (RSeq (RAlt (rx_lit ''pol'') (RAlt (rx_lit ''apr'') (rx_lit ''apd''))) (RSeq (rx_lit ''_'') ?hex))))
      (map of_char (audit_event_type_text kind) @ map of_char '':'' @ code_points i)"
    unfolding rx_match_seq [of "RAlt (rx_lit ''policy.decision_recorded'') _"] rx_match_lit_seq using kinds by blast
  then show ?thesis
    unfolding idempotencyKeyText_def rx_test_u_def code_points_append_js rx_match_lit_seq by simp
qed

section \<open>Idempotent appending\<close>

definition valid_ref :: "audit_idempotency_ref \<Rightarrow> bool" where
  "valid_ref x \<longleftrightarrow> idempotencyKeyText (ir_idempotency_key x) \<and> eventIdText (ir_event_id x)"

definition ref_object :: "audit_idempotency_ref \<Rightarrow> jsval" where
  "ref_object x = obj [(''idempotency_key'', JStr (ir_idempotency_key x)), (''event_id'', JStr (ir_event_id x))]"

definition append_input :: "audit_idempotency_ref list \<Rightarrow> audit_idempotency_ref \<Rightarrow> jsval" where
  "append_input state candidate =
     obj [(''prior_state'', JArr (map ref_object state)), (''candidate'', ref_object candidate)]"

text \<open>The states the evaluation accepts: a finite map from keys to event ids, of bounded size.\<close>

definition ledger_state :: "audit_idempotency_ref list \<Rightarrow> bool" where
  "ledger_state state \<longleftrightarrow> length state \<le> maximum_prior_entries \<and> list_all valid_ref state
     \<and> distinct (map ir_idempotency_key state)"

definition recorded :: "audit_idempotency_ref list \<Rightarrow> jstr \<Rightarrow> jstr option" where
  "recorded state = map_of (map (\<lambda>x. (ir_idempotency_key x, ir_event_id x)) state)"

lemma ref_object_valid: "isAuditEventV1IdempotencyRef (ref_object x) \<longleftrightarrow> valid_ref x"
proof -
  have "hasExactKeys (ref_object x) (map js [''idempotency_key'', ''event_id''])"
    unfolding ref_object_def by (rule obj_exact_keys) simp
  then show ?thesis
    by (simp add: isAuditEventV1IdempotencyRef_def valid_ref_def ref_object_def fld_obj text_ok_def)
qed

lemma clone_ref_object: "cloneAuditEventV1IdempotencyRef (ref_object x) = x"
  by (simp add: cloneAuditEventV1IdempotencyRef_def ref_object_def fld_obj)

lemma read_prior_Inr:
  "read_prior n seen vs = Inr xs \<longleftrightarrow>
     list_all isAuditEventV1IdempotencyRef vs \<and> xs = map cloneAuditEventV1IdempotencyRef vs
     \<and> distinct (map ir_idempotency_key xs) \<and> set (map ir_idempotency_key xs) \<inter> seen = {}"
proof (induction vs arbitrary: n seen xs)
  case (Cons v vs)
  have step: "read_prior n seen (v # vs) = Inr xs \<longleftrightarrow> isAuditEventV1IdempotencyRef v
      \<and> ir_idempotency_key (cloneAuditEventV1IdempotencyRef v) \<notin> seen
      \<and> (\<exists>ys. read_prior (n + 1) (insert (ir_idempotency_key (cloneAuditEventV1IdempotencyRef v)) seen) vs = Inr ys
            \<and> xs = cloneAuditEventV1IdempotencyRef v # ys)"
    by (auto simp: idempotencyFailure_def Let_def bind_result_eq_Inr_iff)
  show ?case unfolding step Cons.IH by (auto; blast)
qed auto

lemma clone_valid: "isAuditEventV1IdempotencyRef v \<Longrightarrow> valid_ref (cloneAuditEventV1IdempotencyRef v)"
  by (auto simp: isAuditEventV1IdempotencyRef_def valid_ref_def cloneAuditEventV1IdempotencyRef_def text_ok_iff)

lemma read_prior_objects:
  assumes "list_all valid_ref xs" and "distinct (map ir_idempotency_key xs)"
  shows "read_prior 0 {} (map ref_object xs) = Inr xs"
  using assms by (auto simp: read_prior_Inr ref_object_valid clone_ref_object list_all_iff comp_def)

lemma append_input_eval:
  assumes "valid_ref candidate"
  shows "evaluateAuditEventV1Idempotency (append_input state candidate) =
    (if length state > maximum_prior_entries
     then idempotencyFailure AI_invalid_prior_state (js ''/prior_state'')
            ''Prior state exceeds the bounded conformance limit.''
     else bind_result (read_prior 0 {} (map ref_object state)) (\<lambda>prior. append_candidate prior candidate))"
proof -
  have "hasExactKeys (append_input state candidate) (map js [''prior_state'', ''candidate''])"
    unfolding append_input_def by (rule obj_exact_keys) simp
  then show ?thesis using assms
    by (simp add: evaluateAuditEventV1Idempotency_def append_input_def fld_obj ref_object_valid clone_ref_object)
qed

lemma find_recorded:
  "(case find (\<lambda>x. ir_idempotency_key x = k) state of None \<Rightarrow> recorded state k = None
    | Some x \<Rightarrow> x \<in> set state \<and> ir_idempotency_key x = k \<and> recorded state k = Some (ir_event_id x))"
  by (induction state) (auto simp: recorded_def split: option.splits)

lemma append_candidate_eq:
  "append_candidate state candidate =
     (case recorded state (ir_idempotency_key candidate) of
        None \<Rightarrow> Inr \<lparr>is_outcome = AppendProposed, is_record_ref = candidate, is_previous_state_count = length state,
          is_next_state_count = length state + 1, is_proposed_state = state @ [candidate]\<rparr>
      | Some i \<Rightarrow> if i = ir_event_id candidate
          then Inr \<lparr>is_outcome = ExactReplay, is_record_ref = candidate, is_previous_state_count = length state,
            is_next_state_count = length state, is_proposed_state = state\<rparr>
          else Inl (createContractErrorV1 AI_collision (js ''/candidate/event_id'')
            (js ''Existing idempotency key has a different event identity.'')))"
  using find_recorded [where k = "ir_idempotency_key candidate" and state = state]
  by (auto simp: append_candidate_def idempotencyFailure_def split: option.splits)

lemma evaluate_InrD:
  assumes "evaluateAuditEventV1Idempotency input = Inr res"
  obtains state candidate where "ledger_state state" and "valid_ref candidate" and "append_candidate state candidate = Inr res"
proof -
  from assms obtain vs where vs: "fld input ''prior_state'' = JArr vs" "length vs \<le> maximum_prior_entries"
    and bound: "bind_result (read_prior 0 {} vs) (\<lambda>priorState.
            if \<not> isAuditEventV1IdempotencyRef (fld input ''candidate'')
            then idempotencyFailure AI_invalid_candidate (js ''/candidate'')
                   ''Candidate must contain one valid audit idempotency key and event id.''
            else append_candidate priorState (cloneAuditEventV1IdempotencyRef (fld input ''candidate''))) = Inr res"
    by (auto simp: evaluateAuditEventV1Idempotency_def idempotencyFailure_def split: if_splits jsval.splits)
  then obtain xs where xs: "read_prior 0 {} vs = Inr xs" and c: "isAuditEventV1IdempotencyRef (fld input ''candidate'')"
    and res: "append_candidate xs (cloneAuditEventV1IdempotencyRef (fld input ''candidate'')) = Inr res"
    by (auto simp: bind_result_eq_Inr_iff idempotencyFailure_def split: if_splits)
  have "ledger_state xs"
    using xs vs(2) clone_valid by (auto simp: read_prior_Inr ledger_state_def list_all_iff)
  then show ?thesis using that clone_valid [OF c] res by blast
qed

lemma recorded_None: "recorded state k = None \<longleftrightarrow> k \<notin> set (map ir_idempotency_key state)"
  by (auto simp: recorded_def map_of_eq_None_iff image_iff comp_def)

section \<open>What a recorded event rests on\<close>

text \<open>The evidence of an input, rebuilt from its packet by the policy and approval components.\<close>

definition rebuilt ::
  "('a js_runtime_scheme) \<Rightarrow> audit_event_type \<Rightarrow> jsval \<Rightarrow> policy_decision_v1 \<Rightarrow> jsval \<Rightarrow> jsval \<Rightarrow> bool" where
  "rebuilt rt kind s d r a \<longleftrightarrow>
     genuine rt kind (fld s ''packet'') d r a
     \<and> canonicalEqual (policy_decision_object d) (fld s ''policy_decision'') = Some True
     \<and> (kind \<noteq> PolicyDecisionRecorded \<longrightarrow> canonicalEqual r (fld s ''approval_request'') = Some True)
     \<and> (kind = ApprovalDecisionRecorded \<longrightarrow> canonicalEqual a (fld s ''approval_decision'') = Some True)"

lemma chain_check_Verified_iff:
  "chain_check answer supplied continue = ChainVerified d \<longleftrightarrow>
     (\<exists>v. answer = Inr v \<and> canonicalEqual v supplied = Some True \<and> continue v = ChainVerified d)"
  by (auto simp: chain_check_def split: sum.splits option.splits if_splits)

lemma case_Verified_iff:
  "(case m of None \<Rightarrow> ChainThrows | Some x \<Rightarrow> f x) = ChainVerified d \<longleftrightarrow> (\<exists>x. m = Some x \<and> f x = ChainVerified d)"
  "(case c of Inl e \<Rightarrow> ChainMismatch | Inr y \<Rightarrow> g y) = ChainVerified d \<longleftrightarrow> (\<exists>y. c = Inr y \<and> g y = ChainVerified d)"
  "(if b then ChainThrows else z) = ChainVerified d \<longleftrightarrow> \<not> b \<and> z = ChainVerified d"
  by (auto split: option.splits sum.splits)

lemma verified_rebuilt:
  assumes "verifySourceChain rt kind s = ChainVerified d"
  obtains r a where "rebuilt rt kind s d r a"
proof -
  from assms obtain at d' where d: "decidePacketEnvelopePolicyV1 rt (fld s ''packet'') (obj [(''evaluated_at'', at)]) = Inr d'"
    "canonicalEqual (policy_decision_object d') (fld s ''policy_decision'') = Some True"
    and rest: "(if kind = PolicyDecisionRecorded then ChainVerified d'
                 else (case js_member (fld s ''approval_request'') ''requested_at'' of
                   None \<Rightarrow> ChainThrows
                 | Some requested_at \<Rightarrow>
                     chain_check (createApprovalRequestV1 rt (policy_decision_object d') (obj [(''requested_at'', requested_at)]))
                       (fld s ''approval_request'') (\<lambda>approval_request.
                         if kind = ApprovalRequestRecorded then ChainVerified d'
                         else if js_member (fld s ''approval_decision'') ''approver_ref'' = None then ChainThrows
                         else chain_check (decideApprovalRequestV1 rt approval_request
                                (decision_options (fld s ''approval_decision'')))
                              (fld s ''approval_decision'') (\<lambda>_. ChainVerified d')))) = ChainVerified d"
    unfolding verifySourceChain_def case_Verified_iff chain_check_Verified_iff sum.inject by blast
  show ?thesis
  proof (cases kind)
    case PolicyDecisionRecorded
    then show ?thesis using that d rest by (auto simp: rebuilt_def genuine_def)
  next
    case ApprovalRequestRecorded
    then have "d' = d \<and> (\<exists>q r. createApprovalRequestV1 rt (policy_decision_object d') (obj [(''requested_at'', q)]) = Inr r
        \<and> canonicalEqual r (fld s ''approval_request'') = Some True)"
      using rest by (auto simp: case_Verified_iff chain_check_Verified_iff)
    then show ?thesis using that d ApprovalRequestRecorded by (auto simp: rebuilt_def genuine_def)
  next
    case ApprovalDecisionRecorded
    then have "d' = d \<and> (\<exists>q r human a. createApprovalRequestV1 rt (policy_decision_object d') (obj [(''requested_at'', q)]) = Inr r
        \<and> canonicalEqual r (fld s ''approval_request'') = Some True \<and> decideApprovalRequestV1 rt r human = Inr a
        \<and> canonicalEqual a (fld s ''approval_decision'') = Some True)"
      using rest by (auto simp: case_Verified_iff chain_check_Verified_iff)
    then show ?thesis using that d ApprovalDecisionRecorded by (auto simp: rebuilt_def genuine_def)
  qed
qed

text \<open>The event itself: the body over the rebuilt evidence, under its hash.\<close>

definition event_of ::
  "('a js_runtime_scheme) \<Rightarrow> audit_event_type \<Rightarrow> jsval \<Rightarrow> policy_decision_v1 \<Rightarrow> jstr \<Rightarrow> jsval \<Rightarrow> bool" where
  "event_of rt kind s d observed e \<longleftrightarrow>
     (\<exists>c evidence text hex body.
        canonicalizeJson s = Some c \<and> sha256_hex rt c = Some evidence
        \<and> body = auditEventBody kind s (policy_decision_object d) (js ''sha256:'' @ evidence) observed
        \<and> canonicalizeJson (obj body) = Some text \<and> sha256_hex rt text = Some hex
        \<and> e = obj (body @ [(''event_id'', JStr (js ''aud_'' @ hex))]))"

lemma identify_event_eq: "identify_event rt kind s d observed = Inr e \<longleftrightarrow> event_of rt kind s d observed e"
  by (auto simp: identify_event_def event_of_def audit_hash_failure_def av_failure_def Let_def
      split: option.splits Option.bind_splits)

lemma event_type_of_Some: "event_type_of v = Some kind \<longleftrightarrow> v = jtext (audit_event_type_text kind)"
  by (cases kind) (auto simp: event_type_of_def jtext_def)

definition observed_options :: "jsval \<Rightarrow> jstr \<Rightarrow> bool" where
  "observed_options options observed \<longleftrightarrow> js_isPlainObject options \<and> hasExactKeys options [js ''observed_at'']
     \<and> fld options ''observed_at'' = JStr observed"

lemma create_audit_InrD:
  assumes "createAuditEventV1 rt input options = Inr e"
  obtains kind s d observed q x r a where "fld input ''event_type'' = jtext (audit_event_type_text kind)"
    and "hasExactKeys input (map js (eventInputKeys kind))"
    and "js_stringify_parse rt input = Some s" and "rebuilt rt kind s d r a"
    and "observed_options options observed" and "parseCanonicalUtcTimestamp observed = Some q"
    and "parseCanonicalUtcTimestamp (as_str (eventAt kind s)) = Some x" and "x \<le> q"
    and "event_of rt kind s d observed e"
proof -
  from assms obtain kind q s where kind: "fld input ''event_type'' = jtext (audit_event_type_text kind)"
    and keys: "hasExactKeys input (map js (eventInputKeys kind))"
    and opts: "js_isPlainObject options \<and> hasExactKeys options [js ''observed_at''] \<and> js_isString (fld options ''observed_at'')"
    and q: "parseCanonicalUtcTimestamp (as_str (fld options ''observed_at'')) = Some q"
    and s: "js_stringify_parse rt input = Some s"
    and rec: "record_event rt kind s (as_str (fld options ''observed_at'')) q = Inr e"
    by (auto simp: createAuditEventV1_def audit_input_failure_def av_failure_def event_type_of_Some
        split: option.splits if_splits)
  have obs: "observed_options options (as_str (fld options ''observed_at''))"
    using opts by (auto simp: observed_options_def js_isString_iff)
  from rec obtain d x where d: "verifySourceChain rt kind s = ChainVerified d"
    and x: "parseCanonicalUtcTimestamp (as_str (eventAt kind s)) = Some x" "x \<le> q"
    and e: "event_of rt kind s d (as_str (fld options ''observed_at'')) e"
    by (auto simp: record_event_def audit_hash_failure_def av_failure_def identify_event_eq
        split: chain_result.splits option.splits if_splits)
  from verified_rebuilt [OF d] obtain r a where "rebuilt rt kind s d r a" .
  then show ?thesis using that kind keys s obs q x e by blast
qed

lemma create_audit_eq:
  assumes "js_isPlainObject input" and "fld input ''event_type'' = jtext (audit_event_type_text kind)"
    and "hasExactKeys input (map js (eventInputKeys kind))"
    and "observed_options options observed" and "parseCanonicalUtcTimestamp observed = Some q"
    and "js_stringify_parse rt input = Some s"
  shows "createAuditEventV1 rt input options = record_event rt kind s observed q"
  using assms by (simp add: createAuditEventV1_def observed_options_def event_type_of_Some [THEN iffD2, OF refl])

lemma source_copy:
  assumes "genuine rt kind p d r a" and "js_wf p" and "sha256_available rt"
  obtains s c where "js_stringify_parse rt (source_input kind p (policy_decision_object d) r a) = Some s"
    and "js_snapshot (source_input kind p (policy_decision_object d) r a) s" and "canonicalizeJson s = Some c"
    and "js_data s" and "js_wf s"
proof -
  let ?i = "source_input kind p (policy_decision_object d) r a"
  from assms(1) obtain options where d: "decidePacketEnvelopePolicyV1 rt p options = Inr d" by (auto simp: genuine_def)
  from decide_InrD [OF d assms(2)] obtain x where x: "packet_shape p x" "packet_rules x" by blast
  have p: "js_data p" by (rule packet_data [OF x assms(2)])
  have r: "js_data r \<and> js_wf r" if "kind \<noteq> PolicyDecisionRecorded" using genuine_request [OF assms that] by blast
  have a: "js_data a \<and> js_wf a" if kind: "kind = ApprovalDecisionRecorded"
    using assms(1) kind r decide_request_again(3,4) by (auto simp: genuine_def)
  note data = source_data [OF p assms(2) policy_object_data [OF d assms(2,3)] policy_object_wf [OF d assms(2)] r a]
  obtain j where j: "jsonable ?i j" "json_ok j" using data by (rule js_data_json)
  then obtain s where s: "js_stringify_parse rt ?i = Some s" "js_snapshot ?i s"
    using stringify_parse_snapshot [of ?i j rt] by blast
  from snapshot_content [OF s(2) j(1)] obtain k where "jsonable s k" by blast
  with approval_text.canon_plain [OF snapshot_is_plain [OF s(2)]] s that snapshot_data [OF s(2) data(1)] snapshot_wf [OF s(2) data(2)]
  show ?thesis by blast
qed

text \<open>The identity an event is about, and the key it is recorded under.\<close>

lemma event_key:
  assumes "genuine rt kind p d r a" and "js_wf p" and "sha256_available rt"
    and "js_snapshot (source_input kind p (policy_decision_object d) r a) s"
  obtains i where "idempotencyKeyText (js ''audit:'' @ js (audit_event_type_text kind) @ js '':'' @ i)"
    and "\<And>h obs rest. fld (obj (auditEventBody kind s (policy_decision_object d) h obs @ rest)) ''idempotency_key''
      = JStr (js ''audit:'' @ js (audit_event_type_text kind) @ js '':'' @ i)"
proof -
  note texts = genuine_texts [OF assms]
  from assms(1) obtain options where d: "decidePacketEnvelopePolicyV1 rt p options = Inr d" by (auto simp: genuine_def)
  show ?thesis
  proof (cases kind)
    case PolicyDecisionRecorded
    from policy_decision_facts(2) [OF d assms(2,3)] have "rx_hex64 ''pol_'' (pd_decision_id d)"
      using hex64 [OF assms(3)] by auto
    from key_text [of "''pol''", simplified, OF this, of kind] that [of "pd_decision_id d"] show ?thesis
      by (simp add: PolicyDecisionRecorded auditEventBody_def Let_def fld_obj js_optional_def js_nullish_def
          decision_object_fields source_fields)
  next
    case ApprovalRequestRecorded
    note t = texts(1) [unfolded ApprovalRequestRecorded, simplified, folded ApprovalRequestRecorded]
    obtain i where i: "fld r ''approval_request_id'' = JStr i" "rx_hex64 ''apr_'' i"
      using genuine_request(1) [OF assms(1-3)] ApprovalRequestRecorded
      by (auto simp: isApprovalRequestV1_def text_ok_iff requestIdPattern_def)
    have "fld s ''approval_request'' \<noteq> JNull" "fld s ''approval_request'' \<noteq> JUndef"
      "fld (fld s ''approval_request'') ''approval_request_id'' = JStr i"
      using t i(1) by (auto simp: text_fields_of_def request_texts_def)
    with key_text [of "''apr''", simplified, OF i(2), of kind] that [of i] i(1) show ?thesis
      by (simp add: ApprovalRequestRecorded auditEventBody_def Let_def fld_obj js_optional_def js_nullish_def source_fields)
  next
    case ApprovalDecisionRecorded
    from assms(1) ApprovalDecisionRecorded obtain human where a: "decideApprovalRequestV1 rt r human = Inr a"
      by (auto simp: genuine_def)
    have wf: "js_wf r" using genuine_request(2) [OF assms(1-3)] ApprovalDecisionRecorded by simp
    note t = texts(2) [OF ApprovalDecisionRecorded]
    obtain i where i: "fld a ''approval_decision_id'' = JStr i"
      using t by (auto simp: text_fields_of_def decision_texts_def js_isString_iff)
    then have "rx_hex64 ''apd_'' i" using decided_request_facts(3) [OF a wf assms(3)] by simp
    moreover have "fld s ''approval_decision'' \<noteq> JNull" "fld s ''approval_decision'' \<noteq> JUndef"
      "fld (fld s ''approval_decision'') ''approval_decision_id'' = JStr i"
      using t i by (auto simp: text_fields_of_def decision_texts_def)
    ultimately show ?thesis using key_text [of "''apd''", simplified, of i kind] that [of i] i
      by (simp add: ApprovalDecisionRecorded auditEventBody_def Let_def fld_obj js_optional_def js_nullish_def source_fields)
  qed
qed

lemma genuine_event:
  assumes "genuine rt kind p d r a" and "js_wf p" and "sha256_available rt"
    and "js_snapshot (source_input kind p (policy_decision_object d) r a) s" and "canonicalizeJson s = Some c"
  obtains e where "event_of rt kind s d observed e"
proof -
  note texts = genuine_texts [OF assms(1-4)]
  obtain ev where ev: "sha256_hex rt c = Some ev" using sha256_availableD [OF assms(3), of c] by blast
  obtain t where t: "canonicalizeJson (obj (auditEventBody kind s (policy_decision_object d) (js ''sha256:'' @ ev) observed)) = Some t"
    using event_body_text [of kind s d "js ''sha256:'' @ ev" observed] texts plain_data_text
    by (fastforce simp: plain_data_def)
  obtain hex where "sha256_hex rt t = Some hex" using sha256_availableD [OF assms(3), of t] by blast
  then show ?thesis using that assms(5) ev t by (auto simp: event_of_def)
qed

lemma event_of_id:
  assumes "event_of rt kind s d observed e"
  obtains c ev t hex where "canonicalizeJson s = Some c" and "sha256_hex rt c = Some ev"
    and "canonicalizeJson (obj (auditEventBody kind s (policy_decision_object d) (js ''sha256:'' @ ev) observed)) = Some t"
    and "sha256_hex rt t = Some hex" and "fld e ''event_id'' = JStr (js ''aud_'' @ hex)"
    and "e = obj (auditEventBody kind s (policy_decision_object d) (js ''sha256:'' @ ev) observed
           @ [(''event_id'', JStr (js ''aud_'' @ hex))])"
  using assms by (auto simp: event_of_def auditEventBody_def Let_def fld_obj)

section \<open>Properties\<close>

text \<open>
  C22. Genuine evidence can be recorded: on what the policy and approval components returned for a
  packet, with an observation that does not precede the event, an event is created, and its key
  and id form an entry that idempotent appending accepts. An earlier observation is refused.
\<close>

theorem chain_is_auditable:
  assumes "genuine rt kind p d r a" and "js_wf p" and "sha256_available rt"
    and "observed_options options observed" and "parseCanonicalUtcTimestamp observed = Some q"
    and "parseCanonicalUtcTimestamp (as_str (eventAt kind (source_input kind p (policy_decision_object d) r a))) = Some x"
  shows "if q < x
    then createAuditEventV1 rt (source_input kind p (policy_decision_object d) r a) options
      = av_failure AV_observed_before_event ''/observed_at'' ''Audit observation cannot precede its source event.''
    else \<exists>e. createAuditEventV1 rt (source_input kind p (policy_decision_object d) r a) options = Inr e
      \<and> isAuditEventV1IdempotencyRef
          (obj [(''idempotency_key'', fld e ''idempotency_key''), (''event_id'', fld e ''event_id'')])"
proof -
  let ?i = "source_input kind p (policy_decision_object d) r a"
  obtain s c where s: "js_stringify_parse rt ?i = Some s" "js_snapshot ?i s" "canonicalizeJson s = Some c"
    using source_copy [OF assms(1-3)] by metis
  have plain: "js_isPlainObject ?i" by (simp add: source_input_def)
  have time: "parseCanonicalUtcTimestamp (as_str (eventAt kind s)) = Some x"
    using genuine_texts(3) [OF assms(1-3) s(2)] assms(6) by auto
  have run: "createAuditEventV1 rt ?i options = (if q < x
      then av_failure AV_observed_before_event ''/observed_at'' ''Audit observation cannot precede its source event.''
      else identify_event rt kind s d observed)"
    unfolding create_audit_eq [OF plain source_fields(1) source_keys assms(4,5) s(1)] record_event_def
      chain_verified [OF assms(1-3) s(2)] using time by simp
  obtain e where e: "event_of rt kind s d observed e" by (rule genuine_event [OF assms(1-3) s(2,3)])
  obtain h t hex where id: "sha256_hex rt t = Some hex" "fld e ''event_id'' = JStr (js ''aud_'' @ hex)"
    and body: "e = obj (auditEventBody kind s (policy_decision_object d) h observed @ [(''event_id'', JStr (js ''aud_'' @ hex))])"
    using e by (rule event_of_id)
  obtain k where k: "idempotencyKeyText k" "fld e ''idempotency_key'' = JStr k"
    using event_key [OF assms(1-3) s(2)] body by metis
  have "isAuditEventV1IdempotencyRef (ref_object \<lparr>ir_idempotency_key = k, ir_event_id = js ''aud_'' @ hex\<rparr>)"
    using k(1) hex64 [OF assms(3) id(1)] by (simp add: ref_object_valid valid_ref_def eventIdText_def)
  then have "isAuditEventV1IdempotencyRef (obj [(''idempotency_key'', fld e ''idempotency_key''), (''event_id'', fld e ''event_id'')])"
    by (simp add: ref_object_def k(2) id(2))
  with e run show ?thesis by (auto simp: identify_event_eq [symmetric])
qed

text \<open>
  C10. An event rests on evidence that was rebuilt: its input is a copy of a packet, a policy decision
  and the approval records that the policy and approval components produce again from that packet,
  record for record with the same canonical text; the event names that decision and packet, it was
  not observed before it happened, and it authorizes nothing.
\<close>

theorem audit_event_rests_on_evidence:
  assumes "createAuditEventV1 rt input options = Inr e"
  shows "\<exists>kind s d r a observed q x.
    fld input ''event_type'' = jtext (audit_event_type_text kind) \<and> js_stringify_parse rt input = Some s
    \<and> rebuilt rt kind s d r a
    \<and> observed_options options observed \<and> parseCanonicalUtcTimestamp observed = Some q
    \<and> parseCanonicalUtcTimestamp (as_str (fld e ''event_at'')) = Some x \<and> x \<le> q
    \<and> fld e ''event_type'' = jtext (audit_event_type_text kind) \<and> fld e ''observed_at'' = JStr observed
    \<and> fld (fld e ''policy_ref'') ''decision_id'' = JStr (pd_decision_id d)
    \<and> fld (fld e ''packet_ref'') ''packet_hash'' = JStr (pd_packet_hash d)
    \<and> fld e ''execution_authorized'' = JBool False \<and> fld e ''persistence_requested'' = JBool False"
proof -
  obtain kind s d observed q x r a where
    c: "fld input ''event_type'' = jtext (audit_event_type_text kind)" "hasExactKeys input (map js (eventInputKeys kind))"
    "js_stringify_parse rt input = Some s"
    "rebuilt rt kind s d r a" "observed_options options observed" "parseCanonicalUtcTimestamp observed = Some q"
    "parseCanonicalUtcTimestamp (as_str (eventAt kind s)) = Some x" "x \<le> q"
    and e: "event_of rt kind s d observed e" using assms by (rule create_audit_InrD)
  obtain h i where "e = obj (auditEventBody kind s (policy_decision_object d) h observed @ [(''event_id'', i)])"
    using e by (rule event_of_id)
  then have "as_str (fld e ''event_at'') = as_str (eventAt kind s)" "fld e ''event_type'' = jtext (audit_event_type_text kind)"
    "fld e ''observed_at'' = JStr observed" "fld (fld e ''policy_ref'') ''decision_id'' = JStr (pd_decision_id d)"
    "fld (fld e ''packet_ref'') ''packet_hash'' = JStr (pd_packet_hash d)"
    "fld e ''execution_authorized'' = JBool False" "fld e ''persistence_requested'' = JBool False"
    by (simp_all add: auditEventBody_def Let_def fld_obj decision_object_fields)
  with c have "parseCanonicalUtcTimestamp (as_str (fld e ''event_at'')) = Some x" by simp
  with c \<open>fld e ''event_type'' = _\<close> \<open>fld e ''observed_at'' = _\<close> \<open>fld (fld e ''policy_ref'') _ = _\<close>
    \<open>fld (fld e ''packet_ref'') _ = _\<close> \<open>fld e ''execution_authorized'' = _\<close> \<open>fld e ''persistence_requested'' = _\<close>
  show ?thesis by blast
qed

lemma genuine_event_data:
  assumes "genuine rt kind p d r a" and "js_wf p" and "sha256_available rt"
    and "createAuditEventV1 rt (source_input kind p (policy_decision_object d) r a) options = Inr e"
  obtains s c ev observed t hex where "js_stringify_parse rt (source_input kind p (policy_decision_object d) r a) = Some s"
    and "canonicalizeJson s = Some c" and "sha256_hex rt c = Some ev" and "js_data s" and "js_wf s"
    and "plain_data (obj (auditEventBody kind s (policy_decision_object d) (js ''sha256:'' @ ev) observed))"
    and "canonicalizeJson (obj (auditEventBody kind s (policy_decision_object d) (js ''sha256:'' @ ev) observed)) = Some t"
    and "sha256_hex rt t = Some hex"
    and "e = obj (auditEventBody kind s (policy_decision_object d) (js ''sha256:'' @ ev) observed
           @ [(''event_id'', JStr (js ''aud_'' @ hex))])"
proof -
  let ?i = "source_input kind p (policy_decision_object d) r a"
  obtain s where s: "js_stringify_parse rt ?i = Some s" "js_snapshot ?i s" "js_data s" "js_wf s"
    using source_copy [OF assms(1-3)] by metis
  from create_audit_InrD [OF assms(4)] obtain observed q where
    o: "observed_options options observed" "parseCanonicalUtcTimestamp observed = Some q" by blast
  have plain: "js_isPlainObject ?i" by (simp add: source_input_def)
  have "record_event rt kind s observed q = Inr e"
    using assms(4) create_audit_eq [OF plain source_fields(1) source_keys o s(1)] by simp
  then have "event_of rt kind s d observed e"
    by (auto simp: record_event_def chain_verified [OF assms(1-3) s(2)] identify_event_eq av_failure_def
        split: option.splits if_splits)
  then obtain c ev t hex where e: "canonicalizeJson s = Some c" "sha256_hex rt c = Some ev"
    "canonicalizeJson (obj (auditEventBody kind s (policy_decision_object d) (js ''sha256:'' @ ev) observed)) = Some t"
    "sha256_hex rt t = Some hex"
    "e = obj (auditEventBody kind s (policy_decision_object d) (js ''sha256:'' @ ev) observed
           @ [(''event_id'', JStr (js ''aud_'' @ hex))])"
    by (rule event_of_id)
  have "plain_data (obj (auditEventBody kind s (policy_decision_object d) (js ''sha256:'' @ ev) observed))"
    by (rule event_body_text) (use genuine_texts [OF assms(1-3) s(2)] in auto)
  from that [OF s(1) e(1,2) s(3,4) this e(3-5)] show ?thesis .
qed

text \<open>
  The identity of an event binds its evidence: two events recorded from genuine chains under one
  \<open>event_id\<close> have inputs with the same content, packets included, or SHA-256 maps two different
  texts to one digest, the canonical texts of the two events or of the two inputs.
\<close>

theorem event_id_binds_evidence:
  assumes "genuine rt kind p d r a" and "js_wf p" and "genuine rt kind' p' d' r' a'" and "js_wf p'"
    and "sha256_available rt"
    and "createAuditEventV1 rt (source_input kind p (policy_decision_object d) r a) options = Inr e"
    and "createAuditEventV1 rt (source_input kind' p' (policy_decision_object d') r' a') options' = Inr e'"
    and "fld e ''event_id'' = fld e' ''event_id''"
  shows "\<exists>s s' c c' body body' t t'.
    js_stringify_parse rt (source_input kind p (policy_decision_object d) r a) = Some s \<and> canonicalizeJson s = Some c
    \<and> js_stringify_parse rt (source_input kind' p' (policy_decision_object d') r' a') = Some s' \<and> canonicalizeJson s' = Some c'
    \<and> e = obj (body @ [(''event_id'', fld e ''event_id'')]) \<and> canonicalizeJson (obj body) = Some t
    \<and> e' = obj (body' @ [(''event_id'', fld e ''event_id'')]) \<and> canonicalizeJson (obj body') = Some t'
    \<and> (same_content s s' \<or> digest_collision rt (utf8_encode c) (utf8_encode c')
        \<or> digest_collision rt (utf8_encode t) (utf8_encode t'))"
proof -
  obtain s c ev observed t hex where s: "js_stringify_parse rt (source_input kind p (policy_decision_object d) r a) = Some s"
    "canonicalizeJson s = Some c" "sha256_hex rt c = Some ev" "js_data s" "js_wf s"
    and b: "plain_data (obj (auditEventBody kind s (policy_decision_object d) (js ''sha256:'' @ ev) observed))"
    "canonicalizeJson (obj (auditEventBody kind s (policy_decision_object d) (js ''sha256:'' @ ev) observed)) = Some t"
    "sha256_hex rt t = Some hex"
    "e = obj (auditEventBody kind s (policy_decision_object d) (js ''sha256:'' @ ev) observed
           @ [(''event_id'', JStr (js ''aud_'' @ hex))])"
    using assms(1,2,5,6) by (rule genuine_event_data)
  obtain s' c' ev' observed' t' hex' where
    s': "js_stringify_parse rt (source_input kind' p' (policy_decision_object d') r' a') = Some s'"
    "canonicalizeJson s' = Some c'" "sha256_hex rt c' = Some ev'" "js_data s'" "js_wf s'"
    and b': "plain_data (obj (auditEventBody kind' s' (policy_decision_object d') (js ''sha256:'' @ ev') observed'))"
    "canonicalizeJson (obj (auditEventBody kind' s' (policy_decision_object d') (js ''sha256:'' @ ev') observed')) = Some t'"
    "sha256_hex rt t' = Some hex'"
    "e' = obj (auditEventBody kind' s' (policy_decision_object d') (js ''sha256:'' @ ev') observed'
           @ [(''event_id'', JStr (js ''aud_'' @ hex'))])"
    using assms(3,4,5,7) by (rule genuine_event_data)
  let ?body = "auditEventBody kind s (policy_decision_object d) (js ''sha256:'' @ ev) observed"
  let ?body' = "auditEventBody kind' s' (policy_decision_object d') (js ''sha256:'' @ ev') observed'"
  have ids: "fld e ''event_id'' = JStr (js ''aud_'' @ hex)" "fld e' ''event_id'' = JStr (js ''aud_'' @ hex')"
    by (simp_all add: b(4) b'(4) auditEventBody_def Let_def fld_obj)
  then have hex: "hex' = hex" using assms(8) by simp
  have keys: "distinct (map fst ?body)" "map fst ?body' = map fst ?body" by (simp_all add: auditEventBody_def Let_def)
  have "ev' = ev" if "same_content (obj ?body) (obj ?body')"
    using same_content_fields [OF that keys] by (simp add: auditEventBody_def Let_def)
  with approval_text.canon_digest_binds [OF b(2) b'(2) b(3)] approval_text.canon_digest_binds [OF s(2) s'(2) s(3)]
    b(1,3) b'(1,3) s s' hex
  have "same_content s s' \<or> digest_collision rt (utf8_encode c) (utf8_encode c')
      \<or> digest_collision rt (utf8_encode t) (utf8_encode t')"
    by (auto simp: plain_data_def)
  then show ?thesis using s(1,2) s'(1,2) b(2,4) b'(2,4) ids hex by (intro exI conjI) auto
qed

text \<open>The sample chain, recorded as an approval decision.\<close>

definition sample_observed :: jsval where
  "sample_observed = obj [(''observed_at'', jtext ''2026-01-02T03:04:08Z'')]"

lemma sample_event:
  obtains d r a e where "genuine sample_runtime ApprovalDecisionRecorded sample_packet d r a"
    and "observed_options sample_observed (js ''2026-01-02T03:04:08Z'')"
    and "parseCanonicalUtcTimestamp (as_str (eventAt ApprovalDecisionRecorded
          (source_input ApprovalDecisionRecorded sample_packet (policy_decision_object d) r a))) = Some 1767323048000"
proof -
  obtain d r a where c: "decidePacketEnvelopePolicyV1 sample_runtime sample_packet sample_options = Inr d"
    "createApprovalRequestV1 sample_runtime (policy_decision_object d) sample_request_options = Inr r"
    "decideApprovalRequestV1 sample_runtime r sample_human_options = Inr a" by (rule sample_chain)
  have g: "genuine sample_runtime ApprovalDecisionRecorded sample_packet d r a" using c by (auto simp: genuine_def)
  have wf: "js_wf r" using genuine_request(2) [OF g sample_wf sample_runtime_available] by simp
  have opts: "observed_options sample_observed (js ''2026-01-02T03:04:08Z'')"
    using obj_exact_keys [of "[(''observed_at'', jtext ''2026-01-02T03:04:08Z'')]" "[''observed_at'']"]
    by (simp add: observed_options_def sample_observed_def fld_obj jtext_def)
  from decide_request_InrD [OF c(3) wf] obtain i where "a = approval_decision_object r sample_human_options i"
    by (auto simp: decide_bound_request_def decision_hash_failure_def ae_failure_def split: option.splits if_splits)
  then have "fld a ''decided_at'' = fld sample_human_options ''decided_at''" by (simp add: approval_decision_object_def fld_obj)
  with that g opts sample_human_time show ?thesis by (simp add: eventAt_def source_fields)
qed

theorem chain_is_auditable_witness:
  "\<exists>d r a e. genuine sample_runtime ApprovalDecisionRecorded sample_packet d r a
    \<and> createAuditEventV1 sample_runtime
        (source_input ApprovalDecisionRecorded sample_packet (policy_decision_object d) r a) sample_observed = Inr e
    \<and> isAuditEventV1IdempotencyRef
        (obj [(''idempotency_key'', fld e ''idempotency_key''), (''event_id'', fld e ''event_id'')])"
proof -
  obtain d r a where s: "genuine sample_runtime ApprovalDecisionRecorded sample_packet d r a"
    "observed_options sample_observed (js ''2026-01-02T03:04:08Z'')"
    "parseCanonicalUtcTimestamp (as_str (eventAt ApprovalDecisionRecorded
          (source_input ApprovalDecisionRecorded sample_packet (policy_decision_object d) r a))) = Some 1767323048000"
    by (rule sample_event)
  from chain_is_auditable [OF s(1) sample_wf sample_runtime_available s(2) sample_decided s(3)] s(1)
  show ?thesis by auto
qed

lemma sample_recorded:
  obtains d r a e where "genuine sample_runtime ApprovalDecisionRecorded sample_packet d r a"
    and "createAuditEventV1 sample_runtime
        (source_input ApprovalDecisionRecorded sample_packet (policy_decision_object d) r a) sample_observed = Inr e"
proof -
  obtain d r a where g: "genuine sample_runtime ApprovalDecisionRecorded sample_packet d r a"
    "observed_options sample_observed (js ''2026-01-02T03:04:08Z'')"
    "parseCanonicalUtcTimestamp (as_str (eventAt ApprovalDecisionRecorded
          (source_input ApprovalDecisionRecorded sample_packet (policy_decision_object d) r a))) = Some 1767323048000"
    by (rule sample_event)
  let ?i = "source_input ApprovalDecisionRecorded sample_packet (policy_decision_object d) r a"
  obtain s c where s: "js_stringify_parse sample_runtime ?i = Some s" "js_snapshot ?i s" "canonicalizeJson s = Some c"
    using source_copy [OF g(1) sample_wf sample_runtime_available] by metis
  obtain e where "event_of sample_runtime ApprovalDecisionRecorded s d (js ''2026-01-02T03:04:08Z'') e"
    by (rule genuine_event [OF g(1) sample_wf sample_runtime_available s(2,3)])
  moreover have "js_isPlainObject ?i" by (simp add: source_input_def)
  ultimately have "createAuditEventV1 sample_runtime ?i sample_observed = Inr e"
    using create_audit_eq [OF _ source_fields(1) source_keys g(2) sample_decided s(1)]
      genuine_texts(3) [OF g(1) sample_wf sample_runtime_available s(2)] g(3)
    by (auto simp: record_event_def chain_verified [OF g(1) sample_wf sample_runtime_available s(2)] identify_event_eq)
  with that g(1) show ?thesis by blast
qed

theorem audit_event_rests_on_evidence_witness:
  "\<exists>input e kind s d r a. createAuditEventV1 sample_runtime input sample_observed = Inr e
    \<and> js_stringify_parse sample_runtime input = Some s \<and> rebuilt sample_runtime kind s d r a"
proof -
  obtain d r a e where "createAuditEventV1 sample_runtime
        (source_input ApprovalDecisionRecorded sample_packet (policy_decision_object d) r a) sample_observed = Inr e"
    by (rule sample_recorded)
  from audit_event_rests_on_evidence [OF this] this show ?thesis by blast
qed

theorem event_id_binds_evidence_witness:
  "\<exists>d r a e s t t'. createAuditEventV1 sample_runtime
        (source_input ApprovalDecisionRecorded sample_packet (policy_decision_object d) r a) sample_observed = Inr e
    \<and> js_stringify_parse sample_runtime
        (source_input ApprovalDecisionRecorded sample_packet (policy_decision_object d) r a) = Some s
    \<and> (same_content s s \<or> digest_collision sample_runtime (utf8_encode t) (utf8_encode t'))"
proof -
  obtain d r a e where e: "genuine sample_runtime ApprovalDecisionRecorded sample_packet d r a"
    "createAuditEventV1 sample_runtime
        (source_input ApprovalDecisionRecorded sample_packet (policy_decision_object d) r a) sample_observed = Inr e"
    by (rule sample_recorded)
  from event_id_binds_evidence [OF e(1) sample_wf e(1) sample_wf sample_runtime_available e(2) e(2) refl]
  obtain s s' c c' t t' where s: "js_stringify_parse sample_runtime
        (source_input ApprovalDecisionRecorded sample_packet (policy_decision_object d) r a) = Some s"
    "js_stringify_parse sample_runtime
        (source_input ApprovalDecisionRecorded sample_packet (policy_decision_object d) r a) = Some s'"
    "same_content s s' \<or> digest_collision sample_runtime (utf8_encode c) (utf8_encode c')
        \<or> digest_collision sample_runtime (utf8_encode t) (utf8_encode t')" by blast
  then have "s' = s" by simp
  with s e(2) show ?thesis by blast
qed

section \<open>Full states\<close>

definition numbered_ref :: "nat \<Rightarrow> audit_idempotency_ref" where
  "numbered_ref n = (let hex = bytesToHex (replicate 30 0 @ [word_of_nat (n div 256), word_of_nat (n mod 256)])
     in \<lparr>ir_idempotency_key = js ''audit:'' @ js (audit_event_type_text PolicyDecisionRecorded) @ js '':'' @ (js ''pol_'' @ hex),
         ir_event_id = js ''aud_'' @ hex\<rparr>)"

lemma numbered_valid: "valid_ref (numbered_ref n)"
  using key_text [of "''pol''" _ PolicyDecisionRecorded, OF hex64_bytes [of _ "''pol'' @ ''_''"]] hex64_bytes [of _ "''aud_''"]
  by (simp add: valid_ref_def numbered_ref_def Let_def eventIdText_def)

lemma numbered_inject: "n < 65536 \<Longrightarrow> m < 65536 \<Longrightarrow> ir_idempotency_key (numbered_ref n) = ir_idempotency_key (numbered_ref m) \<Longrightarrow> n = m"
proof -
  assume n: "n < 65536" and m: "m < 65536" and same: "ir_idempotency_key (numbered_ref n) = ir_idempotency_key (numbered_ref m)"
  have byte: "word_of_nat x = (word_of_nat y :: byte) \<longleftrightarrow> x = y" if "x < 256" "y < 256" for x y
    using that by (simp add: word_of_nat_eq_iff take_bit_nat_eq_self)
  have "n div 256 < 256" "m div 256 < 256" using n m by auto
  then have "n div 256 = m div 256 \<and> n mod 256 = m mod 256"
    using same by (simp add: numbered_ref_def Let_def bytesToHex_inject byte)
  then show "n = m" by (metis div_mult_mod_eq)
qed

lemma numbered_distinct: "N \<le> 65536 \<Longrightarrow> distinct (map (\<lambda>n. ir_idempotency_key (numbered_ref n)) [0..<N])"
  by (auto simp: distinct_map inj_on_def intro!: numbered_inject)

lemma full_state: "ledger_state (map numbered_ref [0..<maximum_prior_entries])"
  using numbered_distinct [of maximum_prior_entries] numbered_valid
  by (simp add: ledger_state_def list_all_iff maximum_prior_entries_def comp_def)

section \<open>Appending\<close>

text \<open>
  C13. Idempotent appending implements a finite map from keys to event ids: on an accepted state, a new
  key is added and every other entry kept, a known key with the same event changes nothing, and a
  known key with another event is refused as a collision and is the only error.
\<close>

theorem appending_refines_map:
  assumes "ledger_state state" and "valid_ref candidate"
  shows "case evaluateAuditEventV1Idempotency (append_input state candidate) of
      Inr res \<Rightarrow> recorded (is_proposed_state res) = (recorded state)(ir_idempotency_key candidate \<mapsto> ir_event_id candidate)
        \<and> (case recorded state (ir_idempotency_key candidate) of
             None \<Rightarrow> is_outcome res = AppendProposed \<and> is_next_state_count res = is_previous_state_count res + 1
           | Some i \<Rightarrow> i = ir_event_id candidate \<and> is_outcome res = ExactReplay \<and> is_proposed_state res = state)
    | Inl e \<Rightarrow> ce_code e = AI_collision
        \<and> (\<exists>i. recorded state (ir_idempotency_key candidate) = Some i \<and> i \<noteq> ir_event_id candidate)"
proof -
  have run: "evaluateAuditEventV1Idempotency (append_input state candidate) = append_candidate state candidate"
    using assms by (simp add: append_input_eval ledger_state_def read_prior_objects)
  have new: "recorded (state @ [candidate]) = (recorded state)(ir_idempotency_key candidate \<mapsto> ir_event_id candidate)"
    if "recorded state (ir_idempotency_key candidate) = None"
    using that by (auto simp: recorded_def map_add_def fun_eq_iff split: option.splits)
  show ?thesis unfolding run append_candidate_eq
    by (auto simp: new createContractErrorV1_def split: option.splits)
qed

text \<open>
  C25. What every successful evaluation proposes, whatever its input: valid entries with distinct keys,
  at most one above the bound, the record under its key; and while the bound is kept, appending
  the same record to the proposed state is an exact replay that changes nothing.
\<close>

theorem proposed_state_invariant:
  assumes "evaluateAuditEventV1Idempotency input = Inr res"
  shows "list_all valid_ref (is_proposed_state res) \<and> distinct (map ir_idempotency_key (is_proposed_state res))
    \<and> is_next_state_count res = length (is_proposed_state res) \<and> is_next_state_count res \<le> maximum_prior_entries + 1
    \<and> recorded (is_proposed_state res) (ir_idempotency_key (is_record_ref res)) = Some (ir_event_id (is_record_ref res))
    \<and> (is_next_state_count res \<le> maximum_prior_entries \<longrightarrow>
         evaluateAuditEventV1Idempotency (append_input (is_proposed_state res) (is_record_ref res))
         = Inr \<lparr>is_outcome = ExactReplay, is_record_ref = is_record_ref res,
             is_previous_state_count = is_next_state_count res, is_next_state_count = is_next_state_count res,
             is_proposed_state = is_proposed_state res\<rparr>)"
proof -
  from evaluate_InrD [OF assms] obtain state candidate where
    s: "ledger_state state" "valid_ref candidate" "append_candidate state candidate = Inr res" .
  have added: "recorded (state @ [candidate]) (ir_idempotency_key candidate) = Some (ir_event_id candidate)"
    if "recorded state (ir_idempotency_key candidate) = None"
    using that by (auto simp: recorded_def map_add_def)
  have res: "is_record_ref res = candidate" "is_next_state_count res = length (is_proposed_state res)"
    "is_next_state_count res \<le> maximum_prior_entries + 1"
    "list_all valid_ref (is_proposed_state res)" "distinct (map ir_idempotency_key (is_proposed_state res))"
    "recorded (is_proposed_state res) (ir_idempotency_key candidate) = Some (ir_event_id candidate)"
    using s added by (auto simp: append_candidate_eq ledger_state_def recorded_None split: option.splits if_splits)
  then have "evaluateAuditEventV1Idempotency (append_input (is_proposed_state res) candidate)
      = append_candidate (is_proposed_state res) candidate" if "is_next_state_count res \<le> maximum_prior_entries"
    using that s(2) by (simp add: append_input_eval read_prior_objects)
  with res show ?thesis by (simp add: append_candidate_eq)
qed

theorem proposed_state_invariant_witness:
  "\<exists>res. evaluateAuditEventV1Idempotency (append_input [] (numbered_ref 1)) = Inr res
    \<and> list_all valid_ref (is_proposed_state res) \<and> distinct (map ir_idempotency_key (is_proposed_state res))
    \<and> is_next_state_count res = 1
    \<and> evaluateAuditEventV1Idempotency (append_input (is_proposed_state res) (is_record_ref res))
         = Inr \<lparr>is_outcome = ExactReplay, is_record_ref = is_record_ref res,
             is_previous_state_count = 1, is_next_state_count = 1, is_proposed_state = is_proposed_state res\<rparr>"
proof -
  obtain res where res: "evaluateAuditEventV1Idempotency (append_input [] (numbered_ref 1)) = Inr res"
    "is_next_state_count res = 1"
    by (simp add: append_input_eval numbered_valid append_candidate_eq recorded_def maximum_prior_entries_def)
  with proposed_state_invariant [OF res(1)] show ?thesis by (simp add: maximum_prior_entries_def)
qed

theorem appending_refines_map_witness:
  "ledger_state [numbered_ref 1] \<and> valid_ref (numbered_ref 2)
    \<and> (case evaluateAuditEventV1Idempotency (append_input [numbered_ref 1] (numbered_ref 2)) of
      Inr res \<Rightarrow> recorded (is_proposed_state res)
          = (recorded [numbered_ref 1])(ir_idempotency_key (numbered_ref 2) \<mapsto> ir_event_id (numbered_ref 2))
        \<and> is_outcome res = AppendProposed
    | Inl e \<Rightarrow> False)"
proof -
  have new: "recorded [numbered_ref 1] (ir_idempotency_key (numbered_ref 2)) = None"
    using numbered_inject [of 1 2] by (auto simp: recorded_None)
  have state: "ledger_state [numbered_ref 1]"
    by (simp add: ledger_state_def numbered_valid maximum_prior_entries_def)
  from appending_refines_map [OF this numbered_valid, of 2] new state show ?thesis
    by (auto simp: numbered_valid split: sum.splits)
qed

text \<open>
  C37. The boundary: a full state is accepted and a new key is appended to it, but the state this
  proposes has one entry too many, and every later evaluation of it is refused.
\<close>

theorem full_state_closes:
  assumes "ledger_state state" and "length state = maximum_prior_entries" and "valid_ref candidate"
    and "recorded state (ir_idempotency_key candidate) = None" and "valid_ref later"
  shows "\<exists>res. evaluateAuditEventV1Idempotency (append_input state candidate) = Inr res
    \<and> is_outcome res = AppendProposed
    \<and> evaluateAuditEventV1Idempotency (append_input (is_proposed_state res) later)
      = idempotencyFailure AI_invalid_prior_state (js ''/prior_state'')
          ''Prior state exceeds the bounded conformance limit.''"
  using assms by (simp add: append_input_eval ledger_state_def read_prior_objects append_candidate_eq)

theorem full_state_closes_witness:
  "\<exists>res. evaluateAuditEventV1Idempotency
      (append_input (map numbered_ref [0..<maximum_prior_entries]) (numbered_ref maximum_prior_entries)) = Inr res
    \<and> is_outcome res = AppendProposed
    \<and> evaluateAuditEventV1Idempotency (append_input (is_proposed_state res) (numbered_ref 0))
      = idempotencyFailure AI_invalid_prior_state (js ''/prior_state'')
          ''Prior state exceeds the bounded conformance limit.''"
proof (rule full_state_closes [OF full_state _ numbered_valid _ numbered_valid])
  show "recorded (map numbered_ref [0..<maximum_prior_entries]) (ir_idempotency_key (numbered_ref maximum_prior_entries)) = None"
    unfolding recorded_None maximum_prior_entries_def by (auto dest!: numbered_inject [rotated 2])
qed simp

end
