(* ===== verification/Mcp_Schema.thy ===== *)
theory Mcp_Schema
  imports Canonical Complex_Main
begin

text \<open>
  JSON schema security of the MCP package, \<open>packages/mcp/src/schema-security.ts\<close>: a schema handed in
  by a client is inspected before the validator runs on it. Sizes, nesting and the number of nodes
  are bounded, references must be local and end after few hops, regular expressions are refused.

  Schemas and values are unknown JavaScript values without sharing, so the object a reference leads
  to is identified by its location, the list of keys from the root; \<open>seen\<close> holds locations. The
  validator (\<open>@cfworker/json-schema\<close>) and the clock around its call are parameters, the fields of
  \<open>schema_runtime\<close>; \<open>None\<close> is a validator that throws. Big integers, on which \<open>JSON.stringify\<close> throws, are left aside.
\<close>

section \<open>Contract\<close>

definition MCP_JSON_SCHEMA_URI :: jstr where
  "MCP_JSON_SCHEMA_URI = js ''https://json-schema.org/draft/2020-12/schema''"

definition MCP_SCHEMA_MAX_DOCUMENT_BYTES :: nat where
  "MCP_SCHEMA_MAX_DOCUMENT_BYTES = 262144"

definition MCP_SCHEMA_MAX_DEPTH :: nat where
  "MCP_SCHEMA_MAX_DEPTH = 64"

definition MCP_SCHEMA_MAX_REF_DEPTH :: nat where
  "MCP_SCHEMA_MAX_REF_DEPTH = 32"

definition MCP_SCHEMA_MAX_NODES :: nat where
  "MCP_SCHEMA_MAX_NODES = 25000"

definition MCP_SCHEMA_MAX_VALIDATION_MS :: real where
  "MCP_SCHEMA_MAX_VALIDATION_MS = 250"

definition MCP_SCHEMA_MAX_VALUE_BYTES :: nat where
  "MCP_SCHEMA_MAX_VALUE_BYTES = 1048576"

datatype schema_error_code =
    SE_invalid_json_value | SE_document_too_large | SE_too_deep | SE_too_many_nodes | SE_wrong_draft
  | SE_input_root_not_object | SE_external_ref_forbidden | SE_invalid_local_ref | SE_ref_depth_exceeded
  | SE_regex_forbidden | SE_value_too_large | SE_validation_timeout | SE_validation_failed

text \<open>The three optional fields of an error are present together.\<close>

record schema_error_place =
  se_keyword :: jstr
  se_instance_location :: jstr
  se_schema_location :: jstr

record schema_error =
  se_code :: schema_error_code
  se_message :: string
  se_place :: "schema_error_place option"

record schema_accepted =
  sa_document_bytes :: nat
  sa_value_bytes :: "nat option"
  sa_validation_ms :: "real option"

definition schemaFailure :: "schema_error_code \<Rightarrow> string \<Rightarrow> schema_error + 'r" where
  "schemaFailure code message = Inl \<lparr>se_code = code, se_message = message, se_place = None\<rparr>"

definition serializeJson :: "jsval \<Rightarrow> jstr option" where
  "serializeJson value = js_stringify value"

definition byteLength :: "jstr \<Rightarrow> nat" where
  "byteLength text = length (utf8_encode text)"

section \<open>Structure\<close>

text \<open>One entry of a plain object: the references it adds, or the failure it causes.\<close>

definition inspect_entry :: "bool \<Rightarrow> jstr \<times> jsval \<Rightarrow> schema_error + jstr list" where
  "inspect_entry collectRefs = (\<lambda>(key, value).
     if collectRefs \<and> key = js ''$ref'' \<and> (\<not> js_isString value \<or> \<not> js_startsWith (as_str value) (js ''#''))
     then schemaFailure SE_external_ref_forbidden ''External schema references are forbidden.''
     else if collectRefs \<and> (key = js ''pattern'' \<or> key = js ''patternProperties'')
     then schemaFailure SE_regex_forbidden ''Dynamic schema regular expressions are forbidden.''
     else Inr (if collectRefs \<and> key = js ''$ref'' then [as_str value] else []))"

fun inspect_entries :: "bool \<Rightarrow> (jstr \<times> jsval) list \<Rightarrow> schema_error + jstr list" where
  "inspect_entries collectRefs [] = Inr []"
| "inspect_entries collectRefs (entry # rest) =
     bind_result (inspect_entry collectRefs entry) (\<lambda>refs.
     bind_result (inspect_entries collectRefs rest) (\<lambda>others. Inr (refs @ others)))"

text \<open>Values that are neither an array nor a plain object and still JSON.\<close>

fun json_scalar :: "jsval \<Rightarrow> bool" where
  "json_scalar JUndef = False"
| "json_scalar JOther = False"
| "json_scalar (JNum n) = num_isFinite n"
| "json_scalar (JArr vs) = False"
| "json_scalar (JObj p fs) = False"
| "json_scalar v = True"

text \<open>
  The loop: the head of the list is the top of the stack, so the last child of a value is popped
  first. It ends because it counts the nodes it pops.
\<close>

function (sequential) inspect_loop :: "bool \<Rightarrow> nat \<Rightarrow> jstr list \<Rightarrow> (jsval \<times> nat) list \<Rightarrow> schema_error + jstr list" where
  "inspect_loop collectRefs nodes refs [] = Inr refs"
| "inspect_loop collectRefs nodes refs ((value, depth) # stack) =
     (if nodes + 1 > MCP_SCHEMA_MAX_NODES
      then schemaFailure SE_too_many_nodes ''JSON node count exceeds limit.''
      else if depth > MCP_SCHEMA_MAX_DEPTH
      then schemaFailure SE_too_deep ''JSON nesting exceeds limit.''
      else (case value of
          JArr vs \<Rightarrow> inspect_loop collectRefs (nodes + 1) refs (rev (map (\<lambda>v. (v, depth + 1)) vs) @ stack)
        | JObj True fs \<Rightarrow>
            (case inspect_entries collectRefs fs of
               Inl failure \<Rightarrow> Inl failure
             | Inr added \<Rightarrow> inspect_loop collectRefs (nodes + 1) (refs @ added)
                 (rev (map (\<lambda>(k, v). (v, depth + 1)) fs) @ stack))
        | _ \<Rightarrow> if \<not> json_scalar value then schemaFailure SE_invalid_json_value ''Value must contain only JSON.''
               else inspect_loop collectRefs (nodes + 1) refs stack))"
  by pat_completeness auto
termination
  by (relation "measure (\<lambda>(collectRefs, nodes, refs, stack). MCP_SCHEMA_MAX_NODES + 1 - nodes)") auto

definition inspectStructure :: "jsval \<Rightarrow> bool \<Rightarrow> schema_error + jstr list" where
  "inspectStructure rootValue collectRefs = inspect_loop collectRefs 0 [] [(rootValue, 0)]"

section \<open>References\<close>

text \<open>\<open>text.replace(/ab/g, c)\<close> for a pattern of two units\<close>

fun replace_pair :: "code_unit \<Rightarrow> code_unit \<Rightarrow> code_unit \<Rightarrow> jstr \<Rightarrow> jstr" where
  "replace_pair a b c (x # y # s) =
     (if x = a \<and> y = b then c # replace_pair a b c s else x # replace_pair a b c (y # s))"
| "replace_pair a b c s = s"

text \<open>\<open>~\<close> is 126, \<open>/\<close> is 47, \<open>0\<close> and \<open>1\<close> are 48 and 49.\<close>

definition unescape_part :: "jstr \<Rightarrow> jstr" where
  "unescape_part rawPart = replace_pair 126 48 126 (replace_pair 126 49 47 rawPart)"

text \<open>
  One step into a value, \<open>None\<close> where the source returns \<open>undefined\<close> early: the own properties of
  an array are its indices and \<open>length\<close>.
\<close>

fun own_member :: "jsval \<Rightarrow> jstr \<Rightarrow> jsval option" where
  "own_member (JObj True fs) part = map_of fs part"
| "own_member (JArr vs) part =
     (if part = js ''length'' then Some (JNum (NInt (int (length vs))))
      else map_option (\<lambda>i. vs ! i) (find (\<lambda>i. show_nat i = part) [0..<length vs]))"
| "own_member _ part = None"

fun walk_parts :: "jsval \<Rightarrow> jstr list \<Rightarrow> jsval" where
  "walk_parts cursor [] = cursor"
| "walk_parts cursor (part # parts) =
     (case own_member cursor part of None \<Rightarrow> JUndef | Some v \<Rightarrow> walk_parts v parts)"

text \<open>The location a reference names, if it has the form of one.\<close>

definition pointer_parts :: "jstr \<Rightarrow> jstr list option" where
  "pointer_parts ref =
     (if ref = js ''#'' then Some []
      else if \<not> js_startsWith ref (js ''#/'') then None
      else Some (map unescape_part (split_unit 47 (drop 2 ref))))"

definition resolveJsonPointer :: "jsval \<Rightarrow> jstr \<Rightarrow> jsval" where
  "resolveJsonPointer rootValue ref = (case pointer_parts ref of None \<Rightarrow> JUndef | Some parts \<Rightarrow> walk_parts rootValue parts)"

text \<open>The inner loop, with the location of the cursor for its identity.\<close>

definition is_ref :: "jsval \<Rightarrow> bool" where
  "is_ref cursor \<longleftrightarrow> js_isPlainObject cursor \<and> js_isString (fld cursor ''$ref'')"

definition ref_text :: "jsval \<Rightarrow> jstr" where
  "ref_text cursor = as_str (fld cursor ''$ref'')"

function follow_reference :: "jsval \<Rightarrow> nat \<Rightarrow> jstr list list \<Rightarrow> jstr list option \<Rightarrow> schema_error option" where
  "follow_reference rootValue depth seen place =
     (let cursor = (case place of None \<Rightarrow> JUndef | Some parts \<Rightarrow> walk_parts rootValue parts) in
      if cursor = JUndef then Some \<lparr>se_code = SE_invalid_local_ref, se_message = ''Local schema reference is invalid.'', se_place = None\<rparr>
      else if \<not> is_ref cursor then None
      else if depth + 1 > MCP_SCHEMA_MAX_REF_DEPTH \<or> the place \<in> set seen
      then Some \<lparr>se_code = SE_ref_depth_exceeded, se_message = ''Local schema reference depth exceeds limit.'', se_place = None\<rparr>
      else if \<not> js_startsWith (ref_text cursor) (js ''#'')
      then Some \<lparr>se_code = SE_external_ref_forbidden, se_message = ''External schema references are forbidden.'', se_place = None\<rparr>
      else follow_reference rootValue (depth + 1) (the place # seen) (pointer_parts (ref_text cursor)))"
  by pat_completeness auto
termination
  by (relation "measure (\<lambda>(rootValue, depth, seen, place). MCP_SCHEMA_MAX_REF_DEPTH - depth)") auto

declare follow_reference.simps [simp del]

fun inspectLocalReferences :: "jsval \<Rightarrow> jstr list \<Rightarrow> schema_error option" where
  "inspectLocalReferences rootValue [] = None"
| "inspectLocalReferences rootValue (ref # refs) =
     (case follow_reference rootValue 0 [] (pointer_parts ref) of
        Some failure \<Rightarrow> Some failure
      | None \<Rightarrow> inspectLocalReferences rootValue refs)"

section \<open>Inspection and validation\<close>

datatype schema_root = ObjectRoot | AnyRoot

definition inspectMcpJsonSchema202012 :: "jsval \<Rightarrow> schema_root \<Rightarrow> schema_error + schema_accepted" where
  "inspectMcpJsonSchema202012 schema rootKind =
     (case serializeJson schema of
        None \<Rightarrow> schemaFailure SE_invalid_json_value ''Schema must be JSON.''
      | Some serialized \<Rightarrow>
          if byteLength serialized > MCP_SCHEMA_MAX_DOCUMENT_BYTES
          then schemaFailure SE_document_too_large ''Schema document exceeds limit.''
          else if \<not> js_isPlainObject schema
          then schemaFailure SE_invalid_json_value ''Schema root must be an object.''
          else if fld schema ''$schema'' \<noteq> JUndef \<and> fld schema ''$schema'' \<noteq> JStr MCP_JSON_SCHEMA_URI
          then schemaFailure SE_wrong_draft ''Schema must use draft 2020-12.''
          else if rootKind = ObjectRoot \<and> fld schema ''type'' \<noteq> JStr (js ''object'')
          then schemaFailure SE_input_root_not_object ''Input schema root type must be object.''
          else bind_result (inspectStructure schema True) (\<lambda>refs.
            case inspectLocalReferences schema refs of
              Some failure \<Rightarrow> Inl failure
            | None \<Rightarrow> Inr \<lparr>sa_document_bytes = byteLength serialized, sa_value_bytes = None, sa_validation_ms = None\<rparr>))"

record validation_error =
  ve_keyword :: jstr
  ve_instanceLocation :: jstr
  ve_keywordLocation :: jstr

record validation_result =
  vr_valid :: bool
  vr_errors :: "validation_error list"

record schema_runtime =
  sr_validate :: "jsval \<Rightarrow> jsval \<Rightarrow> validation_result option"
  sr_started :: real
  sr_finished :: real

definition safe_path_text :: "jstr \<Rightarrow> bool" where
  "safe_path_text = rx_test (RRep (RCls False ([(65, 90), (97, 122)] @ cc_digit @ [(95, 95), (35, 35), (46, 47), (126, 126), (45, 45)]))
     0 (Some 256))"

definition safePath :: "jstr \<Rightarrow> jstr" where
  "safePath value = (if safe_path_text value then value else [])"

definition validateMcpJsonValue202012 ::
  "schema_runtime \<Rightarrow> jsval \<Rightarrow> jsval \<Rightarrow> schema_root option \<Rightarrow> schema_error + schema_accepted" where
  "validateMcpJsonValue202012 rt schema value schema_root =
     bind_result (inspectMcpJsonSchema202012 schema (case schema_root of None \<Rightarrow> ObjectRoot | Some rootKind \<Rightarrow> rootKind)) (\<lambda>inspected.
     case serializeJson value of
       None \<Rightarrow> schemaFailure SE_invalid_json_value ''Value must be JSON.''
     | Some serialized \<Rightarrow>
         if byteLength serialized > MCP_SCHEMA_MAX_VALUE_BYTES
         then schemaFailure SE_value_too_large ''JSON value exceeds limit.''
         else bind_result (inspectStructure value False) (\<lambda>_.
           case sr_validate rt value schema of
             None \<Rightarrow> schemaFailure SE_validation_failed ''Schema validation failed closed.''
           | Some validation \<Rightarrow>
               let validationMs = sr_finished rt - sr_started rt in
               if validationMs > MCP_SCHEMA_MAX_VALIDATION_MS
               then schemaFailure SE_validation_timeout ''Schema validation exceeded limit.''
               else if \<not> vr_valid validation
               then Inl \<lparr>se_code = SE_validation_failed, se_message = ''JSON value does not match schema.'',
                      se_place = (case vr_errors validation of
                          [] \<Rightarrow> None
                        | first # _ \<Rightarrow> Some \<lparr>se_keyword = safePath (ve_keyword first),
                            se_instance_location = safePath (ve_instanceLocation first),
                            se_schema_location = safePath (ve_keywordLocation first)\<rparr>)\<rparr>
               else Inr \<lparr>sa_document_bytes = sa_document_bytes inspected, sa_value_bytes = Some (byteLength serialized),
                      sa_validation_ms = Some validationMs\<rparr>))"

definition validateMcpJsonOutput :: "jsval \<Rightarrow> schema_error + schema_accepted" where
  "validateMcpJsonOutput value =
     (case serializeJson value of
        None \<Rightarrow> schemaFailure SE_invalid_json_value ''Output must be JSON.''
      | Some serialized \<Rightarrow>
          if byteLength serialized > MCP_SCHEMA_MAX_VALUE_BYTES
          then schemaFailure SE_value_too_large ''JSON output exceeds limit.''
          else bind_result (inspectStructure value False) (\<lambda>_.
            Inr \<lparr>sa_document_bytes = 0, sa_value_bytes = Some (byteLength serialized), sa_validation_ms = None\<rparr>))"

end
