(* ===== verification/Mcp_Schema_Properties.thy ===== *)
theory Mcp_Schema_Properties
  imports Mcp_Schema
begin

text \<open>
  Properties of the schema inspection: the stack loop of \<open>inspectStructure\<close> is a depth-first
  traversal (\<open>visits\<close>, \<open>scan\<close>), following references with a set of seen objects is the plain bound
  on the number of hops (\<open>chain_ends\<close>), and inspection decides a contract stated on the schema as a
  tree (\<open>schema_contract\<close>).
\<close>

section \<open>Traversal\<close>

fun visits :: "nat \<Rightarrow> jsval \<Rightarrow> (jsval \<times> nat) list" where
  "visits d (JArr vs) = (JArr vs, d) # concat (rev (map (visits (d + 1)) vs))"
| "visits d (JObj True fs) = (JObj True fs, d) # concat (rev (map (\<lambda>(k, v). visits (d + 1) v) fs))"
| "visits d v = [(v, d)]"

fun node_verdict :: "bool \<Rightarrow> jsval \<Rightarrow> schema_error + jstr list" where
  "node_verdict collectRefs (JArr vs) = Inr []"
| "node_verdict collectRefs (JObj True fs) = inspect_entries collectRefs fs"
| "node_verdict collectRefs v =
     (if json_scalar v then Inr [] else schemaFailure SE_invalid_json_value ''Value must contain only JSON.'')"

fun scan :: "bool \<Rightarrow> nat \<Rightarrow> jstr list \<Rightarrow> (jsval \<times> nat) list \<Rightarrow> schema_error + jstr list" where
  "scan collectRefs nodes refs [] = Inr refs"
| "scan collectRefs nodes refs ((v, d) # rest) =
     (if nodes + 1 > MCP_SCHEMA_MAX_NODES then schemaFailure SE_too_many_nodes ''JSON node count exceeds limit.''
      else if d > MCP_SCHEMA_MAX_DEPTH then schemaFailure SE_too_deep ''JSON nesting exceeds limit.''
      else bind_result (node_verdict collectRefs v) (\<lambda>added. scan collectRefs (nodes + 1) (refs @ added) rest))"

lemma visits_head: "\<exists>xs. visits d v = (v, d) # xs"
  by (cases "(d, v)" rule: visits.cases) auto

lemma inspect_loop_scan:
  "inspect_loop c nodes refs stack = scan c nodes refs (concat (map (\<lambda>(v, d). visits d v) stack))"
proof (induction c nodes refs stack rule: inspect_loop.induct)
  case (2 c nodes refs v d stack)
  have push: "concat (map (\<lambda>(v, d). visits d v) (rev (map (\<lambda>v. (v, d + 1)) vs))) = concat (rev (map (visits (d + 1)) vs))" for vs
    by (simp add: rev_map comp_def)
  have push': "concat (map (\<lambda>(v, d). visits d v) (rev (map (\<lambda>(k, v). (v, d + 1)) fs)))
      = concat (rev (map (\<lambda>(k, v). visits (d + 1) v) fs))" for fs :: "(jstr \<times> jsval) list"
    by (induction fs) auto
  show ?case
  proof (cases "nodes + 1 > MCP_SCHEMA_MAX_NODES \<or> d > MCP_SCHEMA_MAX_DEPTH")
    case False
    show ?thesis
    proof (cases v)
      case (JArr vs)
      have "\<not> MCP_SCHEMA_MAX_NODES < nodes + 1" "\<not> MCP_SCHEMA_MAX_DEPTH < d" using False by auto
      from "2.IH"(6) [OF this JArr, unfolded map_append concat_append push] this show ?thesis by (simp add: JArr)
    next
      case (JObj p fs)
      have ok: "\<not> MCP_SCHEMA_MAX_NODES < nodes + 1" "\<not> MCP_SCHEMA_MAX_DEPTH < d" using False by auto
      show ?thesis
      proof (cases "p \<and> (\<exists>added. inspect_entries c fs = Inr added)")
        case True
        then obtain added where p: "p" "inspect_entries c fs = Inr added" by blast
        from "2.IH"(7) [OF ok JObj _ p(2), unfolded map_append concat_append push'] ok p show ?thesis by (simp add: JObj)
      next
        case False
        then show ?thesis using ok by (cases p; cases "inspect_entries c fs") (auto simp: JObj schemaFailure_def)
      qed
    qed (use False "2.IH" in \<open>auto simp: schemaFailure_def\<close>)
  next
    case True
    obtain xs where "visits d v = (v, d) # xs" using visits_head by blast
    then show ?thesis using True by (simp only: inspect_loop.simps) auto
  qed
qed simp

lemma inspectStructure_scan: "inspectStructure v c = scan c 0 [] (visits 0 v)"
  by (simp add: inspectStructure_def inspect_loop_scan)

text \<open>When a scan succeeds, and what it collects.\<close>

definition own_refs :: "bool \<Rightarrow> jsval \<Rightarrow> jstr list" where
  "own_refs c v = (case node_verdict c v of Inl e \<Rightarrow> [] | Inr refs \<Rightarrow> refs)"

lemma scan_Inr:
  "scan c n refs xs = Inr rs \<longleftrightarrow>
     (xs \<noteq> [] \<longrightarrow> n + length xs \<le> MCP_SCHEMA_MAX_NODES)
     \<and> (\<forall>(v, d) \<in> set xs. d \<le> MCP_SCHEMA_MAX_DEPTH \<and> (\<exists>added. node_verdict c v = Inr added))
     \<and> rs = refs @ concat (map (\<lambda>(v, d). own_refs c v) xs)"
proof (induction c n refs xs rule: scan.induct)
  case (2 c n refs v d rest)
  show ?case
  proof (cases "n + 1 > MCP_SCHEMA_MAX_NODES \<or> d > MCP_SCHEMA_MAX_DEPTH")
    case False
    then show ?thesis
    proof (cases "node_verdict c v")
      case (Inr added)
      with False "2.IH" [of added] show ?thesis by (cases rest) (auto simp: own_refs_def)
    qed (auto simp: schemaFailure_def)
  qed (auto simp: schemaFailure_def)
qed auto

section \<open>The tree\<close>

text \<open>\<open>nested v w d\<close>: \<open>w\<close> occurs in \<open>v\<close>, \<open>d\<close> levels below.\<close>

inductive nested :: "jsval \<Rightarrow> jsval \<Rightarrow> nat \<Rightarrow> bool" where
  nested_self: "nested v v 0"
| nested_element: "x \<in> set vs \<Longrightarrow> nested x w d \<Longrightarrow> nested (JArr vs) w (Suc d)"
| nested_member: "(k, x) \<in> set fs \<Longrightarrow> nested x w d \<Longrightarrow> nested (JObj True fs) w (Suc d)"

inductive_cases nested_arrE: "nested (JArr vs) w d"
inductive_cases nested_objE: "nested (JObj p fs) w d"

fun node_count :: "jsval \<Rightarrow> nat" where
  "node_count (JArr vs) = 1 + sum_list (map node_count vs)"
| "node_count (JObj True fs) = 1 + sum_list (map (\<lambda>(k, v). node_count v) fs)"
| "node_count v = 1"

lemma visits_nested: "(w, n) \<in> set (visits d v) \<longleftrightarrow> (\<exists>e. nested v w e \<and> n = d + e)"
proof (induction d v arbitrary: n rule: visits.induct)
  case (1 d vs)
  have "(w, n) \<in> set (visits d (JArr vs)) \<longleftrightarrow> (w = JArr vs \<and> n = d) \<or> (\<exists>x \<in> set vs. \<exists>e. nested x w e \<and> n = d + 1 + e)"
    using "1.IH" by auto
  also have "\<dots> \<longleftrightarrow> (\<exists>e. nested (JArr vs) w e \<and> n = d + e)"
    by (auto intro: nested.intros elim!: nested_arrE)
  finally show ?case .
next
  case (2 d fs)
  have at: "(w, n) \<in> set (visits (d + 1) x) \<longleftrightarrow> (\<exists>e. nested x w e \<and> n = d + 1 + e)" if "(k, x) \<in> set fs" for k x
    using "2.IH" [OF that refl] .
  have "(w, n) \<in> set (visits d (JObj True fs)) \<longleftrightarrow> (w = JObj True fs \<and> n = d)
      \<or> (\<exists>(k, x) \<in> set fs. \<exists>e. nested x w e \<and> n = d + 1 + e)"
    using at by fastforce
  also have "\<dots> \<longleftrightarrow> (\<exists>e. nested (JObj True fs) w e \<and> n = d + e)"
    by (auto intro: nested.intros elim!: nested_objE)
  finally show ?case .
qed (auto intro: nested_self elim: nested.cases)

lemma length_visits: "length (visits d v) = node_count v"
proof (induction d v rule: visits.induct)
  case (1 d vs)
  then show ?case by (simp add: length_concat rev_map [symmetric] comp_def cong: map_cong)
next
  case (2 d fs)
  have "sum_list (map (\<lambda>x. length (case x of (k, v) \<Rightarrow> visits (d + 1) v)) fs) = sum_list (map (\<lambda>(k, v). node_count v) fs)"
    by (rule arg_cong [where f = sum_list], rule map_cong) (use "2.IH" in auto)
  then show ?case by (simp add: length_concat rev_map [symmetric] comp_def)
qed simp_all

section \<open>References\<close>

text \<open>The value at a place, and a chain of references that ends after exactly \<open>n\<close> hops.\<close>

definition at_place :: "jsval \<Rightarrow> jstr list option \<Rightarrow> jsval" where
  "at_place schema place = (case place of None \<Rightarrow> JUndef | Some parts \<Rightarrow> walk_parts schema parts)"

definition next_place :: "jsval \<Rightarrow> jstr list option \<Rightarrow> jstr list option" where
  "next_place schema place = pointer_parts (ref_text (at_place schema place))"

definition hop :: "jsval \<Rightarrow> jstr list option \<Rightarrow> bool" where
  "hop schema place \<longleftrightarrow> is_ref (at_place schema place) \<and> js_startsWith (ref_text (at_place schema place)) (js ''#'')"

fun chain_ends :: "jsval \<Rightarrow> nat \<Rightarrow> jstr list option \<Rightarrow> bool" where
  "chain_ends schema 0 place \<longleftrightarrow> at_place schema place \<noteq> JUndef \<and> \<not> is_ref (at_place schema place)"
| "chain_ends schema (Suc n) place \<longleftrightarrow> hop schema place \<and> chain_ends schema n (next_place schema place)"

lemma hop_place: "hop schema place \<Longrightarrow> \<exists>parts. place = Some parts"
  by (cases place) (simp_all add: hop_def at_place_def is_ref_def)

lemma chain_ends_unique: "chain_ends schema n place \<Longrightarrow> chain_ends schema m place \<Longrightarrow> n = m"
proof (induction n arbitrary: m place)
  case 0
  then show ?case by (cases m) (auto simp: hop_def)
next
  case (Suc n)
  then show ?case by (cases m) (auto simp: hop_def)
qed

text \<open>A place the chain comes back to has no end.\<close>

inductive hops :: "jsval \<Rightarrow> nat \<Rightarrow> jstr list option \<Rightarrow> jstr list option \<Rightarrow> bool" for schema where
  no_hops: "hops schema 0 place place"
| more_hops: "hop schema place \<Longrightarrow> hops schema n (next_place schema place) place' \<Longrightarrow> hops schema (Suc n) place place'"

lemma hops_ends: "hops schema k place place' \<Longrightarrow> chain_ends schema n place' \<Longrightarrow> chain_ends schema (k + n) place"
  by (induction rule: hops.induct) auto

lemma cycle_endless: "hops schema (Suc k) place place \<Longrightarrow> \<not> chain_ends schema n place"
  using hops_ends chain_ends_unique by (metis add_Suc n_not_Suc_n add.commute add_Suc_right less_add_Suc1 less_irrefl)

lemma hops_last: "hops schema k place place' \<Longrightarrow> hop schema place' \<Longrightarrow> hops schema (Suc k) place (next_place schema place')"
  by (induction rule: hops.induct) (auto intro: hops.intros)

text \<open>The loop gives up exactly on chains that do not end within the hops left.\<close>

lemma follow_unfold:
  "follow_reference schema depth seen place =
     (if at_place schema place = JUndef
      then Some \<lparr>se_code = SE_invalid_local_ref, se_message = ''Local schema reference is invalid.'', se_place = None\<rparr>
      else if \<not> is_ref (at_place schema place) then None
      else if depth + 1 > MCP_SCHEMA_MAX_REF_DEPTH \<or> the place \<in> set seen
      then Some \<lparr>se_code = SE_ref_depth_exceeded, se_message = ''Local schema reference depth exceeds limit.'', se_place = None\<rparr>
      else if \<not> hop schema place
      then Some \<lparr>se_code = SE_external_ref_forbidden, se_message = ''External schema references are forbidden.'', se_place = None\<rparr>
      else follow_reference schema (depth + 1) (the place # seen) (next_place schema place))"
  by (subst follow_reference.simps) (simp add: at_place_def hop_def next_place_def Let_def)

lemma follow_None:
  assumes "\<forall>p \<in> set seen. \<exists>k. hops schema (Suc k) (Some p) place" and "depth \<le> MCP_SCHEMA_MAX_REF_DEPTH"
  shows "follow_reference schema depth seen place = None \<longleftrightarrow> (\<exists>n \<le> MCP_SCHEMA_MAX_REF_DEPTH - depth. chain_ends schema n place)"
  using assms
proof (induction "MCP_SCHEMA_MAX_REF_DEPTH - depth" arbitrary: depth seen place)
  case 0
  then show ?case by (subst follow_unfold) (auto simp: hop_def)
next
  case (Suc m)
  show ?case
  proof (cases "hop schema place")
    case True
    then obtain p where p: "place = Some p" using hop_place by blast
    show ?thesis
    proof (cases "p \<in> set seen")
      case True
      then have "\<not> chain_ends schema n place" for n using Suc.prems(1) cycle_endless p by blast
      moreover have "follow_reference schema depth seen place \<noteq> None"
        using \<open>hop schema place\<close> True by (subst follow_unfold) (auto simp: p hop_def is_ref_def)
      ultimately show ?thesis by blast
    next
      case False
      have left: "m = MCP_SCHEMA_MAX_REF_DEPTH - (depth + 1)" "depth + 1 \<le> MCP_SCHEMA_MAX_REF_DEPTH" using Suc.hyps(2) by auto
      have "\<forall>q \<in> set (p # seen). \<exists>k. hops schema (Suc k) (Some q) (next_place schema place)"
        using Suc.prems(1) True p by (auto intro: hops_last hops.intros)
      then have "follow_reference schema (depth + 1) (p # seen) (next_place schema place) = None
          \<longleftrightarrow> (\<exists>n \<le> m. chain_ends schema n (next_place schema place))"
        using Suc.hyps(1) [of "depth + 1"] left by simp
      moreover have "follow_reference schema depth seen place
          = follow_reference schema (depth + 1) (p # seen) (next_place schema place)"
        using True False Suc.hyps(2) by (subst follow_unfold) (auto simp: p hop_def is_ref_def)
      moreover have "(\<exists>n \<le> Suc m. chain_ends schema n place) \<longleftrightarrow> (\<exists>n \<le> m. chain_ends schema n (next_place schema place))"
        using True by (auto simp: hop_def elim: chain_ends.elims(2) intro: exI [of _ "Suc _"])
      ultimately show ?thesis using Suc.hyps(2) by simp
    qed
  next
    case False
    have "chain_ends schema n place \<longleftrightarrow> n = 0 \<and> at_place schema place \<noteq> JUndef \<and> \<not> is_ref (at_place schema place)" for n
      using False by (cases n) auto
    then show ?thesis using False by (subst follow_unfold) auto
  qed
qed

section \<open>The contract of a schema\<close>

definition json_node :: "jsval \<Rightarrow> bool" where
  "json_node v \<longleftrightarrow> json_scalar v \<or> (\<exists>vs. v = JArr vs) \<or> js_isPlainObject v"

text \<open>A value within the bounds, made of JSON only.\<close>

definition bounded_json :: "jsval \<Rightarrow> bool" where
  "bounded_json v \<longleftrightarrow> node_count v \<le> MCP_SCHEMA_MAX_NODES
     \<and> (\<forall>w d. nested v w d \<longrightarrow> d \<le> MCP_SCHEMA_MAX_DEPTH \<and> json_node w)"

text \<open>An entry of an object anywhere in a schema.\<close>

definition schema_entry :: "jsval \<Rightarrow> jstr \<Rightarrow> jsval \<Rightarrow> bool" where
  "schema_entry schema key x \<longleftrightarrow> (\<exists>fs d. nested schema (JObj True fs) d \<and> (key, x) \<in> set fs)"

definition reference_ok :: "jsval \<Rightarrow> jsval \<Rightarrow> bool" where
  "reference_ok schema x \<longleftrightarrow> (\<exists>ref. x = JStr ref \<and> js_startsWith ref (js ''#'')
     \<and> (\<exists>n \<le> MCP_SCHEMA_MAX_REF_DEPTH. chain_ends schema n (pointer_parts ref)))"

definition schema_contract :: "jsval \<Rightarrow> schema_root \<Rightarrow> bool" where
  "schema_contract schema rootKind \<longleftrightarrow>
     js_isPlainObject schema
     \<and> (\<exists>t. js_stringify schema = Some t \<and> byteLength t \<le> MCP_SCHEMA_MAX_DOCUMENT_BYTES)
     \<and> fld schema ''$schema'' \<in> {JUndef, JStr MCP_JSON_SCHEMA_URI}
     \<and> (rootKind = ObjectRoot \<longrightarrow> fld schema ''type'' = JStr (js ''object''))
     \<and> bounded_json schema
     \<and> (\<forall>key x. schema_entry schema key x \<longrightarrow>
          key \<noteq> js ''pattern'' \<and> key \<noteq> js ''patternProperties'' \<and> (key = js ''$ref'' \<longrightarrow> reference_ok schema x))"

definition entry_fine :: "bool \<Rightarrow> jstr \<times> jsval \<Rightarrow> bool" where
  "entry_fine c = (\<lambda>(key, x). c \<longrightarrow> key \<noteq> js ''pattern'' \<and> key \<noteq> js ''patternProperties''
     \<and> (key = js ''$ref'' \<longrightarrow> (\<exists>ref. x = JStr ref \<and> js_startsWith ref (js ''#''))))"

definition entry_refs :: "bool \<Rightarrow> jstr \<times> jsval \<Rightarrow> jstr list" where
  "entry_refs c = (\<lambda>(key, x). if c \<and> key = js ''$ref'' then [as_str x] else [])"

lemma inspect_entry_Inr: "inspect_entry c e = Inr rs \<longleftrightarrow> entry_fine c e \<and> rs = entry_refs c e"
  by (cases e) (auto simp: inspect_entry_def entry_fine_def entry_refs_def schemaFailure_def js_isString_iff)

lemma inspect_entries_Inr:
  "inspect_entries c fs = Inr rs \<longleftrightarrow> list_all (entry_fine c) fs \<and> rs = concat (map (entry_refs c) fs)"
  by (induction fs arbitrary: rs) (auto simp: bind_result_eq_Inr_iff inspect_entry_Inr)

definition entries_of :: "jsval \<Rightarrow> (jstr \<times> jsval) list" where
  "entries_of v = (case v of JObj True fs \<Rightarrow> fs | _ \<Rightarrow> [])"

lemma schema_entry_entries: "schema_entry v k x \<longleftrightarrow> (\<exists>w d. nested v w d \<and> (k, x) \<in> set (entries_of w))"
proof
  assume "schema_entry v k x"
  then obtain fs d where "nested v (JObj True fs) d" "(k, x) \<in> set fs" by (auto simp: schema_entry_def)
  then show "\<exists>w d. nested v w d \<and> (k, x) \<in> set (entries_of w)"
    by (intro exI [of _ "JObj True fs"] exI [of _ d]) (simp add: entries_of_def)
qed (auto simp: schema_entry_def entries_of_def split: jsval.splits bool.splits; blast)

lemma node_verdict_Inr:
  "node_verdict c v = Inr rs \<longleftrightarrow> json_node v \<and> list_all (entry_fine c) (entries_of v)
     \<and> rs = concat (map (entry_refs c) (entries_of v))"
proof (cases v)
  case (JObj p fs)
  then show ?thesis by (cases p) (auto simp: json_node_def entries_of_def inspect_entries_Inr schemaFailure_def)
qed (auto simp: json_node_def entries_of_def schemaFailure_def)

lemma inspectStructure_Inr:
  "inspectStructure v c = Inr rs \<longleftrightarrow> bounded_json v
     \<and> (\<forall>key x. schema_entry v key x \<longrightarrow> entry_fine c (key, x))
     \<and> rs = concat (map (\<lambda>(w, d). concat (map (entry_refs c) (entries_of w))) (visits 0 v))"
proof -
  have some: "visits 0 v \<noteq> []" by (cases v rule: node_count.cases) auto
  have all: "(\<forall>(w, d) \<in> set (visits 0 v). P w d) \<longleftrightarrow> (\<forall>w d. nested v w d \<longrightarrow> P w d)" for P
    using visits_nested [where d = 0 and v = v] by fastforce
  have entries: "(\<forall>w d. nested v w d \<longrightarrow> list_all (entry_fine c) (entries_of w))
      \<longleftrightarrow> (\<forall>key x. schema_entry v key x \<longrightarrow> entry_fine c (key, x))"
    by (auto simp: schema_entry_entries list_all_iff)
  have refs: "concat (map (\<lambda>(w, d). own_refs c w) (visits 0 v))
      = concat (map (\<lambda>(w, d). concat (map (entry_refs c) (entries_of w))) (visits 0 v))"
    if fine: "\<forall>w d. nested v w d \<longrightarrow> (\<exists>added. node_verdict c w = Inr added)"
  proof (rule arg_cong [where f = concat], rule map_cong [OF refl])
    fix x assume "x \<in> set (visits 0 v)"
    then have "nested v (fst x) (snd x)" using visits_nested [of "fst x" "snd x" 0 v] by auto
    then obtain added where "node_verdict c (fst x) = Inr added" using fine by blast
    then show "(case x of (w, d) \<Rightarrow> own_refs c w) = (case x of (w, d) \<Rightarrow> concat (map (entry_refs c) (entries_of w)))"
      using node_verdict_Inr [of c "fst x" added] by (cases x) (simp add: own_refs_def)
  qed
  have "inspectStructure v c = Inr rs \<longleftrightarrow> node_count v \<le> MCP_SCHEMA_MAX_NODES
      \<and> (\<forall>w d. nested v w d \<longrightarrow> d \<le> MCP_SCHEMA_MAX_DEPTH \<and> (\<exists>added. node_verdict c w = Inr added))
      \<and> rs = concat (map (\<lambda>(w, d). own_refs c w) (visits 0 v))"
    unfolding inspectStructure_scan scan_Inr all using some by (simp add: length_visits)
  also have "\<dots> \<longleftrightarrow> node_count v \<le> MCP_SCHEMA_MAX_NODES
      \<and> (\<forall>w d. nested v w d \<longrightarrow> d \<le> MCP_SCHEMA_MAX_DEPTH \<and> (\<exists>added. node_verdict c w = Inr added))
      \<and> rs = concat (map (\<lambda>(w, d). concat (map (entry_refs c) (entries_of w))) (visits 0 v))"
    by (intro conj_cong refl) (use refs in metis)
  also have "\<dots> \<longleftrightarrow> bounded_json v \<and> (\<forall>w d. nested v w d \<longrightarrow> list_all (entry_fine c) (entries_of w))
      \<and> rs = concat (map (\<lambda>(w, d). concat (map (entry_refs c) (entries_of w))) (visits 0 v))"
    unfolding bounded_json_def node_verdict_Inr by blast
  finally show ?thesis unfolding entries .
qed

lemma collected_refs:
  "ref \<in> set (concat (map (\<lambda>(w, d). concat (map (entry_refs True) (entries_of w))) (visits 0 v)))
     \<longleftrightarrow> (\<exists>x. schema_entry v (js ''$ref'') x \<and> ref = as_str x)"
proof -
  have "ref \<in> set (concat (map (\<lambda>(w, d). concat (map (entry_refs True) (entries_of w))) (visits 0 v)))
      \<longleftrightarrow> (\<exists>w d. nested v w d \<and> (\<exists>x. (js ''$ref'', x) \<in> set (entries_of w) \<and> ref = as_str x))"
    using visits_nested [where d = 0 and v = v] by (fastforce simp: entry_refs_def split: if_splits)
  then show ?thesis by (auto simp: schema_entry_entries)
qed

lemma local_references_None:
  "inspectLocalReferences schema refs = None
     \<longleftrightarrow> (\<forall>ref \<in> set refs. \<exists>n \<le> MCP_SCHEMA_MAX_REF_DEPTH. chain_ends schema n (pointer_parts ref))"
proof (induction refs)
  case (Cons ref refs)
  have "follow_reference schema 0 [] (pointer_parts ref) = None
      \<longleftrightarrow> (\<exists>n \<le> MCP_SCHEMA_MAX_REF_DEPTH. chain_ends schema n (pointer_parts ref))"
    using follow_None [of "[]" schema "pointer_parts ref" 0] by simp
  with Cons show ?case by (cases "follow_reference schema 0 [] (pointer_parts ref)") simp_all
qed simp

section \<open>Properties\<close>

lemma inspection_contract:
  "(\<exists>accepted. inspectMcpJsonSchema202012 schema rootKind = Inr accepted) \<longleftrightarrow> schema_contract schema rootKind"
proof -
  have refs: "(\<exists>rs. inspectStructure schema True = Inr rs \<and> inspectLocalReferences schema rs = None)
    \<longleftrightarrow> bounded_json schema \<and> (\<forall>key x. schema_entry schema key x \<longrightarrow>
          key \<noteq> js ''pattern'' \<and> key \<noteq> js ''patternProperties'' \<and> (key = js ''$ref'' \<longrightarrow> reference_ok schema x))"
    (is "_ \<longleftrightarrow> _ \<and> (\<forall>key x. _ \<longrightarrow> ?ok key x)")
  proof -
    let ?ends = "\<lambda>ref. \<exists>n \<le> MCP_SCHEMA_MAX_REF_DEPTH. chain_ends schema n (pointer_parts ref)"
    have point: "entry_fine True (key, x) \<and> (key = js ''$ref'' \<longrightarrow> ?ends (as_str x)) \<longleftrightarrow> ?ok key x" for key x
      by (auto simp: entry_fine_def reference_ok_def)
    have "(\<exists>rs. inspectStructure schema True = Inr rs \<and> inspectLocalReferences schema rs = None)
      \<longleftrightarrow> bounded_json schema \<and> (\<forall>key x. schema_entry schema key x \<longrightarrow> entry_fine True (key, x))
        \<and> (\<forall>ref. (\<exists>x. schema_entry schema (js ''$ref'') x \<and> ref = as_str x) \<longrightarrow> ?ends ref)"
      unfolding inspectStructure_Inr local_references_None Ball_def collected_refs [symmetric] by blast
    also have "\<dots> \<longleftrightarrow> bounded_json schema \<and> (\<forall>key x. schema_entry schema key x \<longrightarrow>
        entry_fine True (key, x) \<and> (key = js ''$ref'' \<longrightarrow> ?ends (as_str x)))" by blast
    finally show ?thesis unfolding point .
  qed
  show ?thesis
  proof (cases "js_stringify schema")
    case (Some t)
    have "(\<exists>accepted. inspectMcpJsonSchema202012 schema rootKind = Inr accepted) \<longleftrightarrow>
        js_isPlainObject schema \<and> byteLength t \<le> MCP_SCHEMA_MAX_DOCUMENT_BYTES
        \<and> fld schema ''$schema'' \<in> {JUndef, JStr MCP_JSON_SCHEMA_URI}
        \<and> (rootKind = ObjectRoot \<longrightarrow> fld schema ''type'' = JStr (js ''object''))
        \<and> (\<exists>rs. inspectStructure schema True = Inr rs \<and> inspectLocalReferences schema rs = None)"
      by (auto simp: inspectMcpJsonSchema202012_def serializeJson_def Some schemaFailure_def bind_result_eq_Inr_iff
          split: option.splits)
    then show ?thesis unfolding refs schema_contract_def by (auto simp: Some)
  qed (auto simp: inspectMcpJsonSchema202012_def serializeJson_def schemaFailure_def schema_contract_def)
qed


text \<open>
  C12. The inspection of a schema decides its contract: it accepts exactly the plain objects whose
  text has at most 262144 bytes, with the right draft and root type, at most 25000 nodes and 64
  levels, only JSON inside, no regular expression keyword anywhere, and every reference local,
  resolvable and at the end of at most 32 hops.
\<close>

theorem inspection_decides_contract:
  "(\<exists>accepted. inspectMcpJsonSchema202012 schema rootKind = Inr accepted) \<longleftrightarrow> schema_contract schema rootKind"
  by (rule inspection_contract)

text \<open>
  The stack loop of \<open>inspectStructure\<close> is a depth-first traversal of the value: it checks the
  nodes in the order of \<open>visits\<close>, collects the references in that order, and stops at the first node
  that exceeds a bound or is refused.
\<close>

theorem structure_loop_is_traversal:
  "inspectStructure v collectRefs = scan collectRefs 0 [] (visits 0 v) \<and> length (visits 0 v) = node_count v
    \<and> (\<forall>w d. (w, d) \<in> set (visits 0 v) \<longleftrightarrow> nested v w d)"
  using visits_nested [where d = 0 and v = v] by (simp add: inspectStructure_scan length_visits)

lemma endless_follow:
  assumes "\<forall>n. \<exists>p. hops schema n place p \<and> hop schema p"
  shows "follow_reference schema depth seen place = Some \<lparr>se_code = SE_ref_depth_exceeded,
      se_message = ''Local schema reference depth exceeds limit.'', se_place = None\<rparr>"
  using assms
proof (induction schema depth seen place rule: follow_reference.induct)
  case (1 schema depth seen place)
  from "1.prems" [rule_format, of 0] have hop: "hop schema place" by (auto elim: hops.cases)
  have rest: "\<exists>p. hops schema n (next_place schema place) p \<and> hop schema p" for n
    using "1.prems" [rule_format, of "Suc n"] by (auto elim: hops.cases)
  have at: "at_place schema place \<noteq> JUndef" "is_ref (at_place schema place)" using hop by (auto simp: hop_def is_ref_def)
  show ?case
  proof (cases "depth + 1 > MCP_SCHEMA_MAX_REF_DEPTH \<or> the place \<in> set seen")
    case True
    then show ?thesis using hop at by (subst follow_unfold) auto
  next
    case False
    have "follow_reference schema (depth + 1) (the place # seen) (next_place schema place)
        = Some \<lparr>se_code = SE_ref_depth_exceeded, se_message = ''Local schema reference depth exceeds limit.'', se_place = None\<rparr>"
      using "1.IH" [OF refl] False hop at rest by (auto simp: at_place_def next_place_def hop_def)
    then show ?thesis using False hop at by (subst follow_unfold) auto
  qed
qed

lemma cycle_endless_hops:
  assumes "hops schema (Suc k) place place"
  shows "\<exists>p. hops schema n place p \<and> hop schema p"
proof -
  have again: "\<exists>m \<ge> n. hops schema m place place" for n
  proof (induction n)
    case (Suc n)
    then obtain m where m: "n \<le> m" "hops schema m place place" by blast
    have "hops schema (i + j) a c" if "hops schema i a b" "hops schema j b c" for i j a b c
      using that by (induction rule: hops.induct) (auto intro: hops.intros)
    from this [OF m(2) assms] m(1) show ?case by (intro exI [of _ "m + Suc k"]) auto
  qed (auto intro: no_hops)
  have part: "hops schema m a b \<Longrightarrow> n < m \<Longrightarrow> \<exists>p. hops schema n a p \<and> hop schema p" for m n a b
  proof (induction m arbitrary: n a)
    case (Suc m)
    then have a: "hop schema a" "hops schema m (next_place schema a) b" by (auto elim: hops.cases)
    show ?case
    proof (cases n)
      case 0
      then show ?thesis using a(1) no_hops by blast
    next
      case (Suc i)
      then show ?thesis using Suc.IH [OF a(2), of i] Suc.prems(2) a(1) more_hops by fastforce
    qed
  qed simp
  from again [of "Suc n"] obtain m where "Suc n \<le> m" "hops schema m place place" by blast
  with part [of m place place n] show ?thesis by simp
qed

text \<open>A reference that leads into a cycle, at once or after other hops, is refused for its depth.\<close>

lemma reference_cycle_refused:
  assumes "hops schema n place loop" and "hops schema (Suc k) loop loop"
  shows "follow_reference schema 0 [] place = Some \<lparr>se_code = SE_ref_depth_exceeded,
        se_message = ''Local schema reference depth exceeds limit.'', se_place = None\<rparr>"
proof (rule endless_follow)
  have join: "hops schema (i + j) a c" if "hops schema i a b" "hops schema j b c" for i j a b c
    using that by (induction rule: hops.induct) (auto intro: hops.intros)
  have split: "\<exists>q. hops schema i a q \<and> hop schema q" if "hops schema (i + j) a c" "hop schema c" for i j a c
    using that
  proof (induction i arbitrary: a)
    case 0
    then show ?case by (cases j) (auto elim: hops.cases intro: hops.intros)
  next
    case (Suc i)
    then show ?case by (auto elim!: hops.cases [of _ "Suc (i + j)"] intro: hops.intros)
  qed
  show "\<forall>m. \<exists>p. hops schema m place p \<and> hop schema p"
  proof
    fix m
    from cycle_endless_hops [OF assms(2), of m] obtain p where "hops schema m loop p" "hop schema p" by blast
    then have "hops schema (m + n) place p" using join [OF assms(1)] by (simp add: add.commute)
    then show "\<exists>p. hops schema m place p \<and> hop schema p" using split \<open>hop schema p\<close> by blast
  qed
qed

text \<open>
  C23. Validation fails closed: a value is accepted exactly when the schema satisfies its contract,
  the value is bounded JSON of at most 1048576 bytes, the validator returned that it is valid, and
  did so within 250 milliseconds. A validator that throws accepts nothing.
\<close>

theorem validation_fails_closed:
  "(\<exists>accepted. validateMcpJsonValue202012 rt schema value schema_root = Inr accepted) \<longleftrightarrow>
     schema_contract schema (case schema_root of None \<Rightarrow> ObjectRoot | Some rootKind \<Rightarrow> rootKind)
     \<and> bounded_json value \<and> (\<exists>t. js_stringify value = Some t \<and> byteLength t \<le> MCP_SCHEMA_MAX_VALUE_BYTES)
     \<and> (\<exists>validation. sr_validate rt value schema = Some validation \<and> vr_valid validation)
     \<and> sr_finished rt - sr_started rt \<le> MCP_SCHEMA_MAX_VALIDATION_MS"
proof -
  have value_ok: "(\<exists>rs. inspectStructure value False = Inr rs) \<longleftrightarrow> bounded_json value"
    by (auto simp: inspectStructure_Inr entry_fine_def)
  have "(\<exists>accepted. validateMcpJsonValue202012 rt schema value schema_root = Inr accepted) \<longleftrightarrow>
     (\<exists>inspected. inspectMcpJsonSchema202012 schema (case schema_root of None \<Rightarrow> ObjectRoot | Some rootKind \<Rightarrow> rootKind) = Inr inspected)
     \<and> (\<exists>rs. inspectStructure value False = Inr rs)
     \<and> (\<exists>t. js_stringify value = Some t \<and> byteLength t \<le> MCP_SCHEMA_MAX_VALUE_BYTES)
     \<and> (\<exists>validation. sr_validate rt value schema = Some validation \<and> vr_valid validation)
     \<and> sr_finished rt - sr_started rt \<le> MCP_SCHEMA_MAX_VALIDATION_MS"
    by (cases "inspectMcpJsonSchema202012 schema (case schema_root of None \<Rightarrow> ObjectRoot | Some rootKind \<Rightarrow> rootKind)";
        cases "js_stringify value"; cases "inspectStructure value False"; cases "sr_validate rt value schema")
      (auto simp: validateMcpJsonValue202012_def serializeJson_def schemaFailure_def Let_def)
  then show ?thesis by (simp only: inspection_contract value_ok)
qed

lemma safe_path_text_iff:
  "safe_path_text s \<longleftrightarrow> length s \<le> 256
     \<and> list_all (in_class False ([(65, 90), (97, 122)] @ cc_digit @ [(95, 95), (35, 35), (46, 47), (126, 126), (45, 45)])) (map unat s)"
  by (auto simp: safe_path_text_def rx_test_def rx_match_rep_class at_most_def code_units_def)

text \<open>Only the answer of the validator puts a place into a failure.\<close>

lemma bind_result_eq_Inl_iff: "bind_result r f = Inl e \<longleftrightarrow> r = Inl e \<or> (\<exists>a. r = Inr a \<and> f a = Inl e)"
  by (cases r) auto

lemma schemaFailure_place: "schemaFailure code message = Inl e \<Longrightarrow> se_place e = None"
  by (auto simp: schemaFailure_def)

lemma entries_place: "inspect_entries c fs = Inl e \<Longrightarrow> se_place e = None"
  by (induction fs) (auto simp: inspect_entry_def bind_result_eq_Inl_iff schemaFailure_place split: if_splits)

lemma verdict_place: "node_verdict c v = Inl e \<Longrightarrow> se_place e = None"
  by (induction c v rule: node_verdict.induct) (auto simp: schemaFailure_place entries_place split: if_splits)

lemma structure_place: "inspectStructure v c = Inl e \<Longrightarrow> se_place e = None"
proof -
  have "scan c n refs xs = Inl e \<Longrightarrow> se_place e = None" for n refs xs
    by (induction c n refs xs rule: scan.induct)
      (auto simp: bind_result_eq_Inl_iff schemaFailure_place verdict_place split: if_splits)
  then show "inspectStructure v c = Inl e \<Longrightarrow> se_place e = None" by (simp add: inspectStructure_scan)
qed

lemma references_place: "inspectLocalReferences schema refs = Some e \<Longrightarrow> se_place e = None"
proof (induction refs)
  case (Cons ref refs)
  have "follow_reference schema depth seen place = Some e \<Longrightarrow> se_place e = None" for depth seen place
  proof (induction schema depth seen place rule: follow_reference.induct)
    case (1 schema depth seen place)
    have "follow_reference schema (depth + 1) (the place # seen) (next_place schema place) = Some e \<Longrightarrow> se_place e = None"
      if "at_place schema place \<noteq> JUndef" "\<not> (depth + 1 > MCP_SCHEMA_MAX_REF_DEPTH \<or> the place \<in> set seen)" "hop schema place"
      using "1.IH" [OF refl] that by (simp add: at_place_def next_place_def hop_def)
    with "1.prems" show ?case by (subst (asm) follow_unfold) (auto split: if_splits)
  qed
  with Cons show ?case by (auto split: option.splits)
qed simp

lemma inspection_place: "inspectMcpJsonSchema202012 schema rootKind = Inl e \<Longrightarrow> se_place e = None"
  by (auto simp: inspectMcpJsonSchema202012_def bind_result_eq_Inl_iff structure_place references_place schemaFailure_place
      split: option.splits if_splits)

lemma safe_path_chars:
  assumes "safe_path_text s"
  shows "length s \<le> 256 \<and> (\<forall>u \<in> set s. u \<in> set (js ''_#./~-'')
      \<or> of_char (CHR ''0'') \<le> u \<and> u \<le> of_char (CHR ''9'') \<or> of_char (CHR ''A'') \<le> u \<and> u \<le> of_char (CHR ''Z'')
      \<or> of_char (CHR ''a'') \<le> u \<and> u \<le> of_char (CHR ''z''))"
proof -
  have "u \<in> set (js ''_#./~-'')
      \<or> of_char (CHR ''0'') \<le> u \<and> u \<le> of_char (CHR ''9'') \<or> of_char (CHR ''A'') \<le> u \<and> u \<le> of_char (CHR ''Z'')
      \<or> of_char (CHR ''a'') \<le> u \<and> u \<le> of_char (CHR ''z'')"
    if "in_class False ([(65, 90), (97, 122)] @ cc_digit @ [(95, 95), (35, 35), (46, 47), (126, 126), (45, 45)]) (unat u)"
    for u :: code_unit
  proof -
    have exact: "u = w" if "unat u = unat w" for w using that by (simp add: word_unat_eq_iff)
    have "46 \<le> unat u \<and> unat u \<le> 47 \<Longrightarrow> unat u = 46 \<or> unat u = 47" by arith
    then show ?thesis using that exact [of 95] exact [of 35] exact [of 46] exact [of 47] exact [of 126] exact [of 45]
      by (auto simp: in_class_def js_def word_le_nat_alt)
  qed
  then show ?thesis using assms by (auto simp: safe_path_text_iff list_all_iff)
qed

text \<open>
  What a failure discloses of the validator is sanitized: the keyword and the two locations of
  an error have at most 256 characters, all of them letters, digits or one of \<open>_ # . / ~ -\<close>.
\<close>

theorem failures_are_sanitized:
  assumes "validateMcpJsonValue202012 rt schema value schema_root = Inl failure" and "se_place failure = Some place"
    and "text \<in> {se_keyword place, se_instance_location place, se_schema_location place}"
  shows "length text \<le> 256 \<and> (\<forall>u \<in> set text. u \<in> set (js ''_#./~-'')
      \<or> of_char (CHR ''0'') \<le> u \<and> u \<le> of_char (CHR ''9'') \<or> of_char (CHR ''A'') \<le> u \<and> u \<le> of_char (CHR ''Z'')
      \<or> of_char (CHR ''a'') \<le> u \<and> u \<le> of_char (CHR ''z''))"
proof -
  have "text \<in> range safePath"
    using assms
    by (cases "inspectMcpJsonSchema202012 schema (case schema_root of None \<Rightarrow> ObjectRoot | Some rootKind \<Rightarrow> rootKind)";
        cases "js_stringify value"; cases "inspectStructure value False"; cases "sr_validate rt value schema")
      (auto simp: validateMcpJsonValue202012_def serializeJson_def Let_def
        dest: inspection_place structure_place schemaFailure_place split: if_splits list.splits)
  then show ?thesis using safe_path_chars by (auto simp: safePath_def)
qed

text \<open>A validator that reports one error, and an object schema.\<close>

definition sample_schema_runtime :: schema_runtime where
  "sample_schema_runtime = \<lparr>sr_validate = (\<lambda>value schema. Some \<lparr>vr_valid = False,
     vr_errors = [\<lparr>ve_keyword = js ''type'', ve_instanceLocation = js ''#'', ve_keywordLocation = js ''#/type<b>''\<rparr>]\<rparr>),
     sr_started = 0, sr_finished = 1\<rparr>"

definition sample_schema :: jsval where
  "sample_schema = JObj True [(js ''type'', JStr (js ''object''))]"

lemmas schema_eval = inspectStructure_def inspect_entry_def js_startsWith_def MCP_SCHEMA_MAX_NODES_def MCP_SCHEMA_MAX_DEPTH_def
  MCP_SCHEMA_MAX_DOCUMENT_BYTES_def MCP_SCHEMA_MAX_VALUE_BYTES_def serializeJson_def

lemma byteLength_le: "byteLength s \<le> 4 * length s"
proof -
  have "length (code_points s) \<le> length s" by (induction s rule: code_points.induct) auto
  moreover have "length (concat (map (\<lambda>c. utf8_of_scalar (scalar_value c)) cs)) \<le> 4 * length cs" for cs
    by (induction cs) (auto simp: utf8_of_scalar_def)
  ultimately show ?thesis unfolding byteLength_def utf8_encode_def length_map by (meson le_trans mult_le_mono2)
qed

lemma quote_json_le: "length (quote_json s) \<le> 6 * length s + 2"
proof -
  have unit: "length (quote_unit u) \<le> 6" for u by (simp add: quote_unit_def unicode_escape_def)
  have "length (quote_units s) \<le> 6 * length s"
  proof (induction s rule: quote_units.induct)
    case (3 u v us)
    then show ?case using unit [of u] by auto
  qed (use unit in auto)
  then show ?thesis by (simp add: quote_json_def)
qed

lemma small_document:
  assumes "js_stringify schema = Some t" and "length t \<le> 262144 div 4"
  shows "\<not> byteLength t > MCP_SCHEMA_MAX_DOCUMENT_BYTES"
  using byteLength_le [of t] assms(2) by (simp add: MCP_SCHEMA_MAX_DOCUMENT_BYTES_def)

lemma sample_schema_accepted:
  "\<exists>accepted. inspectMcpJsonSchema202012 sample_schema ObjectRoot = Inr accepted"
proof -
  obtain t where t: "js_stringify sample_schema = Some t" "length t \<le> 262144 div 4"
    using quote_json_le [of "js ''type''"] quote_json_le [of "js ''object''"] by (simp add: sample_schema_def)
  have "fld sample_schema ''$schema'' = JUndef" "fld sample_schema ''type'' = JStr (js ''object'')" "js_isPlainObject sample_schema"
    "inspectStructure sample_schema True = Inr []"
    by (simp_all add: sample_schema_def schema_eval)
  then show ?thesis using small_document [OF t] t(1) by (simp add: inspectMcpJsonSchema202012_def serializeJson_def)
qed

theorem failures_are_sanitized_witness:
  "\<exists>failure place. validateMcpJsonValue202012 sample_schema_runtime sample_schema JNull None = Inl failure
    \<and> se_place failure = Some place \<and> se_schema_location place = [] \<and> se_keyword place = js ''type''
    \<and> length (se_keyword place) \<le> 256"
proof -
  obtain accepted where a: "inspectMcpJsonSchema202012 sample_schema ObjectRoot = Inr accepted"
    using sample_schema_accepted by blast
  have "byteLength (js ''null'') \<le> 16" using byteLength_le [of "js ''null''"] by simp
  then have "\<not> byteLength (js ''null'') > MCP_SCHEMA_MAX_VALUE_BYTES" by (simp add: MCP_SCHEMA_MAX_VALUE_BYTES_def)
  moreover have "inspectStructure JNull False = Inr []" by (simp add: schema_eval)
  moreover have "safe_path_text (js ''type'')" "\<not> safe_path_text (js ''#/type<b>'')"
    by (simp_all add: safe_path_text_iff js_def in_class_def)
  ultimately obtain failure place where f: "validateMcpJsonValue202012 sample_schema_runtime sample_schema JNull None = Inl failure"
    "se_place failure = Some place" "se_keyword place = js ''type''" "se_schema_location place = []"
    by (simp add: validateMcpJsonValue202012_def a serializeJson_def sample_schema_runtime_def MCP_SCHEMA_MAX_VALIDATION_MS_def
        safePath_def)
  with failures_are_sanitized [OF f(1,2), of "se_keyword place"] show ?thesis by auto
qed

text \<open>
  The regular expression check looks at keys, not at keywords: a property that is merely named
  \<open>pattern\<close> makes a schema without any regular expression be refused.
\<close>

lemma property_named_pattern:
  "inspectMcpJsonSchema202012 (JObj True [(js ''type'', JStr (js ''object'')),
      (js ''properties'', JObj True [(js ''pattern'', JObj True [(js ''type'', JStr (js ''string''))])])]) ObjectRoot
    = schemaFailure SE_regex_forbidden ''Dynamic schema regular expressions are forbidden.''"
  (is "inspectMcpJsonSchema202012 ?s _ = _")
proof -
  obtain t where t: "js_stringify ?s = Some t" "length t \<le> 262144 div 4"
    using quote_json_le [of "js ''type''"] quote_json_le [of "js ''object''"] quote_json_le [of "js ''properties''"]
      quote_json_le [of "js ''pattern''"] quote_json_le [of "js ''string''"] by simp
  have "inspectStructure ?s True = schemaFailure SE_regex_forbidden ''Dynamic schema regular expressions are forbidden.''"
    by (simp add: schema_eval schemaFailure_def)
  then show ?thesis using small_document [OF t] t(1)
    by (simp add: inspectMcpJsonSchema202012_def serializeJson_def schemaFailure_def)
qed

end
