(* ===== verification/Mcp_Negotiation.thy ===== *)
theory Mcp_Negotiation
  imports Js_Iso Js_Regex
begin

text \<open>
  Protocol negotiation of the MCP package, \<open>packages/mcp/src/negotiation.ts\<close>: which protocol version is
  spoken with an endpoint, from a cache shared by all negotiations or from a probe of the endpoint.

  The probe is a parameter, by the outcome its \<open>run\<close> gives (\<open>None\<close> where \<open>create_probe\<close> or \<open>run\<close> throws;
  a rejected promise of \<open>close\<close> is swallowed, and a \<open>close\<close> that throws without returning its
  promise is left out). A call waits for the probe between reading the cache and writing
  it, so it is two steps: \<open>negotiation_start\<close> until the probe runs and \<open>negotiation_finish\<close> after it;
  \<open>negotiateMcpEndpoint\<close> is a call that no other interrupts. \<open>NegotiationThrows\<close> is the \<open>RangeError\<close> of
  \<open>toISOString\<close> on a time outside the range of dates.
\<close>

definition MCP_MODERN_PROTOCOL_VERSION :: jstr where
  "MCP_MODERN_PROTOCOL_VERSION = js ''2026-07-28''"

datatype protocol_mode = LegacyMode | AutoMode | ModernMode

datatype protocol_era = LegacyEra | ModernEra

datatype probe_outcome =
    ProbeModern jstr jsval
  | ProbeLegacy jstr jsval
  | ProbeUnsupported
  | ProbeAuthError
  | ProbeHttpError
  | ProbeTimeout
  | ProbeTransportClosed
  | ProbeMalformedMetadata

record server_info =
  si_name :: jstr
  si_version :: jstr

record negotiated_protocol =
  np_era :: protocol_era
  np_protocol_version :: jstr
  np_from_cache :: bool
  np_cache_scope :: jstr
  np_expires_at :: jstr
  np_server_info :: "server_info option"

datatype negotiation_error_code =
    NE_invalid_config | NE_modern_required | NE_legacy_required | NE_unsupported_version
  | NE_authentication_failed | NE_http_error | NE_timeout | NE_transport_closed | NE_malformed_metadata
  | NE_probe_failed

datatype negotiation_result =
    Negotiated negotiated_protocol
  | NegotiationFailure negotiation_error_code string
  | NegotiationThrows

section \<open>Cache\<close>

record negotiation_cache_entry =
  nc_era :: protocol_era
  nc_protocol_version :: jstr
  nc_server_info :: "server_info option"
  nc_expires_at_ms :: int

type_synonym negotiation_cache = "jstr \<Rightarrow> negotiation_cache_entry option"

definition cache_read :: "negotiation_cache \<Rightarrow> jstr \<Rightarrow> int \<Rightarrow> negotiation_cache_entry option \<times> negotiation_cache" where
  "cache_read entries key nowMs =
     (case entries key of
        None \<Rightarrow> (None, entries)
      | Some entry \<Rightarrow>
          if nc_expires_at_ms entry \<le> nowMs then (None, entries(key := None)) else (Some entry, entries))"

definition cache_write :: "negotiation_cache \<Rightarrow> jstr \<Rightarrow> negotiation_cache_entry \<Rightarrow> negotiation_cache" where
  "cache_write entries key entry = entries(key \<mapsto> entry)"

section \<open>Helpers\<close>

definition modeAccepts :: "protocol_mode \<Rightarrow> protocol_era \<Rightarrow> bool" where
  "modeAccepts mode era \<longleftrightarrow> mode = AutoMode \<or> (mode = LegacyMode \<and> era = LegacyEra) \<or> (mode = ModernMode \<and> era = ModernEra)"

definition mcp_safeLabel :: "jsval \<Rightarrow> nat \<Rightarrow> bool" where
  "mcp_safeLabel value maxLength \<longleftrightarrow>
     js_isString value \<and> length (as_str value) > 0 \<and> length (as_str value) \<le> maxLength
     \<and> \<not> list_ex (in_class False [(0, 31), (127, 127)]) (code_units (as_str value))"

definition normalizeServerInfo :: "jsval \<Rightarrow> server_info option" where
  "normalizeServerInfo value =
     (if \<not> js_isObject value then None
      else if \<not> mcp_safeLabel (fld value ''name'') 128 \<or> \<not> mcp_safeLabel (fld value ''version'') 64 then None
      else Some \<lparr>si_name = as_str (fld value ''name''), si_version = as_str (fld value ''version'')\<rparr>)"

definition negotiation_success :: "negotiation_cache_entry \<Rightarrow> jstr \<Rightarrow> bool \<Rightarrow> negotiation_result" where
  "negotiation_success entry cacheScope fromCache =
     (if \<not> time_clipped (nc_expires_at_ms entry) then NegotiationThrows
      else Negotiated \<lparr>np_era = nc_era entry, np_protocol_version = nc_protocol_version entry,
        np_from_cache = fromCache, np_cache_scope = cacheScope,
        np_expires_at = toISOString (nc_expires_at_ms entry), np_server_info = nc_server_info entry\<rparr>)"

section \<open>Negotiation\<close>

text \<open>\<open>ni_now\<close> is \<open>now.getTime()\<close>, \<open>None\<close> for an invalid date.\<close>

record negotiation_input =
  ni_endpoint :: jstr
  ni_mode :: protocol_mode
  ni_cache_scope :: jstr
  ni_ttl_ms :: jsnum
  ni_now :: "int option"

definition ttl_value :: "jsnum \<Rightarrow> int option" where
  "ttl_value n = (case n of NInt i \<Rightarrow> if num_isSafeInteger n then Some i else None
     | NNegZero \<Rightarrow> Some 0 | _ \<Rightarrow> None)"

definition negotiation_config :: "negotiation_input \<Rightarrow> (int \<times> int) option" where
  "negotiation_config input =
     (case (ttl_value (ni_ttl_ms input), ni_now input) of
        (Some ttl, Some now) \<Rightarrow>
          if \<not> mcp_safeLabel (JStr (ni_endpoint input)) 512 \<or> \<not> mcp_safeLabel (JStr (ni_cache_scope input)) 128
             \<or> ttl < 1 \<or> ttl > 86400000
          then None else Some (ttl, now)
      | _ \<Rightarrow> None)"

primrec mode_text :: "protocol_mode \<Rightarrow> jstr" where
  "mode_text LegacyMode = js ''legacy''"
| "mode_text AutoMode = js ''auto''"
| "mode_text ModernMode = MCP_MODERN_PROTOCOL_VERSION"

definition cacheKey :: "negotiation_input \<Rightarrow> jstr" where
  "cacheKey input = ni_cache_scope input @ [0] @ ni_endpoint input @ [0] @ mode_text (ni_mode input)"

text \<open>Until the probe runs: a result, or \<open>None\<close> when the call goes on to probe.\<close>

definition negotiation_start :: "negotiation_input \<Rightarrow> negotiation_cache \<Rightarrow> negotiation_result option \<times> negotiation_cache" where
  "negotiation_start input cache =
     (case negotiation_config input of
        None \<Rightarrow> (Some (NegotiationFailure NE_invalid_config ''MCP negotiation configuration is invalid.''), cache)
      | Some (ttl, now) \<Rightarrow>
          (case cache_read cache (cacheKey input) now of
             (Some cached, cache') \<Rightarrow>
               if modeAccepts (ni_mode input) (nc_era cached)
               then (Some (negotiation_success cached (ni_cache_scope input) True), cache')
               else (None, cache')
           | (None, cache') \<Rightarrow> (None, cache')))"

definition finish_era ::
  "negotiation_input \<Rightarrow> negotiation_cache \<Rightarrow> protocol_era \<Rightarrow> jstr \<Rightarrow> jsval \<Rightarrow> negotiation_result \<times> negotiation_cache" where
  "finish_era input cache era protocol_version server_info =
     (if \<not> modeAccepts (ni_mode input) era
      then (if era = ModernEra
            then NegotiationFailure NE_legacy_required ''Legacy MCP mode rejected modern protocol negotiation.''
            else NegotiationFailure NE_modern_required ''Pinned MCP 2026-07-28 mode rejected legacy negotiation.'', cache)
      else if era = ModernEra \<and> protocol_version \<noteq> MCP_MODERN_PROTOCOL_VERSION
      then (NegotiationFailure NE_unsupported_version ''MCP server selected an unsupported modern protocol version.'', cache)
      else (let entry = \<lparr>nc_era = era, nc_protocol_version = protocol_version,
                nc_server_info = normalizeServerInfo server_info,
                nc_expires_at_ms = the (ni_now input) + the (ttl_value (ni_ttl_ms input))\<rparr>
            in (negotiation_success entry (ni_cache_scope input) False, cache_write cache (cacheKey input) entry)))"

fun negotiation_finish ::
  "negotiation_input \<Rightarrow> probe_outcome option \<Rightarrow> negotiation_cache \<Rightarrow> negotiation_result \<times> negotiation_cache" where
  "negotiation_finish input None cache = (NegotiationFailure NE_probe_failed ''MCP negotiation probe failed.'', cache)"
| "negotiation_finish input (Some (ProbeModern v info)) cache = finish_era input cache ModernEra v info"
| "negotiation_finish input (Some (ProbeLegacy v info)) cache = finish_era input cache LegacyEra v info"
| "negotiation_finish input (Some ProbeUnsupported) cache =
     (NegotiationFailure NE_unsupported_version ''MCP endpoint does not support requested protocol version.'', cache)"
| "negotiation_finish input (Some ProbeAuthError) cache =
     (NegotiationFailure NE_authentication_failed ''MCP endpoint authentication failed; legacy fallback is forbidden.'', cache)"
| "negotiation_finish input (Some ProbeHttpError) cache =
     (NegotiationFailure NE_http_error ''MCP endpoint returned a non-negotiation HTTP error.'', cache)"
| "negotiation_finish input (Some ProbeTimeout) cache =
     (NegotiationFailure NE_timeout ''MCP negotiation timed out; legacy fallback is forbidden.'', cache)"
| "negotiation_finish input (Some ProbeTransportClosed) cache =
     (NegotiationFailure NE_transport_closed ''MCP transport closed during negotiation.'', cache)"
| "negotiation_finish input (Some ProbeMalformedMetadata) cache =
     (NegotiationFailure NE_malformed_metadata ''MCP negotiation metadata is malformed.'', cache)"

definition negotiateMcpEndpoint ::
  "negotiation_input \<Rightarrow> probe_outcome option \<Rightarrow> negotiation_cache \<Rightarrow> negotiation_result \<times> negotiation_cache" where
  "negotiateMcpEndpoint input probe cache =
     (case negotiation_start input cache of
        (Some result, cache') \<Rightarrow> (result, cache')
      | (None, cache') \<Rightarrow> negotiation_finish input probe cache')"

end
