(* ===== verification/Mcp_Negotiation_Properties.thy ===== *)
theory Mcp_Negotiation_Properties
  imports Mcp_Negotiation
begin

text \<open>
  Properties of the negotiation: \<open>negotiation_run\<close> is every interleaving of calls on one cache, with
  the probes answered so far; its invariant (\<open>run_cache\<close>, \<open>run_pending\<close>) ties each cache entry to the
  answer of a probe for the same scope, endpoint and mode.
\<close>

section \<open>Keys\<close>

lemma mcp_safeLabel_no_zero: "mcp_safeLabel (JStr s) n \<Longrightarrow> 0 \<notin> set s"
  by (auto simp: mcp_safeLabel_def list_ex_iff code_units_def in_class_def)

lemma split_at_zero:
  assumes "a @ [0] @ b = c @ [0] @ d" and "(0 :: code_unit) \<notin> set a" and "0 \<notin> set c"
  shows "a = c \<and> b = d"
  using assms by (induction a arbitrary: c) (auto simp: Cons_eq_append_conv append_eq_Cons_conv)

definition same_slot :: "negotiation_input \<Rightarrow> negotiation_input \<Rightarrow> bool" where
  "same_slot i j \<longleftrightarrow> ni_cache_scope i = ni_cache_scope j \<and> ni_endpoint i = ni_endpoint j \<and> ni_mode i = ni_mode j"

lemma config_labels:
  "negotiation_config input = Some (ttl, now) \<longleftrightarrow>
     ttl_value (ni_ttl_ms input) = Some ttl \<and> ni_now input = Some now \<and> 1 \<le> ttl \<and> ttl \<le> 86400000
     \<and> mcp_safeLabel (JStr (ni_endpoint input)) 512 \<and> mcp_safeLabel (JStr (ni_cache_scope input)) 128"
  by (auto simp: negotiation_config_def split: option.splits if_splits)

lemma mode_text_inject: "mode_text a = mode_text b \<longleftrightarrow> a = b"
  by (cases a; cases b) (auto simp: MCP_MODERN_PROTOCOL_VERSION_def)

lemma cacheKey_inject:
  assumes "negotiation_config i = Some x" and "negotiation_config j = Some y"
  shows "cacheKey i = cacheKey j \<longleftrightarrow> same_slot i j"
proof -
  have labels: "0 \<notin> set (ni_cache_scope i)" "0 \<notin> set (ni_cache_scope j)" "0 \<notin> set (ni_endpoint i)" "0 \<notin> set (ni_endpoint j)"
    using assms mcp_safeLabel_no_zero by (cases x; cases y; auto simp: config_labels)+
  show ?thesis
  proof
    assume same: "cacheKey i = cacheKey j"
    from split_at_zero [OF same [unfolded cacheKey_def] labels(1,2)]
    have "ni_cache_scope i = ni_cache_scope j" and
      rest: "ni_endpoint i @ [0] @ mode_text (ni_mode i) = ni_endpoint j @ [0] @ mode_text (ni_mode j)" by auto
    moreover from split_at_zero [OF rest labels(3,4)] have "ni_endpoint i = ni_endpoint j" "ni_mode i = ni_mode j"
      by (auto simp: mode_text_inject)
    ultimately show "same_slot i j" by (simp add: same_slot_def)
  qed (simp add: cacheKey_def same_slot_def)
qed

section \<open>Interleavings\<close>

inductive negotiation_run ::
  "negotiation_cache \<Rightarrow> negotiation_input list \<Rightarrow> (negotiation_input \<times> probe_outcome) set \<Rightarrow> bool" where
  run_empty: "negotiation_run (\<lambda>_. None) [] {}"
| run_start: "negotiation_run cache waiting answers \<Longrightarrow> negotiation_start input cache = (result, cache') \<Longrightarrow>
    negotiation_run cache' (if result = None then input # waiting else waiting) answers"
| run_finish: "negotiation_run cache waiting answers \<Longrightarrow> input \<in> set waiting \<Longrightarrow>
    negotiation_finish input probe cache = (result, cache') \<Longrightarrow>
    negotiation_run cache' (remove1 input waiting) (answers \<union> Pair input ` set_option probe)"

text \<open>The entry an answer gives, if the mode accepts it.\<close>

fun granted :: "negotiation_input \<Rightarrow> probe_outcome \<Rightarrow> negotiation_cache_entry option" where
  "granted input (ProbeModern v info) =
     (if modeAccepts (ni_mode input) ModernEra \<and> v = MCP_MODERN_PROTOCOL_VERSION
      then Some \<lparr>nc_era = ModernEra, nc_protocol_version = v, nc_server_info = normalizeServerInfo info,
        nc_expires_at_ms = the (ni_now input) + the (ttl_value (ni_ttl_ms input))\<rparr> else None)"
| "granted input (ProbeLegacy v info) =
     (if modeAccepts (ni_mode input) LegacyEra
      then Some \<lparr>nc_era = LegacyEra, nc_protocol_version = v, nc_server_info = normalizeServerInfo info,
        nc_expires_at_ms = the (ni_now input) + the (ttl_value (ni_ttl_ms input))\<rparr> else None)"
| "granted input _ = None"

lemma finish_granted:
  "negotiation_finish input probe cache = (result, cache') \<Longrightarrow>
     (\<exists>outcome entry. probe = Some outcome \<and> granted input outcome = Some entry
        \<and> cache' = cache(cacheKey input \<mapsto> entry) \<and> result = negotiation_success entry (ni_cache_scope input) False)
     \<or> (cache' = cache \<and> (\<exists>code message. result = NegotiationFailure code message)
        \<and> (\<forall>outcome. probe = Some outcome \<longrightarrow> granted input outcome = None))"
  by (induction input probe cache rule: negotiation_finish.induct)
    (auto simp: finish_era_def Let_def cache_write_def split: if_splits)

lemma granted_sound:
  assumes "granted input outcome = Some entry" and "negotiation_config input = Some (ttl, now)"
  shows "modeAccepts (ni_mode input) (nc_era entry)" and "nc_expires_at_ms entry = now + ttl"
    and "nc_era entry = ModernEra \<Longrightarrow> nc_protocol_version entry = MCP_MODERN_PROTOCOL_VERSION"
  using assms by (cases outcome; auto simp: config_labels split: if_splits)+

lemma start_cases:
  assumes "negotiation_start input cache = (result, cache')"
  obtains (config) "result = Some (NegotiationFailure NE_invalid_config ''MCP negotiation configuration is invalid.'')"
      "cache' = cache" "negotiation_config input = None"
  | (hit) ttl now entry where "negotiation_config input = Some (ttl, now)" "cache (cacheKey input) = Some entry"
      "now < nc_expires_at_ms entry" "modeAccepts (ni_mode input) (nc_era entry)" "cache' = cache"
      "result = Some (negotiation_success entry (ni_cache_scope input) True)"
  | (probe) ttl now where "negotiation_config input = Some (ttl, now)" "result = None"
      "cache' = cache \<or> cache' = cache(cacheKey input := None)
        \<and> (\<exists>entry. cache (cacheKey input) = Some entry \<and> nc_expires_at_ms entry \<le> now)"
  using assms
  by (fastforce simp: negotiation_start_def cache_read_def split: option.splits if_splits)

lemma run_pending: "negotiation_run cache waiting answers \<Longrightarrow> input \<in> set waiting \<Longrightarrow> \<exists>x. negotiation_config input = Some x"
proof (induction arbitrary: input rule: negotiation_run.induct)
  case (run_start cache waiting answers input' result cache')
  then show ?case by (cases "result = None") (auto elim: start_cases)
next
  case (run_finish cache waiting answers input' probe result cache')
  then show ?case by (meson notin_set_remove1)
qed simp

lemma run_answers: "negotiation_run cache waiting answers \<Longrightarrow> (input, outcome) \<in> answers \<Longrightarrow> \<exists>x. negotiation_config input = Some x"
proof (induction rule: negotiation_run.induct)
  case (run_finish cache waiting answers input' probe result cache')
  then show ?case using run_pending by auto
qed auto

lemma run_cache:
  "negotiation_run cache waiting answers \<Longrightarrow> cache key = Some entry \<Longrightarrow>
     \<exists>(input, outcome) \<in> answers. key = cacheKey input \<and> granted input outcome = Some entry"
proof (induction arbitrary: key entry rule: negotiation_run.induct)
  case (run_start cache waiting answers input result cache')
  have "cache key = Some entry" using run_start.hyps(2) run_start.prems
    by (cases rule: start_cases) (auto split: if_splits)
  then show ?case by (rule run_start.IH)
next
  case (run_finish cache waiting answers input probe result cache')
  from finish_granted [OF run_finish.hyps(3)] run_finish.prems run_finish.IH [of key entry]
  show ?case by (fastforce split: if_splits)
qed simp

lemma run_entry:
  assumes "negotiation_run cache waiting answers" and "negotiation_config input = Some x"
    and "cache (cacheKey input) = Some entry"
  shows "\<exists>earlier outcome ttl now. (earlier, outcome) \<in> answers \<and> same_slot earlier input
    \<and> granted earlier outcome = Some entry \<and> negotiation_config earlier = Some (ttl, now)
    \<and> nc_expires_at_ms entry = now + ttl \<and> ttl \<le> 86400000
    \<and> modeAccepts (ni_mode input) (nc_era entry)
    \<and> (nc_era entry = ModernEra \<longrightarrow> nc_protocol_version entry = MCP_MODERN_PROTOCOL_VERSION)"
proof -
  from run_cache [OF assms(1,3)] obtain earlier outcome where e: "(earlier, outcome) \<in> answers"
    "cacheKey input = cacheKey earlier" "granted earlier outcome = Some entry" by auto
  from run_answers [OF assms(1) e(1)] obtain ttl now where c: "negotiation_config earlier = Some (ttl, now)" by auto
  have "same_slot earlier input" using cacheKey_inject [OF c assms(2)] e(2) by simp
  moreover have "ttl \<le> 86400000" using c by (simp add: config_labels)
  ultimately show ?thesis using e granted_sound [OF e(3) c] c by (fastforce simp: same_slot_def)
qed

section \<open>Properties\<close>

text \<open>
  C11. Isolation of the cache, over every interleaving of negotiations that share it: an entry found
  for a request was written by the probe of a request with the same scope, endpoint and mode, for
  an era that mode accepts, with the pinned version if it is modern, and expires within a day of
  that request.
\<close>

theorem cache_is_isolated:
  assumes "negotiation_run cache waiting answers" and "negotiation_config input = Some x"
    and "cache (cacheKey input) = Some entry"
  shows "\<exists>earlier outcome ttl now. (earlier, outcome) \<in> answers \<and> same_slot earlier input
    \<and> granted earlier outcome = Some entry \<and> negotiation_config earlier = Some (ttl, now)
    \<and> nc_expires_at_ms entry = now + ttl \<and> ttl \<le> 86400000
    \<and> modeAccepts (ni_mode input) (nc_era entry)
    \<and> (nc_era entry = ModernEra \<longrightarrow> nc_protocol_version entry = MCP_MODERN_PROTOCOL_VERSION)"
  by (rule run_entry [OF assms])

lemma success_cases:
  "negotiation_success entry scope cached = Negotiated np \<longleftrightarrow> time_clipped (nc_expires_at_ms entry)
     \<and> np = \<lparr>np_era = nc_era entry, np_protocol_version = nc_protocol_version entry, np_from_cache = cached,
         np_cache_scope = scope, np_expires_at = toISOString (nc_expires_at_ms entry), np_server_info = nc_server_info entry\<rparr>"
  by (auto simp: negotiation_success_def)

text \<open>
  C14. No downgrade, over every interleaving: whatever a negotiation returns, from the cache or from
  its probe, is of an era its mode accepts; a modern result has the pinned version, so a pinned
  request never ends with anything else; and the result had not expired when it was asked for.
\<close>

theorem negotiation_never_downgrades:
  assumes "negotiation_run cache waiting answers"
    and "negotiation_start input cache = (Some (Negotiated np), cache')
      \<or> input \<in> set waiting \<and> negotiation_finish input probe cache = (Negotiated np, cache')"
  shows "modeAccepts (ni_mode input) (np_era np)
    \<and> (np_era np = ModernEra \<or> ni_mode input = ModernMode \<longrightarrow> np_protocol_version np = MCP_MODERN_PROTOCOL_VERSION)
    \<and> (\<exists>now expires. ni_now input = Some now \<and> now < expires \<and> time_clipped expires \<and> np_expires_at np = toISOString expires)"
  using assms(2)
proof
  assume "negotiation_start input cache = (Some (Negotiated np), cache')"
  then show ?thesis
  proof (cases rule: start_cases)
    case (hit ttl now entry)
    from run_entry [OF assms(1) hit(1,2)] hit(6) [symmetric] hit(1-4) show ?thesis
      by (auto simp: success_cases config_labels modeAccepts_def)
  qed auto
next
  assume f: "input \<in> set waiting \<and> negotiation_finish input probe cache = (Negotiated np, cache')"
  with run_pending [OF assms(1)] obtain ttl now where c: "negotiation_config input = Some (ttl, now)" by force
  from f finish_granted [of input probe cache "Negotiated np" cache'] obtain outcome entry where
    e: "granted input outcome = Some entry" "Negotiated np = negotiation_success entry (ni_cache_scope input) False" by auto
  note sound = granted_sound [OF e(1) c]
  from e(2) [symmetric] sound(2) c have "\<exists>now expires. ni_now input = Some now \<and> now < expires \<and> time_clipped expires
      \<and> np_expires_at np = toISOString expires"
    by (intro exI [of _ now] exI [of _ "now + ttl"]) (auto simp: success_cases config_labels)
  with e(2) [symmetric] sound show ?thesis by (auto simp: success_cases modeAccepts_def)
qed

text \<open>
  A failed negotiation writes nothing: the cache is as before, or an expired entry of the same
  request is gone. A probe that reports an error, was refused by the mode or threw ends in a
  failure whenever the cache has no answer; no other protocol is tried.
\<close>

theorem failures_write_nothing:
  assumes "negotiateMcpEndpoint input probe cache = (result, cache')"
  shows "(\<forall>code message. result = NegotiationFailure code message \<longrightarrow>
      cache' = cache \<or> cache' = cache(cacheKey input := None) \<and> (\<exists>entry now. cache (cacheKey input) = Some entry
        \<and> ni_now input = Some now \<and> nc_expires_at_ms entry \<le> now))
    \<and> (cache (cacheKey input) = None \<and> (\<forall>outcome. probe = Some outcome \<longrightarrow> granted input outcome = None) \<longrightarrow>
      (\<exists>code message. result = NegotiationFailure code message))"
proof -
  obtain r c where s: "negotiation_start input cache = (r, c)" by fastforce
  then show ?thesis
  proof (cases rule: start_cases)
    case config
    then show ?thesis using assms s by (auto simp: negotiateMcpEndpoint_def)
  next
    case (hit ttl now entry)
    then show ?thesis using assms s by (auto simp: negotiateMcpEndpoint_def negotiation_success_def split: if_splits)
  next
    case (probe ttl now)
    then have "negotiation_finish input probe c = (result, cache')" using assms s by (simp add: negotiateMcpEndpoint_def)
    from finish_granted [OF this] probe show ?thesis
      by (auto simp: config_labels negotiation_success_def split: if_splits)
  qed
qed

text \<open>
  C38. What a probe established is reused until it expires: after a successful negotiation a request
  with the same scope, endpoint and mode gets the same result from the cache without a probe while
  the time to live lasts, and afterwards the entry is dropped and the endpoint probed again.
\<close>

theorem result_reused_until_expiry:
  assumes "negotiation_finish input probe cache = (Negotiated np, cache')"
    and "negotiation_config input = Some (ttl, now)" and "negotiation_config later = Some (ttl', now')"
    and "same_slot later input"
  shows "negotiation_start later cache' =
    (if now' < now + ttl then (Some (Negotiated (np\<lparr>np_from_cache := True\<rparr>)), cache')
     else (None, cache'(cacheKey input := None)))"
proof -
  from finish_granted [OF assms(1)] obtain outcome entry where
    e: "granted input outcome = Some entry" "Negotiated np = negotiation_success entry (ni_cache_scope input) False"
    "cache' = cache(cacheKey input \<mapsto> entry)" by auto
  note sound = granted_sound [OF e(1) assms(2)]
  have key: "cacheKey later = cacheKey input" and slot: "ni_mode later = ni_mode input" "ni_cache_scope later = ni_cache_scope input"
    using assms(4) by (simp_all add: cacheKey_def same_slot_def)
  from e(2) [symmetric] have np: "time_clipped (nc_expires_at_ms entry)"
    "np = \<lparr>np_era = nc_era entry, np_protocol_version = nc_protocol_version entry, np_from_cache = False,
         np_cache_scope = ni_cache_scope input, np_expires_at = toISOString (nc_expires_at_ms entry), np_server_info = nc_server_info entry\<rparr>"
    by (auto simp: success_cases)
  show ?thesis using sound(1,2) np
    by (auto simp: negotiation_start_def assms(3) cache_read_def key e(3) slot negotiation_success_def)
qed

text \<open>A pinned request, its probe, and the state after both.\<close>

definition sample_negotiation :: negotiation_input where
  "sample_negotiation = \<lparr>ni_endpoint = js ''https://e'', ni_mode = ModernMode, ni_cache_scope = js ''s'',
     ni_ttl_ms = NInt 1000, ni_now = Some 0\<rparr>"

definition sample_entry :: negotiation_cache_entry where
  "sample_entry = \<lparr>nc_era = ModernEra, nc_protocol_version = MCP_MODERN_PROTOCOL_VERSION, nc_server_info = None,
     nc_expires_at_ms = 1000\<rparr>"

abbreviation sample_probe :: probe_outcome where
  "sample_probe \<equiv> ProbeModern MCP_MODERN_PROTOCOL_VERSION JNull"

lemma sample_config: "negotiation_config sample_negotiation = Some (1000, 0)"
  by (simp add: config_labels sample_negotiation_def ttl_value_def max_safe_integer_def mcp_safeLabel_def js_def code_units_def
      in_class_def)

lemma sample_granted: "granted sample_negotiation sample_probe = Some sample_entry"
  by (simp add: sample_negotiation_def sample_entry_def ttl_value_def max_safe_integer_def modeAccepts_def normalizeServerInfo_def)

lemma sample_run:
  "negotiation_run (\<lambda>_. None) [sample_negotiation] {}"
  "negotiation_run [cacheKey sample_negotiation \<mapsto> sample_entry] [] {(sample_negotiation, sample_probe)}"
  "negotiation_finish sample_negotiation (Some sample_probe) (\<lambda>_. None)
     = (negotiation_success sample_entry (js ''s'') False, [cacheKey sample_negotiation \<mapsto> sample_entry])"
proof -
  have "negotiation_start sample_negotiation (\<lambda>_. None) = (None, \<lambda>_. None)"
    by (simp add: negotiation_start_def sample_config cache_read_def)
  from run_start [OF run_empty this] show one: "negotiation_run (\<lambda>_. None) [sample_negotiation] {}" by simp
  show fin: "negotiation_finish sample_negotiation (Some sample_probe) (\<lambda>_. None)
     = (negotiation_success sample_entry (js ''s'') False, [cacheKey sample_negotiation \<mapsto> sample_entry])"
    using finish_granted [of sample_negotiation "Some sample_probe" "\<lambda>_. None"] sample_granted
    by (cases "negotiation_finish sample_negotiation (Some sample_probe) (\<lambda>_. None)") (auto simp: sample_negotiation_def)
  from run_finish [OF one _ fin] show "negotiation_run [cacheKey sample_negotiation \<mapsto> sample_entry] []
      {(sample_negotiation, sample_probe)}" by simp
qed

lemma sample_success: "\<exists>np. negotiation_success sample_entry (js ''s'') cached = Negotiated np"
  by (simp add: negotiation_success_def sample_entry_def time_clipped_def)

theorem cache_is_isolated_witness:
  "\<exists>earlier outcome. (earlier, outcome) \<in> {(sample_negotiation, sample_probe)} \<and> same_slot earlier sample_negotiation
    \<and> granted earlier outcome = Some sample_entry"
  using cache_is_isolated [OF sample_run(2) sample_config, of sample_entry] by auto

theorem negotiation_never_downgrades_witness:
  "\<exists>np cache'. negotiation_finish sample_negotiation (Some sample_probe) (\<lambda>_. None) = (Negotiated np, cache')
    \<and> modeAccepts ModernMode (np_era np) \<and> np_protocol_version np = MCP_MODERN_PROTOCOL_VERSION"
proof -
  obtain np where np: "negotiation_success sample_entry (js ''s'') False = Negotiated np" using sample_success by blast
  have mode: "ni_mode sample_negotiation = ModernMode" by (simp add: sample_negotiation_def)
  from negotiation_never_downgrades [OF sample_run(1), of sample_negotiation np _ "Some sample_probe"] np sample_run(3) mode
  show ?thesis by auto
qed

theorem failures_write_nothing_witness:
  "\<exists>code message. negotiateMcpEndpoint sample_negotiation (Some ProbeTimeout) (\<lambda>_. None)
    = (NegotiationFailure code message, \<lambda>_. None)"
proof -
  obtain result cache' where r: "negotiateMcpEndpoint sample_negotiation (Some ProbeTimeout) (\<lambda>_. None) = (result, cache')"
    by fastforce
  from failures_write_nothing [OF this] r show ?thesis by auto
qed

theorem result_reused_until_expiry_witness:
  "\<exists>np cache. negotiation_finish sample_negotiation (Some sample_probe) (\<lambda>_. None) = (Negotiated np, cache)
    \<and> negotiation_start (sample_negotiation\<lparr>ni_now := Some 999\<rparr>) cache = (Some (Negotiated (np\<lparr>np_from_cache := True\<rparr>)), cache)"
proof -
  obtain np where np: "negotiation_success sample_entry (js ''s'') False = Negotiated np" using sample_success by blast
  have later: "negotiation_config (sample_negotiation\<lparr>ni_now := Some 999\<rparr>) = Some (1000, 999)"
    using sample_config by (simp add: config_labels)
  from result_reused_until_expiry [OF sample_run(3) [unfolded np] sample_config later] np sample_run(3)
  show ?thesis by (simp add: same_slot_def)
qed

text \<open>
  Close to the last representable date the result cannot be written: the expiry is out of range,
  \<open>toISOString\<close> throws after the entry was stored, and every later request that finds it throws too.
\<close>

lemma expiry_out_of_range:
  assumes "negotiation_config input = Some (ttl, 8640000000000000)" and "granted input outcome = Some entry"
    and "cache (cacheKey input) = None"
  shows "negotiateMcpEndpoint input (Some outcome) cache = (NegotiationThrows, cache(cacheKey input \<mapsto> entry))
    \<and> fst (negotiateMcpEndpoint input (Some outcome) (cache(cacheKey input \<mapsto> entry))) = NegotiationThrows"
proof -
  have ttl: "1 \<le> ttl" using assms(1) by (simp add: config_labels)
  note sound = granted_sound [OF assms(2,1)]
  have out: "\<not> time_clipped (nc_expires_at_ms entry)" "8640000000000000 < nc_expires_at_ms entry"
    using sound(2) ttl by (auto simp: time_clipped_def)
  have first: "negotiation_start input cache = (None, cache)"
    by (simp add: negotiation_start_def assms(1) cache_read_def assms(3))
  have finish: "negotiation_finish input (Some outcome) cache = (NegotiationThrows, cache(cacheKey input \<mapsto> entry))"
    using finish_granted [of input "Some outcome" cache] assms(2) out(1)
    by (cases "negotiation_finish input (Some outcome) cache") (fastforce simp: negotiation_success_def)
  show ?thesis using first finish out sound(1)
    by (simp add: negotiateMcpEndpoint_def negotiation_start_def assms(1) cache_read_def negotiation_success_def)
qed

end
