(* ===== verification/Universal_Packet.thy ===== *)
theory Universal_Packet
  imports Complex_Main Packet_Envelope
begin

text \<open>
  The validator of the universal packet, \<open>packages/packets/src/validator.ts\<close>. Each check returns the
  errors it pushes, in order. An object is any object that is no array here, whatever its prototype.

  \<open>universal_contract\<close> is the contract, stated on the numbers, texts and lists a packet stands for;
  \<open>universal_checks\<close> is the conjunction of the checks, which on JavaScript values is the contract.
\<close>

section \<open>Text\<close>

definition jsonPointer :: "jstr \<Rightarrow> jstr" where
  "jsonPointer label = concat (map (\<lambda>segment. js ''/'' @ escapeJsonPointerSegment segment) (split_unit 46 label))"

text \<open>
  \<open>key.toLowerCase().includes("secret_value")\<close>: outside \<open>A\<close> to \<open>Z\<close> only U+0130 and U+212A have ASCII
  letters in their lower case, \<open>i\<close> and \<open>k\<close>, which the word does not contain.
\<close>

definition lower_unit :: "code_unit \<Rightarrow> code_unit" where
  "lower_unit u = (if 65 \<le> u \<and> u \<le> 90 then u + 32 else u)"

definition js_includes :: "jstr \<Rightarrow> jstr \<Rightarrow> bool" where
  "js_includes s p \<longleftrightarrow> list_ex (\<lambda>i. js_startsWith (drop i s) p) [0..<Suc (length s)]"

definition secret_key :: "jstr \<Rightarrow> bool" where
  "secret_key key \<longleftrightarrow> js_includes (map lower_unit key) (js ''secret_value'')"

section \<open>Contract\<close>

datatype universal_error_code =
    UP_invalid_type | UP_unexpected_field | UP_missing_required_field | UP_invalid_field | UP_secret_value_embedded

type_synonym up_error = "universal_error_code contract_error"

definition allowedRootKeys :: "jstr list" where
  "allowedRootKeys = map js
     [''packet_id'', ''packet_type'', ''version'', ''project_id'', ''actor_id'', ''session_id'', ''intent'',
      ''risk_level'', ''source_refs'', ''resource_refs'', ''policy_profile'', ''permission_envelope'', ''budget'',
      ''constraints'', ''requires_approval'', ''ttl_seconds'', ''created_at'']"

definition universalBudgetKeys :: "jstr list" where
  "universalBudgetKeys = map js [''tokens'', ''runtime_seconds'', ''cost_usd'', ''cpu'', ''memory_mb'']"

definition validationError :: "universal_error_code \<Rightarrow> jstr \<Rightarrow> jstr \<Rightarrow> up_error" where
  "validationError code path message =
     \<lparr>ce_code = code, ce_path = path, ce_message = message, ce_severity = js ''error''\<rparr>"

definition isoUtcPattern :: "jstr \<Rightarrow> bool" where
  "isoUtcPattern = rx_test (RSeq (rx_digits 4) (RSeq (rx_lit ''-'') (RSeq (rx_digits 2) (RSeq (rx_lit ''-'')
     (RSeq (rx_digits 2) (RSeq (rx_lit ''T'') (RSeq (rx_digits 2) (RSeq (rx_lit '':'') (RSeq (rx_digits 2)
     (RSeq (rx_lit '':'') (RSeq (rx_digits 2)
     (RSeq (rx_opt (RSeq (rx_lit ''.'') (RRep (RCls False cc_digit) 1 None))) (rx_lit ''Z'')))))))))))))"

definition universalPacketIdPattern :: "jstr \<Rightarrow> bool" where
  "universalPacketIdPattern = rx_test (rx_identifier ''pkt_'' 63)"

definition sessionIdPattern :: "jstr \<Rightarrow> bool" where
  "sessionIdPattern = rx_test (rx_identifier ''sess_'' 63)"

section \<open>Checks\<close>

definition up_requirePatternString :: "jsval \<Rightarrow> string \<Rightarrow> (jstr \<Rightarrow> bool) \<Rightarrow> string \<Rightarrow> up_error list" where
  "up_requirePatternString value label pattern message =
     (if \<not> js_isString value \<or> \<not> pattern (as_str value)
      then [validationError UP_invalid_field (jsonPointer (js label)) (js message)] else [])"

definition requireNonEmptyString :: "jsval \<Rightarrow> string \<Rightarrow> up_error list" where
  "requireNonEmptyString value label =
     (if \<not> js_isString value \<or> length (as_str value) < 1
      then [validationError UP_invalid_field (jsonPointer (js label)) (js label @ js '' must be a non-empty string.'')] else [])"

definition requireStringArray :: "jsval \<Rightarrow> string \<Rightarrow> up_error list" where
  "requireStringArray value label =
     (case value of
        JArr items \<Rightarrow>
          concat (map (\<lambda>(index, item). if \<not> js_isString item \<or> length (as_str item) < 1
            then [validationError UP_invalid_field (jsonPointer (js label) @ js ''/'' @ show_nat index)
                    (js label @ js '' must contain only non-empty strings.'')] else []) (enumerate 0 items))
      | _ \<Rightarrow> [validationError UP_invalid_field (jsonPointer (js label)) (js label @ js '' must be an array.'')])"

fun nonNegativeInteger :: "jsval \<Rightarrow> bool" where
  "nonNegativeInteger (JNum n) \<longleftrightarrow> num_isInteger n \<and> \<not> num_less_int n 0"
| "nonNegativeInteger _ \<longleftrightarrow> False"

fun nonNegativeNumber :: "jsval \<Rightarrow> bool" where
  "nonNegativeNumber (JNum n) \<longleftrightarrow> num_isFinite n \<and> \<not> num_less_int n 0"
| "nonNegativeNumber _ \<longleftrightarrow> False"

definition requireNonNegativeInteger :: "jsval \<Rightarrow> string \<Rightarrow> up_error list" where
  "requireNonNegativeInteger value label =
     (if \<not> nonNegativeInteger value
      then [validationError UP_invalid_field (jsonPointer (js label)) (js label @ js '' must be a non-negative integer.'')] else [])"

definition requireNonNegativeNumber :: "jsval \<Rightarrow> string \<Rightarrow> up_error list" where
  "requireNonNegativeNumber value label =
     (if \<not> nonNegativeNumber value
      then [validationError UP_invalid_field (jsonPointer (js label)) (js label @ js '' must be a non-negative number.'')] else [])"

definition quoted :: "jstr \<Rightarrow> jstr" where
  "quoted s = [39] @ s @ [39]"

definition up_validatePermissionEnvelope :: "jsval \<Rightarrow> up_error list" where
  "up_validatePermissionEnvelope value =
     (if \<not> js_isObject value
      then [validationError UP_invalid_field (js ''/permission_envelope'') (js ''permission_envelope must be an object.'')]
      else concat (map (\<lambda>key. if key \<notin> set permissionEnvelopeKeys
             then [validationError UP_unexpected_field (js ''/permission_envelope/'' @ escapeJsonPointerSegment key)
                     (js ''Unexpected permission_envelope field '' @ quoted key @ js ''.'')] else []) (js_keys value))
        @ requireStringArray (fld value ''allow'') ''permission_envelope.allow''
        @ requireStringArray (fld value ''block'') ''permission_envelope.block'')"

definition up_validateBudget :: "jsval \<Rightarrow> up_error list" where
  "up_validateBudget value =
     (if \<not> js_isObject value
      then [validationError UP_invalid_field (js ''/budget'') (js ''budget must be an object.'')]
      else concat (map (\<lambda>key. if key \<notin> set universalBudgetKeys
             then [validationError UP_unexpected_field (js ''/budget/'' @ escapeJsonPointerSegment key)
                     (js ''Unexpected budget field '' @ quoted key @ js ''.'')] else []) (js_keys value))
        @ requireNonNegativeInteger (fld value ''tokens'') ''budget.tokens''
        @ requireNonNegativeInteger (fld value ''runtime_seconds'') ''budget.runtime_seconds''
        @ requireNonNegativeNumber (fld value ''cost_usd'') ''budget.cost_usd''
        @ requireNonNegativeNumber (fld value ''cpu'') ''budget.cpu''
        @ requireNonNegativeInteger (fld value ''memory_mb'') ''budget.memory_mb'')"

function findForbiddenSecretValueFields :: "(jstr \<times> jsval) list \<Rightarrow> jstr \<Rightarrow> up_error list" where
  "findForbiddenSecretValueFields [] path = []"
| "findForbiddenSecretValueFields ((key, item) # rest) path =
     (let itemPath = path @ js ''/'' @ escapeJsonPointerSegment key in
      (if secret_key key
       then [validationError UP_secret_value_embedded itemPath
               (js ''Packet constraints must not contain embedded secret values.'')] else [])
      @ (case item of JObj p fs \<Rightarrow> findForbiddenSecretValueFields fs itemPath | _ \<Rightarrow> [])
      @ findForbiddenSecretValueFields rest path)"
  by pat_completeness auto
termination
  by (relation "measure (\<lambda>(fs, path). size (JObj True fs))") auto

fun risk_level_ok_universal :: "jsval \<Rightarrow> bool" where
  "risk_level_ok_universal (JNum n) \<longleftrightarrow> num_isInteger n \<and> \<not> num_less_int n 0 \<and> \<not> num_greater_int n 8"
| "risk_level_ok_universal _ \<longleftrightarrow> False"

fun ttl_ok :: "jsval \<Rightarrow> bool" where
  "ttl_ok (JNum n) \<longleftrightarrow> num_isInteger n \<and> \<not> num_less_int n 1"
| "ttl_ok _ \<longleftrightarrow> False"

definition object_entries :: "jsval \<Rightarrow> (jstr \<times> jsval) list" where
  "object_entries v = (case v of JObj p fs \<Rightarrow> fs | _ \<Rightarrow> [])"

definition universal_errors :: "jsval \<Rightarrow> up_error list" where
  "universal_errors value =
     concat (map (\<lambda>key. if key \<notin> set allowedRootKeys
       then [validationError UP_unexpected_field (jsonPointer key) (js ''Unexpected root field '' @ quoted key @ js ''.'')]
       else []) (js_keys value))
     @ concat (map (\<lambda>key. if \<not> js_has value key
       then [validationError UP_missing_required_field (jsonPointer key) (js ''Missing required field '' @ quoted key @ js ''.'')]
       else []) allowedRootKeys)
     @ up_requirePatternString (fld value ''packet_id'') ''packet_id'' universalPacketIdPattern
         ''packet_id must use pkt_ prefix and stable lowercase id.''
     @ (if \<not> js_isString (fld value ''packet_type'') \<or> as_str (fld value ''packet_type'') \<notin> set universalPacketTypes
        then [validationError UP_invalid_field (js ''/packet_type'') (js ''packet_type must be a known universal packet type.'')]
        else [])
     @ (if fld value ''version'' \<noteq> JStr (js ''0.1'')
        then [validationError UP_invalid_field (js ''/version'') (js ''version must be 0.1.'')] else [])
     @ requireNonEmptyString (fld value ''project_id'') ''project_id''
     @ requireNonEmptyString (fld value ''actor_id'') ''actor_id''
     @ requireNonEmptyString (fld value ''intent'') ''intent''
     @ requireNonEmptyString (fld value ''policy_profile'') ''policy_profile''
     @ up_requirePatternString (fld value ''session_id'') ''session_id'' sessionIdPattern
         ''session_id must use sess_ prefix and stable lowercase id.''
     @ (if \<not> risk_level_ok_universal (fld value ''risk_level'')
        then [validationError UP_invalid_field (js ''/risk_level'') (js ''risk_level must be an integer from 0 through 8.'')]
        else [])
     @ requireStringArray (fld value ''source_refs'') ''source_refs''
     @ requireStringArray (fld value ''resource_refs'') ''resource_refs''
     @ up_validatePermissionEnvelope (fld value ''permission_envelope'')
     @ up_validateBudget (fld value ''budget'')
     @ (if \<not> js_isObject (fld value ''constraints'')
        then [validationError UP_invalid_field (js ''/constraints'') (js ''constraints must be an object.'')]
        else findForbiddenSecretValueFields (object_entries (fld value ''constraints'')) (js ''/constraints''))
     @ (if \<not> js_isBoolean (fld value ''requires_approval'')
        then [validationError UP_invalid_field (js ''/requires_approval'') (js ''requires_approval must be boolean.'')] else [])
     @ (if \<not> ttl_ok (fld value ''ttl_seconds'')
        then [validationError UP_invalid_field (js ''/ttl_seconds'') (js ''ttl_seconds must be a positive integer.'')] else [])
     @ up_requirePatternString (fld value ''created_at'') ''created_at'' isoUtcPattern
         ''created_at must be an ISO UTC timestamp.''"

definition validateUniversalPacket :: "jsval \<Rightarrow> up_error list + jsval" where
  "validateUniversalPacket value =
     (if \<not> js_isObject value
      then Inl [validationError UP_invalid_type [] (js ''Packet must be a plain object.'')]
      else (let errors = universal_errors value in if errors \<noteq> [] then Inl errors else Inr value))"

section \<open>What the checks accept\<close>

text \<open>A key of an object, or of an object nested in objects; arrays are not entered.\<close>

inductive object_key :: "jsval \<Rightarrow> jstr \<Rightarrow> bool" where
  own_key: "(k, x) \<in> set fs \<Longrightarrow> object_key (JObj p fs) k"
| nested_key: "(k', x) \<in> set fs \<Longrightarrow> object_key x k \<Longrightarrow> object_key (JObj p fs) k"

inductive_simps object_key_obj: "object_key (JObj p fs) k"

lemma object_key_only_objects: "\<not> js_isObject v \<Longrightarrow> \<not> object_key v k"
  by (auto elim: object_key.cases)

lemma forbidden_fields_ok [check_ok]:
  "findForbiddenSecretValueFields fs path = [] \<longleftrightarrow> (\<forall>k. object_key (JObj p fs) k \<longrightarrow> \<not> secret_key k)"
proof (induction fs path arbitrary: p rule: findForbiddenSecretValueFields.induct)
  case (2 key item rest path)
  have item: "(case item of JObj p fs \<Rightarrow> findForbiddenSecretValueFields fs (path @ js ''/'' @ escapeJsonPointerSegment key) | _ \<Rightarrow> []) = []
      \<longleftrightarrow> (\<forall>k. object_key item k \<longrightarrow> \<not> secret_key k)"
  proof (cases item)
    case (JObj q gs)
    then show ?thesis using "2.IH"(1) [OF refl JObj, of q] by simp
  qed (auto elim: object_key.cases)
  have "object_key (JObj p ((key, item) # rest)) k \<longleftrightarrow> k = key \<or> object_key item k \<or> object_key (JObj p rest) k" for k
    by (auto simp: object_key_obj)
  then show ?case using item "2.IH"(2) [OF refl, of p] by (auto simp: Let_def)
qed (auto simp: object_key_obj)

lemma requireStringArray_ok [check_ok]:
  "requireStringArray v label = [] \<longleftrightarrow> (\<exists>ss. v = JArr (map JStr ss) \<and> [] \<notin> set ss)"
proof (cases v)
  case (JArr vs)
  have "requireStringArray v label = [] \<longleftrightarrow> (\<forall>(i, x) \<in> set (enumerate 0 vs). \<exists>s. x = JStr s \<and> s \<noteq> [])"
    unfolding requireStringArray_def JArr jsval.case concat_map_eq_Nil_iff
    by (rule ball_cong [OF refl]) (auto simp: js_isString_iff split: if_splits)
  also have "\<dots> \<longleftrightarrow> (\<forall>x \<in> set vs. \<exists>s. x = JStr s \<and> s \<noteq> [])" by (rule enumerate_all_iff)
  also have "\<dots> \<longleftrightarrow> (\<exists>ss. vs = map JStr ss \<and> list_all (\<lambda>s. s \<noteq> []) ss)" by (rule all_strings_iff)
  finally show ?thesis by (auto simp: JArr list_all_iff)
qed (auto simp: requireStringArray_def)

lemma text_checks_ok [check_ok]:
  "up_requirePatternString v label pattern message = [] \<longleftrightarrow> (\<exists>s. v = JStr s \<and> pattern s)"
  "requireNonEmptyString v label = [] \<longleftrightarrow> (\<exists>s. v = JStr s \<and> s \<noteq> [])"
  "requireNonNegativeInteger v label = [] \<longleftrightarrow> nonNegativeInteger v"
  "requireNonNegativeNumber v label = [] \<longleftrightarrow> nonNegativeNumber v"
  by (cases v; auto simp: up_requirePatternString_def requireNonEmptyString_def requireNonNegativeInteger_def
      requireNonNegativeNumber_def)+

lemma keys_present:
  assumes "js_isObject v" and "set (js_keys v) \<subseteq> set keys" and "\<forall>k \<in> set keys. js_get v k \<noteq> JUndef"
  shows "set (js_keys v) = set keys"
proof -
  have "k \<in> set (js_keys v)" if "js_get v k \<noteq> JUndef" for k
    using that by (cases v) (force split: option.splits dest: map_of_SomeD)+
  then show ?thesis using assms(2,3) by blast
qed

definition string_list :: "jsval \<Rightarrow> bool" where
  "string_list v \<longleftrightarrow> (\<exists>ss. v = JArr (map JStr ss) \<and> [] \<notin> set ss)"

definition universal_permissions :: "jsval \<Rightarrow> bool" where
  "universal_permissions v \<longleftrightarrow> js_isObject v \<and> set (js_keys v) = set permissionEnvelopeKeys
     \<and> string_list (fld v ''allow'') \<and> string_list (fld v ''block'')"

definition budget_checks :: "jsval \<Rightarrow> bool" where
  "budget_checks v \<longleftrightarrow> js_isObject v \<and> set (js_keys v) = set universalBudgetKeys
     \<and> nonNegativeInteger (fld v ''tokens'') \<and> nonNegativeInteger (fld v ''runtime_seconds'')
     \<and> nonNegativeNumber (fld v ''cost_usd'') \<and> nonNegativeNumber (fld v ''cpu'') \<and> nonNegativeInteger (fld v ''memory_mb'')"

lemma unexpected_ok:
  "concat (map (\<lambda>key. if key \<notin> set keys then [e key] else []) ks) = [] \<longleftrightarrow> set ks \<subseteq> set keys"
  by (auto simp: concat_map_eq_Nil_iff split: if_splits)

lemma permissions_ok [check_ok]: "up_validatePermissionEnvelope v = [] \<longleftrightarrow> universal_permissions v"
proof -
  have "set (js_keys v) = set permissionEnvelopeKeys"
    if "js_isObject v" "set (js_keys v) \<subseteq> set permissionEnvelopeKeys" "string_list (fld v ''allow'')" "string_list (fld v ''block'')"
    using that by (intro keys_present) (auto simp: permissionEnvelopeKeys_def string_list_def)
  then show ?thesis
    by (auto simp: up_validatePermissionEnvelope_def universal_permissions_def unexpected_ok requireStringArray_ok
        simp flip: string_list_def)
qed

lemma universal_budget_ok [check_ok]: "up_validateBudget v = [] \<longleftrightarrow> budget_checks v"
proof -
  have num: "nonNegativeInteger x \<Longrightarrow> x \<noteq> JUndef" "nonNegativeNumber x \<Longrightarrow> x \<noteq> JUndef" for x by auto
  have "set (js_keys v) = set universalBudgetKeys"
    if "js_isObject v" "set (js_keys v) \<subseteq> set universalBudgetKeys" "nonNegativeInteger (fld v ''tokens'')"
      "nonNegativeInteger (fld v ''runtime_seconds'')" "nonNegativeNumber (fld v ''cost_usd'')"
      "nonNegativeNumber (fld v ''cpu'')" "nonNegativeInteger (fld v ''memory_mb'')"
    using that num by (intro keys_present) (auto simp: universalBudgetKeys_def)
  then show ?thesis
    by (auto simp: up_validateBudget_def budget_checks_def unexpected_ok text_checks_ok)
qed

text \<open>The checks together.\<close>

definition universal_checks :: "jsval \<Rightarrow> bool" where
  "universal_checks v \<longleftrightarrow>
     js_isObject v \<and> set (js_keys v) = set allowedRootKeys
     \<and> (\<exists>s. fld v ''packet_id'' = JStr s \<and> universalPacketIdPattern s)
     \<and> (\<exists>s. fld v ''packet_type'' = JStr s \<and> s \<in> set universalPacketTypes)
     \<and> fld v ''version'' = JStr (js ''0.1'')
     \<and> (\<forall>k \<in> set [''project_id'', ''actor_id'', ''intent'', ''policy_profile'']. \<exists>s. fld v k = JStr s \<and> s \<noteq> [])
     \<and> (\<exists>s. fld v ''session_id'' = JStr s \<and> sessionIdPattern s)
     \<and> risk_level_ok_universal (fld v ''risk_level'')
     \<and> string_list (fld v ''source_refs'') \<and> string_list (fld v ''resource_refs'')
     \<and> universal_permissions (fld v ''permission_envelope'') \<and> budget_checks (fld v ''budget'')
     \<and> js_isObject (fld v ''constraints'') \<and> (\<forall>k. object_key (fld v ''constraints'') k \<longrightarrow> \<not> secret_key k)
     \<and> js_isBoolean (fld v ''requires_approval'') \<and> ttl_ok (fld v ''ttl_seconds'')
     \<and> (\<exists>s. fld v ''created_at'' = JStr s \<and> isoUtcPattern s)"

lemma universal_iff: "validateUniversalPacket v = Inr w \<longleftrightarrow> w = v \<and> universal_checks v"
proof -
  have keys: "concat (map (\<lambda>key. if key \<notin> set allowedRootKeys then [e key] else []) (js_keys v))
      @ concat (map (\<lambda>key. if \<not> js_has v key then [f key] else []) allowedRootKeys) = []
      \<longleftrightarrow> set (js_keys v) = set allowedRootKeys" for e f
    by (auto simp: unexpected_ok concat_map_eq_Nil_iff js_has_def split: if_splits)
  have constraints: "findForbiddenSecretValueFields (object_entries c) path = [] \<longleftrightarrow> (\<forall>k. object_key c k \<longrightarrow> \<not> secret_key k)"
    if "js_isObject c" for c path
    using that by (cases c) (simp_all add: object_entries_def forbidden_fields_ok)
  have "universal_errors v = [] \<longleftrightarrow> universal_checks v" if "js_isObject v"
    unfolding universal_errors_def append_assoc [symmetric] append_is_Nil_conv [of "_ @ _"] keys
      universal_checks_def
    using that constraints by (auto simp: check_ok string_list_def js_isString_iff split: if_splits)
  then show ?thesis by (auto simp: validateUniversalPacket_def Let_def universal_checks_def)
qed

section \<open>Contract\<close>

text \<open>The real number that a JavaScript number is; none for NaN and the infinities.\<close>

fun num_value :: "jsnum \<Rightarrow> real option" where
  "num_value (NInt i) = Some (of_int i)"
| "num_value NNegZero = Some 0"
| "num_value (NFrac neg s n) = Some (of_int (frac_signed neg s) * 10 powi (n - frac_digits s))"
| "num_value _ = None"

fun js_number :: "jsval \<Rightarrow> real option" where
  "js_number (JNum n) = num_value n"
| "js_number _ = None"

definition integer_from :: "int \<Rightarrow> jsval \<Rightarrow> bool" where
  "integer_from low v \<longleftrightarrow> (\<exists>i \<ge> low. js_number v = Some (of_int i))"

definition amount :: "jsval \<Rightarrow> bool" where
  "amount v \<longleftrightarrow> (\<exists>r \<ge> 0. js_number v = Some r)"

lemma frac_value:
  "10 powi (n - k) = (if k \<le> n then 10 ^ nat (n - k) else 1 / 10 ^ nat (k - n) :: real)"
  by (auto simp: power_int_def field_simps)

lemma num_compare:
  assumes "num_value x = Some r"
  shows "num_less_int x i \<longleftrightarrow> r < of_int i" and "num_greater_int x i \<longleftrightarrow> of_int i < r"
proof -
  have up: "(of_int a * 10 ^ m :: real) = of_int (a * 10 ^ m)" for a m by simp
  have down: "(of_int a * (1 / 10 ^ m) < (of_int b :: real)) \<longleftrightarrow> a < b * 10 ^ m"
    "((of_int b :: real) < of_int a * (1 / 10 ^ m)) \<longleftrightarrow> b * 10 ^ m < a" for a b m
  proof -
    have "(of_int a * (1 / 10 ^ m) < (of_int b :: real)) \<longleftrightarrow> of_int a < (of_int (b * 10 ^ m) :: real)"
      "((of_int b :: real) < of_int a * (1 / 10 ^ m)) \<longleftrightarrow> (of_int (b * 10 ^ m) :: real) < of_int a"
      by (simp_all add: field_simps)
    then show "(of_int a * (1 / 10 ^ m) < (of_int b :: real)) \<longleftrightarrow> a < b * 10 ^ m"
      "((of_int b :: real) < of_int a * (1 / 10 ^ m)) \<longleftrightarrow> b * 10 ^ m < a" by (simp_all only: of_int_less_iff)
  qed
  have "(num_less_int x i \<longleftrightarrow> r < of_int i) \<and> (num_greater_int x i \<longleftrightarrow> of_int i < r)"
  proof (cases x)
    case (NFrac neg s n)
    with assms have r: "r = of_int (frac_signed neg s) * 10 powi (n - frac_digits s)" by simp
    show ?thesis
    proof (cases "frac_digits s \<le> n")
      case True
      then show ?thesis unfolding r NFrac frac_value by (simp only: if_True up num_less_int.simps num_greater_int.simps of_int_less_iff)
    next
      case False
      then show ?thesis unfolding r NFrac frac_value by (simp only: if_False down num_less_int.simps num_greater_int.simps)
    qed
  qed (use assms in auto)
  then show "num_less_int x i \<longleftrightarrow> r < of_int i" "num_greater_int x i \<longleftrightarrow> of_int i < r" by blast+
qed

lemma num_integer:
  assumes "num_wf x"
  shows "num_isInteger x \<longleftrightarrow> (\<exists>i :: int. num_value x = Some (of_int i))"
proof (cases x)
  case (NFrac neg s n)
  show ?thesis
  proof (cases "frac_digits s \<le> n")
    case True
    then have "num_value x = Some (of_int (frac_signed neg s * 10 ^ nat (n - frac_digits s)))"
      by (simp add: NFrac frac_value)
    then show ?thesis using True NFrac by (metis num_isInteger.simps(3))
  next
    case False
    then obtain m where m: "nat (frac_digits s - n) = Suc m" by (cases "nat (frac_digits s - n)") auto
    have "False" if "num_value x = Some (of_int i)" for i
    proof -
      have "of_int (frac_signed neg s) = (of_int i * 10 ^ Suc m :: real)"
        using that False m by (simp add: NFrac frac_value field_simps)
      then have "frac_signed neg s = i * 10 ^ Suc m" by (simp flip: of_int_eq_iff [where 'a = real])
      then have "10 dvd frac_signed neg s" by simp
      then have "int 10 dvd int s" by (cases neg) (simp_all add: frac_signed_def)
      then show False using assms NFrac unfolding int_dvd_int_iff by simp
    qed
    then show ?thesis using False NFrac by auto
  qed
qed auto

lemma number_checks:
  assumes "js_wf v"
  shows "nonNegativeInteger v \<longleftrightarrow> integer_from 0 v" and "nonNegativeNumber v \<longleftrightarrow> amount v"
    and "ttl_ok v \<longleftrightarrow> integer_from 1 v"
    and "risk_level_ok_universal v \<longleftrightarrow> (\<exists>i \<in> {0 .. 8 :: int}. js_number v = Some (of_int i))"
proof -
  have finite: "num_isFinite n \<longleftrightarrow> num_value n \<noteq> None" for n by (cases n) simp_all
  note compare = num_compare [of _ "of_int _"]
  show "nonNegativeInteger v \<longleftrightarrow> integer_from 0 v" "ttl_ok v \<longleftrightarrow> integer_from 1 v"
    "risk_level_ok_universal v \<longleftrightarrow> (\<exists>i \<in> {0 .. 8 :: int}. js_number v = Some (of_int i))"
    using assms by (cases v; auto simp: integer_from_def num_integer compare not_less)+
  show "nonNegativeNumber v \<longleftrightarrow> amount v"
    by (cases v) (auto simp: amount_def finite num_compare not_less)
qed

lemma includes_iff: "js_includes s p \<longleftrightarrow> (\<exists>before after. s = before @ p @ after)"
proof
  assume "js_includes s p"
  then obtain i where "take (length p) (drop i s) = p" by (auto simp: js_includes_def js_startsWith_def list_ex_iff)
  then have "s = take i s @ p @ drop (length p) (drop i s)" by (metis append_take_drop_id)
  then show "\<exists>before after. s = before @ p @ after" by blast
next
  assume "\<exists>before after. s = before @ p @ after"
  then obtain before after where s: "s = before @ p @ after" by blast
  then show "js_includes s p"
    by (auto simp: js_includes_def js_startsWith_def list_ex_iff intro!: bexI [of _ "length before"])
qed

text \<open>
  The contract: the seventeen fields, texts of their form, the ranges of the numbers, lists of
  non-empty texts, and no key with \<open>secret_value\<close> in it, in any case of letters, in the constraints or in
  objects nested in them.
\<close>

definition universal_budget :: "jsval \<Rightarrow> bool" where
  "universal_budget v \<longleftrightarrow> js_isObject v \<and> set (js_keys v) = set universalBudgetKeys
     \<and> integer_from 0 (fld v ''tokens'') \<and> integer_from 0 (fld v ''runtime_seconds'') \<and> integer_from 0 (fld v ''memory_mb'')
     \<and> amount (fld v ''cost_usd'') \<and> amount (fld v ''cpu'')"

definition universal_contract :: "jsval \<Rightarrow> bool" where
  "universal_contract v \<longleftrightarrow>
     js_isObject v \<and> set (js_keys v) = set allowedRootKeys
     \<and> (\<exists>s. fld v ''packet_id'' = JStr s \<and> universalPacketIdPattern s)
     \<and> (\<exists>s. fld v ''packet_type'' = JStr s \<and> s \<in> set universalPacketTypes)
     \<and> fld v ''version'' = JStr (js ''0.1'')
     \<and> (\<forall>k \<in> set [''project_id'', ''actor_id'', ''intent'', ''policy_profile'']. \<exists>s. fld v k = JStr s \<and> s \<noteq> [])
     \<and> (\<exists>s. fld v ''session_id'' = JStr s \<and> sessionIdPattern s)
     \<and> (\<exists>i \<in> {0 .. 8 :: int}. js_number (fld v ''risk_level'') = Some (of_int i))
     \<and> string_list (fld v ''source_refs'') \<and> string_list (fld v ''resource_refs'')
     \<and> universal_permissions (fld v ''permission_envelope'') \<and> universal_budget (fld v ''budget'')
     \<and> js_isObject (fld v ''constraints'')
     \<and> (\<forall>k before after. object_key (fld v ''constraints'') k \<longrightarrow> map lower_unit k \<noteq> before @ js ''secret_value'' @ after)
     \<and> (\<exists>b. fld v ''requires_approval'' = JBool b) \<and> integer_from 1 (fld v ''ttl_seconds'')
     \<and> (\<exists>s. fld v ''created_at'' = JStr s \<and> isoUtcPattern s)"

lemma checks_contract:
  assumes "js_wf v"
  shows "universal_checks v \<longleftrightarrow> universal_contract v"
proof -
  have "js_wf (js_get v k)" "js_wf (js_get (js_get v k) l)" for k l by (simp_all add: js_wf_get assms)
  then show ?thesis
    unfolding universal_checks_def universal_contract_def budget_checks_def universal_budget_def secret_key_def includes_iff
    by (simp add: number_checks js_isBoolean_iff) blast
qed

section \<open>Properties\<close>

text \<open>
  C39. The validator of universal packets decides its contract: it returns the packet itself exactly
  for objects with the seventeen fields and no other, identifiers and timestamps of the right
  form, an integer risk level from 0 to 8, a positive integer lifetime, lists of non-empty texts, a
  complete budget of non-negative integers and amounts, and no key containing \<open>secret_value\<close> in the
  constraints or in objects nested in them. Every other value gets a list of errors that is not empty.
\<close>

theorem universal_validation_decides_contract:
  assumes "js_wf v"
  shows "if universal_contract v then validateUniversalPacket v = Inr v
    else (\<exists>errors. validateUniversalPacket v = Inl errors \<and> errors \<noteq> [])"
proof -
  have "errors \<noteq> []" if "validateUniversalPacket v = Inl errors" for errors
    using that by (auto simp: validateUniversalPacket_def Let_def split: if_splits)
  then show ?thesis using universal_iff [of v] checks_contract [OF assms] by (cases "validateUniversalPacket v") auto
qed

text \<open>
  A packet whose constraints hide a secret value in an array, and the pointer that an unexpected
  root field with a dot in its name is reported under.
\<close>

definition sample_universal :: jsval where
  "sample_universal = JObj True (map (\<lambda>(k, v). (js k, v))
     [(''packet_id'', JStr (js ''pkt_abcdefgh'')), (''packet_type'', JStr (js ''ContextPacket'')), (''version'', JStr (js ''0.1'')),
      (''project_id'', JStr (js ''p'')), (''actor_id'', JStr (js ''a'')), (''session_id'', JStr (js ''sess_abcdefgh'')),
      (''intent'', JStr (js ''i'')), (''risk_level'', JNum (NInt 1)), (''source_refs'', JArr []), (''resource_refs'', JArr []),
      (''policy_profile'', JStr (js ''x'')),
      (''permission_envelope'', JObj True [(js ''allow'', JArr []), (js ''block'', JArr [])]),
      (''budget'', JObj True (map (\<lambda>k. (k, JNum (NInt 0))) universalBudgetKeys)),
      (''constraints'', JObj True [(js ''items'', JArr [JObj True [(js ''secret_value'', JStr (js ''hunter2''))]])]),
      (''requires_approval'', JBool True), (''ttl_seconds'', JNum (NInt 1)), (''created_at'', JStr (js ''2026-01-02T03:04:05Z''))])"

lemma secret_in_array_accepted: "validateUniversalPacket sample_universal = Inr sample_universal"
proof -
  have texts: "universalPacketIdPattern (js ''pkt_abcdefgh'')" "sessionIdPattern (js ''sess_abcdefgh'')"
    "isoUtcPattern (js ''2026-01-02T03:04:05Z'')"
    by (simp_all add: universalPacketIdPattern_def sessionIdPattern_def isoUtcPattern_def js_eval)
  have "\<not> secret_key (js ''items'')"
    by (simp add: secret_key_def js_includes_def js_startsWith_def js_def)
  then have "universal_checks sample_universal"
    unfolding universal_checks_def sample_universal_def
    using texts by (simp add: allowedRootKeys_def universalPacketTypes_def string_list_def universal_permissions_def budget_checks_def
        permissionEnvelopeKeys_def universalBudgetKeys_def object_key_obj object_key_only_objects insert_commute)
  then show ?thesis by (simp add: universal_iff)
qed

theorem universal_validation_decides_contract_witness:
  "js_wf sample_universal \<and> universal_contract sample_universal \<and> validateUniversalPacket sample_universal = Inr sample_universal
    \<and> js_wf (JArr []) \<and> (\<exists>errors. validateUniversalPacket (JArr []) = Inl errors \<and> errors \<noteq> [])"
proof -
  have wf: "js_wf sample_universal" by (simp add: sample_universal_def universalBudgetKeys_def js_def)
  have "universal_contract sample_universal" "\<not> universal_contract (JArr [])"
    using checks_contract [OF wf] secret_in_array_accepted by (simp_all add: universal_iff universal_contract_def)
  then show ?thesis
    using universal_validation_decides_contract [OF wf] universal_validation_decides_contract [of "JArr []"] wf by simp
qed

lemma dotted_root_field_pointer: "jsonPointer (js ''budget.tokens'') = js ''/budget/tokens''"
  by (simp add: jsonPointer_def js_def escapeJsonPointerSegment_def replace_unit_def)

end
