(* ===== verification/Ipv6_Text.thy ===== *)
theory Ipv6_Text
  imports Js_Json
begin

text \<open>
  The text of an IPv6 address as the URL standard writes it, and address blocks. An address is the
  list of its eight pieces of 16 bits; a piece is written in lower-case hexadecimal digits without
  leading zeros, and the first of the longest runs of at least two zero pieces is written as \<open>::\<close>.
\<close>

section \<open>Text\<close>

fun hex_digits :: "nat \<Rightarrow> nat list" where
  "hex_digits n = (if n < 16 then [n] else hex_digits (n div 16) @ [n mod 16])"

declare hex_digits.simps [simp del]

definition hex_text :: "nat \<Rightarrow> jstr" where
  "hex_text n = map hex_digit (hex_digits n)"

fun colon_join :: "jstr list \<Rightarrow> jstr" where
  "colon_join [] = []"
| "colon_join [x] = x"
| "colon_join (x # y # xs) = x @ js '':'' @ colon_join (y # xs)"

definition zero_run :: "nat list \<Rightarrow> nat \<Rightarrow> nat" where
  "zero_run ps i = length (takeWhile (\<lambda>p. p = 0) (drop i ps))"

definition compressed_at :: "nat list \<Rightarrow> nat option" where
  "compressed_at ps = List.find
     (\<lambda>i. 2 \<le> zero_run ps i \<and> list_all (\<lambda>j. zero_run ps j \<le> zero_run ps i) [0..<length ps]) [0..<length ps]"

definition ipv6_text :: "nat list \<Rightarrow> jstr" where
  "ipv6_text ps =
     (case compressed_at ps of
        None \<Rightarrow> colon_join (map hex_text ps)
      | Some i \<Rightarrow> colon_join (map hex_text (take i ps)) @ js ''::'' @ colon_join (map hex_text (drop (i + zero_run ps i) ps)))"

definition ipv6_pieces :: "nat list \<Rightarrow> bool" where
  "ipv6_pieces ps \<longleftrightarrow> length ps = 8 \<and> list_all (\<lambda>p. p < 65536) ps"

section \<open>Blocks\<close>

definition ipv6 :: "nat list \<Rightarrow> nat" where
  "ipv6 ps = foldl (\<lambda>n p. n * 65536 + p) 0 ps"

text \<open>The addresses that agree with the base on the first \<open>bits\<close> of 128 bits.\<close>

definition in_ipv6_block :: "nat \<Rightarrow> nat \<times> nat \<Rightarrow> bool" where
  "in_ipv6_block ip = (\<lambda>(base, bits). ip div 2 ^ (128 - bits) = base div 2 ^ (128 - bits))"

text \<open>
  Unspecified, loopback, unique local, link local, multicast, documentation and IPv4-mapped
  addresses.
\<close>

definition reserved_ipv6_blocks :: "(nat \<times> nat) list" where
  "reserved_ipv6_blocks =
     [(ipv6 [0, 0, 0, 0, 0, 0, 0, 0], 128), (ipv6 [0, 0, 0, 0, 0, 0, 0, 1], 128),
      (ipv6 [0xfc00, 0, 0, 0, 0, 0, 0, 0], 7), (ipv6 [0xfe80, 0, 0, 0, 0, 0, 0, 0], 10),
      (ipv6 [0xff00, 0, 0, 0, 0, 0, 0, 0], 8), (ipv6 [0x2001, 0xdb8, 0, 0, 0, 0, 0, 0], 32),
      (ipv6 [0, 0, 0, 0, 0, 0xffff, 0, 0], 96)]"

lemma pieces_eq:
  assumes "ipv6_pieces ps"
  shows "ps = [ps ! 0, ps ! 1, ps ! 2, ps ! 3, ps ! 4, ps ! 5, ps ! 6, ps ! 7]"
proof -
  have "ps = map (\<lambda>i. ps ! i) [0..<8]" using map_nth [of ps] assms by (simp add: ipv6_pieces_def)
  also have "[0..<8] = [0, 1, 2, 3, 4, 5, 6, 7]" by (simp add: upt_rec)
  finally show ?thesis by (simp only: list.map)
qed

lemma pieces_small: "ipv6_pieces ps \<Longrightarrow> i < 8 \<Longrightarrow> ps ! i < 65536"
  by (auto simp: ipv6_pieces_def list_all_length)

lemma join_pieces:
  fixes x y :: nat
  assumes "p < k" and "q < k"
  shows "x * k + p = y * k + q \<longleftrightarrow> x = y \<and> p = q"
proof
  assume eq: "x * k + p = y * k + q"
  have "(x * k + p) div k = x" "(y * k + q) div k = y" using assms by simp_all
  then show "x = y \<and> p = q" using eq by simp
qed simp

lemma drop_pieces:
  fixes x :: nat
  assumes "p < 65536"
  shows "(x * 65536 + p) div 2 ^ (n + 16) = x div 2 ^ n"
proof -
  have "(x * 65536 + p) div 2 ^ (n + 16) = (x * 65536 + p) div 2 ^ 16 div 2 ^ n"
    by (metis add.commute power_add div_mult2_eq)
  then show ?thesis using assms by simp
qed

lemma drop_piece: "p < 65536 \<Longrightarrow> (x * 65536 + p) div 2 ^ 16 = (x :: nat)"
  using drop_pieces [of p x 0] by simp

lemma first_piece:
  assumes "b < 65536" "c < 65536" "d < 65536" "e < 65536" "f < 65536" "g < 65536" "h < 65536"
  shows "ipv6 [a, b, c, d, e, f, g, h] div 2 ^ (n + 112) = a div 2 ^ n"
proof -
  have "n + 112 = ((((((n + 16) + 16) + 16) + 16) + 16) + 16) + 16" by simp
  then show ?thesis by (simp only: ipv6_def foldl.simps drop_pieces [OF assms(1)] drop_pieces [OF assms(2)] drop_pieces [OF assms(3)]
        drop_pieces [OF assms(4)] drop_pieces [OF assms(5)] drop_pieces [OF assms(6)] drop_pieces [OF assms(7)] mult_0 add_0)
qed

lemma upper_pieces:
  assumes "c < 65536" "d < 65536" "e < 65536" "f < 65536" "g < 65536" "h < 65536"
  shows "ipv6 [a, b, c, d, e, f, g, h] div 2 ^ 96 = a * 65536 + b"
    and "ipv6 [a, b, c, d, e, f, g, h] div 2 ^ 32 = ((((a * 65536 + b) * 65536 + c) * 65536 + d) * 65536 + e) * 65536 + f"
proof -
  have n: "(96 :: nat) = ((((16 + 16) + 16) + 16) + 16) + 16" "(32 :: nat) = 16 + 16" by simp_all
  show "ipv6 [a, b, c, d, e, f, g, h] div 2 ^ 96 = a * 65536 + b"
    unfolding n(1) by (simp only: ipv6_def foldl.simps drop_piece [OF assms(1)] drop_pieces [OF assms(2)] drop_pieces [OF assms(3)]
        drop_pieces [OF assms(4)] drop_pieces [OF assms(5)] drop_pieces [OF assms(6)] mult_0 add_0)
  show "ipv6 [a, b, c, d, e, f, g, h] div 2 ^ 32 = ((((a * 65536 + b) * 65536 + c) * 65536 + d) * 65536 + e) * 65536 + f"
    unfolding n(2) by (simp only: ipv6_def foldl.simps drop_piece [OF assms(5)] drop_pieces [OF assms(6)] mult_0 add_0)
qed

text \<open>The reserved addresses, by their pieces.\<close>

lemma reserved_iff:
  assumes "a < 65536" "b < 65536" "c < 65536" "d < 65536" "e < 65536" "f < 65536" "g < 65536" "h < 65536"
  shows "list_ex (in_ipv6_block (ipv6 [a, b, c, d, e, f, g, h])) reserved_ipv6_blocks \<longleftrightarrow>
    [a, b, c, d, e, f, g, h] = [0, 0, 0, 0, 0, 0, 0, 0] \<or> [a, b, c, d, e, f, g, h] = [0, 0, 0, 0, 0, 0, 0, 1]
    \<or> 0xfc00 \<le> a \<and> a \<le> 0xfdff \<or> 0xfe80 \<le> a \<and> a \<le> 0xfebf \<or> 0xff00 \<le> a
    \<or> a = 0x2001 \<and> b = 0xdb8 \<or> [a, b, c, d, e, f] = [0, 0, 0, 0, 0, 0xffff]"
proof -
  let ?ip = "ipv6 [a, b, c, d, e, f, g, h]"
  have small: "(0 :: nat) < 65536" "(1 :: nat) < 65536" "(0xdb8 :: nat) < 65536" "(0xffff :: nat) < 65536" by simp_all
  have all: "?ip = ipv6 [a', b', c', d', e', f', g', h'] \<longleftrightarrow> [a, b, c, d, e, f, g, h] = [a', b', c', d', e', f', g', h']"
    if "a' < 65536" "b' < 65536" "c' < 65536" "d' < 65536" "e' < 65536" "f' < 65536" "g' < 65536" "h' < 65536"
    for a' b' c' d' e' f' g' h'
    unfolding ipv6_def foldl.simps mult_0 add_0 join_pieces [OF assms(8) that(8)] join_pieces [OF assms(7) that(7)]
      join_pieces [OF assms(6) that(6)] join_pieces [OF assms(5) that(5)] join_pieces [OF assms(4) that(4)]
      join_pieces [OF assms(3) that(3)] join_pieces [OF assms(2) that(2)] by auto
  have whole: "in_ipv6_block ?ip (ipv6 [0, 0, 0, 0, 0, 0, 0, x], 128) \<longleftrightarrow> [a, b, c, d, e, f, g, h] = [0, 0, 0, 0, 0, 0, 0, x]"
    if "x < 65536" for x using that all by (simp add: in_ipv6_block_def)
  have bits: "128 - 7 = 9 + (112 :: nat)" "128 - 10 = 6 + (112 :: nat)" "128 - 8 = 8 + (112 :: nat)" "128 - 32 = (96 :: nat)"
    "128 - 96 = (32 :: nat)" by simp_all
  have first: "in_ipv6_block ?ip (ipv6 [x, 0, 0, 0, 0, 0, 0, 0], 7) \<longleftrightarrow> a div 2 ^ 9 = x div 2 ^ 9"
    "in_ipv6_block ?ip (ipv6 [x, 0, 0, 0, 0, 0, 0, 0], 10) \<longleftrightarrow> a div 2 ^ 6 = x div 2 ^ 6"
    "in_ipv6_block ?ip (ipv6 [x, 0, 0, 0, 0, 0, 0, 0], 8) \<longleftrightarrow> a div 2 ^ 8 = x div 2 ^ 8" for x
    unfolding in_ipv6_block_def prod.case bits first_piece [OF assms(2-8)]
    by (simp_all only: first_piece [OF small(1) small(1) small(1) small(1) small(1) small(1) small(1)])
  have documentation: "in_ipv6_block ?ip (ipv6 [0x2001, 0xdb8, 0, 0, 0, 0, 0, 0], 32) \<longleftrightarrow> a = 0x2001 \<and> b = 0xdb8"
    unfolding in_ipv6_block_def prod.case bits upper_pieces(1) [OF assms(3-8)]
      upper_pieces(1) [OF small(1) small(1) small(1) small(1) small(1) small(1)] by (rule join_pieces [OF assms(2) small(3)])
  have mapped: "in_ipv6_block ?ip (ipv6 [0, 0, 0, 0, 0, 0xffff, 0, 0], 96) \<longleftrightarrow> [a, b, c, d, e, f] = [0, 0, 0, 0, 0, 0xffff]"
    unfolding in_ipv6_block_def prod.case bits upper_pieces(2) [OF assms(3-8)]
      upper_pieces(2) [OF small(1) small(1) small(1) small(4) small(1) small(1)]
    unfolding join_pieces [OF assms(6) small(4)] join_pieces [OF assms(5) small(1)] join_pieces [OF assms(4) small(1)]
      join_pieces [OF assms(3) small(1)] join_pieces [OF assms(2) small(1)] by auto
  have "a div 2 ^ 9 = 0xfc00 div 2 ^ 9 \<longleftrightarrow> 0xfc00 \<le> a \<and> a \<le> 0xfdff" "a div 2 ^ 6 = 0xfe80 div 2 ^ 6 \<longleftrightarrow> 0xfe80 \<le> a \<and> a \<le> 0xfebf"
    "a div 2 ^ 8 = 0xff00 div 2 ^ 8 \<longleftrightarrow> 0xff00 \<le> a"
    using assms(1) by auto
  then show ?thesis unfolding reserved_ipv6_blocks_def by (simp only: list_ex_Cons_iff list_ex_Nil_iff whole small first documentation mapped) simp
qed

section \<open>How the texts begin\<close>

lemma hex_text_4:
  assumes "4096 \<le> p" and "p < 65536"
  shows "hex_text p = map hex_digit [p div 4096, p div 256 mod 16, p div 16 mod 16, p mod 16]"
proof -
  have "p div 16 div 16 = p div 256" "p div 256 div 16 = p div 4096" by (simp_all flip: div_mult2_eq)
  moreover have "\<not> p < 16" "\<not> p div 16 < 16" "\<not> p div 256 < 16" "p div 4096 < 16" using assms by auto
  ultimately show ?thesis
    by (simp add: hex_text_def hex_digits.simps [of p] hex_digits.simps [of "p div 16"] hex_digits.simps [of "p div 256"]
        hex_digits.simps [of "p div 4096"])
qed

lemma colon_join_head: "\<exists>t. colon_join (x # xs) = x @ t"
  by (cases xs) simp_all

lemmas ipv6_text_eval = ipv6_text_def compressed_at_def zero_run_def upt_rec drop_Cons' take_Cons' hex_text_def hex_digits.simps
  hex_digit_def js_def

lemma colon_join_Cons: "xs \<noteq> [] \<Longrightarrow> colon_join (x # xs) = x @ js '':'' @ colon_join xs"
  by (cases xs) simp_all

lemma compressed_nonzero: "compressed_at ps = Some i \<Longrightarrow> i < length ps \<and> ps ! i = 0"
proof -
  assume "compressed_at ps = Some i"
  then have i: "i < length ps" "2 \<le> zero_run ps i" by (auto simp: compressed_at_def find_Some_iff)
  then have "drop i ps = ps ! i # drop (Suc i) ps" by (simp add: Cons_nth_drop_Suc)
  then show ?thesis using i by (auto simp: zero_run_def split: if_splits)
qed

lemma first_piece_text:
  assumes "a \<noteq> 0"
  shows "\<exists>t. ipv6_text (a # ps) = hex_text a @ t"
proof (cases "compressed_at (a # ps)")
  case None
  then show ?thesis using colon_join_head by (simp add: ipv6_text_def)
next
  case (Some i)
  with compressed_nonzero [OF Some] assms obtain j where "i = Suc j" by (cases i) auto
  then show ?thesis using Some colon_join_head [of "hex_text a" "map hex_text (take j ps)"] by (auto simp: ipv6_text_def)
qed

lemma two_pieces_text:
  assumes "a \<noteq> 0" and "b \<noteq> 0" and "ps \<noteq> []"
  shows "\<exists>t. ipv6_text (a # b # ps) = hex_text a @ js '':'' @ hex_text b @ js '':'' @ t"
proof (cases "compressed_at (a # b # ps)")
  case None
  then show ?thesis using assms(3) by (simp add: ipv6_text_def colon_join_Cons)
next
  case (Some i)
  have "(a # b # ps) ! i = 0" using compressed_nonzero [OF Some] by blast
  then have "i \<noteq> 0" "i \<noteq> 1" using assms(1,2) by (intro notI; simp)+
  then obtain j where i: "i = Suc (Suc j)" by (metis not0_implies_Suc One_nat_def)
  show ?thesis
  proof (cases "take j ps = []")
    case True
    then show ?thesis using Some i by (simp add: ipv6_text_def js_def del: take_eq_Nil take_eq_Nil2)
  next
    case False
    then show ?thesis using Some i by (simp add: ipv6_text_def colon_join_Cons)
  qed
qed

lemma mapped_text: "\<exists>t. ipv6_text [0, 0, 0, 0, 0, 0xffff, g, h] = js ''::'' @ hex_text 0xffff @ js '':'' @ t"
proof -
  let ?ps = "[0, 0, 0, 0, 0, 0xffff, g, h]"
  have run: "zero_run ?ps 0 = 5" by (simp add: zero_run_def)
  have upto: "[0..<length ?ps] = [0, 1, 2, 3, 4, 5, 6, 7]" by (simp add: upt_rec)
  have "list_all (\<lambda>j. zero_run ?ps j \<le> 5) [0..<length ?ps]"
    unfolding upto by (simp add: zero_run_def drop_Cons')
  then have "compressed_at ?ps = Some 0" unfolding compressed_at_def upto by (simp add: run)
  then show ?thesis by (simp add: ipv6_text_def run)
qed

end
