(* ===== verification/Network_Security.thy ===== *)
theory Network_Security
  imports Utc_Time Ipv6_Text
begin

text \<open>
  The target check of the gateway, \<open>packages/gateway/src/network-security.ts\<close>: an outgoing HTTPS target is
  accepted only when its name and every address it resolved to are public.

  The URL parser and \<open>isIP\<close> of the runtime are parameters, the fields of \<open>url_runtime\<close>; \<open>None\<close> is a parser
  that throws. The check relies on two documented facts of them: \<open>dotted_quads\<close>, \<open>isIP\<close> answers 4 for the
  dotted decimal texts of IPv4 addresses only, and \<open>canonical_ipv6\<close>, the host name of a parsed URL with
  an IPv6 address is the normal text of an address in brackets.
\<close>

section \<open>Runtime\<close>

record url_parts =
  url_protocol :: jstr
  url_username :: jstr
  url_password :: jstr
  url_search :: jstr
  url_hash :: jstr
  url_hostname :: jstr
  url_href :: jstr

record url_runtime =
  ur_parse :: "jstr \<Rightarrow> url_parts option"
  ur_isIP :: "jstr \<Rightarrow> nat"

datatype target_error = NetworkInvalidTarget | NetworkSsrfBlocked

definition js_endsWith :: "jstr \<Rightarrow> jstr \<Rightarrow> bool" where
  "js_endsWith s p \<longleftrightarrow> length p \<le> length s \<and> drop (length s - length p) s = p"

text \<open>Host names of parsed URLs are ASCII, so lower case is that of ASCII letters.\<close>

definition ascii_lower :: "jstr \<Rightarrow> jstr" where
  "ascii_lower s = map (\<lambda>u. if 65 \<le> u \<and> u \<le> 90 then u + 32 else u) s"

section \<open>Addresses\<close>

definition public_octets :: "int \<Rightarrow> int \<Rightarrow> int \<Rightarrow> bool" where
  "public_octets a b c \<longleftrightarrow> \<not> (
     a = 0
     \<or> a = 10
     \<or> a = 127
     \<or> (a = 100 \<and> b \<ge> 64 \<and> b \<le> 127)
     \<or> (a = 169 \<and> b = 254)
     \<or> (a = 172 \<and> b \<ge> 16 \<and> b \<le> 31)
     \<or> (a = 192 \<and> b = 0 \<and> c \<in> set [0, 2])
     \<or> (a = 192 \<and> b = 168)
     \<or> (a = 198 \<and> b \<in> set [18, 19])
     \<or> (a = 198 \<and> b = 51 \<and> c = 100)
     \<or> (a = 203 \<and> b = 0 \<and> c = 113)
     \<or> a \<ge> 224)"

definition public_ipv6_text :: "jstr \<Rightarrow> bool" where
  "public_ipv6_text normalized \<longleftrightarrow> \<not> (
     normalized = js ''::''
     \<or> normalized = js ''::1''
     \<or> js_startsWith normalized (js ''fc'')
     \<or> js_startsWith normalized (js ''fd'')
     \<or> (js_startsWith normalized (js ''fe'') \<and> take 1 (drop 2 normalized) \<in> set (map js [''8'', ''9'', ''a'', ''b'']))
     \<or> js_startsWith normalized (js ''ff'')
     \<or> normalized = js ''2001:db8::''
     \<or> js_startsWith normalized (js ''2001:db8:'')
     \<or> js_startsWith normalized (js ''::ffff:''))"

definition isPublicIpAddress :: "url_runtime \<Rightarrow> jstr \<Rightarrow> bool" where
  "isPublicIpAddress rt value =
     (if ur_isIP rt value = 4 then
        (let octets = map js_Number (split_unit 46 value)
         in public_octets (octets ! 0) (octets ! 1) (octets ! 2))
      else if ur_isIP rt value = 6 then
        (case ur_parse rt (js ''https://['' @ value @ js '']/'') of
           None \<Rightarrow> False
         | Some url \<Rightarrow>
             if \<not> js_startsWith (url_hostname url) (js ''['') \<or> \<not> js_endsWith (url_hostname url) (js '']'') then False
             else public_ipv6_text (ascii_lower (take (length (url_hostname url) - 2) (drop 1 (url_hostname url)))))
      else False)"

definition isForbiddenHostname :: "url_runtime \<Rightarrow> jstr \<Rightarrow> bool" where
  "isForbiddenHostname rt hostname =
     (let normalizedHost = ascii_lower hostname;
          unwrapped = (if js_startsWith normalizedHost (js ''['') \<and> js_endsWith normalizedHost (js '']'')
                       then take (length normalizedHost - 2) (drop 1 normalizedHost) else normalizedHost)
      in normalizedHost = js ''localhost''
         \<or> js_endsWith normalizedHost (js ''.localhost'')
         \<or> js_endsWith normalizedHost (js ''.local'')
         \<or> js_endsWith normalizedHost (js ''.internal'')
         \<or> (ur_isIP rt unwrapped \<noteq> 0 \<and> \<not> isPublicIpAddress rt unwrapped))"

definition validatePublicHttpsTarget :: "url_runtime \<Rightarrow> jstr \<Rightarrow> jstr list \<Rightarrow> jstr list \<Rightarrow> target_error + jstr" where
  "validatePublicHttpsTarget rt target resolved_ips redirect_chain =
     (case ur_parse rt target of
        None \<Rightarrow> Inl NetworkInvalidTarget
      | Some url \<Rightarrow>
          if url_protocol url \<noteq> js ''https:'' \<or> url_username url \<noteq> [] \<or> url_password url \<noteq> []
             \<or> url_search url \<noteq> [] \<or> url_hash url \<noteq> []
             \<or> length resolved_ips < 1 \<or> length resolved_ips > 16 \<or> length redirect_chain \<noteq> 0
          then Inl NetworkInvalidTarget
          else if isForbiddenHostname rt (url_hostname url) \<or> \<not> list_all (isPublicIpAddress rt) resolved_ips
          then Inl NetworkSsrfBlocked
          else Inr (url_href url))"

section \<open>Addresses as numbers\<close>

text \<open>An IPv4 address as 32 bits, its text, and the address blocks the check is about.\<close>

definition ipv4 :: "nat \<Rightarrow> nat \<Rightarrow> nat \<Rightarrow> nat \<Rightarrow> 32 word" where
  "ipv4 a b c d = word_of_nat (((a * 256 + b) * 256 + c) * 256 + d)"

definition ipv4_text :: "nat \<Rightarrow> nat \<Rightarrow> nat \<Rightarrow> nat \<Rightarrow> jstr" where
  "ipv4_text a b c d = show_nat a @ js ''.'' @ show_nat b @ js ''.'' @ show_nat c @ js ''.'' @ show_nat d"

definition in_block :: "32 word \<Rightarrow> 32 word \<times> nat \<Rightarrow> bool" where
  "in_block ip = (\<lambda>(base, bits). drop_bit (32 - bits) ip = drop_bit (32 - bits) base)"

definition reserved_blocks :: "(32 word \<times> nat) list" where
  "reserved_blocks =
     [(ipv4 0 0 0 0, 8), (ipv4 10 0 0 0, 8), (ipv4 127 0 0 0, 8), (ipv4 100 64 0 0, 10), (ipv4 169 254 0 0, 16),
      (ipv4 172 16 0 0, 12), (ipv4 192 0 0 0, 24), (ipv4 192 0 2 0, 24), (ipv4 192 168 0 0, 16), (ipv4 198 18 0 0, 15),
      (ipv4 198 51 100 0, 24), (ipv4 203 0 113 0, 24), (ipv4 224 0 0 0, 3)]"

definition dotted_quads :: "url_runtime \<Rightarrow> bool" where
  "dotted_quads rt \<longleftrightarrow> (\<forall>value. ur_isIP rt value = 4 \<longrightarrow>
     (\<exists>a b c d. a < 256 \<and> b < 256 \<and> c < 256 \<and> d < 256 \<and> value = ipv4_text a b c d))"

lemma unat_word_of_nat_32: "n < 2 ^ 32 \<Longrightarrow> unat (word_of_nat n :: 32 word) = n"
  by (simp add: unsigned_of_nat take_bit_nat_eq_self)

lemma drop_bit_ipv4:
  assumes "a < 256" "b < 256" "c < 256" "d < 256"
  shows "unat (drop_bit n (ipv4 a b c d)) = (((a * 256 + b) * 256 + c) * 256 + d) div 2 ^ n"
proof -
  have "((a * 256 + b) * 256 + c) * 256 + d < 2 ^ 32" using assms by simp
  from unat_word_of_nat_32 [OF this] have "unat (ipv4 a b c d) = ((a * 256 + b) * 256 + c) * 256 + d"
    unfolding ipv4_def .
  then show ?thesis unfolding unat_drop_bit_eq drop_bit_eq_div [where 'a = nat] by simp
qed

lemma address_div:
  assumes "b < 256" "c < 256" "d < 256"
  shows "(((a * 256 + b) * 256 + c) * 256 + d) div 2 ^ 8 = (a * 256 + b) * 256 + (c :: nat)"
    and "(((a * 256 + b) * 256 + c) * 256 + d) div 2 ^ 16 = a * 256 + b"
    and "(((a * 256 + b) * 256 + c) * 256 + d) div 2 ^ 24 = a"
    and "(((a * 256 + b) * 256 + c) * 256 + d) div 2 ^ 17 = (a * 256 + b) div 2"
    and "(((a * 256 + b) * 256 + c) * 256 + d) div 2 ^ 20 = (a * 256 + b) div 16"
    and "(((a * 256 + b) * 256 + c) * 256 + d) div 2 ^ 22 = (a * 256 + b) div 64"
    and "(((a * 256 + b) * 256 + c) * 256 + d) div 2 ^ 29 = a div 32"
proof -
  show one: "(((a * 256 + b) * 256 + c) * 256 + d) div 2 ^ 8 = (a * 256 + b) * 256 + c" using assms by simp
  have step: "x div 2 ^ (m + n) = x div 2 ^ m div 2 ^ n" for x m n :: nat
    by (simp add: div_mult2_eq power_add)
  show two: "(((a * 256 + b) * 256 + c) * 256 + d) div 2 ^ 16 = a * 256 + b"
    using step [of _ 8 8] one assms(2) by simp
  show three: "(((a * 256 + b) * 256 + c) * 256 + d) div 2 ^ 24 = a"
    using step [of _ 16 8] two assms(1) by simp
  show "(((a * 256 + b) * 256 + c) * 256 + d) div 2 ^ 17 = (a * 256 + b) div 2"
    "(((a * 256 + b) * 256 + c) * 256 + d) div 2 ^ 20 = (a * 256 + b) div 16"
    "(((a * 256 + b) * 256 + c) * 256 + d) div 2 ^ 22 = (a * 256 + b) div 64"
    using step [of _ 16 1] step [of _ 16 4] step [of _ 16 6] two by simp_all
  show "(((a * 256 + b) * 256 + c) * 256 + d) div 2 ^ 29 = a div 32"
    using step [of _ 24 5] three by simp
qed

lemma in_block_iff:
  assumes "a < 256" "b < 256" "c < 256" "d < 256" and "a' < 256" "b' < 256" "c' < 256" "d' < 256"
  shows "in_block (ipv4 a b c d) (ipv4 a' b' c' d', bits) \<longleftrightarrow>
    (((a * 256 + b) * 256 + c) * 256 + d) div 2 ^ (32 - bits) = (((a' * 256 + b') * 256 + c') * 256 + d') div 2 ^ (32 - bits)"
  unfolding in_block_def prod.case word_unat_eq_iff drop_bit_ipv4 [OF assms(1-4)] drop_bit_ipv4 [OF assms(5-8)] ..

lemma block_iff:
  assumes "a < 256" "b < 256" "c < 256" "d < 256" and "a' < 256" "b' < 256" "c' < 256" "d' < 256"
  shows "in_block (ipv4 a b c d) (ipv4 a' b' c' d', 8) \<longleftrightarrow> a = a'"
    and "in_block (ipv4 a b c d) (ipv4 a' b' c' d', 16) \<longleftrightarrow> a = a' \<and> b = b'"
    and "in_block (ipv4 a b c d) (ipv4 a' b' c' d', 24) \<longleftrightarrow> a = a' \<and> b = b' \<and> c = c'"
    and "in_block (ipv4 a b c d) (ipv4 a' b' c' d', 15) \<longleftrightarrow> a = a' \<and> b div 2 = b' div 2"
    and "in_block (ipv4 a b c d) (ipv4 a' b' c' d', 12) \<longleftrightarrow> a = a' \<and> b div 16 = b' div 16"
    and "in_block (ipv4 a b c d) (ipv4 a' b' c' d', 10) \<longleftrightarrow> a = a' \<and> b div 64 = b' div 64"
    and "in_block (ipv4 a b c d) (ipv4 a' b' c' d', 3) \<longleftrightarrow> a div 32 = a' div 32"
proof -
  have bits: "32 - 8 = (24 :: nat)" "32 - 16 = (16 :: nat)" "32 - 24 = (8 :: nat)" "32 - 15 = (17 :: nat)"
    "32 - 12 = (20 :: nat)" "32 - 10 = (22 :: nat)" "32 - 3 = (29 :: nat)" by simp_all
  note at = in_block_iff [OF assms] bits address_div [OF assms(2-4)] address_div [OF assms(6-8)]
  have halves: "(x * 256 + y) div 2 = x * 128 + y div 2" "(x * 256 + y) div 16 = x * 16 + y div 16"
    "(x * 256 + y) div 64 = x * 4 + y div 64" for x y :: nat by simp_all
  have join: "x * k + u = x' * k + u' \<longleftrightarrow> x = x' \<and> u = u'" if "u < k" "u' < k" for x u x' u' k :: nat
  proof
    assume eq: "x * k + u = x' * k + u'"
    have "(x * k + u) div k = x" "(x' * k + u') div k = x'" using that by simp_all
    then show "x = x' \<and> u = u'" using eq by simp
  qed simp
  have parts: "(x * 256 + y) div 2 = (x' * 256 + y') div 2 \<longleftrightarrow> x = x' \<and> y div 2 = y' div 2"
    "(x * 256 + y) div 16 = (x' * 256 + y') div 16 \<longleftrightarrow> x = x' \<and> y div 16 = y' div 16"
    "(x * 256 + y) div 64 = (x' * 256 + y') div 64 \<longleftrightarrow> x = x' \<and> y div 64 = y' div 64"
    if "y < 256" "y' < 256" for x y x' y' :: nat
    unfolding halves by (rule join; use that in simp)+
  show "in_block (ipv4 a b c d) (ipv4 a' b' c' d', 8) \<longleftrightarrow> a = a'" by (simp only: at)
  show "in_block (ipv4 a b c d) (ipv4 a' b' c' d', 16) \<longleftrightarrow> a = a' \<and> b = b'"
    by (simp only: at join [OF assms(2,6)])
  show "in_block (ipv4 a b c d) (ipv4 a' b' c' d', 24) \<longleftrightarrow> a = a' \<and> b = b' \<and> c = c'"
    by (simp only: at join [OF assms(3,7)] join [OF assms(2,6)] conj_assoc)
  show "in_block (ipv4 a b c d) (ipv4 a' b' c' d', 15) \<longleftrightarrow> a = a' \<and> b div 2 = b' div 2"
    "in_block (ipv4 a b c d) (ipv4 a' b' c' d', 12) \<longleftrightarrow> a = a' \<and> b div 16 = b' div 16"
    "in_block (ipv4 a b c d) (ipv4 a' b' c' d', 10) \<longleftrightarrow> a = a' \<and> b div 64 = b' div 64"
    by (simp_all only: at parts [OF assms(2,6)])
  show "in_block (ipv4 a b c d) (ipv4 a' b' c' d', 3) \<longleftrightarrow> a div 32 = a' div 32" by (simp only: at)
qed

lemma public_octets_blocks:
  assumes "a < 256" "b < 256" "c < 256" "d < 256"
  shows "public_octets (int a) (int b) (int c) \<longleftrightarrow> \<not> list_ex (in_block (ipv4 a b c d)) reserved_blocks"
proof -
  note block = block_iff [OF assms]
  have "b div 64 = 1 \<longleftrightarrow> 64 \<le> b \<and> b \<le> 127" "b div 16 = 1 \<longleftrightarrow> 16 \<le> b \<and> b \<le> 31"
    "b div 2 = 9 \<longleftrightarrow> b = 18 \<or> b = 19" "a div 32 = 7 \<longleftrightarrow> 224 \<le> a"
    using assms(1) by auto
  then have "list_ex (in_block (ipv4 a b c d)) reserved_blocks \<longleftrightarrow> a = 0 \<or> a = 10 \<or> a = 127 \<or> a = 100 \<and> 64 \<le> b \<and> b \<le> 127
      \<or> a = 169 \<and> b = 254 \<or> a = 172 \<and> 16 \<le> b \<and> b \<le> 31 \<or> a = 192 \<and> b = 0 \<and> c = 0 \<or> a = 192 \<and> b = 0 \<and> c = 2
      \<or> a = 192 \<and> b = 168 \<or> a = 198 \<and> (b = 18 \<or> b = 19) \<or> a = 198 \<and> b = 51 \<and> c = 100
      \<or> a = 203 \<and> b = 0 \<and> c = 113 \<or> 224 \<le> a"
    unfolding reserved_blocks_def by (simp add: block)
  moreover have "(int x = 0) = (x = 0)" "(int x = numeral n) = (x = numeral n)" "(numeral n \<le> int x) = (numeral n \<le> x)"
    "(int x \<le> numeral n) = (x \<le> numeral n)" for x n
    by auto
  ultimately show ?thesis unfolding public_octets_def by simp argo
qed

lemma split_unit_append: "u \<notin> set s \<Longrightarrow> split_unit u (s @ u # t) = s # split_unit u t"
  by (induction s) auto

lemma split_unit_plain: "u \<notin> set s \<Longrightarrow> split_unit u s = [s]"
  by (induction s) auto

lemma dot_not_in_digits: "(46 :: code_unit) \<notin> set (show_nat n)"
proof
  assume "(46 :: code_unit) \<in> set (show_nat n)"
  then obtain d where d: "d \<in> set (nat_digits n)" "digit_unit d = 46" by (auto simp: show_nat_def)
  then have "48 + d = unat (46 :: code_unit)" using unat_digit_unit [OF nat_digits_bound [OF d(1)]] by simp
  then show False by simp
qed

lemma ipv4_text_octets:
  "map js_Number (split_unit 46 (ipv4_text a b c d)) = map js_Number [show_nat a, show_nat b, show_nat c, show_nat d]"
  by (simp add: ipv4_text_def js_def split_unit_append split_unit_plain dot_not_in_digits)

lemma js_Number_show_nat: "js_Number (show_nat n) = int n"
  by (simp add: js_Number_def)

lemma ipv4_public:
  assumes "a < 256" "b < 256" "c < 256" "d < 256" and "ur_isIP rt (ipv4_text a b c d) = 4"
  shows "isPublicIpAddress rt (ipv4_text a b c d) \<longleftrightarrow> \<not> list_ex (in_block (ipv4 a b c d)) reserved_blocks"
  using public_octets_blocks [OF assms(1-4)]
  by (simp add: isPublicIpAddress_def assms(5) ipv4_text_octets js_Number_show_nat Let_def)

section \<open>Properties\<close>

text \<open>
  C24. The address test is the one on address blocks: for every IPv4 address, 32 bits wide, the
  comparisons of its octets accept it exactly when it lies in none of the thirteen reserved blocks
  (this network, private, shared, loopback, link local, documentation, benchmarking, multicast and
  above).
\<close>

theorem ipv4_test_is_block_test:
  assumes "a < 256" "b < 256" "c < 256" "d < 256" and "ur_isIP rt (ipv4_text a b c d) = 4"
  shows "isPublicIpAddress rt (ipv4_text a b c d) \<longleftrightarrow> \<not> list_ex (in_block (ipv4 a b c d)) reserved_blocks"
  by (rule ipv4_public [OF assms])

section \<open>IPv6 addresses\<close>

definition canonical_ipv6 :: "url_runtime \<Rightarrow> bool" where
  "canonical_ipv6 rt \<longleftrightarrow> (\<forall>value url. ur_isIP rt value = 6 \<longrightarrow> ur_parse rt (js ''https://['' @ value @ js '']/'') = Some url \<longrightarrow>
     (\<exists>ps. ipv6_pieces ps \<and> url_hostname url = js ''['' @ ipv6_text ps @ js '']''))"

lemma hex_digit_lower: "d < 16 \<Longrightarrow> ascii_lower [hex_digit d] = [hex_digit d]"
  by (simp add: ascii_lower_def word_le_nat_alt unat_hex_digit)

lemma hex_digits_bound: "d \<in> set (hex_digits n) \<Longrightarrow> d < 16"
proof (induction n rule: hex_digits.induct)
  case (1 n)
  then show ?case by (subst (asm) (2) hex_digits.simps) (auto split: if_splits)
qed

lemma ascii_lower_append: "ascii_lower (xs @ ys) = ascii_lower xs @ ascii_lower ys"
  by (simp add: ascii_lower_def)

lemma hex_text_lower: "ascii_lower (hex_text n) = hex_text n"
proof -
  have "ascii_lower (map hex_digit ds) = map hex_digit ds" if "\<forall>d \<in> set ds. d < 16" for ds
    using that hex_digit_lower by (induction ds) (auto simp: ascii_lower_def)
  then show ?thesis using hex_digits_bound by (simp add: hex_text_def)
qed

lemma ipv6_text_lower: "ascii_lower (ipv6_text ps) = ipv6_text ps"
proof -
  have colon: "ascii_lower (js '':'') = js '':''" "ascii_lower (js ''::'') = js ''::''" by (simp_all add: ascii_lower_def js_def)
  have "ascii_lower (colon_join (map hex_text qs)) = colon_join (map hex_text qs)" for qs
  proof (induction qs rule: induct_list012)
    case 1
    then show ?case by (simp add: ascii_lower_def)
  qed (simp_all add: ascii_lower_append hex_text_lower colon)
  then show ?thesis by (simp add: ipv6_text_def ascii_lower_append colon split: option.splits)
qed

text \<open>The text test accepts no address of the reserved blocks.\<close>

lemma public_text_blocks:
  assumes "ipv6_pieces ps" and "public_ipv6_text (ipv6_text ps)"
  shows "\<not> list_ex (in_ipv6_block (ipv6 ps)) reserved_ipv6_blocks"
proof
  assume reserved: "list_ex (in_ipv6_block (ipv6 ps)) reserved_ipv6_blocks"
  define a b c d e f g h where named: "a = ps ! 0" "b = ps ! 1" "c = ps ! 2" "d = ps ! 3" "e = ps ! 4" "f = ps ! 5"
    "g = ps ! 6" "h = ps ! 7"
  have ps: "ps = [a, b, c, d, e, f, g, h]" unfolding named by (rule pieces_eq [OF assms(1)])
  have small: "a < 65536" "b < 65536" "c < 65536" "d < 65536" "e < 65536" "f < 65536" "g < 65536" "h < 65536"
    using pieces_small [OF assms(1)] by (simp_all add: named)
  have first: "\<exists>t. ipv6_text ps = map hex_digit [a div 4096, a div 256 mod 16, a div 16 mod 16, a mod 16] @ t" if "4096 \<le> a"
    using first_piece_text [of a "[b, c, d, e, f, g, h]"] hex_text_4 [OF that small(1)] that by (simp add: ps)
  have between: "low div k \<le> a div k \<and> a div k \<le> high div k" if "low \<le> a \<and> a \<le> high" for low high k
    using that by (simp add: div_le_mono)
  note starts = public_ipv6_text_def js_startsWith_def js_def hex_digit_def
  from reserved [unfolded ps reserved_iff [OF small]]
  consider "ps = [0, 0, 0, 0, 0, 0, 0, 0]" | "ps = [0, 0, 0, 0, 0, 0, 0, 1]" | "0xfc00 \<le> a \<and> a \<le> 0xfdff" | "0xfe80 \<le> a \<and> a \<le> 0xfebf"
    | "0xff00 \<le> a" | "a = 0x2001" "b = 0xdb8" | "[a, b, c, d, e, f] = [0, 0, 0, 0, 0, 0xffff]"
    unfolding ps by blast
  then show False
  proof cases
    case 1
    have "ipv6_text [0, 0, 0, 0, 0, 0, 0, 0] = js ''::''" by (simp add: ipv6_text_eval)
    then show False using assms(2) 1 by (simp add: public_ipv6_text_def)
  next
    case 2
    have "ipv6_text [0, 0, 0, 0, 0, 0, 0, 1] = js ''::1''" by (simp add: ipv6_text_eval)
    then show False using assms(2) 2 by (simp add: public_ipv6_text_def)
  next
    case 3
    then have "a div 4096 = 15" "a div 256 = 252 \<or> a div 256 = 253"
      using between [of "0xfc00" "0xfdff" 4096] between [of "0xfc00" "0xfdff" 256] by auto
    then show False using first assms(2) 3 by (auto simp: starts)
  next
    case 4
    then have "a div 4096 = 15" "a div 256 = 254"
      "a div 16 = 4072 \<or> a div 16 = 4073 \<or> a div 16 = 4074 \<or> a div 16 = 4075"
      using between [of "0xfe80" "0xfebf" 4096] between [of "0xfe80" "0xfebf" 256] between [of "0xfe80" "0xfebf" 16] by auto
    then show False using first assms(2) 4 by (auto simp: starts)
  next
    case 5
    then have "a div 4096 = 15" "a div 256 = 255"
      using small(1) between [of "0xff00" "0xffff" 4096] between [of "0xff00" "0xffff" 256] by auto
    then show False using first assms(2) 5 by (auto simp: starts)
  next
    case 6
    have "hex_text 0x2001 = js ''2001''" "hex_text 0xdb8 = js ''db8''" by (simp_all add: ipv6_text_eval)
    then show False using two_pieces_text [of a b "[c, d, e, f, g, h]"] assms(2) 6 by (auto simp: ps starts)
  next
    case 7
    have "hex_text 0xffff = js ''ffff''" by (simp add: ipv6_text_eval)
    then show False using mapped_text [of g h] assms(2) 7 by (auto simp: ps starts)
  qed
qed

text \<open>
  Public addresses: IPv4 addresses outside the reserved blocks, and IPv6 addresses whose pieces,
  as the URL parser writes them, are outside the reserved IPv6 blocks.
\<close>

definition public_address :: "url_runtime \<Rightarrow> jstr \<Rightarrow> bool" where
  "public_address rt ip \<longleftrightarrow>
     (\<exists>a b c d. a < 256 \<and> b < 256 \<and> c < 256 \<and> d < 256 \<and> ip = ipv4_text a b c d
        \<and> \<not> list_ex (in_block (ipv4 a b c d)) reserved_blocks)
     \<or> (\<exists>url ps. ur_isIP rt ip = 6 \<and> ur_parse rt (js ''https://['' @ ip @ js '']/'') = Some url
        \<and> ipv6_pieces ps \<and> url_hostname url = js ''['' @ ipv6_text ps @ js '']''
        \<and> \<not> list_ex (in_ipv6_block (ipv6 ps)) reserved_ipv6_blocks)"

lemma public_address_if:
  assumes "dotted_quads rt" and "canonical_ipv6 rt" and "isPublicIpAddress rt ip"
  shows "public_address rt ip"
proof (cases "ur_isIP rt ip = 4")
  case True
  with assms(1) obtain a b c d where q: "a < 256" "b < 256" "c < 256" "d < 256" "ip = ipv4_text a b c d"
    unfolding dotted_quads_def by blast
  then show ?thesis using ipv4_public [OF q(1-4)] True assms(3) by (auto simp: public_address_def)
next
  case False
  with assms(3) obtain url where six: "ur_isIP rt ip = 6" and url: "ur_parse rt (js ''https://['' @ ip @ js '']/'') = Some url"
    and test: "public_ipv6_text (ascii_lower (take (length (url_hostname url) - 2) (drop 1 (url_hostname url))))"
    by (auto simp: isPublicIpAddress_def split: if_splits option.splits)
  from assms(2) six url obtain ps where ps: "ipv6_pieces ps" "url_hostname url = js ''['' @ ipv6_text ps @ js '']''"
    unfolding canonical_ipv6_def by blast
  have "take (length (url_hostname url) - 2) (drop 1 (url_hostname url)) = ipv6_text ps" by (simp add: ps(2) js_def)
  then have "\<not> list_ex (in_ipv6_block (ipv6 ps)) reserved_ipv6_blocks"
    using public_text_blocks [OF ps(1)] test by (simp add: ipv6_text_lower)
  then show ?thesis using six url ps by (auto simp: public_address_def)
qed

lemma endsWith_iff: "js_endsWith s p \<longleftrightarrow> (\<exists>t. s = t @ p)"
proof
  assume "js_endsWith s p"
  then have "s = take (length s - length p) s @ p" by (metis js_endsWith_def append_take_drop_id)
  then show "\<exists>t. s = t @ p" by blast
qed (auto simp: js_endsWith_def)

text \<open>A sample runtime: two URLs, two IPv4 addresses, a public IPv6 address and two that embed an IPv4 address.\<close>

definition sample_url :: "jstr \<Rightarrow> jstr \<Rightarrow> url_parts" where
  "sample_url href hostname = \<lparr>url_protocol = js ''https:'', url_username = [], url_password = [], url_search = [],
     url_hash = [], url_hostname = hostname, url_href = href\<rparr>"

definition sample_url_runtime :: url_runtime where
  "sample_url_runtime = \<lparr>
     ur_parse = (\<lambda>s. if s = js ''https://a.example/'' then Some (sample_url s (js ''a.example''))
                     else if s = js ''https://localhost./'' then Some (sample_url s (js ''localhost.''))
                     else if s = js ''https://[2606:4700::1111]/'' then Some (sample_url s (js ''[2606:4700::1111]''))
                     else if s = js ''https://[64:ff9b::a00:1]/'' then Some (sample_url s (js ''[64:ff9b::a00:1]''))
                     else if s = js ''https://[::7f00:1]/'' then Some (sample_url s (js ''[::7f00:1]''))
                     else None),
     ur_isIP = (\<lambda>s. if s = ipv4_text 8 8 8 8 \<or> s = ipv4_text 10 0 0 1 then 4
                     else if s = js ''2606:4700::1111'' \<or> s = js ''64:ff9b::a00:1'' \<or> s = js ''::7f00:1'' then 6 else 0)\<rparr>"

lemma sample_quads: "dotted_quads sample_url_runtime"
proof -
  have "ur_isIP sample_url_runtime s = 4 \<Longrightarrow> s = ipv4_text 8 8 8 8 \<or> s = ipv4_text 10 0 0 1" for s
    by (simp add: sample_url_runtime_def split: if_splits)
  moreover have "\<exists>a b c d. a < 256 \<and> b < 256 \<and> c < 256 \<and> d < 256 \<and> ipv4_text x y z w = ipv4_text a b c d"
    if "x < 256" "y < 256" "z < 256" "w < 256" for x y z w
    using that by blast
  ultimately show ?thesis unfolding dotted_quads_def by fastforce
qed

lemma sample_canonical: "canonical_ipv6 sample_url_runtime"
  unfolding canonical_ipv6_def
proof (intro allI impI)
  fix s url
  assume "ur_isIP sample_url_runtime s = 6" and url: "ur_parse sample_url_runtime (js ''https://['' @ s @ js '']/'') = Some url"
  then consider "s = js ''2606:4700::1111''" | "s = js ''64:ff9b::a00:1''" | "s = js ''::7f00:1''"
    by (auto simp: sample_url_runtime_def split: if_splits)
  then show "\<exists>ps. ipv6_pieces ps \<and> url_hostname url = js ''['' @ ipv6_text ps @ js '']''"
  proof cases
    case 1
    have "ipv6_text [0x2606, 0x4700, 0, 0, 0, 0, 0, 0x1111] = js ''2606:4700::1111''" by (simp add: ipv6_text_eval)
    then show ?thesis using url 1
      by (intro exI [of _ "[0x2606, 0x4700, 0, 0, 0, 0, 0, 0x1111]"])
        (auto simp: ipv6_pieces_def sample_url_runtime_def sample_url_def js_def)
  next
    case 2
    have "ipv6_text [0x64, 0xff9b, 0, 0, 0, 0, 0xa00, 1] = js ''64:ff9b::a00:1''" by (simp add: ipv6_text_eval)
    then show ?thesis using url 2
      by (intro exI [of _ "[0x64, 0xff9b, 0, 0, 0, 0, 0xa00, 1]"])
        (auto simp: ipv6_pieces_def sample_url_runtime_def sample_url_def js_def)
  next
    case 3
    have "ipv6_text [0, 0, 0, 0, 0, 0, 0x7f00, 1] = js ''::7f00:1''" by (simp add: ipv6_text_eval)
    then show ?thesis using url 3
      by (intro exI [of _ "[0, 0, 0, 0, 0, 0, 0x7f00, 1]"])
        (auto simp: ipv6_pieces_def sample_url_runtime_def sample_url_def js_def)
  qed
qed

theorem ipv4_test_is_block_test_witness:
  "isPublicIpAddress sample_url_runtime (ipv4_text 10 0 0 1) \<longleftrightarrow> \<not> list_ex (in_block (ipv4 10 0 0 1)) reserved_blocks"
  by (rule ipv4_test_is_block_test) (simp_all add: sample_url_runtime_def)

text \<open>
  C15. An accepted target is an HTTPS URL without credentials, query and fragment, reached without a
  redirect. Its host name in lower case is not localhost and ends in none of .localhost, .local and
  .internal; where the host is itself an address, in brackets or not, that address is public, and
  so is every one of the one to sixteen resolved addresses. Public is stated on numbers: an IPv4
  address outside the thirteen reserved IPv4 blocks, or an IPv6 address outside the unspecified,
  loopback, unique local, link local, multicast, documentation and IPv4-mapped blocks.
\<close>

theorem accepted_target_is_public:
  assumes "dotted_quads rt" and "canonical_ipv6 rt" and "validatePublicHttpsTarget rt target ips redirects = Inr href"
  shows "\<exists>url host. ur_parse rt target = Some url \<and> href = url_href url \<and> url_protocol url = js ''https:''
      \<and> url_username url = [] \<and> url_password url = [] \<and> url_search url = [] \<and> url_hash url = []
      \<and> redirects = [] \<and> ips \<noteq> [] \<and> length ips \<le> 16 \<and> list_all (public_address rt) ips
      \<and> host = ascii_lower (url_hostname url) \<and> host \<noteq> js ''localhost''
      \<and> (\<forall>name. host \<noteq> name @ js ''.localhost'' \<and> host \<noteq> name @ js ''.local'' \<and> host \<noteq> name @ js ''.internal'')
      \<and> (\<forall>ip. host = js ''['' @ ip @ js '']'' \<longrightarrow> ur_isIP rt ip \<noteq> 0 \<longrightarrow> public_address rt ip)
      \<and> ((\<forall>rest. host \<noteq> js ''['' @ rest) \<longrightarrow> ur_isIP rt host \<noteq> 0 \<longrightarrow> public_address rt host)"
proof -
  from assms(3) obtain url where url: "ur_parse rt target = Some url" "href = url_href url" "url_protocol url = js ''https:''"
    "url_username url = []" "url_password url = []" "url_search url = []" "url_hash url = []" "redirects = []" "ips \<noteq> []"
    "length ips \<le> 16" and host: "\<not> isForbiddenHostname rt (url_hostname url)" and ips: "list_all (isPublicIpAddress rt) ips"
    by (auto simp: validatePublicHttpsTarget_def Suc_le_eq split: option.splits if_splits)
  let ?h = "ascii_lower (url_hostname url)"
  have public: "list_all (public_address rt) ips" using ips public_address_if [OF assms(1,2)] by (simp add: list_all_iff)
  have names: "?h \<noteq> js ''localhost''" "\<forall>name. ?h \<noteq> name @ js ''.localhost'' \<and> ?h \<noteq> name @ js ''.local'' \<and> ?h \<noteq> name @ js ''.internal''"
    using host by (auto simp: isForbiddenHostname_def Let_def endsWith_iff)
  have bracketed: "public_address rt ip" if "?h = js ''['' @ ip @ js '']''" "ur_isIP rt ip \<noteq> 0" for ip
  proof -
    have "js_startsWith ?h (js ''['')" "js_endsWith ?h (js '']'')" "take (length ?h - 2) (drop 1 ?h) = ip"
      unfolding that(1) by (auto simp: js_startsWith_def endsWith_iff js_def)
    then show ?thesis using host that(2) public_address_if [OF assms(1,2)] by (auto simp: isForbiddenHostname_def Let_def)
  qed
  have plain: "public_address rt ?h" if "\<forall>rest. ?h \<noteq> js ''['' @ rest" "ur_isIP rt ?h \<noteq> 0"
  proof -
    have "\<not> js_startsWith ?h (js ''['')" using that(1) by (metis append_take_drop_id js_startsWith_def)
    then show ?thesis using host that(2) public_address_if [OF assms(1,2)] by (auto simp: isForbiddenHostname_def Let_def)
  qed
  show ?thesis using url public names bracketed plain by blast
qed

lemma sample_target_accepted:
  "validatePublicHttpsTarget sample_url_runtime (js ''https://a.example/'') [ipv4_text 8 8 8 8, js ''2606:4700::1111''] []
     = Inr (js ''https://a.example/'')"
  by code_simp

theorem accepted_target_is_public_witness:
  "dotted_quads sample_url_runtime \<and> canonical_ipv6 sample_url_runtime
    \<and> validatePublicHttpsTarget sample_url_runtime (js ''https://a.example/'') [ipv4_text 8 8 8 8, js ''2606:4700::1111''] []
        = Inr (js ''https://a.example/'')
    \<and> public_address sample_url_runtime (ipv4_text 8 8 8 8) \<and> public_address sample_url_runtime (js ''2606:4700::1111'')"
proof -
  have "list_all (public_address sample_url_runtime) [ipv4_text 8 8 8 8, js ''2606:4700::1111'']"
    using accepted_target_is_public [OF sample_quads sample_canonical sample_target_accepted] by blast
  then show ?thesis using sample_quads sample_canonical sample_target_accepted by simp
qed

text \<open>
  The names are compared as they are written: the absolute form of the name of this host, with a
  point at its end, is accepted.
\<close>

lemma trailing_dot_accepted:
  "validatePublicHttpsTarget sample_url_runtime (js ''https://localhost./'') [ipv4_text 8 8 8 8] [] = Inr (js ''https://localhost./'')"
  by code_simp

text \<open>
  The text test does not look through the embeddings of IPv4 in IPv6 other than \<open>::ffff:\<close>: the NAT64 form of
  the private address 10.0.0.1 and the IPv4-compatible form of the loopback address 127.0.0.1 both pass.
\<close>

lemma embedded_addresses_accepted:
  "validatePublicHttpsTarget sample_url_runtime (js ''https://a.example/'') [js ''64:ff9b::a00:1'', js ''::7f00:1''] []
     = Inr (js ''https://a.example/'')"
  by code_simp

end
