(* ===== verification/Spec2Isabelle.thy ===== *)
theory Spec2Isabelle
  imports Packet_Properties Execution_Properties Operation_Properties Audit_Properties
    Mcp_Schema_Properties Mcp_Negotiation_Properties Universal_Packet Network_Security
begin

text \<open>
  LNSAT: contracts of a control plane for agent actions, the TypeScript packages under \<open>src/packages\<close>.

  \<^bold>\<open>The program.\<close> An actor submits a packet, an unknown JavaScript value. The packet envelope validates
  it, writes its canonical text and hashes it. The policy decides the valid packet: allow, deny or
  approval required. A decision that requires approval becomes an approval request, and a human other
  than the actor decides it. The proposal embedded in the packet, the hash and the ids of this chain
  become an execution request with its digests. The gateway drives the operation that carries it
  out through a durable state machine, which must never execute it twice by accident: after a lost
  connection or a restart only a verified receipt tells what happened. Decisions, requests and human
  decisions are recorded as audit events, which are rebuilt from the packet before they are recorded
  and appended at most once. Beside this chain stand checks at the borders: JSON schemas and values
  that come from MCP tools, the protocol version negotiated with an MCP endpoint, network targets.

  \<^bold>\<open>JavaScript.\<close> Strings are lists of UTF-16 code units and values the datatype \<open>jsval\<close> (\<open>Js_Prelude\<close>,
  with the collections \<open>js_read\<close>, \<open>check_ok\<close> and \<open>js_eval\<close>); numbers are integers, negative zero, NaN and the
  other doubles as far as the packages tell them apart. \<open>Js_Regex\<close> has the regular expressions,
  \<open>Js_Date\<close> and \<open>Js_Iso\<close> the calendar and ISO texts, \<open>Js_Json\<close> printing and parsing of JSON, \<open>Js_Utf8\<close>
  the text encoder. What an engine leaves open is a parameter: the record \<open>js_runtime\<close> holds the
  digest (\<open>None\<close> where Web Crypto is missing), the presence of \<open>TextEncoder\<close> and the reading of decimal
  fractions; \<open>engine\<close> is \<open>Date.parse\<close> on texts that are not in the standard format; \<open>verify\<close> is the
  receipt verifier handed to the gateway; \<open>schema_runtime\<close> holds the JSON schema validator and the clock
  around it, \<open>probe_outcome option\<close> what a probe of an endpoint returned (\<open>None\<close> where it threw), and
  \<open>url_runtime\<close> the URL parser and \<open>isIP\<close>, with two laws where a theorem needs them: \<open>dotted_quads\<close>
  (texts \<open>isIP\<close> calls IPv4 are dotted quads) and \<open>canonical_ipv6\<close> (a host in brackets is the text of an
  address in the standard form, \<open>Ipv6_Text\<close>). SHA-256 enters by the hypothesis \<open>sha256_available\<close> (there
  is an answer of 32 bytes, \<open>sample_runtime\<close> shows it can hold) and binding theorems conclude with an
  explicit \<open>digest_collision\<close> of two named byte strings, never with injectivity of the digest.
  The hypothesis \<open>js_wf\<close> says that a value is a possible JavaScript value: no key twice in an object,
  and numbers in the normal form of their printed text. Canonical texts are unambiguous for all finite
  numbers, fractions included: \<open>Js_Decimal\<close> reads them exactly, as the proof needs, while \<open>JSON.parse\<close>
  leaves the reading of fractions to the engine, and round trips through it are for safe integers.

  \<^bold>\<open>Theories and sources.\<close>
  \<^item> \<open>Canonical\<close>: \<open>packets/src/canonical.ts\<close>, conversion to JSON, canonical text, hash, difference of
    packets; \<open>Contract_Error\<close>: \<open>contract-error-envelope-v1.ts\<close>. Shown: the text is exactly the content
    up to key order, it reads back, failures are exactly the values outside JSON, the difference is
    sound and empty only on equal content. The locale \<open>canonicalizer\<close> states what a canonical text
    promises; it is interpreted on this writer and on the separate one of the approval component.
  \<^item> \<open>Utc_Time\<close>: the timestamp parser of three packages and the calendar arithmetic of
    \<open>execution-request-v1.ts\<close>; they agree up to the epoch and accept exactly the real instants.
  \<^item> \<open>Packet_Envelope\<close>, \<open>Packet_Sample\<close>, \<open>Packet_Properties\<close>: \<open>packet-envelope-v1.ts\<close>. All checks in source
    order; \<open>packet_shape\<close> and \<open>packet_rules\<close> are the abstract contract, which validation decides.
  \<^item> \<open>Policy_Decision\<close>: \<open>policy/src/policy-decision-v1.ts\<close>, refining \<open>policy_outcome\<close> on records.
  \<^item> \<open>Approval_Evidence\<close>, \<open>Approval_Policy\<close>, \<open>Approval_Properties\<close>: \<open>policy/src/approval-evidence-v1.ts\<close>.
    The validators of decisions and requests, creation and human decision; what the policy produces
    is accepted, and what is created can be decided by another human and only by another.
  \<^item> \<open>Execution_Request\<close>, \<open>Execution_Laws\<close>, \<open>Execution_Properties\<close>: \<open>packets/src/execution-request-v1.ts\<close>.
    Proposal, chain checks, request and digests; the digests bind the request, action and target
    digests live in separate domains, and the derivation depends only on the canonical packet.
  \<^item> \<open>Operation_Record\<close>, \<open>Operation_History\<close>: the record of \<open>gateway/src/operation-recovery.ts\<close>, its
    validation and the change each command makes; \<open>op_change\<close>, \<open>op_step\<close> and \<open>op_reachable\<close> are the
    life of one operation, with its invariants by rule induction.
  \<^item> \<open>Operation_Store\<close>, \<open>Operation_Store_Laws\<close>: the two stores. The locale \<open>operation_store\<close> is the
    contract of \<open>GatewayOperationStore\<close>; it is interpreted on the in-memory store and on the JSON file
    store, whose file is a text with an arbitrary sequence of input/output faults. The reader tells apart
    files on which validation throws, files it finds corrupted and files it accepts.
  \<^item> \<open>Operation_Coordinator\<close>, \<open>Operation_System\<close>, \<open>Operation_Sample\<close>, \<open>Operation_Properties\<close>: the class
    \<open>GatewayOperationCoordinator\<close> on any store with the contract (locale \<open>reliable_operation_store\<close> where
    faults are excluded), refinement of every call to an operation on a list of records, and
    arbitrary interleavings of calls, one store call a step, refined by an atomic registry.
  \<^item> \<open>Audit_Event\<close>, \<open>Audit_Laws\<close>, \<open>Audit_Properties\<close>: \<open>audit/src/audit-event-v1.ts\<close>. Events rest on evidence that
    the policy and approval components rebuilt, genuine evidence is always recorded, and idempotent
    appending implements a finite map from keys to event ids up to its bound of 10000 entries.
  \<^item> \<open>Mcp_Schema\<close>, \<open>Mcp_Schema_Properties\<close>: \<open>mcp/src/schema-security.ts\<close>. The stack loop is a depth-first
    traversal, inspection decides an abstract contract with its size bounds, a chain of references that
    returns to its start is refused within its bound, and validation fails closed.
  \<^item> \<open>Mcp_Negotiation\<close>, \<open>Mcp_Negotiation_Properties\<close>: \<open>mcp/src/negotiation.ts\<close>. Calls that share a cache
    interleave at their probe (\<open>negotiation_run\<close>); entries stay with their scope, endpoint and mode, and
    no call ends with a protocol its mode does not accept.
  \<^item> \<open>Universal_Packet\<close>: \<open>packets/src/validator.ts\<close>, which decides its contract: \<open>universal_contract\<close>
    states ranges on real numbers, what violates it is answered with at least one error.
  \<^item> \<open>Network_Security\<close>, \<open>Ipv6_Text\<close>: \<open>gateway/src/network-security.ts\<close>. The octet comparisons are the
    test on 32-bit address blocks; an accepted target has a name without a local suffix or an address
    outside the private, local and reserved blocks, IPv6 included.
  \<^item> This theory: the whole chain from packet to execution request.

  \<^bold>\<open>Termination and fuel.\<close> All functions are total. The JSON parser recurses with fuel \<open>2 * length + 2\<close>:
  a call consumes a character or moves from value to elements, so this never runs out, and the
  round-trip theorems prove that printed texts are parsed. The loops of the schema inspection need no
  fuel: the stack loop ends by its bound on nodes, the reference loop by its depth
  bound. Integers of the source are JavaScript
  numbers and appear as \<open>int\<close> with the checks for safe integers written out; code units and bytes are
  words.

  \<^bold>\<open>Simplifications.\<close> Getters, proxies and sparse arrays are outside \<open>jsval\<close>. Promises of the contract
  functions are sequential; in the gateway every store call is one atomic step and everything between
  may interleave. Records read from a file keep the fields of the record type; extra fields in the file
  are not represented. A \<open>close\<close> of a probe that throws synchronously is left out. The file is replaced as a whole (the source writes a temporary file and renames it).

  \<^bold>\<open>Not modelled.\<close> Signed approval evidence (\<open>policy/src/signed-approval-evidence-v1.ts\<close>) is signature
  verification by Web Crypto with shape checks around it. The other validators of \<open>gateway/src\<close> and
  \<open>mcp/src\<close> are independent of the components above. The planning and readiness contracts of
  \<open>packets/src\<close> and the index files are constant tables with builders that copy them. The ledger writer,
  MCP server, HTTP API, command line, console, migrations and scripts are input/output around these
  components; the Rust crates are a second implementation in another language.
\<close>

section \<open>Properties across components\<close>

text \<open>
  C3. The chain of evidence is complete: take a packet that the policy sent to approval, whose request
  a human approved and which carries a parsable proposal. If the four references of requester, approver
  and their sessions are in the reference grammar of the derivation (which differs from that of the
  envelope in white space, \<open>reference_grammars_differ\<close>), then at every time before the request expires the
  derivation on the ids of this chain yields an execution request; ids, hash and expiry need no further
  condition. The request names the hash and decision id of the policy decision, its requester is the
  actor of the packet, its approver is somebody else, and its action is that of the proposal.
\<close>

theorem approved_packet_becomes_request:
  assumes "decidePacketEnvelopePolicyV1 rt p options = Inr d" and "js_wf p" and "sha256_available rt"
    and "createApprovalRequestV1 rt (policy_decision_object d) opts = Inr r"
    and "decideApprovalRequestV1 rt r human = Inr a" and "fld a ''decision'' = jtext ''approved''"
    and "list_all (\<lambda>ref. isValidReferenceV1 (as_str ref))
      [fld r ''requester_ref'', fld r ''session_ref'', fld a ''approver_ref'', fld a ''approver_session_ref'']"
    and "parseExecutionProposalV1 rt p = Inr x"
    and "parseCanonicalUtcTimestamp prepared_at = Some t"
    and "parseCanonicalUtcTimestamp (as_str (fld r ''expires_at'')) = Some expiry" and "t < expiry"
  shows "\<exists>e. deriveExecutionRequestV1 rt
      \<lparr>xi_packet = p,
       xi_packet_sha256 = as_str (fld (fld r ''policy_decision_ref'') ''packet_hash''),
       xi_policy_decision_id = as_str (fld (fld r ''policy_decision_ref'') ''decision_id''),
       xi_approval_request_id = as_str (fld r ''approval_request_id''),
       xi_approval_decision_id = as_str (fld a ''approval_decision_id''),
       xi_requester_ref = as_str (fld r ''requester_ref''),
       xi_requester_session_ref = as_str (fld r ''session_ref''),
       xi_approver_ref = as_str (fld a ''approver_ref''),
       xi_approver_session_ref = as_str (fld a ''approver_session_ref''),
       xi_prepared_at = prepared_at,
       xi_expires_at = as_str (fld r ''expires_at'')\<rparr> = Inr e
    \<and> fld (fld (xd_request e) ''packet_ref'') ''packet_sha256'' = JStr (pd_packet_hash d)
    \<and> fld (fld (xd_request e) ''policy_decision_ref'') ''decision_id'' = JStr (pd_decision_id d)
    \<and> fld (xd_request e) ''requester_ref'' = JStr (pd_actor_ref d)
    \<and> fld (xd_request e) ''approver_ref'' \<noteq> fld (xd_request e) ''requester_ref''
    \<and> fld (xd_request e) ''action'' = execution_action x"
  unfolding chain_input_def [symmetric]
proof -
  have refs: "chain_references_ok r a" using assms(7) by (simp add: chain_references_ok_def)
  have window: "window_valid prepared_at (as_str (fld r ''expires_at''))" using assms(9-11) by (simp add: window_valid_iff)
  from chain_derives [OF assms(1-5) refs assms(8) window] obtain e where
    e: "deriveExecutionRequestV1 rt (chain_input p r a prepared_at) = Inr e"
    "xd_request e = execution_request (chain_input p r a prepared_at) x" by blast
  then show "\<exists>e. deriveExecutionRequestV1 rt (chain_input p r a prepared_at) = Inr e
    \<and> fld (fld (xd_request e) ''packet_ref'') ''packet_sha256'' = JStr (pd_packet_hash d)
    \<and> fld (fld (xd_request e) ''policy_decision_ref'') ''decision_id'' = JStr (pd_decision_id d)
    \<and> fld (xd_request e) ''requester_ref'' = JStr (pd_actor_ref d)
    \<and> fld (xd_request e) ''approver_ref'' \<noteq> fld (xd_request e) ''requester_ref''
    \<and> fld (xd_request e) ''action'' = execution_action x"
    using chain_parties [OF assms(1,2,4,5)] by (simp add: execution_request_def fld_obj)
qed

theorem approved_packet_becomes_request_witness:
  "\<exists>d r a input e. decidePacketEnvelopePolicyV1 sample_runtime sample_packet sample_options = Inr d
    \<and> createApprovalRequestV1 sample_runtime (policy_decision_object d) sample_request_options = Inr r
    \<and> decideApprovalRequestV1 sample_runtime r sample_human_options = Inr a
    \<and> fld a ''decision'' = jtext ''approved'' \<and> xi_packet input = sample_packet
    \<and> deriveExecutionRequestV1 sample_runtime input = Inr e
    \<and> fld (fld (xd_request e) ''packet_ref'') ''packet_sha256'' = JStr (pd_packet_hash d)
    \<and> fld (xd_request e) ''requester_ref'' = JStr (pd_actor_ref d)
    \<and> fld (xd_request e) ''approver_ref'' \<noteq> fld (xd_request e) ''requester_ref''"
proof -
  obtain d r a where chain: "decidePacketEnvelopePolicyV1 sample_runtime sample_packet sample_options = Inr d"
    "createApprovalRequestV1 sample_runtime (policy_decision_object d) sample_request_options = Inr r"
    "decideApprovalRequestV1 sample_runtime r sample_human_options = Inr a" "chain_references_ok r a"
    by (rule sample_chain)
  obtain x where x: "parseExecutionProposalV1 sample_runtime sample_packet = Inr x" by (rule sample_parses)
  note wf = created_request_hash(2) [OF chain(1) sample_wf chain(2)]
  note approved = sample_approved [OF chain(3) wf]
  from decided_request_facts(4) [OF chain(3) wf sample_runtime_available] obtain t expiry where
    window: "parseCanonicalUtcTimestamp (as_str (fld a ''decided_at'')) = Some t"
    "parseCanonicalUtcTimestamp (as_str (fld r ''expires_at'')) = Some expiry" "t < expiry" by (auto simp: window_valid_iff)
  have refs: "list_all (\<lambda>ref. isValidReferenceV1 (as_str ref))
      [fld r ''requester_ref'', fld r ''session_ref'', fld a ''approver_ref'', fld a ''approver_session_ref'']"
    using chain(4) by (simp add: chain_references_ok_def)
  let ?input = "chain_input sample_packet r a (as_str (fld a ''decided_at''))"
  from approved_packet_becomes_request [OF chain(1) sample_wf sample_runtime_available chain(2,3) approved refs x window,
      folded chain_input_def]
  obtain e where "deriveExecutionRequestV1 sample_runtime ?input = Inr e"
    "fld (fld (xd_request e) ''packet_ref'') ''packet_sha256'' = JStr (pd_packet_hash d)"
    "fld (xd_request e) ''requester_ref'' = JStr (pd_actor_ref d)"
    "fld (xd_request e) ''approver_ref'' \<noteq> fld (xd_request e) ''requester_ref''" by blast
  moreover have "xi_packet ?input = sample_packet" by (simp add: chain_input_def)
  ultimately show ?thesis using chain approved by blast
qed

end
